(* ===== verification/Prelude.thy ===== *)
theory Prelude
  imports Main "HOL-Library.AList" "HOL-Library.Multiset"
begin

text \<open>
  Shared vocabulary of the development: the pieces of the JavaScript standard library that
  the modelled TypeScript uses (stable \<^verbatim>\<open>Array.prototype.sort\<close>, string comparison by code
  unit, \<^verbatim>\<open>join\<close>, \<^verbatim>\<open>trim\<close>, insertion-ordered \<^verbatim>\<open>Map\<close> and \<^verbatim>\<open>Set\<close>, optional strings), the
  comparator contract under which sorting is meaningful, and list facts several components
  share.  A \<^verbatim>\<open>Map\<close> is an association list in insertion order, updated with the library's
  \<open>AList.update\<close>, which overwrites in place and otherwise appends, exactly as
  \<^verbatim>\<open>Map.prototype.set\<close> does.  A \<^verbatim>\<open>Set\<close> whose iteration order matters is a duplicate-free list.
\<close>


subsection \<open>Opaque payloads\<close>

text \<open>Fields the modelled code only stores and copies are kept as JSON values.\<close>

datatype json =
    JNull
  | JBool bool
  | JNum int
  | JStr string
  | JArr "json list"
  | JObj "(string \<times> json) list"

subsection \<open>Comparators and the stable sort\<close>

type_synonym 'a comparator = "'a \<Rightarrow> 'a \<Rightarrow> int"

text \<open>
  \<^verbatim>\<open>Array.prototype.sort\<close> is stable and, for a comparator that is a total preorder, its result
  is determined; insertion from the right computes it.
\<close>

fun js_insert :: "'a comparator \<Rightarrow> 'a \<Rightarrow> 'a list \<Rightarrow> 'a list" where
  "js_insert cmp x [] = [x]"
| "js_insert cmp x (y # ys) =
     (if cmp x y \<le> 0 then x # y # ys else y # js_insert cmp x ys)"

fun js_sort :: "'a comparator \<Rightarrow> 'a list \<Rightarrow> 'a list" where
  "js_sort cmp [] = []"
| "js_sort cmp (x # xs) = js_insert cmp x (js_sort cmp xs)"

lemma mset_js_insert [simp]: "mset (js_insert cmp x ys) = add_mset x (mset ys)"
  by (induction ys) auto

lemma mset_js_sort [simp]: "mset (js_sort cmp xs) = mset xs"
  by (induction xs) auto

lemma set_js_insert [simp]: "set (js_insert cmp x ys) = insert x (set ys)"
  by (induction ys) auto

lemma set_js_sort [simp]: "set (js_sort cmp xs) = set xs"
  by (induction xs) auto

lemma length_js_sort [simp]: "length (js_sort cmp xs) = length xs"
  by (metis mset_js_sort size_mset)

lemma distinct_js_sort [simp]: "distinct (js_sort cmp xs) = distinct xs"
  by (metis mset_js_sort mset_eq_imp_distinct_iff)

lemma distinct_map_js_sort [simp]:
  "distinct (map f (js_sort cmp xs)) = distinct (map f xs)"
  by (metis mset_js_sort mset_eq_imp_distinct_iff mset_map)

lemma js_sort_Nil_iff [simp]: "js_sort cmp xs = [] \<longleftrightarrow> xs = []"
  by (metis length_0_conv length_js_sort)

text \<open>The contract a comparator passed to \<^verbatim>\<open>sort\<close> has to keep.\<close>

locale comparator =
  fixes cmp :: "'a comparator"
  assumes cmp_swap: "cmp x y \<le> 0 \<or> cmp y x \<le> 0"
    and cmp_trans: "cmp x y \<le> 0 \<Longrightarrow> cmp y z \<le> 0 \<Longrightarrow> cmp x z \<le> 0"
begin

lemma sorted_js_insert:
  "sorted_wrt (\<lambda>a b. cmp a b \<le> 0) ys \<Longrightarrow> sorted_wrt (\<lambda>a b. cmp a b \<le> 0) (js_insert cmp x ys)"
proof (induction ys)
  case Nil
  then show ?case by simp
next
  case (Cons y ys)
  then show ?case
    using cmp_swap [of x y] by (auto intro: cmp_trans)
qed

lemma sorted_js_sort: "sorted_wrt (\<lambda>a b. cmp a b \<le> 0) (js_sort cmp xs)"
  by (induction xs) (auto intro: sorted_js_insert)

text \<open>The first element of a sorted array is a minimum.\<close>

lemma hd_js_sort_min: "x \<in> set xs \<Longrightarrow> cmp (hd (js_sort cmp xs)) x \<le> 0"
proof -
  assume x: "x \<in> set xs"
  then have ne: "js_sort cmp xs \<noteq> []" by auto
  from x have "x \<in> set (js_sort cmp xs)" by simp
  with ne sorted_js_sort [of xs] show "cmp (hd (js_sort cmp xs)) x \<le> 0"
    using cmp_swap [of x x] by (cases "js_sort cmp xs") auto
qed

text \<open>
  Stability: for a predicate whose members all compare equal to one another, the elements
  satisfying it keep their relative order.
\<close>

lemma filter_js_insert:
  assumes "\<And>a b. P a \<Longrightarrow> P b \<Longrightarrow> cmp a b \<le> 0"
  shows "filter P (js_insert cmp x ys) = (if P x then x # filter P ys else filter P ys)"
  using assms by (induction ys) auto

lemma js_sort_stable:
  assumes "\<And>a b. P a \<Longrightarrow> P b \<Longrightarrow> cmp a b \<le> 0"
  shows "filter P (js_sort cmp xs) = filter P xs"
  by (induction xs) (auto simp: filter_js_insert [OF assms])

end

text \<open>Numeric comparators \<^verbatim>\<open>(a, b) => f(a) - f(b)\<close>.\<close>

definition by_number :: "('a \<Rightarrow> int) \<Rightarrow> 'a comparator" where
  "by_number f a b = f a - f b"

interpretation by_number: comparator "by_number f" for f
  by unfold_locales (auto simp: by_number_def)

lemma sorted_by_number:
  "sorted (map f (js_sort (by_number f) xs))"
proof -
  have "sorted_wrt (\<lambda>a b. f a \<le> f b) (js_sort (by_number f) xs)"
    using by_number.sorted_js_sort [of f xs] by (simp add: by_number_def)
  then show ?thesis by (simp add: sorted_map)
qed

text \<open>The same comparators where the key is no integer: \<^verbatim>\<open>sort\<close> reads only the sign.\<close>

definition by_key :: "('a \<Rightarrow> 'b::linorder) \<Rightarrow> 'a comparator" where
  "by_key f a b = (if f a < f b then -1 else if f a = f b then 0 else 1)"

lemma by_key_le: "by_key f a b \<le> 0 \<longleftrightarrow> f a \<le> f b"
  by (auto simp: by_key_def)

interpretation by_key: comparator "by_key f" for f
  by unfold_locales (auto simp: by_key_le)

lemma sorted_by_key [simp]: "sorted (map f (js_sort (by_key f) xs))"
  using by_key.sorted_js_sort [of f xs] by (simp add: sorted_map by_key_le)

lemma hd_by_key_min: "x \<in> set xs \<Longrightarrow> f (hd (js_sort (by_key f) xs)) \<le> f x"
  using by_key.hd_js_sort_min [of x xs f] by (simp add: by_key_le)

subsection \<open>Strings\<close>

text \<open>\<^verbatim>\<open><\<close> on strings compares code units lexicographically.\<close>

fun str_less :: "string \<Rightarrow> string \<Rightarrow> bool" where
  "str_less [] [] = False"
| "str_less [] (y # ys) = True"
| "str_less (x # xs) [] = False"
| "str_less (x # xs) (y # ys) =
     ((of_char x :: nat) < of_char y \<or> (x = y \<and> str_less xs ys))"

definition str_cmp :: "string comparator" where
  "str_cmp a b = (if str_less a b then -1 else if a = b then 0 else 1)"

lemma str_less_irrefl [simp]: "\<not> str_less a a"
  by (induction a) auto

lemma str_less_trans: "str_less a b \<Longrightarrow> str_less b c \<Longrightarrow> str_less a c"
proof (induction a b arbitrary: c rule: str_less.induct)
  case (2 y ys)
  then show ?case by (cases c) auto
next
  case (4 x xs y ys)
  then show ?case by (cases c) auto
qed auto

lemma str_less_total: "str_less a b \<or> a = b \<or> str_less b a"
proof (induction a b rule: str_less.induct)
  case (4 x xs y ys)
  then show ?case
    using linorder_less_linear [of "of_char x :: nat" "of_char y"] by auto
qed auto

lemma str_less_asym: "str_less a b \<Longrightarrow> \<not> str_less b a"
  using str_less_trans str_less_irrefl by blast

lemma str_cmp_le: "str_cmp a b \<le> 0 \<longleftrightarrow> str_less a b \<or> a = b"
  by (simp add: str_cmp_def)

interpretation str_cmp: comparator str_cmp
proof
  show "str_cmp x y \<le> 0 \<or> str_cmp y x \<le> 0" for x y
    using str_less_total [of x y] by (auto simp: str_cmp_le)
  show "str_cmp x y \<le> 0 \<Longrightarrow> str_cmp y z \<le> 0 \<Longrightarrow> str_cmp x z \<le> 0" for x y z
    using str_less_trans by (auto simp: str_cmp_le)
qed

fun joinWith :: "string \<Rightarrow> string list \<Rightarrow> string" where
  "joinWith sep [] = []"
| "joinWith sep [x] = x"
| "joinWith sep (x # y # ys) = x @ sep @ joinWith sep (y # ys)"

text \<open>White space as in \<^verbatim>\<open>\s\<close> and \<^verbatim>\<open>trim\<close>, on code units below 256.\<close>

definition isWs :: "char \<Rightarrow> bool" where
  "isWs c \<longleftrightarrow> (of_char c :: nat) \<in> {9, 10, 11, 12, 13, 32, 160}"

definition trim :: "string \<Rightarrow> string" where
  "trim s = rev (dropWhile isWs (rev (dropWhile isWs s)))"

lemma trim_Nil_iff: "trim s = [] \<longleftrightarrow> (\<forall>c \<in> set s. isWs c)"
proof
  assume "trim s = []"
  then have "\<forall>c \<in> set (dropWhile isWs s). isWs c"
    by (simp add: trim_def)
  then show "\<forall>c \<in> set s. isWs c"
    by (metis dropWhile_eq_Nil_conv hd_dropWhile hd_in_set)
next
  assume "\<forall>c \<in> set s. isWs c"
  then show "trim s = []" by (auto simp: trim_def dest: set_dropWhileD)
qed

text \<open>Decimal digits of a natural number, as template literals print it.\<close>

fun showNat :: "nat \<Rightarrow> string" where
  "showNat n = (if n < 10 then [char_of (48 + n)] else showNat (n div 10) @ [char_of (48 + n mod 10)])"

declare showNat.simps [simp del]

definition showInt :: "int \<Rightarrow> string" where
  "showInt i = (if i < 0 then ''-'' @ showNat (nat (- i)) else showNat (nat i))"

lemma showNat_rec: "10 \<le> n \<Longrightarrow> showNat n = showNat (n div 10) @ [char_of (48 + n mod 10)]"
  by (subst showNat.simps) simp

lemma showNat_digit: "n < 10 \<Longrightarrow> showNat n = [char_of (48 + n)]"
  by (subst showNat.simps) simp

definition isDigit :: "char \<Rightarrow> bool" where
  "isDigit c \<longleftrightarrow> (48::nat) \<le> of_char c \<and> (of_char c :: nat) \<le> 57"

definition digitsValue :: "string \<Rightarrow> nat" where
  "digitsValue s = foldl (\<lambda>acc c. acc * 10 + (of_char c - 48)) 0 s"

lemma digit_of_char [simp]: "d < 10 \<Longrightarrow> (of_char (char_of (48 + d :: nat) :: char) :: nat) = 48 + d"
  by (simp add: take_bit_nat_eq_self of_char_of [where 'a = nat] take_bit_eq_mod)

lemma digitsValue_showNat [simp]: "digitsValue (showNat n) = n"
proof (induction n rule: showNat.induct)
  case (1 n)
  show ?case
  proof (cases "n < 10")
    case True
    then show ?thesis by (simp add: showNat_digit digitsValue_def)
  next
    case False
    with 1 have "digitsValue (showNat (n div 10)) = n div 10" by simp
    moreover have "n mod 10 < 10" by simp
    ultimately show ?thesis
      using False digit_of_char [of "n mod 10"]
      by (simp add: showNat_rec digitsValue_def)
  qed
qed

lemma isDigit_showNat: "c \<in> set (showNat n) \<Longrightarrow> isDigit c"
proof (induction n rule: showNat.induct)
  case (1 n)
  show ?case
  proof (cases "n < 10")
    case True
    with 1 show ?thesis by (simp add: showNat_digit isDigit_def)
  next
    case False
    have "isDigit (char_of (48 + n mod 10))"
      using digit_of_char [of "n mod 10"] by (simp add: isDigit_def)
    with 1 False show ?thesis by (auto simp: showNat_rec)
  qed
qed

lemma showNat_not_Nil [simp]: "showNat n \<noteq> []"
  by (subst showNat.simps) simp

text \<open>
  \<^verbatim>\<open>Number(s)\<close> on the strings that can stand between two dots of a version and denote an
  integer: surrounding white space is skipped, the empty string is 0, and a sign may precede
  decimal digits.  The exponent, radix-prefix and \<^verbatim>\<open>Infinity\<close> forms are outside this model and
  read as \<^verbatim>\<open>NaN\<close>, and the integers are exact.
\<close>

definition jsNumber :: "string \<Rightarrow> int option" where
  "jsNumber s =
     (let t = trim s;
          neg = (t \<noteq> [] \<and> hd t = CHR ''-'');
          signed = (t \<noteq> [] \<and> (hd t = CHR ''-'' \<or> hd t = CHR ''+''));
          ds = (if signed then tl t else t)
      in if t = [] then Some 0
         else if ds = [] \<or> (\<exists>c \<in> set ds. \<not> isDigit c) then None
         else Some (if neg then - int (digitsValue ds) else int (digitsValue ds)))"

lemma trim_no_ws: "\<forall>c \<in> set s. \<not> isWs c \<Longrightarrow> trim s = s"
proof -
  assume "\<forall>c \<in> set s. \<not> isWs c"
  then have "dropWhile isWs s = s" and "dropWhile isWs (rev s) = rev s"
    by (auto simp: dropWhile_eq_self_iff hd_rev)
  then show "trim s = s" by (simp add: trim_def)
qed

lemma digit_not_ws: "isDigit c \<Longrightarrow> \<not> isWs c"
  by (auto simp: isDigit_def isWs_def)

lemma jsNumber_showNat [simp]: "jsNumber (showNat n) = Some (int n)"
proof -
  have t: "trim (showNat n) = showNat n"
    by (rule trim_no_ws) (auto dest: isDigit_showNat digit_not_ws)
  have "isDigit (hd (showNat n))" by (rule isDigit_showNat [of _ n]) simp
  then have "hd (showNat n) \<noteq> CHR ''-''" "hd (showNat n) \<noteq> CHR ''+''"
    by (auto simp: isDigit_def)
  moreover have "\<not> (\<exists>c \<in> set (showNat n). \<not> isDigit c)" by (auto dest: isDigit_showNat)
  ultimately show ?thesis by (simp add: jsNumber_def t Let_def)
qed

text \<open>\<^verbatim>\<open>split\<close> at a one-character separator.\<close>

fun splitOn :: "char \<Rightarrow> string \<Rightarrow> string list" where
  "splitOn c [] = [[]]"
| "splitOn c (x # xs) =
     (if x = c then [] # splitOn c xs
      else (case splitOn c xs of y # ys \<Rightarrow> (x # y) # ys | [] \<Rightarrow> [[x]]))"

lemma splitOn_sep: "c \<notin> set x \<Longrightarrow> splitOn c (x @ c # y) = x # splitOn c y"
  by (induction x) auto

lemma splitOn_last: "c \<notin> set x \<Longrightarrow> splitOn c x = [x]"
  by (induction x) auto

text \<open>The word characters of \<^verbatim>\<open>\w\<close>, and ASCII case folding.\<close>

definition isWordChar :: "char \<Rightarrow> bool" where
  "isWordChar c \<longleftrightarrow> isDigit c \<or> c = CHR ''_''
     \<or> ((65::nat) \<le> of_char c \<and> (of_char c :: nat) \<le> 90)
     \<or> ((97::nat) \<le> of_char c \<and> (of_char c :: nat) \<le> 122)"

definition lowerChar :: "char \<Rightarrow> char" where
  "lowerChar c = (if (65::nat) \<le> of_char c \<and> (of_char c :: nat) \<le> 90
     then char_of ((of_char c :: nat) + 32) else c)"

definition lowerStr :: "string \<Rightarrow> string" where
  "lowerStr s = map lowerChar s"

text \<open>An optional string is truthy when it is present and not empty.\<close>

fun truthy :: "string option \<Rightarrow> bool" where
  "truthy None = False"
| "truthy (Some s) = (s \<noteq> [])"

definition startsWith :: "string \<Rightarrow> string \<Rightarrow> bool" where
  "startsWith s p \<longleftrightarrow> take (length p) s = p"

lemma startsWith_iff: "startsWith s p \<longleftrightarrow> (\<exists>t. s = p @ t)"
  by (metis append_eq_conv_conj append_take_drop_id startsWith_def)

subsection \<open>Ordered sets and maps\<close>

definition set_add :: "'a list \<Rightarrow> 'a \<Rightarrow> 'a list" where
  "set_add xs x = (if x \<in> set xs then xs else xs @ [x])"

lemma set_set_add [simp]: "set (set_add xs x) = insert x (set xs)"
  by (auto simp: set_add_def)

lemma distinct_set_add [simp]: "distinct (set_add xs x) = distinct xs"
  by (auto simp: set_add_def)

definition mk_set :: "'a list \<Rightarrow> 'a list" where
  "mk_set xs = foldl set_add [] xs"

lemma foldl_set_add: "set (foldl set_add acc xs) = set acc \<union> set xs
    \<and> (distinct acc \<longrightarrow> distinct (foldl set_add acc xs))"
  by (induction xs arbitrary: acc) auto

lemma set_mk_set [simp]: "set (mk_set xs) = set xs"
  by (simp add: mk_set_def foldl_set_add)

lemma distinct_mk_set [simp]: "distinct (mk_set xs)"
  by (simp add: mk_set_def foldl_set_add)

lemma mk_set_Nil_iff [simp]: "mk_set xs = [] \<longleftrightarrow> xs = []"
  by (metis set_mk_set set_empty)

abbreviation map_get :: "('k \<times> 'v) list \<Rightarrow> 'k \<Rightarrow> 'v option" where
  "map_get \<equiv> map_of"

abbreviation map_set :: "'k \<Rightarrow> 'v \<Rightarrow> ('k \<times> 'v) list \<Rightarrow> ('k \<times> 'v) list" where
  "map_set \<equiv> AList.update"

definition map_getOr :: "('k \<times> 'v) list \<Rightarrow> 'k \<Rightarrow> 'v \<Rightarrow> 'v" where
  "map_getOr m k d = (case map_of m k of Some v \<Rightarrow> v | None \<Rightarrow> d)"

lemma map_getOr_set [simp]:
  "map_getOr (map_set k v m) x d = (if x = k then v else map_getOr m x d)"
  by (simp add: map_getOr_def update_conv')

lemma map_getOr_Nil [simp]: "map_getOr [] k d = d"
  by (simp add: map_getOr_def)

lemma map_getOr_Cons: "map_getOr (p # m) k d = (if k = fst p then snd p else map_getOr m k d)"
  by (simp add: map_getOr_def)

lemma find_Some_mem: "List.find P xs = Some x \<Longrightarrow> x \<in> set xs \<and> P x"
  by (auto simp: find_Some_iff)

lemma find_None_iff_all: "List.find P xs = None \<longleftrightarrow> (\<forall>x \<in> set xs. \<not> P x)"
  by (auto simp: find_None_iff)

text \<open>A map built by setting one key per element: the last element with a key wins.\<close>

lemma map_of_foldl_set:
  "map_of (foldl (\<lambda>m n. map_set (f n) (g n) m) acc xs) k =
     (case List.find (\<lambda>n. f n = k) (rev xs) of Some n \<Rightarrow> Some (g n) | None \<Rightarrow> map_of acc k)"
  by (induction xs rule: rev_induct) (auto simp: update_conv')

lemma map_of_foldl_set_SomeD:
  assumes "map_of (foldl (\<lambda>m n. map_set (f n) (g n) m) [] xs) k = Some v"
  obtains n where "n \<in> set xs" "f n = k" "v = g n"
  using assms by (auto simp: map_of_foldl_set split: option.splits dest!: find_Some_mem)

lemma map_of_foldl_set_None:
  "map_of (foldl (\<lambda>m n. map_set (f n) (g n) m) [] xs) k = None \<longleftrightarrow> k \<notin> f ` set xs"
  by (auto simp: map_of_foldl_set find_None_iff split: option.splits dest!: find_Some_mem)

lemma map_of_foldl_set_distinct:
  assumes "distinct (map f xs)" "n \<in> set xs"
  shows "map_of (foldl (\<lambda>m n. map_set (f n) (g n) m) [] xs) (f n) = Some (g n)"
proof (cases "map_of (foldl (\<lambda>m n. map_set (f n) (g n) m) [] xs) (f n)")
  case None
  with assms show ?thesis by (simp add: map_of_foldl_set_None)
next
  case (Some v)
  then obtain n' where "n' \<in> set xs" "f n' = f n" "v = g n'" by (rule map_of_foldl_set_SomeD)
  moreover have "n' = n"
    using assms \<open>n' \<in> set xs\<close> \<open>f n' = f n\<close> by (auto simp: distinct_map dest: inj_onD)
  ultimately show ?thesis using Some by simp
qed

text \<open>\<^verbatim>\<open>findIndex\<close>, with \<open>None\<close> for -1.\<close>

fun findIndex :: "('a \<Rightarrow> bool) \<Rightarrow> 'a list \<Rightarrow> nat option" where
  "findIndex P [] = None"
| "findIndex P (x # xs) = (if P x then Some 0 else map_option Suc (findIndex P xs))"

lemma findIndex_Some:
  "findIndex P xs = Some i \<Longrightarrow> i < length xs \<and> P (xs ! i) \<and> (\<forall>j < i. \<not> P (xs ! j))"
proof (induction xs arbitrary: i)
  case (Cons x xs)
  show ?case
  proof (cases "P x")
    case True
    with Cons.prems show ?thesis by simp
  next
    case False
    with Cons.prems obtain k where "findIndex P xs = Some k" "i = Suc k" by auto
    with Cons.IH [of k] False show ?thesis
      by (auto simp: nth_Cons split: nat.splits)
  qed
qed simp

lemma findIndex_None: "findIndex P xs = None \<longleftrightarrow> (\<forall>x \<in> set xs. \<not> P x)"
  by (induction xs) auto

lemma findIndex_SomeE:
  assumes "findIndex P xs = Some i"
  obtains ys x zs where "xs = ys @ x # zs" "length ys = i" "P x" "\<And>y. y \<in> set ys \<Longrightarrow> \<not> P y"
proof -
  note i = findIndex_Some [OF assms]
  show ?thesis
  proof (rule that)
    show "xs = take i xs @ xs ! i # drop (Suc i) xs" using i id_take_nth_drop by blast
    show "length (take i xs) = i" "P (xs ! i)" using i by auto
    show "\<not> P y" if "y \<in> set (take i xs)" for y
      using that i by (auto simp: in_set_conv_nth)
  qed
qed

lemma find_append:
  "List.find P (xs @ ys) = (case List.find P xs of Some x \<Rightarrow> Some x | None \<Rightarrow> List.find P ys)"
  by (induction xs) auto

text \<open>A chain of checks that each stop with an error passes when every check passes.\<close>

lemma case_error_None [simp]:
  "(case x of None \<Rightarrow> y | Some e \<Rightarrow> Some (f e)) = None \<longleftrightarrow> x = None \<and> y = None"
  by (cases x) auto

text \<open>The names every object inherits: a lookup by name finds them too.\<close>

definition objectPrototypeKeys :: "string list" where
  "objectPrototypeKeys = [''constructor'', ''toString'', ''toLocaleString'', ''valueOf'', ''hasOwnProperty'',
     ''isPrototypeOf'', ''propertyIsEnumerable'', ''__proto__'', ''__defineGetter__'',
     ''__defineSetter__'', ''__lookupGetter__'', ''__lookupSetter__'']"

end
