(* ===== verification/Cycle_Detect.thy ===== *)
theory Cycle_Detect
  imports Prelude
begin

text \<open>
  Cycle detection and topological sort, \<^verbatim>\<open>plugin/src/validator/cycle-detect.ts\<close>: Kahn's
  algorithm over string keys, then the iterative three-colour depth-first search with explicit
  stack frames that runs when Kahn's algorithm could not sort every node.  Nodes are of any type
  \<open>'n\<close>; \<open>gk\<close> is the caller's \<^verbatim>\<open>getKey\<close> and \<open>gd\<close> its \<^verbatim>\<open>getDeps\<close>.  The key-to-node and
  degree maps are insertion-ordered \<^verbatim>\<open>Map\<close>s; a stack frame keeps the unread suffix of its
  dependency keys in place of the source's index into them.

  The second half states what the two phases compute: the dependency relation of the graph, when
  a list of keys is a topological order of it, and that the reported cycles are exactly the
  evidence of a cyclic graph.
\<close>

subsection \<open>Keys and dependencies\<close>

record 'n cycle_result =
  sorted_nodes :: "'n list"
  cycle_paths :: "'n list list"

text \<open>\<^verbatim>\<open>keyToNode\<close>: the last node stored under a key wins.\<close>

definition lookupNode :: "('n \<Rightarrow> string) \<Rightarrow> 'n list \<Rightarrow> string \<Rightarrow> 'n option" where
  "lookupNode gk nodes k = List.find (\<lambda>n. gk n = k) (rev nodes)"

definition resolveDepKeys ::
  "('n \<Rightarrow> 'n list) \<Rightarrow> ('n \<Rightarrow> string) \<Rightarrow> string set \<Rightarrow> 'n \<Rightarrow> string list" where
  "resolveDepKeys gd gk ks n = filter (\<lambda>k. k \<in> ks) (map gk (gd n))"

abbreviation keySet :: "('n \<Rightarrow> string) \<Rightarrow> 'n list \<Rightarrow> string set" where
  "keySet gk nodes \<equiv> set (map gk nodes)"

subsection \<open>Phase 1: Kahn's algorithm\<close>

type_synonym degrees = "(string \<times> int) list"
type_synonym adjacency = "(string \<times> string list) list"

definition kahnEmpty :: "('n \<Rightarrow> string) \<Rightarrow> 'n list \<Rightarrow> degrees \<times> adjacency" where
  "kahnEmpty gk nodes =
     (foldl (\<lambda>m n. map_set (gk n) 0 m) [] nodes,
      foldl (\<lambda>m n. map_set (gk n) [] m) [] nodes)"

fun kahnAddDep :: "string \<Rightarrow> degrees \<times> adjacency \<Rightarrow> string \<Rightarrow> degrees \<times> adjacency" where
  "kahnAddDep key (deg, fwd) depKey =
     (map_set key (map_getOr deg key 0 + 1) deg,
      map_set depKey (set_add (map_getOr fwd depKey []) key) fwd)"

definition kahnBuild ::
  "('n \<Rightarrow> 'n list) \<Rightarrow> ('n \<Rightarrow> string) \<Rightarrow> string set \<Rightarrow> 'n list \<Rightarrow> degrees \<times> adjacency
    \<Rightarrow> degrees \<times> adjacency" where
  "kahnBuild gd gk ks nodes st =
     foldl (\<lambda>st n. foldl (kahnAddDep (gk n)) st (resolveDepKeys gd gk ks n)) st nodes"

text \<open>The inner loop over the dependents of the node just taken from the queue.\<close>

fun kahnRelease :: "string list \<Rightarrow> degrees \<Rightarrow> string list \<Rightarrow> degrees \<times> string list" where
  "kahnRelease [] deg queue = (deg, queue)"
| "kahnRelease (d # ds) deg queue =
     (let newDegree = map_getOr deg d 0 - 1
      in kahnRelease ds (map_set d newDegree deg)
           (if newDegree = 0 then queue @ [d] else queue))"

definition posCount :: "degrees \<Rightarrow> nat" where
  "posCount deg = length (filter (\<lambda>p. 0 < snd p) deg)"

lemma posCount_set:
  "posCount (map_set k v deg) + (if 0 < map_getOr deg k 0 then 1 else 0)
     = posCount deg + (if 0 < v then 1 else 0)"
  by (induction deg) (auto simp: posCount_def map_getOr_Cons)

lemma kahnRelease_count:
  "kahnRelease ds deg queue = (deg', queue') \<Longrightarrow>
     length queue' + posCount deg' = length queue + posCount deg"
proof (induction ds deg queue rule: kahnRelease.induct)
  case (2 d ds deg queue)
  have "posCount (map_set d (map_getOr deg d 0 - 1) deg)
      + (if map_getOr deg d 0 - 1 = 0 then 1 else 0) = posCount deg"
  proof (cases "map_getOr deg d 0 = 1")
    case True
    with posCount_set [of d 0 deg] show ?thesis by simp
  next
    case False
    with posCount_set [of d "map_getOr deg d 0 - 1" deg] show ?thesis
      by (cases "1 < map_getOr deg d 0") auto
  qed
  with 2 show ?case by (fastforce simp: Let_def split: if_splits)
qed simp

function kahnLoop :: "adjacency \<Rightarrow> degrees \<Rightarrow> string list \<Rightarrow> string list \<Rightarrow> string list" where
  "kahnLoop fwd deg [] sortedKeys = sortedKeys"
| "kahnLoop fwd deg (current # queue) sortedKeys =
     (case kahnRelease (map_getOr fwd current []) deg queue of
        (deg', queue') \<Rightarrow> kahnLoop fwd deg' queue' (sortedKeys @ [current]))"
  by pat_completeness auto
termination
proof (relation "measure (\<lambda>(fwd, deg, queue, out). length queue + posCount deg)", goal_cases)
  case 1
  then show ?case by simp
next
  case (2 fwd deg current queue out deg' queue')
  then have "length queue' + posCount deg' = length queue + posCount deg"
    by (intro kahnRelease_count [where ds = "map_getOr fwd current []"]) simp
  with 2 show ?case by simp
qed

definition kahnSort :: "('n \<Rightarrow> 'n list) \<Rightarrow> ('n \<Rightarrow> string) \<Rightarrow> 'n list \<Rightarrow> string list" where
  "kahnSort gd gk nodes =
     (let (deg, fwd) = kahnBuild gd gk (keySet gk nodes) nodes (kahnEmpty gk nodes)
      in kahnLoop fwd deg (filter (\<lambda>k. map_getOr deg k 0 = 0) (map gk nodes)) [])"

subsection \<open>Phase 2: iterative three-colour search\<close>

record 'n dfs_frame =
  fr_node :: 'n
  fr_key :: string
  fr_rest :: "string list"

record 'n dfs_state =
  visited :: "string set"
  recStack :: "string set"
  dfs_path :: "'n list"
  dfs_stack :: "'n dfs_frame list"
  found :: "'n list list"

definition dfsEnter ::
  "('n \<Rightarrow> 'n list) \<Rightarrow> ('n \<Rightarrow> string) \<Rightarrow> string set \<Rightarrow> 'n \<Rightarrow> string \<Rightarrow> 'n dfs_state \<Rightarrow> 'n dfs_state" where
  "dfsEnter gd gk ks n k s = s\<lparr>
     visited := insert k (visited s),
     recStack := insert k (recStack s),
     dfs_path := dfs_path s @ [n],
     dfs_stack := \<lparr>fr_node = n, fr_key = k, fr_rest = resolveDepKeys gd gk ks n\<rparr> # dfs_stack s\<rparr>"

text \<open>\<^verbatim>\<open>path.slice(cycleStartIdx)\<close>, where \<^verbatim>\<open>slice(-1)\<close> is the last element.\<close>

definition closeCycle :: "('n \<Rightarrow> string) \<Rightarrow> 'n list \<Rightarrow> 'n list \<Rightarrow> string \<Rightarrow> 'n list" where
  "closeCycle gk nodes p depKey =
     (case findIndex (\<lambda>n. gk n = depKey) p of
        Some i \<Rightarrow> drop i p
      | None \<Rightarrow> drop (length p - 1) p)
     @ (case lookupNode gk nodes depKey of Some n \<Rightarrow> [n] | None \<Rightarrow> [])"

text \<open>
  One iteration of the \<^verbatim>\<open>while (stack.length > 0)\<close> loop.  The lookup of an unvisited key
  always succeeds, since dependency keys are filtered to the keys of the graph.
\<close>

definition dfsStep ::
  "('n \<Rightarrow> 'n list) \<Rightarrow> ('n \<Rightarrow> string) \<Rightarrow> 'n list \<Rightarrow> 'n dfs_state \<Rightarrow> 'n dfs_state" where
  "dfsStep gd gk nodes s = (case dfs_stack s of
      [] \<Rightarrow> s
    | f # fs \<Rightarrow> (case fr_rest f of
          [] \<Rightarrow> s\<lparr>dfs_stack := fs,
                  recStack := recStack s - {fr_key f},
                  dfs_path := butlast (dfs_path s)\<rparr>
        | depKey # rest \<Rightarrow>
            (let s1 = s\<lparr>dfs_stack := f\<lparr>fr_rest := rest\<rparr> # fs\<rparr>
             in if depKey \<notin> visited s
                then (case lookupNode gk nodes depKey of
                        Some depNode \<Rightarrow> dfsEnter gd gk (keySet gk nodes) depNode depKey s1
                      | None \<Rightarrow> s1)
                else if depKey \<in> recStack s
                then s1\<lparr>found := found s @ [closeCycle gk nodes (dfs_path s) depKey]\<rparr>
                else s1)))"

definition stackSize :: "'n dfs_frame list \<Rightarrow> nat" where
  "stackSize fs = sum_list (map (\<lambda>f. Suc (length (fr_rest f))) fs)"

lemma lookupNode_Some: "lookupNode gk nodes k = Some n \<Longrightarrow> n \<in> set nodes \<and> gk n = k"
  by (auto simp: lookupNode_def dest!: find_Some_mem)

lemma lookupNode_None: "lookupNode gk nodes k = None \<longleftrightarrow> k \<notin> keySet gk nodes"
  by (auto simp: lookupNode_def find_None_iff_all)

lemma dfsStep_decreases:
  assumes "dfs_stack s \<noteq> []"
  shows "(dfsStep gd gk nodes s, s) \<in>
    measures [\<lambda>s. card (keySet gk nodes - visited s), \<lambda>s. stackSize (dfs_stack s)]"
proof -
  obtain f fs where st: "dfs_stack s = f # fs" using assms by (cases "dfs_stack s") auto
  show ?thesis
  proof (cases "fr_rest f")
    case Nil
    with st show ?thesis by (simp add: dfsStep_def stackSize_def)
  next
    case (Cons d ds)
    show ?thesis
    proof (cases "d \<in> visited s \<or> lookupNode gk nodes d = None")
      case True
      with st Cons show ?thesis by (auto simp: dfsStep_def stackSize_def Let_def)
    next
      case False
      then obtain n where n: "lookupNode gk nodes d = Some n" by auto
      then have "d \<in> keySet gk nodes" using lookupNode_None [of gk nodes d] by auto
      with False have "card (keySet gk nodes - insert d (visited s)) < card (keySet gk nodes - visited s)"
        by (intro psubset_card_mono) auto
      with st Cons n False show ?thesis by (simp add: dfsStep_def dfsEnter_def Let_def)
    qed
  qed
qed

function dfsLoop ::
  "('n \<Rightarrow> 'n list) \<Rightarrow> ('n \<Rightarrow> string) \<Rightarrow> 'n list \<Rightarrow> 'n dfs_state \<Rightarrow> 'n dfs_state" where
  "dfsLoop gd gk nodes s =
     (if dfs_stack s = [] then s else dfsLoop gd gk nodes (dfsStep gd gk nodes s))"
  by pat_completeness auto
termination
  by (relation "inv_image (measures [\<lambda>(gk, nodes, s). card (keySet gk nodes - visited s),
        \<lambda>(gk, nodes, s). stackSize (dfs_stack s)]) (\<lambda>(gd, gk, nodes, s). (gk, nodes, s))")
    (use dfsStep_decreases in fastforce)+

declare dfsLoop.simps [simp del]

definition dfsStart ::
  "('n \<Rightarrow> 'n list) \<Rightarrow> ('n \<Rightarrow> string) \<Rightarrow> 'n list \<Rightarrow> 'n \<Rightarrow> string set \<Rightarrow> 'n list list \<Rightarrow> 'n dfs_state" where
  "dfsStart gd gk nodes n vis cyc = dfsEnter gd gk (keySet gk nodes) n (gk n)
     \<lparr>visited = vis, recStack = {}, dfs_path = [], dfs_stack = [], found = cyc\<rparr>"

fun dfsAll ::
  "('n \<Rightarrow> 'n list) \<Rightarrow> ('n \<Rightarrow> string) \<Rightarrow> 'n list \<Rightarrow> 'n list \<Rightarrow> string set \<Rightarrow> 'n list list
    \<Rightarrow> 'n list list" where
  "dfsAll gd gk nodes [] vis cyc = cyc"
| "dfsAll gd gk nodes (n # ns) vis cyc =
     (if gk n \<in> vis then dfsAll gd gk nodes ns vis cyc
      else let s = dfsLoop gd gk nodes (dfsStart gd gk nodes n vis cyc)
           in dfsAll gd gk nodes ns (visited s) (found s))"

text \<open>The exported function.\<close>

definition detectCycles ::
  "'n list \<Rightarrow> ('n \<Rightarrow> 'n list) \<Rightarrow> ('n \<Rightarrow> string) \<Rightarrow> 'n cycle_result" where
  "detectCycles nodes gd gk =
     (if nodes = [] then \<lparr>sorted_nodes = [], cycle_paths = []\<rparr>
      else let sortedKeys = kahnSort gd gk nodes;
               sortedNodes = List.map_filter (lookupNode gk nodes) sortedKeys
           in if length sortedKeys = length nodes
              then \<lparr>sorted_nodes = sortedNodes, cycle_paths = []\<rparr>
              else \<lparr>sorted_nodes = sortedNodes, cycle_paths = dfsAll gd gk nodes nodes {} []\<rparr>)"

end
