(* ===== verification/Dep_Graph.thy ===== *)
theory Dep_Graph
  imports Prelude
begin

text \<open>
  The abstract side of the work graph: the dependency relation given by a successor list per
  key, topological orders of it, and acyclicity.  Both phases of the cycle detector and the
  edge validator are specified against these notions.
\<close>

definition dep_rel :: "('k \<Rightarrow> 'k list) \<Rightarrow> 'k set \<Rightarrow> ('k \<times> 'k) set" where
  "dep_rel deps K = {(k, d). k \<in> K \<and> d \<in> set (deps k)}"

lemma acyclic_empty [simp]: "acyclic {}"
  by (simp add: acyclic_def)

text \<open>Every element's dependencies stand before it.\<close>

definition topo :: "('k \<Rightarrow> 'k list) \<Rightarrow> 'k list \<Rightarrow> bool" where
  "topo deps xs \<longleftrightarrow> (\<forall>i < length xs. set (deps (xs ! i)) \<subseteq> set (take i xs))"

lemma topo_Nil [simp]: "topo deps []"
  by (simp add: topo_def)

lemma topo_snoc [simp]: "topo deps (xs @ [x]) \<longleftrightarrow> topo deps xs \<and> set (deps x) \<subseteq> set xs"
  by (auto simp: topo_def nth_append less_Suc_eq)

lemma topo_closed: "topo deps xs \<Longrightarrow> x \<in> set xs \<Longrightarrow> set (deps x) \<subseteq> set xs"
  unfolding topo_def by (metis in_set_conv_nth set_take_subset subset_trans)

definition rank :: "'k list \<Rightarrow> 'k \<Rightarrow> nat" where
  "rank xs k = length (takeWhile (\<lambda>y. y \<noteq> k) xs)"

lemma rank_less: "d \<in> set (take i xs) \<Longrightarrow> i \<le> length xs \<Longrightarrow> rank xs d < i"
proof (induction xs arbitrary: i)
  case (Cons x xs)
  then show ?case by (cases i) (auto simp: rank_def)
qed (simp add: rank_def)

lemma rank_nth: "k \<in> set xs \<Longrightarrow> rank xs k < length xs \<and> xs ! rank xs k = k"
  by (induction xs) (auto simp: rank_def)

lemma topo_acyclic:
  assumes "topo deps xs"
  shows "acyclic (dep_rel deps (set xs))"
proof -
  have "dep_rel deps (set xs) \<subseteq> (measure (rank xs))\<inverse>"
  proof
    fix p assume "p \<in> dep_rel deps (set xs)"
    then obtain k d where p: "p = (k, d)" "k \<in> set xs" "d \<in> set (deps k)"
      by (auto simp: dep_rel_def)
    from rank_nth [OF p(2)] assms p(3) have "d \<in> set (take (rank xs k) xs)"
      unfolding topo_def by (metis subsetD)
    with rank_nth [OF p(2)] have "rank xs d < rank xs k" by (simp add: rank_less)
    with p show "p \<in> (measure (rank xs))\<inverse>" by simp
  qed
  moreover have "acyclic ((measure (rank xs))\<inverse>)"
    by (simp add: wf_acyclic)
  ultimately show ?thesis by (rule acyclic_subset [rotated])
qed

text \<open>A finite graph in which every key of a nonempty set depends on another key of it is cyclic.\<close>

lemma no_source_cyclic:
  assumes "finite R" "R \<noteq> {}" "R \<subseteq> K" and "\<And>k. k \<in> R \<Longrightarrow> \<exists>d \<in> R. d \<in> set (deps k)"
  shows "\<not> acyclic (dep_rel deps K)"
proof
  assume "acyclic (dep_rel deps K)"
  then have "acyclic (dep_rel deps R)"
    by (rule acyclic_subset) (use \<open>R \<subseteq> K\<close> in \<open>auto simp: dep_rel_def\<close>)
  moreover have "finite (dep_rel deps R)"
  proof (rule finite_subset)
    show "dep_rel deps R \<subseteq> (SIGMA k:R. set (deps k))" by (auto simp: dep_rel_def)
  qed (use assms(1) in simp)
  ultimately have wf: "wf ((dep_rel deps R)\<inverse>)"
    by (rule finite_acyclic_wf_converse [rotated])
  obtain r where r: "r \<in> R" using assms(2) by auto
  show False
  proof (rule wfE_min [OF wf r])
    fix k assume k: "k \<in> R" and min: "\<And>d. (d, k) \<in> (dep_rel deps R)\<inverse> \<Longrightarrow> d \<notin> R"
    from assms(4) [OF k] obtain d where "d \<in> R" "d \<in> set (deps k)" by (elim bexE)
    with k min [of d] show False by (simp add: dep_rel_def)
  qed
qed

text \<open>A closed path is a cycle of the relation.\<close>

lemma successively_trancl:
  "successively (\<lambda>a b. (a, b) \<in> R) (x # y # ys) \<Longrightarrow> (x, last (y # ys)) \<in> R\<^sup>+"
proof (induction ys arbitrary: x y)
  case (Cons z zs)
  then have "(x, y) \<in> R" "(y, last (z # zs)) \<in> R\<^sup>+" by auto
  then show ?case by (simp add: trancl_into_trancl2)
qed auto

definition closed_path :: "('k \<Rightarrow> 'k list) \<Rightarrow> 'k list \<Rightarrow> bool" where
  "closed_path deps ks \<longleftrightarrow>
     2 \<le> length ks \<and> hd ks = last ks \<and> successively (\<lambda>a b. b \<in> set (deps a)) ks"

lemma closed_path_cyclic:
  assumes "closed_path deps ks" "set ks \<subseteq> K"
  shows "\<not> acyclic (dep_rel deps K)"
proof -
  from assms(1) obtain x y ys where ks: "ks = x # y # ys"
    by (cases ks rule: remdups_adj.cases) (auto simp: closed_path_def)
  have "successively (\<lambda>a b. (a, b) \<in> dep_rel deps K) ks"
    using assms unfolding closed_path_def dep_rel_def
    by (auto intro: successively_mono)
  then have "(x, last (y # ys)) \<in> (dep_rel deps K)\<^sup>+"
    unfolding ks by (rule successively_trancl)
  with assms(1) ks show ?thesis by (auto simp: closed_path_def acyclic_def)
qed

text \<open>Adding edges out of one key to an acyclic relation: any new cycle runs through that key.\<close>

lemma acyclic_add_edges:
  assumes "acyclic R" and "\<not> acyclic (R \<union> {s} \<times> T)"
  shows "\<exists>t \<in> T. (t, s) \<in> R\<^sup>*"
proof (rule ccontr)
  assume no: "\<not> (\<exists>t \<in> T. (t, s) \<in> R\<^sup>*)"
  let ?S = "R \<union> {s} \<times> T"
  from assms(2) obtain a where "(a, a) \<in> ?S\<^sup>+" by (auto simp: acyclic_def)
  have split: "(a, b) \<in> R\<^sup>+ \<or> ((a, s) \<in> R\<^sup>* \<and> (\<exists>t \<in> T. (t, b) \<in> R\<^sup>*))"
    if "(a, b) \<in> ?S\<^sup>+" for a b
    using that
  proof (induction rule: trancl_induct)
    case (base y)
    then show ?case by auto
  next
    case (step y z)
    from step.hyps(2) consider "(y, z) \<in> R" | "y = s" "z \<in> T" by auto
    then show ?case
    proof cases
      case 1
      with step.IH show ?thesis by (meson rtrancl.rtrancl_into_rtrancl trancl.trancl_into_trancl)
    next
      case 2
      with step.IH no show ?thesis by (auto intro: trancl_into_rtrancl)
    qed
  qed
  from split [OF \<open>(a, a) \<in> ?S\<^sup>+\<close>] show False
    using assms(1) no by (auto simp: acyclic_def intro: rtrancl_trans)
qed

end
