(* ===== verification/Cycle_Correct.thy ===== *)
theory Cycle_Correct
  imports Cycle_Detect Dep_Graph
begin

text \<open>
  Correctness of the cycle detector against \<open>Dep_Graph\<close>, for node lists with distinct keys
  (the callers pass such lists): Kahn's phase yields a topological order, and it sorts every node
  of an acyclic graph whose dependency lists have no repetition; the search phase reports closed
  dependency paths, at least one of them whenever the graph is cyclic.
\<close>

subsection \<open>The graph a call is about\<close>

definition nodeDeps ::
  "('n \<Rightarrow> 'n list) \<Rightarrow> ('n \<Rightarrow> string) \<Rightarrow> 'n list \<Rightarrow> string \<Rightarrow> string list" where
  "nodeDeps gd gk nodes k = (case lookupNode gk nodes k of
      Some n \<Rightarrow> resolveDepKeys gd gk (keySet gk nodes) n
    | None \<Rightarrow> [])"

abbreviation depEdges ::
  "('n \<Rightarrow> 'n list) \<Rightarrow> ('n \<Rightarrow> string) \<Rightarrow> 'n list \<Rightarrow> (string \<times> string) set" where
  "depEdges gd gk nodes \<equiv> dep_rel (nodeDeps gd gk nodes) (keySet gk nodes)"

lemma set_resolveDepKeys [simp]:
  "set (resolveDepKeys gd gk ks n) = gk ` set (gd n) \<inter> ks"
  by (auto simp: resolveDepKeys_def)

lemma lookupNode_key:
  assumes "distinct (map gk nodes)" "n \<in> set nodes"
  shows "lookupNode gk nodes (gk n) = Some n"
proof (cases "lookupNode gk nodes (gk n)")
  case None
  with assms(2) show ?thesis by (auto simp: lookupNode_None)
next
  case (Some m)
  then have "m \<in> set nodes" "gk m = gk n" by (auto dest: lookupNode_Some)
  with assms Some show ?thesis by (auto simp: distinct_map dest: inj_onD)
qed

lemma nodeDeps_key:
  "distinct (map gk nodes) \<Longrightarrow> n \<in> set nodes \<Longrightarrow>
     nodeDeps gd gk nodes (gk n) = resolveDepKeys gd gk (keySet gk nodes) n"
  by (simp add: nodeDeps_def lookupNode_key)

lemma nodeDeps_closed: "set (nodeDeps gd gk nodes k) \<subseteq> keySet gk nodes"
  by (auto simp: nodeDeps_def split: option.splits)

subsection \<open>Kahn's phase\<close>

abbreviation degOf :: "degrees \<Rightarrow> string \<Rightarrow> int" where
  "degOf deg k \<equiv> map_getOr deg k 0"

abbreviation fwdOf :: "adjacency \<Rightarrow> string \<Rightarrow> string list" where
  "fwdOf fwd k \<equiv> map_getOr fwd k []"

lemma map_getOr_init:
  "map_getOr m0 k v = v \<Longrightarrow> map_getOr (foldl (\<lambda>m n. map_set (gk n) v m) m0 nodes) k v = v"
  by (induction nodes arbitrary: m0) auto

lemma kahnAddDep_deg:
  "degOf (fst (kahnAddDep key st d)) k = degOf (fst st) k + (if k = key then 1 else 0)"
  by (cases st) simp

lemma kahnAddDep_fwd:
  "set (fwdOf (snd (kahnAddDep key st d)) e) = set (fwdOf (snd st) e) \<union> (if e = d then {key} else {})"
  by (cases st) simp

lemma kahnAddDep_distinct:
  "distinct (fwdOf (snd (kahnAddDep key st d)) e) = distinct (fwdOf (snd st) e)"
  by (cases st) simp

lemma kahnAddDeps_deg:
  "degOf (fst (foldl (kahnAddDep key) st ds)) k
     = degOf (fst st) k + (if k = key then int (length ds) else 0)"
  by (induction ds arbitrary: st) (auto simp: kahnAddDep_deg)

lemma kahnAddDeps_fwd:
  "set (fwdOf (snd (foldl (kahnAddDep key) st ds)) e)
     = set (fwdOf (snd st) e) \<union> (if e \<in> set ds then {key} else {})"
  by (induction ds arbitrary: st) (auto simp: kahnAddDep_fwd)

lemma kahnAddDeps_distinct:
  "distinct (fwdOf (snd (foldl (kahnAddDep key) st ds)) e) = distinct (fwdOf (snd st) e)"
  by (induction ds arbitrary: st) (auto simp: kahnAddDep_distinct)

lemma kahnBuild_Cons:
  "kahnBuild gd gk ks (n # ns) st
     = kahnBuild gd gk ks ns (foldl (kahnAddDep (gk n)) st (resolveDepKeys gd gk ks n))"
  by (simp add: kahnBuild_def)

lemma kahnBuild_Nil [simp]: "kahnBuild gd gk ks [] st = st"
  by (simp add: kahnBuild_def)

lemma kahnBuild_deg_other:
  "k \<notin> keySet gk ns \<Longrightarrow> degOf (fst (kahnBuild gd gk ks ns st)) k = degOf (fst st) k"
  by (induction ns arbitrary: st) (auto simp: kahnBuild_Cons kahnAddDeps_deg)

lemma kahnBuild_deg:
  "distinct (map gk ns) \<Longrightarrow> n \<in> set ns \<Longrightarrow> degOf (fst (kahnBuild gd gk ks ns st)) (gk n)
     = degOf (fst st) (gk n) + int (length (resolveDepKeys gd gk ks n))"
proof (induction ns arbitrary: st)
  case (Cons m ns)
  show ?case
  proof (cases "gk n = gk m")
    case True
    with Cons.prems have "gk n \<notin> keySet gk ns" by simp
    moreover from this Cons.prems have "n = m" by auto
    ultimately show ?thesis by (simp add: kahnBuild_Cons kahnBuild_deg_other kahnAddDeps_deg)
  next
    case False
    then have "n \<noteq> m" by auto
    with Cons.prems have "n \<in> set ns" "distinct (map gk ns)" by auto
    with False show ?thesis by (simp add: Cons.IH kahnBuild_Cons kahnAddDeps_deg)
  qed
qed simp

lemma kahnBuild_fwd:
  "set (fwdOf (snd (kahnBuild gd gk ks ns st)) e)
     = set (fwdOf (snd st) e) \<union> {gk n | n. n \<in> set ns \<and> e \<in> set (resolveDepKeys gd gk ks n)}"
  by (induction ns arbitrary: st) (auto simp: kahnBuild_Cons kahnAddDeps_fwd)

lemma kahnBuild_distinct:
  "distinct (fwdOf (snd (kahnBuild gd gk ks ns st)) e) = distinct (fwdOf (snd st) e)"
  by (induction ns arbitrary: st) (auto simp: kahnBuild_Cons kahnAddDeps_distinct)

text \<open>The maps the loop starts from.\<close>

definition kahn_maps :: "(string \<Rightarrow> string list) \<Rightarrow> string set \<Rightarrow> degrees \<Rightarrow> adjacency \<Rightarrow> bool" where
  "kahn_maps deps K deg fwd \<longleftrightarrow>
     (\<forall>k \<in> K. degOf deg k = int (length (deps k))) \<and>
     (\<forall>d. distinct (fwdOf fwd d) \<and> set (fwdOf fwd d) = {k \<in> K. d \<in> set (deps k)})"

lemma kahnBuild_maps:
  assumes "distinct (map gk nodes)"
    and "kahnBuild gd gk (keySet gk nodes) nodes (kahnEmpty gk nodes) = (deg, fwd)"
  shows "kahn_maps (nodeDeps gd gk nodes) (keySet gk nodes) deg fwd"
proof -
  let ?b = "kahnBuild gd gk (keySet gk nodes) nodes (kahnEmpty gk nodes)"
  have e0: "degOf (fst (kahnEmpty gk nodes)) k = 0" for k
    by (simp add: kahnEmpty_def map_getOr_init)
  have e1: "fwdOf (snd (kahnEmpty gk nodes)) k = []" for k
    by (simp add: kahnEmpty_def map_getOr_init)
  have "degOf (fst ?b) k = int (length (nodeDeps gd gk nodes k))" if "k \<in> keySet gk nodes" for k
    using that assms(1) by (auto simp: kahnBuild_deg nodeDeps_key e0)
  moreover have "distinct (fwdOf (snd ?b) d)" for d
    by (simp add: kahnBuild_distinct e1)
  moreover have "set (fwdOf (snd ?b) d) = {k \<in> keySet gk nodes. d \<in> set (nodeDeps gd gk nodes k)}" for d
    using assms(1) by (auto simp: kahnBuild_fwd e1 nodeDeps_key simp del: set_resolveDepKeys)
  ultimately show ?thesis using assms(2) by (simp add: kahn_maps_def)
qed

lemma kahnRelease_spec:
  "kahnRelease ds deg queue = (deg', queue') \<Longrightarrow> distinct ds \<Longrightarrow>
     (\<forall>k. degOf deg' k = degOf deg k - (if k \<in> set ds then 1 else 0)) \<and>
     queue' = queue @ filter (\<lambda>k. degOf deg k = 1) ds"
proof (induction ds deg queue rule: kahnRelease.induct)
  case (2 d ds deg queue)
  let ?q = "if degOf deg d - 1 = 0 then queue @ [d] else queue"
  let ?deg = "map_set d (degOf deg d - 1) deg"
  from 2 have "(\<forall>k. degOf deg' k = degOf ?deg k - (if k \<in> set ds then 1 else 0)) \<and>
      queue' = ?q @ filter (\<lambda>k. degOf ?deg k = 1) ds"
    by (simp add: Let_def)
  moreover have "filter (\<lambda>k. degOf ?deg k = 1) ds = filter (\<lambda>k. degOf deg k = 1) ds"
    using \<open>distinct (d # ds)\<close> by (auto intro!: filter_cong)
  ultimately show ?case
    using \<open>distinct (d # ds)\<close> by auto
qed simp

text \<open>
  The loop invariant: the degree of a key counts its dependencies not yet output, a key is queued
  or output exactly when that count is zero, and the output is a topological order.
\<close>

definition kahn_inv ::
  "(string \<Rightarrow> string list) \<Rightarrow> string set \<Rightarrow> degrees \<Rightarrow> string list \<Rightarrow> string list \<Rightarrow> bool" where
  "kahn_inv deps K deg queue out \<longleftrightarrow>
     distinct (out @ queue) \<and> set (out @ queue) \<subseteq> K \<and>
     (\<forall>k \<in> K. degOf deg k = int (length (deps k)) - int (card (set (deps k) \<inter> set out))) \<and>
     (\<forall>k \<in> K. k \<in> set (out @ queue) \<longleftrightarrow> degOf deg k = 0) \<and>
     topo deps out \<and> (\<forall>k \<in> set queue. set (deps k) \<subseteq> set out)"

lemma zero_degree_closed:
  "int (length ds) - int (card (set ds \<inter> D)) = 0 \<Longrightarrow> set ds \<subseteq> D"
proof -
  assume "int (length ds) - int (card (set ds \<inter> D)) = 0"
  then have "card (set ds) \<le> card (set ds \<inter> D)" using card_length [of ds] by linarith
  then show ?thesis by (metis Int_lower1 List.finite_set card_seteq inf.absorb_iff1)
qed

lemma card_Int_insert:
  "c \<notin> out \<Longrightarrow> card (set ds \<inter> insert c out) = card (set ds \<inter> out) + (if c \<in> set ds then 1 else 0)"
  by simp

lemma kahn_inv_step:
  assumes maps: "kahn_maps deps K deg0 fwd"
    and inv: "kahn_inv deps K deg (c # queue) out"
    and rel: "kahnRelease (fwdOf fwd c) deg queue = (deg', queue')"
  shows "kahn_inv deps K deg' queue' (out @ [c])"
proof -
  define new where "new = filter (\<lambda>k. degOf deg k = 1) (fwdOf fwd c)"
  have fwd: "distinct (fwdOf fwd c)" "set (fwdOf fwd c) = {k \<in> K. c \<in> set (deps k)}"
    using maps by (auto simp: kahn_maps_def)
  have deg': "degOf deg' k = degOf deg k - (if k \<in> K \<and> c \<in> set (deps k) then 1 else 0)" for k
    using kahnRelease_spec [OF rel fwd(1)] by (auto simp: fwd(2))
  have queue': "queue' = queue @ new"
    using kahnRelease_spec [OF rel fwd(1)] by (simp add: new_def)
  have c: "c \<in> K" "c \<notin> set out" "set (deps c) \<subseteq> set out"
    and topo: "topo deps out" and dist: "distinct (out @ c # queue)"
    and sub: "set out \<union> set queue \<subseteq> K"
    and degs: "\<And>k. k \<in> K \<Longrightarrow>
        degOf deg k = int (length (deps k)) - int (card (set (deps k) \<inter> set out))"
    and zero: "\<And>k. k \<in> K \<Longrightarrow> k \<in> set (out @ c # queue) \<longleftrightarrow> degOf deg k = 0"
    and queued: "\<And>k. k \<in> set queue \<Longrightarrow> set (deps k) \<subseteq> set out"
    using inv by (auto simp: kahn_inv_def)
  have degs': "degOf deg' k = int (length (deps k)) - int (card (set (deps k) \<inter> set (out @ [c])))"
    if "k \<in> K" for k
    using degs [OF that] card_Int_insert [OF c(2), of "deps k"] that by (auto simp: deg')
  have done_nodep: "c \<notin> set (deps k)" if "k \<in> set (out @ c # queue)" for k
    using that c topo queued topo_closed [OF topo] by auto
  have new: "set new = {k \<in> K. c \<in> set (deps k) \<and> degOf deg k = 1}"
    by (auto simp: new_def fwd(2))
  have fresh: "set new \<inter> set (out @ c # queue) = {}"
    using done_nodep by (auto simp: new)
  have "distinct ((out @ [c]) @ queue')"
    using dist fresh fwd(1) by (auto simp: queue') (auto simp: new_def)
  moreover have "set ((out @ [c]) @ queue') \<subseteq> K"
    using c(1) sub by (auto simp: queue' new)
  moreover have "k \<in> set ((out @ [c]) @ queue') \<longleftrightarrow> degOf deg' k = 0" if k: "k \<in> K" for k
    using zero [OF k] done_nodep [of k] k by (auto simp: queue' new deg')
  moreover have "set (deps k) \<subseteq> set (out @ [c])" if k: "k \<in> set queue'" for k
  proof -
    have "k \<in> K" "degOf deg' k = 0"
      using k sub zero [of k] done_nodep [of k] by (auto simp: queue' new deg')
    then show ?thesis using degs' zero_degree_closed by metis
  qed
  ultimately show ?thesis using degs' topo c(3) by (simp add: kahn_inv_def)
qed

lemma kahnLoop_inv:
  "kahn_maps deps K deg0 fwd \<Longrightarrow> kahn_inv deps K deg queue out \<Longrightarrow>
     \<exists>deg'. kahn_inv deps K deg' [] (kahnLoop fwd deg queue out)"
proof (induction fwd deg queue out rule: kahnLoop.induct)
  case (2 fwd deg c queue out)
  obtain deg' queue' where rel: "kahnRelease (fwdOf fwd c) deg queue = (deg', queue')"
    by (cases "kahnRelease (fwdOf fwd c) deg queue")
  from kahn_inv_step [OF 2(2) 2(3) rel] 2(1) [OF rel [symmetric]] 2(2) rel
  show ?case by simp
qed auto

lemma kahn_inv_start:
  assumes "kahn_maps deps (keySet gk nodes) deg fwd" "distinct (map gk nodes)"
  shows "kahn_inv deps (keySet gk nodes) deg (filter (\<lambda>k. degOf deg k = 0) (map gk nodes)) []"
  using assms by (auto simp: kahn_inv_def kahn_maps_def)

text \<open>What Kahn's phase delivers: a topologically ordered list of keys of the graph.\<close>

lemma kahnSort_topo:
  assumes "distinct (map gk nodes)"
  shows "topo (nodeDeps gd gk nodes) (kahnSort gd gk nodes)"
    and "distinct (kahnSort gd gk nodes)"
    and "set (kahnSort gd gk nodes) \<subseteq> keySet gk nodes"
    and "\<And>k. k \<in> keySet gk nodes \<Longrightarrow> k \<notin> set (kahnSort gd gk nodes) \<Longrightarrow>
      card (set (nodeDeps gd gk nodes k) \<inter> set (kahnSort gd gk nodes))
        < length (nodeDeps gd gk nodes k)"
proof -
  obtain deg fwd where b:
    "kahnBuild gd gk (keySet gk nodes) nodes (kahnEmpty gk nodes) = (deg, fwd)"
    by (cases "kahnBuild gd gk (keySet gk nodes) nodes (kahnEmpty gk nodes)")
  note maps = kahnBuild_maps [OF assms b]
  obtain deg' where inv:
    "kahn_inv (nodeDeps gd gk nodes) (keySet gk nodes) deg' [] (kahnSort gd gk nodes)"
    using kahnLoop_inv [OF maps kahn_inv_start [OF maps assms]] b by (auto simp: kahnSort_def)
  then show "topo (nodeDeps gd gk nodes) (kahnSort gd gk nodes)"
    and "distinct (kahnSort gd gk nodes)"
    and "set (kahnSort gd gk nodes) \<subseteq> keySet gk nodes"
    by (auto simp: kahn_inv_def)
  fix k assume k: "k \<in> keySet gk nodes" "k \<notin> set (kahnSort gd gk nodes)"
  have "card (set (nodeDeps gd gk nodes k) \<inter> set (kahnSort gd gk nodes)) \<le> length (nodeDeps gd gk nodes k)"
    by (meson Int_lower1 List.finite_set card_length card_mono le_trans)
  with inv k show "card (set (nodeDeps gd gk nodes k) \<inter> set (kahnSort gd gk nodes))
      < length (nodeDeps gd gk nodes k)"
    by (fastforce simp: kahn_inv_def)
qed

lemma kahnSort_full_acyclic:
  assumes "distinct (map gk nodes)" "length (kahnSort gd gk nodes) = length nodes"
  shows "acyclic (depEdges gd gk nodes)"
proof -
  note k = kahnSort_topo [OF assms(1), where gd = gd]
  have "card (set (kahnSort gd gk nodes)) = card (keySet gk nodes)"
    using assms distinct_card [OF k(2)] distinct_card [OF assms(1)] by simp
  then have "set (kahnSort gd gk nodes) = keySet gk nodes"
    using k(3) by (simp add: card_subset_eq)
  with topo_acyclic [OF k(1)] show ?thesis by simp
qed

lemma kahnSort_acyclic_full:
  assumes "distinct (map gk nodes)" and "acyclic (depEdges gd gk nodes)"
    and "\<And>n. n \<in> set nodes \<Longrightarrow> distinct (map gk (gd n))"
  shows "set (kahnSort gd gk nodes) = keySet gk nodes"
proof (rule ccontr)
  let ?s = "set (kahnSort gd gk nodes)" and ?deps = "nodeDeps gd gk nodes"
  assume "?s \<noteq> keySet gk nodes"
  with kahnSort_topo(3) [OF assms(1), where gd = gd] have ne: "keySet gk nodes - ?s \<noteq> {}" by blast
  have "\<exists>d \<in> keySet gk nodes - ?s. d \<in> set (?deps k)" if k: "k \<in> keySet gk nodes - ?s" for k
  proof -
    from k obtain n where n: "n \<in> set nodes" "k = gk n" by auto
    then have "distinct (?deps k)"
      using assms(1,3) by (auto simp: nodeDeps_key resolveDepKeys_def)
    with k kahnSort_topo(4) [OF assms(1), where k = k and gd = gd] have "card (set (?deps k) \<inter> ?s) < card (set (?deps k))"
      by (simp add: distinct_card)
    then have "\<not> set (?deps k) \<subseteq> ?s" by (auto simp: Int_absorb2)
    with nodeDeps_closed [of gd gk nodes k] show ?thesis by blast
  qed
  then have "\<not> acyclic (depEdges gd gk nodes)"
    by (intro no_source_cyclic [where R = "keySet gk nodes - ?s"]) (use ne in auto)
  with assms(2) show False by contradiction
qed

end
