(* ===== verification/Cycle_Search.thy ===== *)
theory Cycle_Search
  imports Cycle_Correct
begin

text \<open>
  The depth-first phase.  Its stack is a dependency chain, so what it reports are closed paths;
  while it has reported nothing, the finished keys (visited, no longer on the stack) form a
  topological order, so a search that ends with nothing reported has ordered every key.
\<close>

subsection \<open>The stack is a chain\<close>

fun chain_ok :: "(string \<Rightarrow> string list) \<Rightarrow> string option \<Rightarrow> 'n dfs_frame list \<Rightarrow> bool" where
  "chain_ok deps c [] = True"
| "chain_ok deps c (f # fs) =
     (set (fr_rest f) \<subseteq> set (deps (fr_key f)) \<and>
      (\<forall>d. c = Some d \<longrightarrow> d \<in> set (deps (fr_key f))) \<and>
      chain_ok deps (Some (fr_key f)) fs)"

text \<open>Every dependency already read is finished, or is the child one frame up.\<close>

fun read_ok ::
  "(string \<Rightarrow> string list) \<Rightarrow> string set \<Rightarrow> string option \<Rightarrow> 'n dfs_frame list \<Rightarrow> bool" where
  "read_ok deps F c [] = True"
| "read_ok deps F c (f # fs) =
     ((\<forall>d \<in> set (deps (fr_key f)). d \<in> set (fr_rest f) \<or> d \<in> F \<or> c = Some d) \<and>
      read_ok deps F (Some (fr_key f)) fs)"

lemma chain_ok_None: "chain_ok deps c fs \<Longrightarrow> chain_ok deps None fs"
  by (cases fs) auto

lemma read_ok_mono: "read_ok deps F c fs \<Longrightarrow> F \<subseteq> G \<Longrightarrow> read_ok deps G c fs"
  by (induction fs arbitrary: c) auto

lemma read_ok_pop: "read_ok deps F (Some k) fs \<Longrightarrow> read_ok deps (insert k F) None fs"
  by (cases fs) (auto intro: read_ok_mono)

lemma chain_ok_successively:
  "chain_ok deps c fs \<Longrightarrow> successively (\<lambda>a b. a \<in> set (deps b)) (map fr_key fs)"
proof (induction fs arbitrary: c)
  case (Cons f fs)
  then have "successively (\<lambda>a b. a \<in> set (deps b)) (map fr_key fs)" by auto
  with Cons.prems show ?case by (cases fs) auto
qed simp

definition dfs_ok :: "('n \<Rightarrow> 'n list) \<Rightarrow> ('n \<Rightarrow> string) \<Rightarrow> 'n list \<Rightarrow> 'n dfs_state \<Rightarrow> bool" where
  "dfs_ok gd gk nodes s \<longleftrightarrow>
     chain_ok (nodeDeps gd gk nodes) None (dfs_stack s) \<and>
     distinct (map fr_key (dfs_stack s)) \<and>
     recStack s = fr_key ` set (dfs_stack s) \<and>
     recStack s \<subseteq> visited s \<and> visited s \<subseteq> keySet gk nodes \<and>
     set (dfs_path s) \<subseteq> set nodes \<and>
     map gk (dfs_path s) = rev (map fr_key (dfs_stack s))"

definition finished :: "'n dfs_state \<Rightarrow> string set" where
  "finished s = visited s - fr_key ` set (dfs_stack s)"

definition done_ok ::
  "('n \<Rightarrow> 'n list) \<Rightarrow> ('n \<Rightarrow> string) \<Rightarrow> 'n list \<Rightarrow> 'n dfs_state \<Rightarrow> bool" where
  "done_ok gd gk nodes s \<longleftrightarrow>
     (\<exists>fin. set fin = finished s \<and> topo (nodeDeps gd gk nodes) fin) \<and>
     read_ok (nodeDeps gd gk nodes) (finished s) None (dfs_stack s)"

subsection \<open>The four kinds of step\<close>

lemma dfsStep_pop:
  "dfs_stack s = f # fs \<Longrightarrow> fr_rest f = [] \<Longrightarrow>
     dfsStep gd gk nodes s = s\<lparr>dfs_stack := fs, recStack := recStack s - {fr_key f},
       dfs_path := butlast (dfs_path s)\<rparr>"
  by (simp add: dfsStep_def)

lemma dfsStep_push:
  "dfs_stack s = f # fs \<Longrightarrow> fr_rest f = d # ds \<Longrightarrow> d \<notin> visited s \<Longrightarrow>
   lookupNode gk nodes d = Some n \<Longrightarrow>
     dfsStep gd gk nodes s = s\<lparr>
       visited := insert d (visited s),
       recStack := insert d (recStack s),
       dfs_path := dfs_path s @ [n],
       dfs_stack := \<lparr>fr_node = n, fr_key = d, fr_rest = nodeDeps gd gk nodes d\<rparr>
         # f\<lparr>fr_rest := ds\<rparr> # fs\<rparr>"
  by (simp add: dfsStep_def dfsEnter_def nodeDeps_def)

lemma dfsStep_gray:
  "dfs_stack s = f # fs \<Longrightarrow> fr_rest f = d # ds \<Longrightarrow> d \<in> visited s \<Longrightarrow> d \<in> recStack s \<Longrightarrow>
     dfsStep gd gk nodes s = s\<lparr>dfs_stack := f\<lparr>fr_rest := ds\<rparr> # fs,
       found := found s @ [closeCycle gk nodes (dfs_path s) d]\<rparr>"
  by (simp add: dfsStep_def)

lemma dfsStep_cross:
  "dfs_stack s = f # fs \<Longrightarrow> fr_rest f = d # ds \<Longrightarrow> d \<in> visited s \<Longrightarrow> d \<notin> recStack s \<Longrightarrow>
     dfsStep gd gk nodes s = s\<lparr>dfs_stack := f\<lparr>fr_rest := ds\<rparr> # fs\<rparr>"
  by (simp add: dfsStep_def)

text \<open>Case analysis on a step from a well-formed state with a nonempty stack.\<close>

lemma dfs_step_cases [consumes 2, case_names pop push gray cross]:
  assumes "dfs_ok gd gk nodes s" "dfs_stack s \<noteq> []"
    and "\<And>f fs. dfs_stack s = f # fs \<Longrightarrow> fr_rest f = [] \<Longrightarrow> P"
    and "\<And>f fs d ds n. dfs_stack s = f # fs \<Longrightarrow> fr_rest f = d # ds \<Longrightarrow> d \<notin> visited s \<Longrightarrow>
          lookupNode gk nodes d = Some n \<Longrightarrow> P"
    and "\<And>f fs d ds. dfs_stack s = f # fs \<Longrightarrow> fr_rest f = d # ds \<Longrightarrow> d \<in> visited s \<Longrightarrow>
          d \<in> recStack s \<Longrightarrow> P"
    and "\<And>f fs d ds. dfs_stack s = f # fs \<Longrightarrow> fr_rest f = d # ds \<Longrightarrow> d \<in> visited s \<Longrightarrow>
          d \<notin> recStack s \<Longrightarrow> P"
  shows P
proof -
  obtain f fs where st: "dfs_stack s = f # fs" using assms(2) by (cases "dfs_stack s") auto
  show P
  proof (cases "fr_rest f")
    case Nil
    with st assms(3) show P by blast
  next
    case (Cons d ds)
    have "d \<in> keySet gk nodes"
      using assms(1) st Cons nodeDeps_closed [of gd gk nodes "fr_key f"] by (auto simp: dfs_ok_def)
    then obtain n where "lookupNode gk nodes d = Some n"
      using lookupNode_None [of gk nodes d] by auto
    with st Cons assms(4-6) show P by blast
  qed
qed

lemma dfsStep_ok:
  assumes ok: "dfs_ok gd gk nodes s" and ne: "dfs_stack s \<noteq> []"
  shows "dfs_ok gd gk nodes (dfsStep gd gk nodes s)"
  using ok ne
proof (cases rule: dfs_step_cases)
  case (pop f fs)
  from ok pop have path: "map gk (dfs_path s) = rev (map fr_key fs) @ [fr_key f]"
    by (simp add: dfs_ok_def)
  have "map gk (butlast (dfs_path s)) = rev (map fr_key fs)"
    by (simp add: map_butlast path)
  moreover have "set (butlast (dfs_path s)) \<subseteq> set nodes"
    using ok by (auto simp: dfs_ok_def dest: in_set_butlastD)
  ultimately show ?thesis
    using ok pop by (auto simp: dfs_ok_def dfsStep_pop dest: chain_ok_None)
next
  case (push f fs d ds n)
  from push(4) have "n \<in> set nodes" "gk n = d" by (auto dest: lookupNode_Some)
  with ok push show ?thesis by (auto simp: dfs_ok_def dfsStep_push)
next
  case (gray f fs d ds)
  with ok show ?thesis by (auto simp: dfs_ok_def dfsStep_gray)
next
  case (cross f fs d ds)
  with ok show ?thesis by (auto simp: dfs_ok_def dfsStep_cross)
qed

subsection \<open>Reported paths are cycles\<close>

definition graph_cycle :: "('n \<Rightarrow> 'n list) \<Rightarrow> ('n \<Rightarrow> string) \<Rightarrow> 'n list \<Rightarrow> 'n list \<Rightarrow> bool" where
  "graph_cycle gd gk nodes p \<longleftrightarrow>
     set p \<subseteq> set nodes \<and> closed_path (nodeDeps gd gk nodes) (map gk p)"

lemma successively_drop: "successively P xs \<Longrightarrow> successively P (drop i xs)"
  by (metis append_take_drop_id successively_append_iff)

lemma closeCycle_cycle:
  assumes ok: "dfs_ok gd gk nodes s" and st: "dfs_stack s = f # fs" "fr_rest f = d # ds"
    and d: "d \<in> recStack s"
  shows "graph_cycle gd gk nodes (closeCycle gk nodes (dfs_path s) d)"
proof -
  let ?p = "dfs_path s" and ?deps = "nodeDeps gd gk nodes"
  have keys: "map gk ?p = rev (map fr_key (dfs_stack s))"
    and chain: "chain_ok ?deps None (dfs_stack s)" and sub: "set ?p \<subseteq> set nodes"
    using ok by (auto simp: dfs_ok_def)
  have "d \<in> set (map gk ?p)" using ok d unfolding keys by (auto simp: dfs_ok_def)
  then obtain i where i: "findIndex (\<lambda>n. gk n = d) ?p = Some i"
    by (cases "findIndex (\<lambda>n. gk n = d) ?p") (auto simp: findIndex_None)
  then have i': "i < length ?p" "gk (?p ! i) = d" by (auto dest: findIndex_Some)
  have "d \<in> keySet gk nodes" using ok d by (auto simp: dfs_ok_def)
  then obtain n where n: "lookupNode gk nodes d = Some n"
    using lookupNode_None [of gk nodes d] by auto
  then have n': "n \<in> set nodes" "gk n = d" by (auto dest: lookupNode_Some)
  have close: "closeCycle gk nodes ?p d = drop i ?p @ [n]"
    by (simp add: closeCycle_def i n)
  have "successively (\<lambda>a b. b \<in> set (?deps a)) (map gk ?p)"
    unfolding keys using chain_ok_successively [OF chain] by (simp add: successively_rev)
  then have "successively (\<lambda>a b. b \<in> set (?deps a)) (drop i (map gk ?p))"
    by (rule successively_drop)
  moreover have "last (drop i (map gk ?p)) = fr_key f"
  proof -
    have "last (drop i (map gk ?p)) = last (map gk ?p)"
      by (rule last_drop) (use i'(1) in simp)
    also have "\<dots> = fr_key f" by (simp add: keys st)
    finally show ?thesis .
  qed
  moreover have "d \<in> set (?deps (fr_key f))" using chain st by simp
  ultimately have "successively (\<lambda>a b. b \<in> set (?deps a)) (drop i (map gk ?p) @ [d])"
    using i'(1) by (simp add: successively_append_iff)
  moreover have "hd (drop i (map gk ?p) @ [d]) = d"
    using i' by (simp add: hd_drop_conv_nth)
  ultimately have "closed_path ?deps (map gk (drop i ?p @ [n]))"
    using i'(1) n'(2) by (simp add: closed_path_def drop_map)
  moreover have "set (drop i ?p @ [n]) \<subseteq> set nodes"
    using sub n'(1) set_drop_subset [of i ?p] by auto
  ultimately show ?thesis by (simp add: graph_cycle_def close)
qed

lemma dfsStep_found:
  assumes ok: "dfs_ok gd gk nodes s" and ne: "dfs_stack s \<noteq> []"
  shows "\<exists>new. found (dfsStep gd gk nodes s) = found s @ new \<and>
           (\<forall>p \<in> set new. graph_cycle gd gk nodes p) \<and>
           visited s \<subseteq> visited (dfsStep gd gk nodes s)"
  using ok ne
proof (cases rule: dfs_step_cases)
  case (pop f fs)
  then show ?thesis by (auto simp: dfsStep_pop)
next
  case (push f fs d ds n)
  then show ?thesis by (auto simp: dfsStep_push)
next
  case (gray f fs d ds)
  with closeCycle_cycle [OF ok] show ?thesis by (auto simp: dfsStep_gray)
next
  case (cross f fs d ds)
  then show ?thesis by (auto simp: dfsStep_cross)
qed

subsection \<open>A silent search finishes keys in topological order\<close>

lemma dfsStep_done:
  assumes ok: "dfs_ok gd gk nodes s" and ne: "dfs_stack s \<noteq> []"
    and dn: "done_ok gd gk nodes s" and silent: "found (dfsStep gd gk nodes s) = []"
  shows "done_ok gd gk nodes (dfsStep gd gk nodes s)"
  using ok ne
proof (cases rule: dfs_step_cases)
  case (pop f fs)
  obtain fin where fin: "set fin = finished s" "topo (nodeDeps gd gk nodes) fin"
    and read: "read_ok (nodeDeps gd gk nodes) (finished s) None (dfs_stack s)"
    using dn by (auto simp: done_ok_def)
  have f: "fr_key f \<in> visited s" "fr_key f \<notin> fr_key ` set fs"
    using ok pop by (auto simp: dfs_ok_def)
  have fin': "finished (dfsStep gd gk nodes s) = insert (fr_key f) (finished s)"
    using f pop by (auto simp: dfsStep_pop finished_def)
  have "set (nodeDeps gd gk nodes (fr_key f)) \<subseteq> set fin"
    using read pop fin by auto
  then have "topo (nodeDeps gd gk nodes) (fin @ [fr_key f])" using fin by simp
  moreover have "set (fin @ [fr_key f]) = insert (fr_key f) (finished s)" using fin by simp
  moreover have "read_ok (nodeDeps gd gk nodes) (insert (fr_key f) (finished s)) None fs"
    using read pop by (auto intro: read_ok_pop)
  ultimately show ?thesis
    unfolding done_ok_def fin' using pop by (auto simp: dfsStep_pop intro!: exI [of _ "fin @ [fr_key f]"])
next
  case (push f fs d ds n)
  have "finished (dfsStep gd gk nodes s) = finished s"
    using push ok by (auto simp: dfsStep_push finished_def)
  with push dn show ?thesis by (auto simp: done_ok_def dfsStep_push)
next
  case (gray f fs d ds)
  with silent show ?thesis by (simp add: dfsStep_gray)
next
  case (cross f fs d ds)
  then have "d \<in> finished s" using ok by (auto simp: finished_def dfs_ok_def)
  moreover have "finished (dfsStep gd gk nodes s) = finished s"
    using cross by (simp add: dfsStep_cross finished_def)
  ultimately show ?thesis using cross dn by (auto simp: done_ok_def dfsStep_cross)
qed

lemma dfsLoop_facts:
  assumes "dfs_ok gd gk nodes s"
  shows "dfs_ok gd gk nodes (dfsLoop gd gk nodes s) \<and> dfs_stack (dfsLoop gd gk nodes s) = [] \<and>
    (\<exists>new. found (dfsLoop gd gk nodes s) = found s @ new \<and> (\<forall>p \<in> set new. graph_cycle gd gk nodes p)) \<and>
    visited s \<subseteq> visited (dfsLoop gd gk nodes s) \<and>
    (found (dfsLoop gd gk nodes s) = [] \<longrightarrow> done_ok gd gk nodes s \<longrightarrow>
       done_ok gd gk nodes (dfsLoop gd gk nodes s))"
  using assms
proof (induction gd gk nodes s rule: dfsLoop.induct)
  case (1 gd gk nodes s)
  show ?case
  proof (cases "dfs_stack s = []")
    case True
    with 1(2) show ?thesis by (simp add: dfsLoop.simps)
  next
    case False
    let ?t = "dfsStep gd gk nodes s"
    have loop: "dfsLoop gd gk nodes s = dfsLoop gd gk nodes ?t"
      using False by (simp add: dfsLoop.simps [of gd gk nodes s])
    obtain new where new: "found ?t = found s @ new" "\<forall>p \<in> set new. graph_cycle gd gk nodes p"
        "visited s \<subseteq> visited ?t"
      using dfsStep_found [OF 1(2) False] by auto
    from 1(1) [OF False dfsStep_ok [OF 1(2) False]] obtain new' where
      IH: "dfs_ok gd gk nodes (dfsLoop gd gk nodes ?t)" "dfs_stack (dfsLoop gd gk nodes ?t) = []"
        "found (dfsLoop gd gk nodes ?t) = found ?t @ new'" "\<forall>p \<in> set new'. graph_cycle gd gk nodes p"
        "visited ?t \<subseteq> visited (dfsLoop gd gk nodes ?t)"
        "found (dfsLoop gd gk nodes ?t) = [] \<longrightarrow> done_ok gd gk nodes ?t \<longrightarrow>
           done_ok gd gk nodes (dfsLoop gd gk nodes ?t)"
      by auto
    have "found (dfsLoop gd gk nodes ?t) = [] \<longrightarrow> done_ok gd gk nodes s \<longrightarrow>
        done_ok gd gk nodes (dfsLoop gd gk nodes ?t)"
      using IH(3,6) dfsStep_done [OF 1(2) False] by simp
    with IH new loop show ?thesis by (auto simp: ball_Un)
  qed
qed

subsection \<open>Searching from every node\<close>

definition ordered :: "('n \<Rightarrow> 'n list) \<Rightarrow> ('n \<Rightarrow> string) \<Rightarrow> 'n list \<Rightarrow> string set \<Rightarrow> bool" where
  "ordered gd gk nodes vis \<longleftrightarrow> (\<exists>fin. set fin = vis \<and> topo (nodeDeps gd gk nodes) fin)"

lemma dfsStart_ok:
  assumes "distinct (map gk nodes)" "n \<in> set nodes" "gk n \<notin> vis" "vis \<subseteq> keySet gk nodes"
  shows "dfs_ok gd gk nodes (dfsStart gd gk nodes n vis cyc)"
    and "ordered gd gk nodes vis \<Longrightarrow> done_ok gd gk nodes (dfsStart gd gk nodes n vis cyc)"
    and "found (dfsStart gd gk nodes n vis cyc) = cyc"
    and "visited (dfsStart gd gk nodes n vis cyc) = insert (gk n) vis"
  using assms
  by (auto simp: dfs_ok_def done_ok_def ordered_def finished_def dfsStart_def dfsEnter_def
      nodeDeps_key insert_Diff_if simp del: set_resolveDepKeys)

lemma dfsAll_facts:
  assumes "distinct (map gk nodes)"
  shows "set ns \<subseteq> set nodes \<Longrightarrow> vis \<subseteq> keySet gk nodes \<Longrightarrow>
    (\<exists>new. dfsAll gd gk nodes ns vis cyc = cyc @ new \<and> (\<forall>p \<in> set new. graph_cycle gd gk nodes p)) \<and>
    (dfsAll gd gk nodes ns vis cyc = [] \<longrightarrow> ordered gd gk nodes vis \<longrightarrow>
       (\<exists>vis'. ordered gd gk nodes vis' \<and> vis \<union> keySet gk ns \<subseteq> vis' \<and> vis' \<subseteq> keySet gk nodes))"
proof (induction ns arbitrary: vis cyc)
  case Nil
  then show ?case by auto
next
  case (Cons n ns)
  show ?case
  proof (cases "gk n \<in> vis")
    case True
    with Cons.IH [of vis cyc] Cons.prems show ?thesis by auto
  next
    case False
    let ?s = "dfsLoop gd gk nodes (dfsStart gd gk nodes n vis cyc)"
    have n: "n \<in> set nodes" using Cons.prems by simp
    note start = dfsStart_ok [OF assms n False Cons.prems(2), of gd cyc]
    note loop = dfsLoop_facts [OF start(1), unfolded start(3,4)]
    have vis: "visited ?s \<subseteq> keySet gk nodes" and "insert (gk n) vis \<subseteq> visited ?s"
      and stack: "dfs_stack ?s = []"
      using loop by (auto simp: dfs_ok_def)
    obtain new where new: "found ?s = cyc @ new" "\<forall>p \<in> set new. graph_cycle gd gk nodes p"
      using loop by auto
    have all: "dfsAll gd gk nodes (n # ns) vis cyc = dfsAll gd gk nodes ns (visited ?s) (found ?s)"
      using False by (simp add: Let_def)
    obtain new' where new': "dfsAll gd gk nodes ns (visited ?s) (found ?s) = found ?s @ new'"
        "\<forall>p \<in> set new'. graph_cycle gd gk nodes p"
      and rest: "dfsAll gd gk nodes ns (visited ?s) (found ?s) = [] \<longrightarrow>
         ordered gd gk nodes (visited ?s) \<longrightarrow>
         (\<exists>vis'. ordered gd gk nodes vis' \<and> visited ?s \<union> keySet gk ns \<subseteq> vis' \<and> vis' \<subseteq> keySet gk nodes)"
      using Cons.IH [OF _ vis, of "found ?s"] Cons.prems by auto
    have ord: "ordered gd gk nodes (visited ?s)" if "found ?s = []" "ordered gd gk nodes vis"
      using loop that start(2) stack by (auto simp: done_ok_def ordered_def finished_def)
    have "\<exists>vis'. ordered gd gk nodes vis' \<and> vis \<union> keySet gk (n # ns) \<subseteq> vis' \<and> vis' \<subseteq> keySet gk nodes"
      if e: "dfsAll gd gk nodes ns (visited ?s) (found ?s) = []" and o: "ordered gd gk nodes vis"
    proof -
      from e new'(1) have "found ?s = []" by simp
      with ord o rest e obtain vis' where "ordered gd gk nodes vis'"
        "visited ?s \<union> keySet gk ns \<subseteq> vis'" "vis' \<subseteq> keySet gk nodes" by blast
      moreover have "vis \<union> keySet gk (n # ns) \<subseteq> visited ?s \<union> keySet gk ns"
        using \<open>insert (gk n) vis \<subseteq> visited ?s\<close> by auto
      ultimately show ?thesis by (intro exI [of _ vis']) blast
    qed
    with new new' show ?thesis unfolding all by (auto simp: ball_Un)
  qed
qed

lemma dfsAll_silent_acyclic:
  assumes "distinct (map gk nodes)" "dfsAll gd gk nodes nodes {} [] = []"
  shows "acyclic (depEdges gd gk nodes)"
proof -
  have "ordered gd gk nodes {}"
    unfolding ordered_def by (rule exI [of _ "[]"]) simp
  with dfsAll_facts [OF assms(1), of nodes "{}" gd "[]"] assms(2)
  obtain vis where "ordered gd gk nodes vis" "keySet gk nodes \<subseteq> vis" "vis \<subseteq> keySet gk nodes"
    by auto
  then obtain fin where "set fin = keySet gk nodes" "topo (nodeDeps gd gk nodes) fin"
    by (metis ordered_def subset_antisym)
  with topo_acyclic show ?thesis by metis
qed

lemma graph_cycle_cyclic:
  "graph_cycle gd gk nodes p \<Longrightarrow> \<not> acyclic (depEdges gd gk nodes)"
  unfolding graph_cycle_def by (metis closed_path_cyclic image_mono list.set_map)

subsection \<open>The exported function\<close>

lemmas detectCycles_simps = detectCycles_def Let_def

lemma cycle_paths_cycles:
  assumes "distinct (map gk nodes)" "p \<in> set (cycle_paths (detectCycles nodes gd gk))"
  shows "graph_cycle gd gk nodes p"
  using assms dfsAll_facts [OF assms(1), of nodes "{}" gd "[]"]
  by (auto simp: detectCycles_simps split: if_splits)

lemma cycle_paths_Nil_iff:
  assumes "distinct (map gk nodes)"
  shows "cycle_paths (detectCycles nodes gd gk) = [] \<longleftrightarrow> acyclic (depEdges gd gk nodes)"
proof
  assume "cycle_paths (detectCycles nodes gd gk) = []"
  with assms show "acyclic (depEdges gd gk nodes)"
    by (auto simp: detectCycles_simps dep_rel_def acyclic_def
        dest: kahnSort_full_acyclic dfsAll_silent_acyclic split: if_splits)
next
  assume "acyclic (depEdges gd gk nodes)"
  then have "p \<notin> set (cycle_paths (detectCycles nodes gd gk))" for p
    using cycle_paths_cycles [OF assms] graph_cycle_cyclic [of gd gk nodes p] by auto
  then show "cycle_paths (detectCycles nodes gd gk) = []"
    by (metis list.set_intros(1) neq_Nil_conv)
qed

lemma map_filter_lookup:
  "set ks \<subseteq> keySet gk nodes \<Longrightarrow> map gk (List.map_filter (lookupNode gk nodes) ks) = ks"
proof (induction ks)
  case (Cons k ks)
  then obtain n where "lookupNode gk nodes k = Some n"
    using lookupNode_None [of gk nodes k] by auto
  with Cons show ?case by (auto simp: List.map_filter_simps dest: lookupNode_Some)
qed (simp add: List.map_filter_simps)

lemma sorted_nodes_keys:
  assumes "distinct (map gk nodes)"
  shows "map gk (sorted_nodes (detectCycles nodes gd gk)) = kahnSort gd gk nodes"
  using kahnSort_topo(3) [OF assms, where gd = gd] kahnSort_topo(3) [of gk "[]", where gd = gd]
  by (auto simp: detectCycles_simps map_filter_lookup)

lemma sorted_nodes_subset:
  "set (sorted_nodes (detectCycles nodes gd gk)) \<subseteq> set nodes"
proof -
  have "set (List.map_filter (lookupNode gk nodes) ks) \<subseteq> set nodes" for ks
    by (induction ks) (auto simp: List.map_filter_simps dest: lookupNode_Some split: option.splits)
  then show ?thesis by (auto simp: detectCycles_simps)
qed

text \<open>
  Claim C1. The cycle detector decides acyclicity: for a node list with distinct keys,
  \<open>detectCycles\<close> reports no cycle exactly when the dependency relation among the listed nodes
  is acyclic, whichever of its two phases produced the answer.
\<close>

theorem detectCycles_decides_acyclicity:
  assumes "distinct (map gk nodes)"
  shows "cycle_paths (detectCycles nodes gd gk) = [] \<longleftrightarrow> acyclic (depEdges gd gk nodes)"
  by (rule cycle_paths_Nil_iff [OF assms])

definition ex_deps :: "string \<Rightarrow> string list" where
  "ex_deps n = (if n = ''A'' then [''B''] else if n = ''B'' then [''C''] else if n = ''C'' then [''B''] else [])"

theorem detectCycles_decides_acyclicity_witness:
  "distinct (map id [''A'', ''B'', ''C'']) \<and>
   cycle_paths (detectCycles [''A'', ''B'', ''C''] ex_deps id) = [[''B'', ''C'', ''B'']] \<and>
   \<not> acyclic (depEdges ex_deps id [''A'', ''B'', ''C''])"
proof -
  have d: "distinct (map id [''A'', ''B'', ''C''])" by simp
  have c: "cycle_paths (detectCycles [''A'', ''B'', ''C''] ex_deps id) = [[''B'', ''C'', ''B'']]"
    by code_simp
  show ?thesis using d c detectCycles_decides_acyclicity [OF d, of ex_deps] by simp
qed

text \<open>
  Every reported cycle is real and closed: it is a path over listed nodes of length at
  least two, each node depends on the next, and the first and last node have the same key.
\<close>

theorem detectCycles_reports_closed_paths:
  assumes "distinct (map gk nodes)" and "p \<in> set (cycle_paths (detectCycles nodes gd gk))"
  shows "set p \<subseteq> set nodes \<and> 2 \<le> length p \<and> gk (hd p) = gk (last p) \<and>
    (\<forall>i. Suc i < length p \<longrightarrow> gk (p ! Suc i) \<in> gk ` set (gd (p ! i)))"
proof -
  have c: "set p \<subseteq> set nodes" "closed_path (nodeDeps gd gk nodes) (map gk p)"
    using cycle_paths_cycles [OF assms] by (auto simp: graph_cycle_def)
  have "gk (p ! Suc i) \<in> gk ` set (gd (p ! i))" if i: "Suc i < length p" for i
  proof -
    have "p ! i \<in> set nodes" using c(1) i by (meson Suc_lessD nth_mem subsetD)
    moreover have "gk (p ! Suc i) \<in> set (nodeDeps gd gk nodes (gk (p ! i)))"
      using c(2) i by (auto simp: closed_path_def successively_conv_nth)
    ultimately show ?thesis using nodeDeps_key [OF assms(1)] by fastforce
  qed
  moreover have "p \<noteq> []" using c(2) by (auto simp: closed_path_def)
  ultimately show ?thesis using c by (simp add: closed_path_def hd_map last_map)
qed

theorem detectCycles_reports_closed_paths_witness:
  "[''B'', ''C'', ''B''] \<in> set (cycle_paths (detectCycles [''A'', ''B'', ''C''] ex_deps id)) \<and>
   id (hd [''B'', ''C'', ''B'']) = id (last [''B'', ''C'', ''B''])"
proof -
  have c: "[''B'', ''C'', ''B''] \<in> set (cycle_paths (detectCycles [''A'', ''B'', ''C''] ex_deps id))"
    by code_simp
  show ?thesis
    using c detectCycles_reports_closed_paths [of id "[''A'', ''B'', ''C'']", OF _ c] by simp
qed

text \<open>
  The sorted list is a topological order: it lists nodes of the graph, each key once,
  every node after all of its dependencies in the graph; and when the graph is acyclic and no
  node lists a dependency twice, it contains every node.
\<close>

theorem detectCycles_sorts_topologically:
  assumes "distinct (map gk nodes)"
  shows "set (sorted_nodes (detectCycles nodes gd gk)) \<subseteq> set nodes \<and>
    distinct (map gk (sorted_nodes (detectCycles nodes gd gk))) \<and>
    topo (nodeDeps gd gk nodes) (map gk (sorted_nodes (detectCycles nodes gd gk))) \<and>
    (acyclic (depEdges gd gk nodes) \<and> (\<forall>n \<in> set nodes. distinct (map gk (gd n))) \<longrightarrow>
       set (sorted_nodes (detectCycles nodes gd gk)) = set nodes)"
proof -
  let ?s = "sorted_nodes (detectCycles nodes gd gk)"
  have "set ?s = set nodes"
    if "acyclic (depEdges gd gk nodes)" "\<forall>n \<in> set nodes. distinct (map gk (gd n))"
  proof -
    have "gk ` set ?s = gk ` set nodes"
      using kahnSort_acyclic_full [OF assms that(1)] that(2) sorted_nodes_keys [OF assms, of gd]
      by (metis list.set_map)
    with assms sorted_nodes_subset [of nodes gd gk] show ?thesis
      by (meson distinct_map inj_on_image_eq_iff subset_refl)
  qed
  then show ?thesis
    using kahnSort_topo [OF assms, where gd = gd] sorted_nodes_subset [of nodes gd gk]
    by (simp add: sorted_nodes_keys [OF assms])
qed

theorem detectCycles_sorts_topologically_witness:
  "map id (sorted_nodes (detectCycles [''A'', ''B'', ''C''] (\<lambda>n. if n = ''A'' then [''B'', ''C''] else []) id))
     = [''B'', ''C'', ''A''] \<and>
   topo (nodeDeps (\<lambda>n. if n = ''A'' then [''B'', ''C''] else []) id [''A'', ''B'', ''C'']) [''B'', ''C'', ''A'']"
proof -
  have d: "distinct (map id [''A'', ''B'', ''C''])" by simp
  have c: "map id (sorted_nodes (detectCycles [''A'', ''B'', ''C'']
      (\<lambda>n. if n = ''A'' then [''B'', ''C''] else []) id)) = [''B'', ''C'', ''A'']"
    by code_simp
  show ?thesis
    using c detectCycles_sorts_topologically
      [OF d, of "\<lambda>n. if n = ''A'' then [''B'', ''C''] else []"] by simp
qed

text \<open>
  The distinctness condition on dependency lists is needed: when a node lists the same
  dependency twice, the in-degree counts it twice but the adjacency set releases it once, so on
  this acyclic two-node graph the sorted list drops a node although no cycle is reported.
\<close>

theorem detectCycles_duplicate_dep_drops_node:
  "detectCycles [''A'', ''B''] (\<lambda>n. if n = ''A'' then [''B'', ''B''] else []) id
     = \<lparr>sorted_nodes = [''B''], cycle_paths = []\<rparr>"
  by code_simp

end
