(* ===== verification/Work_Graph.thy ===== *)
theory Work_Graph
  imports Cycle_Search
begin

text \<open>
  The dependency graph between work nodes (\<^verbatim>\<open>plugin/src/types/work-graph.ts\<close>), the check run
  before edges are added (\<^verbatim>\<open>plugin/src/validator/work-graph-validation.ts\<close>) and the
  activation-time enforcement on top of it (\<^verbatim>\<open>plugin/src/validator/work-graph-enforcement.ts\<close>).
  The callback \<^verbatim>\<open>getDeps\<close> is arbitrary, so the transitive collection of nodes need not end;
  it is a \<open>partial_function\<close> whose result is \<open>None\<close> then, and it is proved to return whenever
  finitely many keys are reachable.
\<close>

subsection \<open>Nodes and errors\<close>

datatype workNodeRef =
    EpicEntry string string     \<comment> \<open>\<^verbatim>\<open>epic_id\<close>, \<^verbatim>\<open>entry_id\<close>\<close>
  | ChangeNode string string    \<comment> \<open>\<^verbatim>\<open>project_id\<close>, \<^verbatim>\<open>change_id\<close>\<close>

datatype refReason = SelfEdge | DuplicateRef | Malformed

datatype edgeError =
    InvalidWorkNodeRef refReason "workNodeRef option"
  | UnresolvedDependency workNodeRef
  | DependencyCycle "workNodeRef list"

fun nodeRefKey :: "workNodeRef \<Rightarrow> string" where
  "nodeRefKey (EpicEntry e n) = ''epic_entry:'' @ e @ ''/'' @ n"
| "nodeRefKey (ChangeNode p c) = ''change:'' @ p @ ''/'' @ c"

definition refEquals :: "workNodeRef \<Rightarrow> workNodeRef \<Rightarrow> bool" where
  "refEquals a b \<longleftrightarrow> nodeRefKey a = nodeRefKey b"

abbreviation refKeys :: "workNodeRef list \<Rightarrow> string set" where
  "refKeys refs \<equiv> nodeRefKey ` set refs"

subsection \<open>Checks 1 to 3\<close>

fun findDuplicate :: "string set \<Rightarrow> workNodeRef list \<Rightarrow> workNodeRef option" where
  "findDuplicate seen [] = None"
| "findDuplicate seen (e # es) =
     (if nodeRefKey e \<in> seen then Some e else findDuplicate (insert (nodeRefKey e) seen) es)"

definition edgeShapeError ::
  "workNodeRef \<Rightarrow> workNodeRef list \<Rightarrow> string set \<Rightarrow> workNodeRef list \<Rightarrow> edgeError option" where
  "edgeShapeError sourceRef newEdges resolvable existingDeps =
     (case List.find (\<lambda>e. refEquals e sourceRef) newEdges of
        Some e \<Rightarrow> Some (InvalidWorkNodeRef SelfEdge (Some e))
      | None \<Rightarrow>
     (case findDuplicate {} newEdges of
        Some e \<Rightarrow> Some (InvalidWorkNodeRef DuplicateRef (Some e))
      | None \<Rightarrow>
     (case List.find (\<lambda>e. nodeRefKey e \<in> refKeys existingDeps) newEdges of
        Some e \<Rightarrow> Some (InvalidWorkNodeRef DuplicateRef (Some e))
      | None \<Rightarrow>
     (case List.find (\<lambda>e. nodeRefKey e \<notin> resolvable) newEdges of
        Some e \<Rightarrow> Some (UnresolvedDependency e)
      | None \<Rightarrow> None))))"

subsection \<open>Check 4: the transitive collection and the cycle test\<close>

definition addIfNew :: "workNodeRef list \<Rightarrow> workNodeRef \<Rightarrow> workNodeRef list" where
  "addIfNew nodes ref = (if nodeRefKey ref \<in> refKeys nodes then nodes else nodes @ [ref])"

text \<open>
  The loop over the growing queue: \<open>queue\<close> is its unread part.  \<^verbatim>\<open>allNodeKeys\<close> is always the
  set of keys of \<^verbatim>\<open>allNodes\<close>, so only the latter is kept.
\<close>

fun pushNewDeps ::
  "workNodeRef list \<Rightarrow> workNodeRef list \<Rightarrow> workNodeRef list \<Rightarrow> workNodeRef list \<times> workNodeRef list" where
  "pushNewDeps [] nodes queue = (nodes, queue)"
| "pushNewDeps (d # ds) nodes queue =
     (if nodeRefKey d \<in> refKeys nodes then pushNewDeps ds nodes queue
      else pushNewDeps ds (nodes @ [d]) (queue @ [d]))"

partial_function (option) collectNodes ::
  "(string \<Rightarrow> workNodeRef list) \<Rightarrow> workNodeRef list \<Rightarrow> workNodeRef list \<Rightarrow> workNodeRef list option" where
  "collectNodes depsOf queue nodes = (case queue of
      [] \<Rightarrow> Some nodes
    | current # rest \<Rightarrow>
        (case pushNewDeps (depsOf (nodeRefKey current)) nodes rest of
           (nodes', queue') \<Rightarrow> collectNodes depsOf queue' nodes'))"

declare collectNodes.simps [code]

definition depsWith ::
  "workNodeRef \<Rightarrow> workNodeRef list \<Rightarrow> (string \<Rightarrow> workNodeRef list) \<Rightarrow> string \<Rightarrow> workNodeRef list" where
  "depsWith sourceRef newEdges getDeps key =
     (if key = nodeRefKey sourceRef then getDeps key @ newEdges else getDeps key)"

definition buildTempDeps ::
  "(string \<Rightarrow> workNodeRef list) \<Rightarrow> workNodeRef list \<Rightarrow> (string \<times> workNodeRef list) list" where
  "buildTempDeps depsOf nodes = foldl (\<lambda>m n. map_set (nodeRefKey n) (depsOf (nodeRefKey n)) m) [] nodes"

text \<open>\<open>None\<close>: does not return; \<open>Some None\<close>: the edges are valid.\<close>

definition validateEdgeAdd ::
  "workNodeRef \<Rightarrow> workNodeRef list \<Rightarrow> string set \<Rightarrow> (string \<Rightarrow> workNodeRef list)
    \<Rightarrow> edgeError option option" where
  "validateEdgeAdd sourceRef newEdges resolvable getDeps =
     (if newEdges = [] then Some None
      else let existingDeps = getDeps (nodeRefKey sourceRef)
           in case edgeShapeError sourceRef newEdges resolvable existingDeps of
                Some e \<Rightarrow> Some (Some e)
              | None \<Rightarrow>
                  (let depsOf = depsWith sourceRef newEdges getDeps;
                       start = foldl addIfNew (foldl addIfNew [sourceRef] newEdges) existingDeps
                   in case collectNodes depsOf start start of
                        None \<Rightarrow> None
                      | Some allNodes \<Rightarrow>
                          (let tempDeps = buildTempDeps depsOf allNodes;
                               found = cycle_paths (detectCycles allNodes
                                 (\<lambda>ref. map_getOr tempDeps (nodeRefKey ref) []) nodeRefKey)
                           in case found of
                                [] \<Rightarrow> Some None
                              | p # _ \<Rightarrow> Some (Some (DependencyCycle p)))))"

subsection \<open>Keys\<close>

text \<open>
  Keys separate nodes as long as the first identifier has no slash in it (project identifiers are
  forty hexadecimal digits).
\<close>

lemma split_at_slash:
  "a @ ''/'' @ b = c @ ''/'' @ d \<Longrightarrow> CHR ''/'' \<notin> set a \<Longrightarrow> CHR ''/'' \<notin> set c \<Longrightarrow> a = c \<and> b = d"
proof (induction a arbitrary: c)
  case Nil
  then show ?case by (cases c) auto
next
  case (Cons x xs)
  then show ?case by (cases c) auto
qed

fun slashFree :: "workNodeRef \<Rightarrow> bool" where
  "slashFree (EpicEntry e n) = (CHR ''/'' \<notin> set e)"
| "slashFree (ChangeNode p c) = (CHR ''/'' \<notin> set p)"

lemma nodeRefKey_inj:
  "nodeRefKey a = nodeRefKey b \<Longrightarrow> slashFree a \<Longrightarrow> slashFree b \<Longrightarrow> a = b"
  by (cases a; cases b) (auto dest!: split_at_slash [simplified])

subsection \<open>The shape checks\<close>

lemma findDuplicate_None:
  "findDuplicate seen es = None \<longleftrightarrow>
     distinct (map nodeRefKey es) \<and> refKeys es \<inter> seen = {}"
  by (induction es arbitrary: seen) auto

lemma edgeShapeError_None:
  "edgeShapeError src es res ex = None \<longleftrightarrow>
     nodeRefKey src \<notin> refKeys es \<and> distinct (map nodeRefKey es) \<and>
     refKeys es \<inter> refKeys ex = {} \<and> refKeys es \<subseteq> res"
  unfolding edgeShapeError_def case_error_None findDuplicate_None find_None_iff_all refEquals_def
  by (auto simp: image_iff)

subsection \<open>The collection is a transitive closure\<close>

lemma pushNewDeps_facts:
  assumes "pushNewDeps ds nodes queue = (nodes', queue')"
  shows "refKeys nodes' = refKeys nodes \<union> refKeys ds"
    and "distinct (map nodeRefKey nodes) \<Longrightarrow> distinct (map nodeRefKey nodes')"
    and "\<exists>new. nodes' = nodes @ new \<and> queue' = queue @ new"
    and "length queue' + length nodes = length queue + length nodes'"
  using assms
proof (induction ds nodes queue rule: pushNewDeps.induct)
  case (2 d ds nodes queue)
  { case 1 with 2 show ?case by (auto split: if_splits) }
  { case 2 with "2.IH" show ?case by (auto split: if_splits) }
  { case 3 with 2 show ?case by (auto split: if_splits) }
  { case 4 with 2 show ?case by (auto split: if_splits) }
qed auto

definition closedUnder :: "(string \<Rightarrow> workNodeRef list) \<Rightarrow> string set \<Rightarrow> bool" where
  "closedUnder depsOf U \<longleftrightarrow> (\<forall>k \<in> U. refKeys (depsOf k) \<subseteq> U)"

text \<open>
  Inside a finite closed set of keys the loop returns, with every key once, nothing outside the
  set, and everything the collected nodes depend on.
\<close>

lemma collectNodes_total:
  assumes fin: "finite U" and closed: "closedUnder depsOf U"
  shows "distinct (map nodeRefKey nodes) \<Longrightarrow> refKeys nodes \<subseteq> U \<Longrightarrow> set queue \<subseteq> set nodes \<Longrightarrow>
    (\<forall>n \<in> set nodes. n \<in> set queue \<or> refKeys (depsOf (nodeRefKey n)) \<subseteq> refKeys nodes) \<Longrightarrow>
    \<exists>all. collectNodes depsOf queue nodes = Some all \<and> set nodes \<subseteq> set all \<and>
      distinct (map nodeRefKey all) \<and> refKeys all \<subseteq> U \<and> closedUnder depsOf (refKeys all)"
proof (induction "card (U - refKeys nodes) * 2 + length queue" arbitrary: nodes queue rule: less_induct)
  case less
  show ?case
  proof (cases queue)
    case Nil
    with less.prems show ?thesis by (auto simp: collectNodes.simps [of depsOf "[]"] closedUnder_def)
  next
    case (Cons c rest)
    obtain nodes' queue' where push:
      "pushNewDeps (depsOf (nodeRefKey c)) nodes rest = (nodes', queue')"
      by (cases "pushNewDeps (depsOf (nodeRefKey c)) nodes rest")
    note f = pushNewDeps_facts [OF push]
    obtain new where new: "nodes' = nodes @ new" "queue' = rest @ new" using f(3) by auto
    have c: "c \<in> set nodes" using less.prems(3) Cons by simp
    have "nodeRefKey c \<in> U" using less.prems(2) c by blast
    then have sub: "refKeys nodes' \<subseteq> U"
      using f(1) less.prems(2) closed by (simp add: closedUnder_def)
    have dist: "distinct (map nodeRefKey nodes')" using f(2) less.prems(1) by simp
    have "card (refKeys nodes') = length nodes'" "card (refKeys nodes) = length nodes"
      using distinct_card [OF dist] distinct_card [OF less.prems(1)] by simp_all
    then have "card (U - refKeys nodes') + length nodes' = card (U - refKeys nodes) + length nodes"
      using sub less.prems(2) fin card_mono [OF fin sub] card_mono [OF fin less.prems(2)]
      by (simp add: card_Diff_subset finite_subset)
    then have dec: "card (U - refKeys nodes') * 2 + length queue'
        < card (U - refKeys nodes) * 2 + length queue"
      using new Cons by simp
    have inv: "\<forall>n \<in> set nodes'. n \<in> set queue' \<or> refKeys (depsOf (nodeRefKey n)) \<subseteq> refKeys nodes'"
    proof
      fix n assume n: "n \<in> set nodes'"
      have mono: "refKeys nodes \<subseteq> refKeys nodes'" using f(1) by simp
      consider "n \<in> set new" | "n = c" | "n \<in> set rest"
        | "refKeys (depsOf (nodeRefKey n)) \<subseteq> refKeys nodes"
        using n new less.prems(4) Cons by auto
      then show "n \<in> set queue' \<or> refKeys (depsOf (nodeRefKey n)) \<subseteq> refKeys nodes'"
      proof cases
        case 4
        with mono show ?thesis by blast
      qed (use new f(1) in auto)
    qed
    have "set queue' \<subseteq> set nodes'" using new Cons less.prems(3) by auto
    note IH = less.hyps [OF dec dist sub this inv]
    have step: "collectNodes depsOf queue nodes = collectNodes depsOf queue' nodes'"
      by (subst collectNodes.simps) (simp add: Cons push)
    from IH new show ?thesis unfolding step by auto
  qed
qed

lemma foldl_addIfNew:
  "refKeys (foldl addIfNew nodes refs) = refKeys nodes \<union> refKeys refs \<and>
   (distinct (map nodeRefKey nodes) \<longrightarrow> distinct (map nodeRefKey (foldl addIfNew nodes refs)))"
proof (induction refs arbitrary: nodes)
  case (Cons r refs)
  have "refKeys (addIfNew nodes r) = insert (nodeRefKey r) (refKeys nodes)"
    "distinct (map nodeRefKey nodes) \<longrightarrow> distinct (map nodeRefKey (addIfNew nodes r))"
    by (auto simp: addIfNew_def)
  with Cons.IH [of "addIfNew nodes r"] show ?case by auto
qed simp

lemma foldl_addIfNew_subset: "set nodes \<subseteq> set (foldl addIfNew nodes refs)"
proof (induction refs arbitrary: nodes)
  case (Cons r refs)
  have "set nodes \<subseteq> set (addIfNew nodes r)" by (auto simp: addIfNew_def)
  with Cons.IH [of "addIfNew nodes r"] show ?case by auto
qed simp

lemma buildTempDeps_get:
  "map_getOr (buildTempDeps depsOf nodes) k [] = (if k \<in> refKeys nodes then depsOf k else [])"
proof -
  have "map_getOr (foldl (\<lambda>m n. map_set (nodeRefKey n) (depsOf (nodeRefKey n)) m) m0 nodes) k []
      = (if k \<in> refKeys nodes then depsOf k else map_getOr m0 k [])" for m0
    by (induction nodes arbitrary: m0) auto
  then show ?thesis by (simp add: buildTempDeps_def)
qed

text \<open>The graph handed to the cycle detector is the dependency relation on the collected keys.\<close>

lemma tempDeps_edges:
  assumes "distinct (map nodeRefKey nodes)" "closedUnder depsOf (refKeys nodes)"
  shows "depEdges (\<lambda>ref. map_getOr (buildTempDeps depsOf nodes) (nodeRefKey ref) []) nodeRefKey nodes
    = {(k, nodeRefKey d) | k d. k \<in> refKeys nodes \<and> d \<in> set (depsOf k)}"
proof -
  have "set (nodeDeps (\<lambda>ref. map_getOr (buildTempDeps depsOf nodes) (nodeRefKey ref) []) nodeRefKey nodes k)
      = refKeys (depsOf k)" if "k \<in> refKeys nodes" for k
  proof -
    from that obtain n where "n \<in> set nodes" "k = nodeRefKey n" by auto
    with assms show ?thesis
      by (auto simp: nodeDeps_key buildTempDeps_get closedUnder_def)
  qed
  then show ?thesis by (auto simp: dep_rel_def)
qed

subsection \<open>The edge check\<close>

abbreviation depsRel :: "(string \<Rightarrow> workNodeRef list) \<Rightarrow> (string \<times> string) set" where
  "depsRel getDeps \<equiv> {(k, nodeRefKey d) | k d. d \<in> set (getDeps k)}"

abbreviation edgesFrom :: "workNodeRef \<Rightarrow> workNodeRef list \<Rightarrow> (string \<times> string) set" where
  "edgesFrom src es \<equiv> {nodeRefKey src} \<times> refKeys es"

lemma rtrancl_in_closed:
  assumes "closedUnder depsOf K" "x \<in> K" "(x, y) \<in> R\<^sup>*"
    and "\<And>k d. (k, d) \<in> R \<Longrightarrow> k \<in> K \<Longrightarrow> d \<in> refKeys (depsOf k)"
  shows "(x, y) \<in> {(k, nodeRefKey d) | k d. k \<in> K \<and> d \<in> set (depsOf k)}\<^sup>* \<and> y \<in> K"
  using assms(3)
proof (induction rule: rtrancl_induct)
  case base
  then show ?case using assms(2) by simp
next
  case (step y z)
  then have "z \<in> refKeys (depsOf y)" "y \<in> K" using assms(4) by auto
  with step assms(1) show ?case
    by (auto simp: closedUnder_def intro: rtrancl_into_rtrancl)
qed

text \<open>
  Restricting the enlarged relation to a closed set that holds the source does not lose a cycle,
  when the relation was acyclic before.
\<close>

lemma acyclic_restrict_iff:
  fixes src es getDeps
  defines "depsOf \<equiv> depsWith src es getDeps"
  assumes acyc: "acyclic (depsRel getDeps)" and closed: "closedUnder depsOf K"
    and src: "nodeRefKey src \<in> K"
  shows "acyclic {(k, nodeRefKey d) | k d. k \<in> K \<and> d \<in> set (depsOf k)} \<longleftrightarrow>
    acyclic (depsRel getDeps \<union> edgesFrom src es)" (is "acyclic ?restr \<longleftrightarrow> acyclic ?full")
proof
  assume a: "acyclic ?restr"
  show "acyclic ?full"
  proof (rule ccontr)
    assume "\<not> acyclic ?full"
    from acyclic_add_edges [OF acyc this] obtain t where
      t: "t \<in> refKeys es" "(t, nodeRefKey src) \<in> (depsRel getDeps)\<^sup>*" by (elim bexE)
    from t(1) have td: "t \<in> refKeys (depsOf (nodeRefKey src))"
      by (simp add: depsOf_def depsWith_def image_Un)
    then have e: "(nodeRefKey src, t) \<in> ?restr" using src by auto
    have tK: "t \<in> K" using closed src td unfolding closedUnder_def by blast
    have old: "d \<in> refKeys (depsOf k)" if "(k, d) \<in> depsRel getDeps" for k d
      using that by (auto simp: depsOf_def depsWith_def)
    have "(t, nodeRefKey src) \<in> ?restr\<^sup>*"
      using rtrancl_in_closed [OF closed tK t(2) old] by blast
    with e have "(nodeRefKey src, nodeRefKey src) \<in> ?restr\<^sup>+" by (rule rtrancl_into_trancl2)
    with a show False by (simp add: acyclic_def)
  qed
next
  assume "acyclic ?full"
  then show "acyclic ?restr"
    by (rule acyclic_subset) (auto simp: depsOf_def depsWith_def split: if_splits)
qed

text \<open>The collection step of the check, from a finite closed set around the start.\<close>

lemma collectStart_total:
  fixes src es getDeps
  defines "depsOf \<equiv> depsWith src es getDeps"
    and "start \<equiv> foldl addIfNew (foldl addIfNew [src] es) (getDeps (nodeRefKey src))"
  assumes "finite U" "closedUnder depsOf U" "nodeRefKey src \<in> U"
  shows "\<exists>all. collectNodes depsOf start start = Some all \<and> distinct (map nodeRefKey all) \<and>
    nodeRefKey src \<in> refKeys all \<and> closedUnder depsOf (refKeys all)"
proof -
  have keys: "refKeys start = insert (nodeRefKey src) (refKeys es \<union> refKeys (getDeps (nodeRefKey src)))"
    and dist: "distinct (map nodeRefKey start)"
    using foldl_addIfNew [of "[src]" es]
      foldl_addIfNew [of "foldl addIfNew [src] es" "getDeps (nodeRefKey src)"]
    by (auto simp: start_def)
  have "refKeys (depsOf (nodeRefKey src)) \<subseteq> U" using assms(4,5) by (simp add: closedUnder_def)
  then have sub: "refKeys start \<subseteq> U"
    using assms(5) unfolding keys by (auto simp: depsOf_def depsWith_def)
  from collectNodes_total [OF assms(3,4) dist sub subset_refl] obtain all where
    all: "collectNodes depsOf start start = Some all" "set start \<subseteq> set all"
      "distinct (map nodeRefKey all)" "closedUnder depsOf (refKeys all)" by auto
  have "nodeRefKey src \<in> refKeys start" by (simp add: keys)
  with all show ?thesis by auto
qed

text \<open>The check after its shape tests, over the nodes the collection returned.\<close>

lemma validateEdgeAdd_unfold:
  fixes src es getDeps
  defines "depsOf \<equiv> depsWith src es getDeps"
    and "start \<equiv> foldl addIfNew (foldl addIfNew [src] es) (getDeps (nodeRefKey src))"
  assumes "es \<noteq> []" "edgeShapeError src es res (getDeps (nodeRefKey src)) = None"
    and "collectNodes depsOf start start = Some all"
  shows "validateEdgeAdd src es res getDeps =
    (case cycle_paths (detectCycles all
        (\<lambda>ref. map_getOr (buildTempDeps depsOf all) (nodeRefKey ref) []) nodeRefKey) of
       [] \<Rightarrow> Some None | p # _ \<Rightarrow> Some (Some (DependencyCycle p)))"
  using assms by (simp add: validateEdgeAdd_def Let_def)

lemma validateEdgeAdd_total:
  assumes fin: "finite U" "closedUnder (depsWith src es getDeps) U" "nodeRefKey src \<in> U"
  shows "\<exists>r. validateEdgeAdd src es res getDeps = Some r"
proof (cases "es = []")
  case True
  then show ?thesis by (simp add: validateEdgeAdd_def)
next
  case False
  show ?thesis
  proof (cases "edgeShapeError src es res (getDeps (nodeRefKey src))")
    case None
    from collectStart_total [OF fin] validateEdgeAdd_unfold [where src = src and es = es and res = res and getDeps = getDeps, OF False None]
    show ?thesis by (auto split: list.splits)
  next
    case (Some e)
    with False show ?thesis by (simp add: validateEdgeAdd_def Let_def)
  qed
qed

lemma validateEdgeAdd_None_iff:
  assumes fin: "finite U" "closedUnder (depsWith src es getDeps) U" "nodeRefKey src \<in> U"
    and acyc: "acyclic (depsRel getDeps)"
  shows "validateEdgeAdd src es res getDeps = Some None \<longleftrightarrow>
    edgeShapeError src es res (getDeps (nodeRefKey src)) = None \<and>
    acyclic (depsRel getDeps \<union> edgesFrom src es)"
proof (cases "es = []")
  case True
  with acyc show ?thesis by (simp add: validateEdgeAdd_def edgeShapeError_None)
next
  case False
  show ?thesis
  proof (cases "edgeShapeError src es res (getDeps (nodeRefKey src))")
    case None
    from collectStart_total [OF fin] obtain all where
      c: "collectNodes (depsWith src es getDeps)
          (foldl addIfNew (foldl addIfNew [src] es) (getDeps (nodeRefKey src)))
          (foldl addIfNew (foldl addIfNew [src] es) (getDeps (nodeRefKey src))) = Some all"
      and all: "distinct (map nodeRefKey all)" "nodeRefKey src \<in> refKeys all"
        "closedUnder (depsWith src es getDeps) (refKeys all)" by auto
    have "cycle_paths (detectCycles all
        (\<lambda>ref. map_getOr (buildTempDeps (depsWith src es getDeps) all) (nodeRefKey ref) []) nodeRefKey) = []
      \<longleftrightarrow> acyclic (depsRel getDeps \<union> edgesFrom src es)"
      unfolding cycle_paths_Nil_iff [OF all(1)] tempDeps_edges [OF all(1,3)]
      by (rule acyclic_restrict_iff [OF acyc all(3,2)])
    then show ?thesis
      unfolding validateEdgeAdd_unfold [where src = src and es = es and res = res and getDeps = getDeps, OF False None c] by (auto simp: None split: list.splits)
  next
    case (Some e)
    with False show ?thesis by (simp add: validateEdgeAdd_def Let_def)
  qed
qed

lemma cycle_error_is_cycle:
  assumes fin: "finite U" "closedUnder (depsWith src es getDeps) U" "nodeRefKey src \<in> U"
    and err: "validateEdgeAdd src es res getDeps = Some (Some (DependencyCycle p))"
  shows "2 \<le> length p \<and> nodeRefKey (hd p) = nodeRefKey (last p) \<and>
    (\<forall>i. Suc i < length p \<longrightarrow>
       (nodeRefKey (p ! i), nodeRefKey (p ! Suc i)) \<in> depsRel getDeps \<union> edgesFrom src es)"
proof -
  have ne: "es \<noteq> []" using err by (auto simp: validateEdgeAdd_def)
  have shape: "edgeShapeError src es res (getDeps (nodeRefKey src)) = None"
    using err ne by (auto simp: validateEdgeAdd_def Let_def edgeShapeError_def split: option.splits)
  from collectStart_total [OF fin] obtain all where
    c: "collectNodes (depsWith src es getDeps)
        (foldl addIfNew (foldl addIfNew [src] es) (getDeps (nodeRefKey src)))
        (foldl addIfNew (foldl addIfNew [src] es) (getDeps (nodeRefKey src))) = Some all"
    and all: "distinct (map nodeRefKey all)" "closedUnder (depsWith src es getDeps) (refKeys all)"
    by auto
  let ?gd = "\<lambda>ref. map_getOr (buildTempDeps (depsWith src es getDeps) all) (nodeRefKey ref) []"
  have "p \<in> set (cycle_paths (detectCycles all ?gd nodeRefKey))"
    using err unfolding validateEdgeAdd_unfold [where src = src and es = es and res = res and getDeps = getDeps, OF ne shape c] by (auto split: list.splits)
  from cycle_paths_cycles [OF all(1) this]
  have p: "set p \<subseteq> set all" "closed_path (nodeDeps ?gd nodeRefKey all) (map nodeRefKey p)"
    by (auto simp: graph_cycle_def)
  have "(nodeRefKey (p ! i), nodeRefKey (p ! Suc i)) \<in> depsRel getDeps \<union> edgesFrom src es"
    if i: "Suc i < length p" for i
  proof -
    have "p ! i \<in> set all" using p(1) i by (meson Suc_lessD nth_mem subsetD)
    moreover have "nodeRefKey (p ! Suc i) \<in> set (nodeDeps ?gd nodeRefKey all (nodeRefKey (p ! i)))"
      using p(2) i by (auto simp: closed_path_def successively_conv_nth)
    ultimately have "(nodeRefKey (p ! i), nodeRefKey (p ! Suc i)) \<in> depEdges ?gd nodeRefKey all"
      by (simp add: dep_rel_def)
    then show ?thesis
      unfolding tempDeps_edges [OF all] by (auto simp: depsWith_def split: if_splits)
  qed
  moreover have "p \<noteq> []" using p(2) by (auto simp: closed_path_def)
  ultimately show ?thesis using p(2) by (simp add: closed_path_def hd_map last_map)
qed

lemma finite_closedUnder:
  assumes "finite {k. getDeps k \<noteq> []}"
  shows "\<exists>U. finite U \<and> closedUnder (depsWith src es getDeps) U \<and> nodeRefKey src \<in> U"
proof -
  let ?D = "{k. getDeps k \<noteq> []}"
  let ?U = "insert (nodeRefKey src) (refKeys es \<union> (\<Union>k \<in> ?D. refKeys (getDeps k)))"
  have "refKeys (getDeps k) \<subseteq> ?U" for k
    by (cases "getDeps k = []") auto
  then have "closedUnder (depsWith src es getDeps) ?U"
    by (auto simp: closedUnder_def depsWith_def)
  moreover have "finite ?U" using assms by simp
  ultimately show ?thesis by blast
qed

subsection \<open>Properties\<close>


definition ex_graph :: "string \<Rightarrow> workNodeRef list" where
  "ex_graph k = (if k = ''change:p/b'' then [ChangeNode ''p'' ''c''] else [])"

lemma ex_graph_facts:
  "finite {k. ex_graph k \<noteq> []}" "depsRel ex_graph = {(''change:p/b'', ''change:p/c'')}"
  by (auto simp: ex_graph_def)


text \<open>
  A reported dependency cycle is real: the error of the last check carries a path of at
  least two nodes that starts and ends at the same key and follows, step by step, a recorded
  dependency or one of the edges being added.
\<close>

theorem validateEdgeAdd_cycle_is_real:
  assumes "finite {k. getDeps k \<noteq> []}"
    and "validateEdgeAdd src es res getDeps = Some (Some (DependencyCycle p))"
  shows "2 \<le> length p \<and> nodeRefKey (hd p) = nodeRefKey (last p) \<and>
    (\<forall>i. Suc i < length p \<longrightarrow>
       (nodeRefKey (p ! i), nodeRefKey (p ! Suc i)) \<in> depsRel getDeps \<union> edgesFrom src es)"
proof -
  obtain U where U: "finite U" "closedUnder (depsWith src es getDeps) U" "nodeRefKey src \<in> U"
    using finite_closedUnder [OF assms(1)] by blast
  show ?thesis by (rule cycle_error_is_cycle [OF U assms(2)])
qed

theorem validateEdgeAdd_cycle_is_real_witness:
  "validateEdgeAdd (ChangeNode ''p'' ''c'') [ChangeNode ''p'' ''b''] {''change:p/b''} ex_graph
     = Some (Some (DependencyCycle
         [ChangeNode ''p'' ''c'', ChangeNode ''p'' ''b'', ChangeNode ''p'' ''c''])) \<and>
   (nodeRefKey (ChangeNode ''p'' ''b''), nodeRefKey (ChangeNode ''p'' ''c''))
     \<in> depsRel ex_graph \<union> edgesFrom (ChangeNode ''p'' ''c'') [ChangeNode ''p'' ''b'']"
proof -
  have v: "validateEdgeAdd (ChangeNode ''p'' ''c'') [ChangeNode ''p'' ''b''] {''change:p/b''} ex_graph
     = Some (Some (DependencyCycle
         [ChangeNode ''p'' ''c'', ChangeNode ''p'' ''b'', ChangeNode ''p'' ''c'']))"
    by code_simp
  have "\<forall>i. Suc i < 3 \<longrightarrow>
      (nodeRefKey ([ChangeNode ''p'' ''c'', ChangeNode ''p'' ''b'', ChangeNode ''p'' ''c''] ! i),
       nodeRefKey ([ChangeNode ''p'' ''c'', ChangeNode ''p'' ''b'', ChangeNode ''p'' ''c''] ! Suc i))
      \<in> depsRel ex_graph \<union> edgesFrom (ChangeNode ''p'' ''c'') [ChangeNode ''p'' ''b'']"
    using validateEdgeAdd_cycle_is_real [OF ex_graph_facts(1) v] by simp
  from spec [OF this, of 1] v show ?thesis by simp
qed

text \<open>
  The graphs that accepted additions build, starting from no recorded dependency, whatever the
  set of resolvable nodes is at each step.
\<close>

definition addEdges ::
  "(string \<Rightarrow> workNodeRef list) \<Rightarrow> workNodeRef \<Rightarrow> workNodeRef list \<Rightarrow> string \<Rightarrow> workNodeRef list" where
  "addEdges getDeps src es = getDeps(nodeRefKey src := getDeps (nodeRefKey src) @ es)"

inductive grown_graph :: "(string \<Rightarrow> workNodeRef list) \<Rightarrow> bool" where
  empty_graph: "grown_graph (\<lambda>_. [])"
| add_accepted: "grown_graph g \<Longrightarrow> validateEdgeAdd src es res g = Some None \<Longrightarrow>
     grown_graph (addEdges g src es)"

lemma depsRel_addEdges: "depsRel (addEdges g src es) = depsRel g \<union> edgesFrom src es"
  by (auto simp: addEdges_def split: if_splits)

text \<open>
  The invariant the check maintains: every dependency graph grown by accepted additions
  is finite and acyclic, no node depends on itself, and no node lists the same dependency twice.
\<close>

theorem grown_graph_acyclic:
  assumes "grown_graph g"
  shows "finite {k. g k \<noteq> []} \<and> acyclic (depsRel g) \<and>
    (\<forall>k. distinct (map nodeRefKey (g k)) \<and> k \<notin> refKeys (g k))"
  using assms
proof (induction rule: grown_graph.induct)
  case empty_graph
  then show ?case by simp
next
  case (add_accepted g src es res)
  then have fin: "finite {k. g k \<noteq> []}" and acyc: "acyclic (depsRel g)" by auto
  obtain U where U: "finite U" "closedUnder (depsWith src es g) U" "nodeRefKey src \<in> U"
    using finite_closedUnder [OF fin] by blast
  have ok: "nodeRefKey src \<notin> refKeys es \<and> distinct (map nodeRefKey es) \<and>
      refKeys es \<inter> refKeys (g (nodeRefKey src)) = {} \<and> acyclic (depsRel g \<union> edgesFrom src es)"
    using add_accepted.hyps(2) validateEdgeAdd_None_iff [OF U acyc, of res]
    by (simp add: edgeShapeError_None)
  have "{k. addEdges g src es k \<noteq> []} \<subseteq> insert (nodeRefKey src) {k. g k \<noteq> []}"
    by (auto simp: addEdges_def)
  with fin have "finite {k. addEdges g src es k \<noteq> []}" by (auto intro: finite_subset)
  moreover have "acyclic (depsRel (addEdges g src es))"
    unfolding depsRel_addEdges using ok by simp
  moreover have "distinct (map nodeRefKey (addEdges g src es k)) \<and> k \<notin> refKeys (addEdges g src es k)" for k
    using ok add_accepted.IH by (auto simp: addEdges_def)
  ultimately show ?case by blast
qed

theorem grown_graph_acyclic_witness:
  "grown_graph (addEdges (\<lambda>_. []) (ChangeNode ''p'' ''b'') [ChangeNode ''p'' ''c'']) \<and>
   acyclic (depsRel (addEdges (\<lambda>_. []) (ChangeNode ''p'' ''b'') [ChangeNode ''p'' ''c'']))"
proof -
  have "validateEdgeAdd (ChangeNode ''p'' ''b'') [ChangeNode ''p'' ''c''] {''change:p/c''} (\<lambda>_. []) = Some None"
    by code_simp
  then have g: "grown_graph (addEdges (\<lambda>_. []) (ChangeNode ''p'' ''b'') [ChangeNode ''p'' ''c''])"
    by (rule grown_graph.add_accepted [OF grown_graph.empty_graph])
  then show ?thesis using grown_graph_acyclic [OF g] by blast
qed

text \<open>
  Node keys identify nodes whose first identifier has no slash in it, but not every
  node the schema admits: an Epic identifier is any nonempty string, and two different entries
  of two such Epics can share a key.
\<close>

theorem nodeRefKey_identifies:
  "inj_on nodeRefKey {ref. slashFree ref} \<and>
   nodeRefKey (EpicEntry ''x/y'' ''z'') = nodeRefKey (EpicEntry ''x'' ''y/z'') \<and>
   refEquals (EpicEntry ''x/y'' ''z'') (EpicEntry ''x'' ''y/z'')"
  by (auto simp: refEquals_def intro!: inj_onI nodeRefKey_inj)

end
