(* ===== verification/Change_Types.thy ===== *)
theory Change_Types
  imports Prelude
begin

text \<open>
  The status vocabulary of changes that several components share
  (\<^verbatim>\<open>plugin/src/types/changes.ts\<close>), with the normalization applied to stored values.
\<close>

datatype change_status = Draft | Archived | Closed
datatype lifecycle_state = LcOpen | LcArchived | LcClosed

text \<open>\<^verbatim>\<open>ChangeStatusSchema\<close> on a stored string, after legacy normalization.\<close>

definition normalizeLegacyChangeStatus :: "string \<Rightarrow> string" where
  "normalizeLegacyChangeStatus status =
     (if status = ''active'' \<or> status = ''pending'' then ''draft'' else status)"

definition parseChangeStatus :: "string \<Rightarrow> change_status option" where
  "parseChangeStatus s =
     (if s = ''draft'' then Some Draft
      else if s = ''archived'' then Some Archived
      else if s = ''closed'' then Some Closed
      else None)"

fun showChangeStatus :: "change_status \<Rightarrow> string" where
  "showChangeStatus Draft = ''draft''"
| "showChangeStatus Archived = ''archived''"
| "showChangeStatus Closed = ''closed''"

lemma parse_show_status [simp]:
  "parseChangeStatus (normalizeLegacyChangeStatus (showChangeStatus s)) = Some s"
  by (cases s) (auto simp: parseChangeStatus_def normalizeLegacyChangeStatus_def)

text \<open>Either field may say that a change is terminal.\<close>

definition isTerminalChange :: "change_status \<Rightarrow> lifecycle_state option \<Rightarrow> bool" where
  "isTerminalChange status lifecycle \<longleftrightarrow>
     status = Archived \<or> status = Closed \<or> lifecycle = Some LcArchived \<or> lifecycle = Some LcClosed"

end
