(* ===== verification/D3_Enforcement.thy ===== *)
theory D3_Enforcement
  imports Work_Graph Change_Types
begin

text \<open>
  Mutation-time enforcement of the work graph (\<^verbatim>\<open>plugin/src/validator/work-graph-enforcement.ts\<close>):
  the three enforcers, the context they consult, and the context built from the store.  The
  store is an argument of the code; what its \<^verbatim>\<open>list\<close> and \<^verbatim>\<open>get\<close> calls returned is the record
  \<open>d3_store\<close>.  The locale \<open>d3_context_ok\<close> is the contract the enforcers rely on; the context built
  from any store keeps it.
\<close>

subsection \<open>Context and enforcers\<close>

datatype terminality = Terminal | Nonterminal | Unresolved

record d3_context =
  resolveTerminal :: "workNodeRef \<Rightarrow> terminality"
  ctxGetDeps :: "string \<Rightarrow> workNodeRef list"
  resolvableNodeKeys :: "string set"

datatype d3_error =
    EdgeError edgeError
  | ShellPrereqNonterminal "workNodeRef list"
  | DepPrereqNonterminal "workNodeRef list"

datatype d3_result = D3_ok | D3_error d3_error

definition checkNonterminalPrereqs :: "workNodeRef list \<Rightarrow> d3_context \<Rightarrow> workNodeRef list" where
  "checkNonterminalPrereqs prereqs ctx =
     filter (\<lambda>p. resolveTerminal ctx p = Nonterminal \<or> resolveTerminal ctx p = Unresolved) prereqs"

text \<open>The outer option is \<open>None\<close> where the edge check does not return.\<close>

definition enforceD3ForShellAdd ::
  "workNodeRef \<Rightarrow> workNodeRef list \<Rightarrow> d3_context \<Rightarrow> d3_result option" where
  "enforceD3ForShellAdd sourceRef blockedBy ctx =
     (if blockedBy \<noteq> []
      then (case validateEdgeAdd sourceRef blockedBy (resolvableNodeKeys ctx) (ctxGetDeps ctx) of
              None \<Rightarrow> None
            | Some (Some e) \<Rightarrow> Some (D3_error (EdgeError e))
            | Some None \<Rightarrow> Some D3_ok)
      else Some D3_ok)"

definition enforceD3ForShellPromote :: "workNodeRef list \<Rightarrow> d3_context \<Rightarrow> d3_result" where
  "enforceD3ForShellPromote blockedBy ctx =
     (let blocking = checkNonterminalPrereqs blockedBy ctx
      in if blocking \<noteq> [] then D3_error (ShellPrereqNonterminal blocking) else D3_ok)"

definition enforceD3ForChangeCreate ::
  "workNodeRef \<Rightarrow> workNodeRef list \<Rightarrow> d3_context \<Rightarrow> d3_result option" where
  "enforceD3ForChangeCreate sourceRef sameProjectDeps ctx =
     (let step2 = (let blocking = checkNonterminalPrereqs sameProjectDeps ctx
                   in if blocking \<noteq> [] then D3_error (DepPrereqNonterminal blocking) else D3_ok)
      in if sameProjectDeps \<noteq> []
         then (case validateEdgeAdd sourceRef sameProjectDeps (resolvableNodeKeys ctx) (ctxGetDeps ctx) of
                 None \<Rightarrow> None
               | Some (Some e) \<Rightarrow> Some (D3_error (EdgeError e))
               | Some None \<Rightarrow> Some step2)
         else Some step2)"

subsection \<open>The context built from the store\<close>

record d3_change =
  dc_id :: string
  dc_status :: change_status
  dc_lifecycle :: "lifecycle_state option"
  dc_project :: "string option"
  dc_deps :: "workNodeRef list option"

datatype d3_entry =
    D3Shell string "workNodeRef list option"   \<comment> \<open>\<^verbatim>\<open>entry_id\<close>, \<^verbatim>\<open>blocked_by\<close>\<close>
  | D3Change string "string option"            \<comment> \<open>\<^verbatim>\<open>entry_id\<close>, \<^verbatim>\<open>terminal_summary?.status\<close>\<close>

record d3_epic =
  de_id :: string
  de_entries :: "d3_entry list option"

text \<open>What the store's calls return: \<open>None\<close> for a \<^verbatim>\<open>list\<close> that is not a function.\<close>

record d3_store =
  st_changeIds :: "string list option"
  st_getChange :: "string \<Rightarrow> d3_change option"
  st_epics :: "d3_epic list option"
  st_external :: "string option"
  st_root :: "string option"

record loaded_node =
  ln_key :: string
  ln_terminal :: bool
  ln_deps :: "workNodeRef list"

definition basename :: "string \<Rightarrow> string" where
  "basename s = rev (takeWhile (\<lambda>c. c \<noteq> CHR ''/'') (dropWhile (\<lambda>c. c = CHR ''/'') (rev s)))"

definition inferredProjectId :: "d3_store \<Rightarrow> string" where
  "inferredProjectId st = (case st_external st of Some p \<Rightarrow> p
     | None \<Rightarrow> (case st_root st of Some p \<Rightarrow> p | None \<Rightarrow> []))"

definition loadChange :: "d3_store \<Rightarrow> d3_change \<Rightarrow> loaded_node" where
  "loadChange st c =
     (let inferred = inferredProjectId st;
          projectId = (case dc_project c of Some p \<Rightarrow> p
            | None \<Rightarrow> if inferred \<noteq> [] then basename inferred else [])
      in \<lparr>ln_key = nodeRefKey (ChangeNode projectId (dc_id c)),
          ln_terminal = isTerminalChange (dc_status c) (dc_lifecycle c),
          ln_deps = (case dc_deps c of Some ds \<Rightarrow> ds | None \<Rightarrow> [])\<rparr>)"

definition loadedChanges :: "d3_store \<Rightarrow> loaded_node list" where
  "loadedChanges st = List.map_filter (\<lambda>i. map_option (loadChange st) (st_getChange st i))
     (case st_changeIds st of Some ids \<Rightarrow> ids | None \<Rightarrow> [])"

fun loadEntry :: "string \<Rightarrow> d3_entry \<Rightarrow> loaded_node" where
  "loadEntry epicId (D3Shell entryId blockedBy) =
     \<lparr>ln_key = nodeRefKey (EpicEntry epicId entryId), ln_terminal = False,
      ln_deps = (case blockedBy of Some ds \<Rightarrow> ds | None \<Rightarrow> [])\<rparr>"
| "loadEntry epicId (D3Change entryId summaryStatus) =
     \<lparr>ln_key = nodeRefKey (EpicEntry epicId entryId), ln_terminal = (summaryStatus \<noteq> None),
      ln_deps = []\<rparr>"

definition loadedEntries :: "d3_store \<Rightarrow> loaded_node list" where
  "loadedEntries st = concat (map (\<lambda>e. map (loadEntry (de_id e))
       (case de_entries e of Some es \<Rightarrow> es | None \<Rightarrow> []))
     (case st_epics st of Some es \<Rightarrow> es | None \<Rightarrow> []))"

definition allDeps :: "loaded_node list \<Rightarrow> (string \<times> workNodeRef list) list" where
  "allDeps nodes = foldl (\<lambda>m n. map_set (ln_key n) (ln_deps n) m) [] nodes"

definition buildD3ContextFromStore :: "d3_store \<Rightarrow> d3_context" where
  "buildD3ContextFromStore st =
     (let nodes = loadedChanges st @ loadedEntries st;
          keys = set (map ln_key nodes);
          deps = allDeps nodes
      in \<lparr>resolveTerminal = (\<lambda>ref.
            if nodeRefKey ref \<notin> keys then Unresolved
            else case List.find (\<lambda>n. ln_key n = nodeRefKey ref) nodes of
                   Some n \<Rightarrow> if ln_terminal n then Terminal else Nonterminal
                 | None \<Rightarrow> Unresolved),
          ctxGetDeps = (\<lambda>key. map_getOr deps key []),
          resolvableNodeKeys = keys\<rparr>)"

subsection \<open>The contract of a context\<close>

locale d3_context_ok =
  fixes ctx :: d3_context
  assumes finite_deps: "finite {k. ctxGetDeps ctx k \<noteq> []}"
    and unresolved_iff: "resolveTerminal ctx ref = Unresolved \<longleftrightarrow> nodeRefKey ref \<notin> resolvableNodeKeys ctx"
begin

lemmas finite_closed = finite_closedUnder [OF finite_deps]

lemma blocking_Nil_iff:
  "checkNonterminalPrereqs ps ctx = [] \<longleftrightarrow> (\<forall>p \<in> set ps. resolveTerminal ctx p = Terminal)"
  unfolding checkNonterminalPrereqs_def filter_empty_conv by (metis terminality.exhaust terminality.distinct)

lemma changeCreate_returns: "\<exists>r. enforceD3ForChangeCreate src deps ctx = Some r"
proof -
  obtain U where "finite U" "closedUnder (depsWith src deps (ctxGetDeps ctx)) U" "nodeRefKey src \<in> U"
    using finite_closed by blast
  from validateEdgeAdd_total [OF this, of "resolvableNodeKeys ctx"] show ?thesis
    by (auto simp: enforceD3ForChangeCreate_def Let_def split: option.splits)
qed

lemma changeCreate_ok_iff:
  assumes "acyclic (depsRel (ctxGetDeps ctx))"
  shows "enforceD3ForChangeCreate src deps ctx = Some D3_ok \<longleftrightarrow>
    edgeShapeError src deps (resolvableNodeKeys ctx) (ctxGetDeps ctx (nodeRefKey src)) = None \<and>
    acyclic (depsRel (ctxGetDeps ctx) \<union> edgesFrom src deps) \<and>
    (\<forall>d \<in> set deps. resolveTerminal ctx d = Terminal)"
proof (cases "deps = []")
  case True
  with assms show ?thesis
    by (simp add: enforceD3ForChangeCreate_def edgeShapeError_None checkNonterminalPrereqs_def)
next
  case False
  obtain U where U: "finite U" "closedUnder (depsWith src deps (ctxGetDeps ctx)) U" "nodeRefKey src \<in> U"
    using finite_closed by blast
  obtain r where r: "validateEdgeAdd src deps (resolvableNodeKeys ctx) (ctxGetDeps ctx) = Some r"
    using validateEdgeAdd_total [OF U] by blast
  note iff = validateEdgeAdd_None_iff [OF U assms, of "resolvableNodeKeys ctx"]
  show ?thesis
  proof (cases r)
    case None
    with r iff False show ?thesis
      by (auto simp: enforceD3ForChangeCreate_def Let_def blocking_Nil_iff)
  next
    case (Some e)
    with r iff False show ?thesis by (auto simp: enforceD3ForChangeCreate_def Let_def)
  qed
qed

lemma shellAdd_ok_iff:
  assumes "acyclic (depsRel (ctxGetDeps ctx))"
  shows "enforceD3ForShellAdd src deps ctx = Some D3_ok \<longleftrightarrow>
    edgeShapeError src deps (resolvableNodeKeys ctx) (ctxGetDeps ctx (nodeRefKey src)) = None \<and>
    acyclic (depsRel (ctxGetDeps ctx) \<union> edgesFrom src deps)"
proof (cases "deps = []")
  case True
  with assms show ?thesis by (simp add: enforceD3ForShellAdd_def edgeShapeError_None)
next
  case False
  obtain U where U: "finite U" "closedUnder (depsWith src deps (ctxGetDeps ctx)) U" "nodeRefKey src \<in> U"
    using finite_closed by blast
  obtain r where r: "validateEdgeAdd src deps (resolvableNodeKeys ctx) (ctxGetDeps ctx) = Some r"
    using validateEdgeAdd_total [OF U] by blast
  note iff = validateEdgeAdd_None_iff [OF U assms, of "resolvableNodeKeys ctx"]
  with r False show ?thesis by (cases r) (auto simp: enforceD3ForShellAdd_def)
qed

end

lemma allDeps_get:
  "map_getOr (allDeps nodes) k [] \<noteq> [] \<Longrightarrow> k \<in> ln_key ` set nodes"
proof -
  have "map_getOr (foldl (\<lambda>m n. map_set (ln_key n) (ln_deps n) m) m0 nodes) k [] \<noteq> [] \<Longrightarrow>
      k \<in> ln_key ` set nodes \<or> map_getOr m0 k [] \<noteq> []" for m0
    by (induction nodes arbitrary: m0) (fastforce split: if_splits)+
  from this [of "[]"] show "map_getOr (allDeps nodes) k [] \<noteq> [] \<Longrightarrow> k \<in> ln_key ` set nodes"
    by (simp add: allDeps_def)
qed

interpretation store_ctx: d3_context_ok "buildD3ContextFromStore st" for st
proof
  let ?nodes = "loadedChanges st @ loadedEntries st"
  show "finite {k. ctxGetDeps (buildD3ContextFromStore st) k \<noteq> []}"
    by (rule finite_subset [of _ "ln_key ` set ?nodes"])
      (auto simp: buildD3ContextFromStore_def Let_def dest: allDeps_get)
  fix ref
  show "resolveTerminal (buildD3ContextFromStore st) ref = Unresolved \<longleftrightarrow>
      nodeRefKey ref \<notin> resolvableNodeKeys (buildD3ContextFromStore st)"
    by (auto simp: buildD3ContextFromStore_def Let_def find_None_iff_all split: option.splits if_splits)
qed

subsection \<open>Properties\<close>

text \<open>
  Claim C7. Creating a change is refused exactly for a bad dependency list: with the context built
  from any store whose recorded dependencies are acyclic, \<open>enforceD3ForChangeCreate\<close> always
  returns, and it accepts exactly when no dependency is the change itself, none is repeated or
  already recorded, every one is a node of the store, the enlarged graph is still acyclic, and
  every dependency is terminal.
\<close>

theorem changeCreate_accepts_iff:
  fixes st src deps
  defines "ctx \<equiv> buildD3ContextFromStore st"
  assumes "acyclic (depsRel (ctxGetDeps ctx))"
  shows "(\<exists>r. enforceD3ForChangeCreate src deps ctx = Some r) \<and>
    (enforceD3ForChangeCreate src deps ctx = Some D3_ok \<longleftrightarrow>
      nodeRefKey src \<notin> refKeys deps \<and> distinct (map nodeRefKey deps) \<and>
      refKeys deps \<inter> refKeys (ctxGetDeps ctx (nodeRefKey src)) = {} \<and>
      refKeys deps \<subseteq> resolvableNodeKeys ctx \<and>
      acyclic (depsRel (ctxGetDeps ctx) \<union> edgesFrom src deps) \<and>
      (\<forall>d \<in> set deps. resolveTerminal ctx d = Terminal))"
  unfolding ctx_def
  using store_ctx.changeCreate_returns [where st = st] store_ctx.changeCreate_ok_iff [where st = st, OF assms(2) [unfolded ctx_def], of src deps]
  by (simp add: edgeShapeError_None conj_assoc)

definition ex_store :: d3_store where
  "ex_store = \<lparr>st_changeIds = Some [''a'', ''b''],
     st_getChange = (\<lambda>i. if i = ''a'' then Some \<lparr>dc_id = ''a'', dc_status = Archived,
         dc_lifecycle = None, dc_project = Some ''p'', dc_deps = None\<rparr>
       else if i = ''b'' then Some \<lparr>dc_id = ''b'', dc_status = Draft,
         dc_lifecycle = Some LcOpen, dc_project = None, dc_deps = None\<rparr>
       else None),
     st_epics = Some [\<lparr>de_id = ''e'', de_entries = Some [D3Shell ''s'' None]\<rparr>],
     st_external = Some ''/x/p/'', st_root = None\<rparr>"

theorem changeCreate_accepts_iff_witness:
  "acyclic (depsRel (ctxGetDeps (buildD3ContextFromStore ex_store))) \<and>
   enforceD3ForChangeCreate (ChangeNode ''p'' ''n'') [ChangeNode ''p'' ''a''] (buildD3ContextFromStore ex_store)
     = Some D3_ok \<and>
   enforceD3ForChangeCreate (ChangeNode ''p'' ''n'') [ChangeNode ''p'' ''b''] (buildD3ContextFromStore ex_store)
     \<noteq> Some D3_ok"
proof -
  let ?c = "buildD3ContextFromStore ex_store"
  have "allDeps (loadedChanges ex_store @ loadedEntries ex_store)
      = [(''change:p/a'', []), (''change:p/b'', []), (''epic_entry:e/s'', [])]"
    by code_simp
  then have none: "ctxGetDeps ?c k = []" for k
    by (simp add: buildD3ContextFromStore_def Let_def map_getOr_Cons)
  have a: "acyclic (depsRel (ctxGetDeps ?c))" by (simp add: none)
  have keys: "resolvableNodeKeys ?c = {''change:p/a'', ''change:p/b'', ''epic_entry:e/s''}"
    by code_simp
  have t: "resolveTerminal ?c (ChangeNode ''p'' ''a'') = Terminal"
    "resolveTerminal ?c (ChangeNode ''p'' ''b'') = Nonterminal" by code_simp+
  have ac: "acyclic (edgesFrom (ChangeNode ''p'' ''n'') [ChangeNode ''p'' ''a''])"
    by (simp add: acyclic_insert)
  show ?thesis
    using a changeCreate_accepts_iff [OF a, of "ChangeNode ''p'' ''n''" "[ChangeNode ''p'' ''a'']"]
      changeCreate_accepts_iff [OF a, of "ChangeNode ''p'' ''n''" "[ChangeNode ''p'' ''b'']"] ac
    by (simp add: none keys t)
qed

text \<open>
  Over the context of a store snapshot, promoting a shell passes exactly when each of
  its prerequisites is a loaded node that is terminal (the first loaded node with its key
  decides), and is refused otherwise with exactly the other prerequisites, in their order; a
  prerequisite that no loaded change or Epic entry has as its key blocks too.
\<close>

theorem shellPromote_blocks_nonterminal:
  "enforceD3ForShellPromote blockedBy (buildD3ContextFromStore st) =
     (let blocking = filter (\<lambda>p.
            \<not> (\<exists>n. List.find (\<lambda>n. ln_key n = nodeRefKey p) (loadedChanges st @ loadedEntries st) = Some n
                 \<and> ln_terminal n)) blockedBy
      in if blocking = [] then D3_ok else D3_error (ShellPrereqNonterminal blocking))"
proof -
  let ?c = "buildD3ContextFromStore st" and ?nodes = "loadedChanges st @ loadedEntries st"
  have unfind: "List.find (\<lambda>n. ln_key n = k) ?nodes = None" if "k \<notin> set (map ln_key ?nodes)" for k
    using that by (auto simp: find_None_iff)
  have t: "resolveTerminal ?c p = Terminal \<longleftrightarrow>
      (\<exists>n. List.find (\<lambda>n. ln_key n = nodeRefKey p) ?nodes = Some n \<and> ln_terminal n)" for p
  proof (cases "nodeRefKey p \<in> set (map ln_key ?nodes)")
    case True
    then show ?thesis
      by (cases "List.find (\<lambda>n. ln_key n = nodeRefKey p) ?nodes")
        (auto simp: buildD3ContextFromStore_def Let_def)
  next
    case False
    then show ?thesis
      using unfind [OF False] by (simp add: buildD3ContextFromStore_def Let_def)
  qed
  have "(resolveTerminal ?c p = Nonterminal \<or> resolveTerminal ?c p = Unresolved)
      = (resolveTerminal ?c p \<noteq> Terminal)" for p
    by (cases "resolveTerminal ?c p") auto
  then show ?thesis
    by (simp add: enforceD3ForShellPromote_def checkNonterminalPrereqs_def t Let_def)
qed

end
