(* ===== verification/Merge_Order.thy ===== *)
theory Merge_Order
  imports Cycle_Search "HOL-Library.Sublist"
begin

text \<open>
  The advisory merge order of archived changes (\<^verbatim>\<open>plugin/src/validator/merge-order.ts\<close>), the
  file-overlap scan over peer worktrees (\<^verbatim>\<open>plugin/src/validator/file-overlap.ts\<close>) and the list
  intersection they share (\<^verbatim>\<open>plugin/src/utils/file-intersection.ts\<close>).  The registry snapshot is
  an argument: \<open>None\<close> stands for an unavailable snapshot or an access that throws.  The entries of
  a \<^verbatim>\<open>Record\<close> are a list in the order \<^verbatim>\<open>Object.entries\<close> gives them; their keys are distinct
  because they are object keys.  \<^verbatim>\<open>localeCompare\<close> depends on the host's locale and is the
  argument \<open>lc\<close>.
\<close>

subsection \<open>Intersection of file lists\<close>

fun intersectGo :: "string list \<Rightarrow> string list \<Rightarrow> string list \<Rightarrow> string list \<Rightarrow> string list" where
  "intersectGo [] peer seen result = result"
| "intersectGo (p # ps) peer seen result =
     (if p \<in> set peer \<and> p \<notin> set seen then intersectGo ps peer (p # seen) (result @ [p])
      else intersectGo ps peer seen result)"

definition intersectFileLists :: "string list \<Rightarrow> string list \<Rightarrow> string list" where
  "intersectFileLists planned peer = intersectGo planned peer [] []"

lemma intersectGo_facts:
  "\<exists>new. intersectGo ps peer seen result = result @ new \<and> subseq new ps \<and> distinct new \<and>
     set new = (set ps \<inter> set peer) - set seen"
proof (induction ps peer seen result rule: intersectGo.induct)
  case (2 p ps peer seen result)
  show ?case
  proof (cases "p \<in> set peer \<and> p \<notin> set seen")
    case True
    with 2(1) obtain new where "intersectGo ps peer (p # seen) (result @ [p]) = (result @ [p]) @ new"
      "subseq new ps" "distinct new" "set new = (set ps \<inter> set peer) - set (p # seen)" by auto
    with True show ?thesis by (intro exI [of _ "p # new"]) auto
  next
    case False
    with 2(2) obtain new where "intersectGo ps peer seen result = result @ new"
      "subseq new ps" "distinct new" "set new = (set ps \<inter> set peer) - set seen" by blast
    with False show ?thesis by (intro exI [of _ new]) auto
  qed
qed simp

lemma intersectFileLists_facts:
  "subseq (intersectFileLists planned peer) planned \<and> distinct (intersectFileLists planned peer) \<and>
   set (intersectFileLists planned peer) = set planned \<inter> set peer"
  using intersectGo_facts [of planned peer "[]" "[]"] by (auto simp: intersectFileLists_def)

subsection \<open>Overlap with peer worktrees\<close>

record change_summary =
  sm_branch :: "string option"
  sm_status :: "string option"
  sm_touched :: "string list option"
  sm_archivedAt :: "string option"

record registry_entry =
  re_branch :: string
  re_path :: string
  re_changeId :: "string option"

record overlap_match =
  peerBranch :: string
  peerChangeId :: string
  overlappingFiles :: "string list"

record overlap_result =
  overlaps :: "overlap_match list"
  scannedPeers :: nat
  overlap_unavailable :: bool

type_synonym summaries = "(string \<times> change_summary) list"

definition touchedOf :: "change_summary \<Rightarrow> string list" where
  "touchedOf s = (case sm_touched s of Some fs \<Rightarrow> fs | None \<Rightarrow> [])"

text \<open>
  The change of a registry entry that is compared, with its files: entries of the current branch,
  without a change, without a summary or already archived are skipped.
\<close>

definition peerFiles ::
  "summaries \<Rightarrow> string option \<Rightarrow> registry_entry \<Rightarrow> (string \<times> string list) option" where
  "peerFiles sums currentBranch wt =
     (if truthy currentBranch \<and> currentBranch = Some (re_branch wt) then None
      else if \<not> truthy (re_changeId wt) then None
      else (case re_changeId wt of None \<Rightarrow> None
        | Some cid \<Rightarrow> (case map_of sums cid of None \<Rightarrow> None
            | Some s \<Rightarrow> if sm_status s = Some ''archived'' then None
                        else Some (cid, touchedOf s))))"

fun scanGo ::
  "summaries \<Rightarrow> string option \<Rightarrow> string list \<Rightarrow> registry_entry list \<Rightarrow> overlap_match list \<Rightarrow> nat
    \<Rightarrow> overlap_match list \<times> nat" where
  "scanGo sums cur planned [] acc n = (acc, n)"
| "scanGo sums cur planned (wt # wts) acc n = (case peerFiles sums cur wt of
      None \<Rightarrow> scanGo sums cur planned wts acc n
    | Some (cid, files) \<Rightarrow>
        (let inter = intersectFileLists planned files
         in scanGo sums cur planned wts
              (if inter \<noteq> []
               then acc @ [\<lparr>peerBranch = re_branch wt, peerChangeId = cid, overlappingFiles = inter\<rparr>]
               else acc)
              (Suc n)))"

definition scanFileOverlaps ::
  "string list \<Rightarrow> (registry_entry list \<times> summaries) option
    \<Rightarrow> (registry_entry list \<times> summaries) option \<Rightarrow> string option \<Rightarrow> overlap_result" where
  "scanFileOverlaps planned injected snapshot currentBranch =
     (case (case injected of Some x \<Rightarrow> Some x | None \<Rightarrow> snapshot) of
        None \<Rightarrow> \<lparr>overlaps = [], scannedPeers = 0, overlap_unavailable = True\<rparr>
      | Some (registry, sums) \<Rightarrow>
          (case scanGo sums currentBranch planned registry [] 0 of
             (os, n) \<Rightarrow> \<lparr>overlaps = os, scannedPeers = n, overlap_unavailable = False\<rparr>))"

lemma scanGo_eq:
  "scanGo sums cur planned wts acc n =
     (acc @ List.map_filter (\<lambda>wt. case peerFiles sums cur wt of None \<Rightarrow> None
        | Some (cid, files) \<Rightarrow> if set planned \<inter> set files = {} then None
            else Some \<lparr>peerBranch = re_branch wt, peerChangeId = cid,
                       overlappingFiles = intersectFileLists planned files\<rparr>) wts,
      n + length (filter (\<lambda>wt. peerFiles sums cur wt \<noteq> None) wts))"
proof (induction wts arbitrary: acc n)
  case (Cons wt wts)
  have "intersectFileLists planned files = [] \<longleftrightarrow> set planned \<inter> set files = {}" for files
    using intersectFileLists_facts [of planned files] by (metis set_empty)
  with Cons show ?case
    by (auto simp: List.map_filter_simps Let_def split: option.splits)
qed (simp add: List.map_filter_simps)

subsection \<open>Merge order\<close>

record archived_entry =
  ae_changeId :: string
  ae_branch :: string
  ae_touched :: "string list"
  ae_archivedAt :: string

record merge_entry =
  me_changeId :: string
  me_branch :: string
  me_touched :: "string list"
  me_dependsOn :: "string list"

record merge_result =
  mr_queue :: "merge_entry list"
  mr_cycles :: "string list list option"
  mr_unavailable :: bool

definition archivedEntries :: "summaries \<Rightarrow> archived_entry list" where
  "archivedEntries sums = map (\<lambda>(cid, v). \<lparr>ae_changeId = cid,
       ae_branch = (case sm_branch v of Some b \<Rightarrow> b | None \<Rightarrow> ''change/'' @ cid),
       ae_touched = touchedOf v,
       ae_archivedAt = (case sm_archivedAt v of Some t \<Rightarrow> t | None \<Rightarrow> [])\<rparr>)
     (filter (\<lambda>(cid, v). sm_status v = Some ''archived'') sums)"

definition archivedAtCmp :: "string comparator \<Rightarrow> archived_entry comparator" where
  "archivedAtCmp lc a b =
     (if ae_archivedAt a = [] \<and> ae_archivedAt b = [] then 0
      else if ae_archivedAt a = [] then 1
      else if ae_archivedAt b = [] then -1
      else lc (ae_archivedAt a) (ae_archivedAt b))"

definition filesOverlap :: "archived_entry \<Rightarrow> archived_entry \<Rightarrow> bool" where
  "filesOverlap later earlier = list_ex (\<lambda>f. f \<in> set (ae_touched earlier)) (ae_touched later)"

fun orderGraph ::
  "archived_entry list \<Rightarrow> archived_entry list \<Rightarrow> (string \<times> string list) list \<Rightarrow> (string \<times> string list) list" where
  "orderGraph earlier [] graph = graph"
| "orderGraph earlier (later # rest) graph =
     orderGraph (earlier @ [later]) rest
       (map_set (ae_changeId later)
         (mk_set (map ae_changeId (filter (filesOverlap later) earlier))) graph)"

definition mergeEntry :: "(string \<times> string list) list \<Rightarrow> archived_entry list \<Rightarrow> string \<Rightarrow> merge_entry option" where
  "mergeEntry graph es cid = map_option (\<lambda>e. \<lparr>me_changeId = ae_changeId e, me_branch = ae_branch e,
       me_touched = ae_touched e, me_dependsOn = map_getOr graph cid []\<rparr>)
     (List.find (\<lambda>e. ae_changeId e = cid) es)"

definition computeMergeOrder ::
  "string comparator \<Rightarrow> summaries option \<Rightarrow> summaries option \<Rightarrow> merge_result" where
  "computeMergeOrder lc injected snapshot =
     (case (case injected of Some s \<Rightarrow> Some s | None \<Rightarrow> snapshot) of
        None \<Rightarrow> \<lparr>mr_queue = [], mr_cycles = None, mr_unavailable = True\<rparr>
      | Some sums \<Rightarrow>
          (let es0 = archivedEntries sums
           in if es0 = [] then \<lparr>mr_queue = [], mr_cycles = None, mr_unavailable = False\<rparr>
              else let es = js_sort (archivedAtCmp lc) es0;
                       graph = orderGraph [] es [];
                       r = detectCycles (map ae_changeId es) (\<lambda>i. map_getOr graph i []) id
                   in \<lparr>mr_queue = List.map_filter (mergeEntry graph es) (sorted_nodes r),
                       mr_cycles = (if cycle_paths r \<noteq> [] then Some (cycle_paths r) else None),
                       mr_unavailable = False\<rparr>))"

subsection \<open>The order graph follows the archive order\<close>

lemma orderGraph_append:
  "orderGraph earlier (xs @ ys) g = orderGraph (earlier @ xs) ys (orderGraph earlier xs g)"
  by (induction xs arbitrary: earlier g) auto

lemma orderGraph_other:
  "k \<notin> ae_changeId ` set rest \<Longrightarrow> map_getOr (orderGraph earlier rest g) k [] = map_getOr g k []"
  by (induction rest arbitrary: earlier g) auto

lemma orderGraph_get:
  assumes "distinct (map ae_changeId es)" "es = xs @ e # ys"
  shows "map_getOr (orderGraph [] es []) (ae_changeId e) []
    = mk_set (map ae_changeId (filter (filesOverlap e) xs))"
  using assms by (auto simp: orderGraph_append orderGraph_other)

abbreviation orderDeps :: "archived_entry list \<Rightarrow> string \<Rightarrow> string list" where
  "orderDeps es \<equiv> (\<lambda>i. map_getOr (orderGraph [] es []) i [])"

lemma orderGraph_topo:
  assumes "distinct (map ae_changeId es)"
  shows "topo (orderDeps es) (map ae_changeId es)"
  unfolding topo_def
proof (intro allI impI)
  fix i assume i: "i < length (map ae_changeId es)"
  then have "es = take i es @ es ! i # drop (Suc i) es" by (simp add: id_take_nth_drop)
  from orderGraph_get [OF assms this] i
  show "set (orderDeps es (map ae_changeId es ! i)) \<subseteq> set (take i (map ae_changeId es))"
    by (auto simp: take_map)
qed

lemma orderGraph_nodeDeps:
  assumes "distinct (map ae_changeId es)" "k \<in> ae_changeId ` set es"
  shows "nodeDeps (orderDeps es) id (map ae_changeId es) k = orderDeps es k"
proof -
  have "set (orderDeps es k) \<subseteq> set (map ae_changeId es)"
    using topo_closed [OF orderGraph_topo [OF assms(1)]] assms(2) by simp
  then have "filter (\<lambda>x. x \<in> ae_changeId ` set es) (orderDeps es k) = orderDeps es k"
    by (intro filter_True) auto
  then show ?thesis
    using nodeDeps_key [of id "map ae_changeId es" k "orderDeps es"] assms
    by (simp add: resolveDepKeys_def)
qed

lemma orderGraph_distinct:
  "distinct (map ae_changeId es) \<Longrightarrow> k \<in> ae_changeId ` set es \<Longrightarrow> distinct (orderDeps es k)"
  by (auto dest!: split_list simp: orderGraph_get)

text \<open>The detector sorts all of the order graph and finds no cycle in it.\<close>

lemma orderGraph_sorted:
  assumes "distinct (map ae_changeId es)"
  defines "r \<equiv> detectCycles (map ae_changeId es) (orderDeps es) id"
  shows "cycle_paths r = []" "set (sorted_nodes r) = ae_changeId ` set es"
    "distinct (sorted_nodes r)" "topo (orderDeps es) (sorted_nodes r)"
proof -
  let ?ids = "map ae_changeId es"
  have d: "distinct (map id ?ids)" using assms by simp
  have deps: "nodeDeps (orderDeps es) id ?ids k = orderDeps es k" if "k \<in> set ?ids" for k
    using orderGraph_nodeDeps [OF assms(1)] that by simp
  have "topo (nodeDeps (orderDeps es) id ?ids) ?ids"
    using orderGraph_topo [OF assms(1)] deps unfolding topo_def by simp
  then have acyc: "acyclic (depEdges (orderDeps es) id ?ids)"
    using topo_acyclic by fastforce
  then show "cycle_paths r = []" unfolding r_def by (simp add: cycle_paths_Nil_iff [OF d])
  note keys = sorted_nodes_keys [OF d, of "orderDeps es", simplified list.map_id]
  have "distinct (map id (orderDeps es n))" if "n \<in> set ?ids" for n
    using orderGraph_distinct [OF assms(1)] that by simp
  from kahnSort_acyclic_full [OF d acyc this] show set: "set (sorted_nodes r) = ae_changeId ` set es"
    by (simp add: r_def keys)
  show "distinct (sorted_nodes r)" using kahnSort_topo(2) [OF d, where gd = "orderDeps es"]
    by (simp add: r_def keys)
  have "topo (nodeDeps (orderDeps es) id ?ids) (sorted_nodes r)"
    using kahnSort_topo(1) [OF d, where gd = "orderDeps es"] by (simp add: r_def keys)
  then show "topo (orderDeps es) (sorted_nodes r)"
    unfolding topo_def by (metis deps nth_mem set list.set_map)
qed

lemma distinct_archivedEntries:
  "distinct (map fst sums) \<Longrightarrow> distinct (map ae_changeId (archivedEntries sums))"
  by (induction sums) (auto simp: archivedEntries_def rev_image_eqI)

lemma set_archivedEntries_ids:
  "ae_changeId ` set (archivedEntries sums)
     = {cid. \<exists>v. (cid, v) \<in> set sums \<and> sm_status v = Some ''archived''}"
  by (force simp: archivedEntries_def)

lemma map_filter_mergeEntry:
  "set ids \<subseteq> ae_changeId ` set es \<Longrightarrow>
     map me_changeId (List.map_filter (mergeEntry g es) ids) = ids \<and>
     map me_dependsOn (List.map_filter (mergeEntry g es) ids) = map (\<lambda>i. map_getOr g i []) ids"
proof (induction ids)
  case (Cons i ids)
  then obtain e where "List.find (\<lambda>e. ae_changeId e = i) es = Some e"
    by (cases "List.find (\<lambda>e. ae_changeId e = i) es") (auto simp: find_None_iff_all)
  with Cons show ?case
    by (auto simp: List.map_filter_simps mergeEntry_def dest: find_Some_mem)
qed (simp add: List.map_filter_simps)

text \<open>The queue of a nonempty snapshot.\<close>

lemma mergeOrder_queue:
  fixes lc sums snap
  defines "es \<equiv> js_sort (archivedAtCmp lc) (archivedEntries sums)"
  assumes "distinct (map fst sums)"
  shows "mr_cycles (computeMergeOrder lc (Some sums) snap) = None \<and>
    distinct (map me_changeId (mr_queue (computeMergeOrder lc (Some sums) snap))) \<and>
    set (map me_changeId (mr_queue (computeMergeOrder lc (Some sums) snap))) = ae_changeId ` set es \<and>
    map me_dependsOn (mr_queue (computeMergeOrder lc (Some sums) snap))
      = map (orderDeps es) (map me_changeId (mr_queue (computeMergeOrder lc (Some sums) snap))) \<and>
    topo (orderDeps es) (map me_changeId (mr_queue (computeMergeOrder lc (Some sums) snap)))"
proof (cases "archivedEntries sums = []")
  case True
  then show ?thesis by (simp add: computeMergeOrder_def es_def)
next
  case False
  have "distinct (map ae_changeId es)"
    using distinct_archivedEntries [OF assms(2)] by (simp add: es_def)
  note s = orderGraph_sorted [OF this]
  have sub: "set (sorted_nodes (detectCycles (map ae_changeId es) (orderDeps es) id)) \<subseteq> ae_changeId ` set es"
    using s(2) by simp
  show ?thesis
    using False s map_filter_mergeEntry [OF sub, of "orderGraph [] es []"]
    by (simp add: computeMergeOrder_def Let_def es_def [symmetric])
qed

lemma archivedAtCmp_comparator: "comparator lc \<Longrightarrow> comparator (archivedAtCmp lc)"
proof
  assume lc: "comparator lc"
  show "archivedAtCmp lc x y \<le> 0 \<or> archivedAtCmp lc y x \<le> 0" for x y
    using comparator.cmp_swap [OF lc] by (auto simp: archivedAtCmp_def)
  show "archivedAtCmp lc x y \<le> 0 \<Longrightarrow> archivedAtCmp lc y z \<le> 0 \<Longrightarrow> archivedAtCmp lc x z \<le> 0" for x y z
    using comparator.cmp_trans [OF lc] by (auto simp: archivedAtCmp_def split: if_splits)
qed

interpretation archivedAt_by_code_unit: comparator "archivedAtCmp str_cmp"
  by (rule archivedAtCmp_comparator [OF str_cmp.comparator_axioms])

text \<open>In a topological order without repetition, a dependency of the element at a position precedes it.\<close>

lemma topo_before:
  assumes "topo deps xs" "i < length xs" "d \<in> set (deps (xs ! i))"
  shows "\<exists>j < i. xs ! j = d"
  using assms unfolding topo_def
  by (metis in_set_conv_nth length_take min_less_iff_conj nth_take subsetD)

subsection \<open>Properties\<close>

text \<open>
  Claim C15. The merge queue is complete and respects its own dependencies: for every snapshot of
  summaries, whatever the locale's string comparison does, \<open>computeMergeOrder\<close> reports no cycle,
  lists every archived change exactly once and nothing else, and every change an entry depends on
  stands earlier in the queue.  The cycle report is therefore never present, also when archive
  timestamps are equal.
\<close>

theorem computeMergeOrder_complete_and_ordered:
  fixes lc sums snap
  defines "r \<equiv> computeMergeOrder lc (Some sums) snap"
  assumes "distinct (map fst sums)"
  shows "mr_cycles r = None \<and> distinct (map me_changeId (mr_queue r)) \<and>
    me_changeId ` set (mr_queue r) = {cid. \<exists>v. (cid, v) \<in> set sums \<and> sm_status v = Some ''archived''} \<and>
    (\<forall>i < length (mr_queue r). \<forall>d \<in> set (me_dependsOn (mr_queue r ! i)).
       \<exists>j < i. me_changeId (mr_queue r ! j) = d)"
proof -
  let ?q = "mr_queue r" and ?es = "js_sort (archivedAtCmp lc) (archivedEntries sums)"
  note q = mergeOrder_queue [OF assms(2), of lc snap, folded r_def]
  have "\<exists>j < i. me_changeId (?q ! j) = d" if i: "i < length ?q" and d: "d \<in> set (me_dependsOn (?q ! i))" for i d
  proof -
    have "map me_dependsOn ?q ! i = map (orderDeps ?es) (map me_changeId ?q) ! i"
      using q by metis
    with i d have "d \<in> set (orderDeps ?es (map me_changeId ?q ! i))" by simp
    with topo_before [of "orderDeps ?es" "map me_changeId ?q" i d] q i show ?thesis by auto
  qed
  with q set_archivedEntries_ids [of sums] show ?thesis by auto
qed

definition ex_summaries :: summaries where
  "ex_summaries =
    [(''late'', \<lparr>sm_branch = None, sm_status = Some ''archived'', sm_touched = Some [''f'', ''g''],
        sm_archivedAt = Some ''2026-02''\<rparr>),
     (''open'', \<lparr>sm_branch = None, sm_status = Some ''draft'', sm_touched = Some [''f''],
        sm_archivedAt = None\<rparr>),
     (''early'', \<lparr>sm_branch = Some ''b'', sm_status = Some ''archived'', sm_touched = Some [''g''],
        sm_archivedAt = Some ''2026-01''\<rparr>)]"

theorem computeMergeOrder_complete_and_ordered_witness:
  "distinct (map fst ex_summaries) \<and>
   map me_changeId (mr_queue (computeMergeOrder str_cmp (Some ex_summaries) None)) = [''early'', ''late''] \<and>
   mr_cycles (computeMergeOrder str_cmp (Some ex_summaries) None) = None"
proof -
  have d: "distinct (map fst ex_summaries)" by code_simp
  have "map me_changeId (mr_queue (computeMergeOrder str_cmp (Some ex_summaries) None)) = [''early'', ''late'']"
    by code_simp
  with d computeMergeOrder_complete_and_ordered [OF d, of str_cmp None] show ?thesis by simp
qed

text \<open>
  Of two archived changes that touch a common file, the one archived strictly earlier
  is merged first: when the locale's comparison is a total preorder, it stands at a smaller
  position of the queue.  A missing timestamp counts as the latest.
\<close>

theorem computeMergeOrder_earlier_first:
  fixes lc sums snap
  defines "r \<equiv> computeMergeOrder lc (Some sums) snap"
  assumes "comparator lc" and "distinct (map fst sums)"
    and "a \<in> set (archivedEntries sums)" "b \<in> set (archivedEntries sums)"
    and "filesOverlap b a" and "\<not> archivedAtCmp lc b a \<le> 0"
  shows "\<exists>i j. i < j \<and> j < length (mr_queue r) \<and>
    me_changeId (mr_queue r ! i) = ae_changeId a \<and> me_changeId (mr_queue r ! j) = ae_changeId b"
proof -
  let ?q = "mr_queue r" and ?es = "js_sort (archivedAtCmp lc) (archivedEntries sums)"
  note q = mergeOrder_queue [OF assms(3), of lc snap, folded r_def]
  have dist: "distinct (map ae_changeId ?es)" using distinct_archivedEntries [OF assms(3)] by simp
  have "b \<in> set ?es" using assms(5) by simp
  then obtain xs ys where es: "?es = xs @ b # ys" by (meson split_list)
  have "sorted_wrt (\<lambda>x y. archivedAtCmp lc x y \<le> 0) ?es"
    using comparator.sorted_js_sort [OF archivedAtCmp_comparator [OF assms(2)]] .
  with es have "\<forall>y \<in> set ys. archivedAtCmp lc b y \<le> 0" by (simp add: sorted_wrt_append)
  with assms(7) have "a \<notin> set ys" by auto
  moreover have "a \<noteq> b"
    using assms(7) comparator.cmp_swap [OF archivedAtCmp_comparator [OF assms(2)], of a a] by auto
  moreover have "a \<in> set ?es" using assms(4) by simp
  ultimately have "a \<in> set xs" unfolding es by auto
  with orderGraph_get [OF dist es] assms(6) have a: "ae_changeId a \<in> set (orderDeps ?es (ae_changeId b))"
    by auto
  have "ae_changeId b \<in> me_changeId ` set ?q" using q \<open>b \<in> set ?es\<close> by auto
  then obtain j where j: "j < length ?q" "me_changeId (?q ! j) = ae_changeId b"
    by (metis in_set_conv_nth image_iff)
  with topo_before [of "orderDeps ?es" "map me_changeId ?q" j "ae_changeId a"] q a
  obtain i where "i < j" "map me_changeId ?q ! i = ae_changeId a" by auto
  with j show ?thesis by auto
qed

theorem computeMergeOrder_earlier_first_witness:
  "\<exists>i j. i < j \<and> j < length (mr_queue (computeMergeOrder str_cmp (Some ex_summaries) None)) \<and>
    me_changeId (mr_queue (computeMergeOrder str_cmp (Some ex_summaries) None) ! i) = ''early'' \<and>
    me_changeId (mr_queue (computeMergeOrder str_cmp (Some ex_summaries) None) ! j) = ''late''"
proof -
  let ?a = "\<lparr>ae_changeId = ''early'', ae_branch = ''b'', ae_touched = [''g''], ae_archivedAt = ''2026-01''\<rparr>"
  let ?b = "\<lparr>ae_changeId = ''late'', ae_branch = ''change/late'', ae_touched = [''f'', ''g''], ae_archivedAt = ''2026-02''\<rparr>"
  have "distinct (map fst ex_summaries)" "?a \<in> set (archivedEntries ex_summaries)"
    "?b \<in> set (archivedEntries ex_summaries)" "filesOverlap ?b ?a" "\<not> archivedAtCmp str_cmp ?b ?a \<le> 0"
    by code_simp+
  from computeMergeOrder_earlier_first [OF str_cmp.comparator_axioms this, of None]
  show ?thesis by simp
qed

text \<open>
  The overlap scan reports exactly the compared peers that share a planned file, in
  registry order, each with the shared files once each in planned order, and counts every
  compared peer, overlapping or not.
\<close>

theorem scanFileOverlaps_spec:
  fixes planned registry sums snapshot cur
  defines "r \<equiv> scanFileOverlaps planned (Some (registry, sums)) snapshot cur"
  shows "overlaps r = List.map_filter (\<lambda>wt. case peerFiles sums cur wt of None \<Rightarrow> None
        | Some (cid, files) \<Rightarrow> if set planned \<inter> set files = {} then None
            else Some \<lparr>peerBranch = re_branch wt, peerChangeId = cid,
                       overlappingFiles = intersectFileLists planned files\<rparr>) registry \<and>
    scannedPeers r = length (filter (\<lambda>wt. peerFiles sums cur wt \<noteq> None) registry) \<and>
    (\<forall>files. subseq (intersectFileLists planned files) planned \<and>
       distinct (intersectFileLists planned files) \<and>
       set (intersectFileLists planned files) = set planned \<inter> set files)"
  using intersectFileLists_facts [of planned]
  by (simp add: r_def scanFileOverlaps_def scanGo_eq)

end
