(* ===== verification/Resume_Projection.thy ===== *)
theory Resume_Projection
  imports Cycle_Search Work_Graph Change_Types Complex_Main
begin

text \<open>
  The resume projection (\<^verbatim>\<open>plugin/src/projection/resume-projection.ts\<close>): the pure kernel that
  turns changes and Epics into the lists "actionable", "blocked" and "active" and the single
  next node.  Ranks are rationals because one of them is a half step.  An internal node is
  pushed with its own reference object, so the redirects whose blocked node is that object are
  the ones pushed while the node itself is classified; \<open>classifyNode\<close> carries them as the
  node's own redirects.
\<close>

subsection \<open>Inputs\<close>

record membership =
  mb_epic_id :: string
  mb_entry_id :: string
  mb_order :: int

record change_node_input =
  cn_id :: string
  cn_title :: string
  cn_status :: change_status
  cn_lifecycle :: lifecycle_state
  cn_deps :: "workNodeRef list"
  cn_inProgress :: bool
  cn_membership :: "membership option"

text \<open>A shell carries its identifier, order, title, hint and blockers; a change entry its
  identifier, order, title and change.\<close>

datatype epic_entry_input =
    ShellEntry string int string "string option" "workNodeRef list"
  | ChangeEntry string int string string

record epic_node_input =
  ep_id :: string
  ep_title :: string
  ep_entries :: "epic_entry_input list"

record resume_scope =
  rs_project_id :: string
  rs_epic_ids :: "string list option"

subsection \<open>Nodes and ranks\<close>

datatype row_kind = RowEpicShell | RowChange

record internal_node =
  nd_ref :: workNodeRef
  nd_title :: string
  nd_kind :: row_kind
  nd_rank :: rat
  nd_terminal :: bool
  nd_active :: bool
  nd_prereqs :: "workNodeRef list"
  nd_source :: "string option"

definition epicBandSpan :: int where
  "epicBandSpan = 10000"

definition unlinkedActiveRank :: rat where
  "unlinkedActiveRank = of_int epicBandSpan - 1 / 2"

definition unlinkedRank :: "change_node_input \<Rightarrow> epic_node_input list \<Rightarrow> rat" where
  "unlinkedRank change epics =
     (if cn_inProgress change then unlinkedActiveRank
      else of_int ((int (length epics) + 1) * epicBandSpan))"

definition computeChangeRank :: "change_node_input \<Rightarrow> epic_node_input list \<Rightarrow> rat" where
  "computeChangeRank change epics =
     (case cn_membership change of
        None \<Rightarrow> unlinkedRank change epics
      | Some m \<Rightarrow> (case findIndex (\<lambda>e. ep_id e = mb_epic_id m) epics of
            None \<Rightarrow> unlinkedRank change epics
          | Some i \<Rightarrow> of_int (int i * epicBandSpan + mb_order m)))"

definition scopedEpics :: "epic_node_input list \<Rightarrow> resume_scope \<Rightarrow> epic_node_input list" where
  "scopedEpics epics scope = (case rs_epic_ids scope of
      Some ids \<Rightarrow> filter (\<lambda>e. ep_id e \<in> set ids) epics
    | None \<Rightarrow> epics)"

definition promotedEntryKeys :: "change_node_input list \<Rightarrow> string set" where
  "promotedEntryKeys changes = set (List.map_filter (\<lambda>c.
     map_option (\<lambda>m. nodeRefKey (EpicEntry (mb_epic_id m) (mb_entry_id m))) (cn_membership c)) changes)"

definition changeNode ::
  "resume_scope \<Rightarrow> epic_node_input list \<Rightarrow> change_node_input \<Rightarrow> internal_node" where
  "changeNode scope scoped change =
     (let terminal = (cn_status change = Archived \<or> cn_status change = Closed
            \<or> cn_lifecycle change = LcArchived \<or> cn_lifecycle change = LcClosed)
      in \<lparr>nd_ref = ChangeNode (rs_project_id scope) (cn_id change),
          nd_title = cn_title change,
          nd_kind = RowChange,
          nd_rank = computeChangeRank change scoped,
          nd_terminal = terminal,
          nd_active = (cn_inProgress change \<and> \<not> terminal),
          nd_prereqs = cn_deps change,
          nd_source = map_option mb_epic_id (cn_membership change)\<rparr>)"

text \<open>The shells of one Epic, at its position in the scoped list.\<close>

fun shellNode :: "string set \<Rightarrow> nat \<Rightarrow> string \<Rightarrow> epic_entry_input \<Rightarrow> internal_node option" where
  "shellNode promoted epicIndex epicId (ChangeEntry entryId ord ttl changeId) = None"
| "shellNode promoted epicIndex epicId (ShellEntry entryId ord ttl hint blockedBy) =
     (if nodeRefKey (EpicEntry epicId entryId) \<in> promoted then None
      else Some \<lparr>nd_ref = EpicEntry epicId entryId,
          nd_title = ttl,
          nd_kind = RowEpicShell,
          nd_rank = of_int (int epicIndex * 10000 + ord),
          nd_terminal = False,
          nd_active = False,
          nd_prereqs = blockedBy,
          nd_source = Some epicId\<rparr>)"

definition shellNodes :: "string set \<Rightarrow> epic_node_input list \<Rightarrow> internal_node list" where
  "shellNodes promoted scoped = concat (map (\<lambda>(i, e).
     List.map_filter (shellNode promoted i (ep_id e)) (ep_entries e)) (enumerate 0 scoped))"

definition resumeNodes ::
  "change_node_input list \<Rightarrow> epic_node_input list \<Rightarrow> resume_scope \<Rightarrow> internal_node list" where
  "resumeNodes changes epics scope =
     map (changeNode scope (scopedEpics epics scope)) changes
     @ shellNodes (promotedEntryKeys changes) (scopedEpics epics scope)"

definition nodeByKey :: "internal_node list \<Rightarrow> (string \<times> internal_node) list" where
  "nodeByKey nodes = foldl (\<lambda>m n. map_set (nodeRefKey (nd_ref n)) n m) [] nodes"

subsection \<open>Classification\<close>

datatype row_lifecycle = ReadyToPromote | ReadyToStart | Active | Blocked | Done

record resume_row =
  row_node :: workNodeRef
  row_title :: string
  row_kind :: row_kind
  row_lifecycle :: row_lifecycle
  row_rank :: rat
  row_blockers :: "workNodeRef list"
  row_source :: "string option"
  row_target :: "string option"

record redirect =
  rd_source :: string
  rd_target :: string
  rd_blocker :: workNodeRef
  rd_blocked :: workNodeRef

text \<open>What the loop over one node's prerequisites has collected.\<close>

record prereq_scan =
  ps_blocking :: "workNodeRef list"
  ps_unresolved :: "workNodeRef list"
  ps_redirects :: "redirect list"

definition crossEpicRedirect :: "internal_node \<Rightarrow> internal_node \<Rightarrow> redirect list" where
  "crossEpicRedirect nd blocker = (case (nd_source nd, nd_source blocker) of
      (Some a, Some b) \<Rightarrow>
        (if a \<noteq> [] \<and> b \<noteq> [] \<and> a \<noteq> b
         then [\<lparr>rd_source = a, rd_target = b, rd_blocker = nd_ref blocker, rd_blocked = nd_ref nd\<rparr>]
         else [])
    | _ \<Rightarrow> [])"

definition scanPrereq ::
  "(string \<times> internal_node) list \<Rightarrow> internal_node \<Rightarrow> prereq_scan \<Rightarrow> workNodeRef \<Rightarrow> prereq_scan" where
  "scanPrereq byKey nd s prereq =
     (case map_get byKey (nodeRefKey prereq) of
        None \<Rightarrow> s\<lparr>ps_blocking := ps_blocking s @ [prereq],
                  ps_unresolved :=
                    (if \<exists>r \<in> set (ps_unresolved s). nodeRefKey r = nodeRefKey prereq
                     then ps_unresolved s else ps_unresolved s @ [prereq])\<rparr>
      | Some blocker \<Rightarrow>
          (if nd_terminal blocker then s
           else s\<lparr>ps_blocking := ps_blocking s @ [prereq],
                  ps_redirects := ps_redirects s @ crossEpicRedirect nd blocker\<rparr>))"

definition rowLifecycle :: "internal_node \<Rightarrow> workNodeRef list \<Rightarrow> row_lifecycle" where
  "rowLifecycle nd blocking =
     (if nd_active nd then Active
      else if blocking \<noteq> [] then Blocked
      else if nd_kind nd = RowChange then ReadyToStart
      else ReadyToPromote)"

definition resumeRow :: "internal_node \<Rightarrow> workNodeRef list \<Rightarrow> redirect list \<Rightarrow> resume_row" where
  "resumeRow nd blocking ownRedirects =
     \<lparr>row_node = nd_ref nd, row_title = nd_title nd, row_kind = nd_kind nd,
      row_lifecycle = rowLifecycle nd blocking, row_rank = nd_rank nd, row_blockers = blocking,
      row_source = (if truthy (nd_source nd) then nd_source nd else None),
      row_target = (if rowLifecycle nd blocking = Blocked
        then (case ownRedirects of r # _ \<Rightarrow> Some (rd_target r) | [] \<Rightarrow> None) else None)\<rparr>"

record resume_lists =
  rl_actionable :: "resume_row list"
  rl_blocked :: "resume_row list"
  rl_active :: "resume_row list"
  rl_unresolved :: "workNodeRef list"
  rl_redirects :: "redirect list"

definition fileRow :: "resume_row \<Rightarrow> resume_lists \<Rightarrow> resume_lists" where
  "fileRow row s = (case row_lifecycle row of
      Active \<Rightarrow> s\<lparr>rl_active := rl_active s @ [row]\<rparr>
    | Blocked \<Rightarrow> s\<lparr>rl_blocked := rl_blocked s @ [row]\<rparr>
    | ReadyToStart \<Rightarrow> s\<lparr>rl_actionable := rl_actionable s @ [row]\<rparr>
    | ReadyToPromote \<Rightarrow> s\<lparr>rl_actionable := rl_actionable s @ [row]\<rparr>
    | Done \<Rightarrow> s)"

definition classifyNode ::
  "(string \<times> internal_node) list \<Rightarrow> resume_lists \<Rightarrow> internal_node \<Rightarrow> resume_lists" where
  "classifyNode byKey s nd =
     (if nd_terminal nd then s
      else (let scan = foldl (scanPrereq byKey nd)
                  \<lparr>ps_blocking = [], ps_unresolved = rl_unresolved s, ps_redirects = []\<rparr> (nd_prereqs nd);
                row = resumeRow nd (ps_blocking scan) (ps_redirects scan)
            in fileRow row (s\<lparr>rl_unresolved := ps_unresolved scan,
                              rl_redirects := rl_redirects s @ ps_redirects scan\<rparr>)))"

definition classifyNodes :: "internal_node list \<Rightarrow> resume_lists" where
  "classifyNodes nodes = foldl (classifyNode (nodeByKey nodes))
     \<lparr>rl_actionable = [], rl_blocked = [], rl_active = [], rl_unresolved = [], rl_redirects = []\<rparr> nodes"

subsection \<open>The projection\<close>

definition rowFor :: "workNodeRef \<Rightarrow> resume_row list \<Rightarrow> resume_row option" where
  "rowFor ref rows = List.find (\<lambda>r. nodeRefKey (row_node r) = nodeRefKey ref) rows"

definition minimalRow :: "internal_node \<Rightarrow> resume_row" where
  "minimalRow nd = \<lparr>row_node = nd_ref nd, row_title = nd_title nd, row_kind = nd_kind nd,
     row_lifecycle = (if nd_active nd then Active else ReadyToStart), row_rank = nd_rank nd,
     row_blockers = [], row_source = None, row_target = None\<rparr>"

definition orderedNext :: "internal_node list \<Rightarrow> resume_lists \<Rightarrow> resume_row option" where
  "orderedNext nodes s =
     (case js_sort (by_key nd_rank) (filter (\<lambda>n. \<not> nd_terminal n) nodes) of
        [] \<Rightarrow> None
      | nd # _ \<Rightarrow> Some
          (case rowFor (nd_ref nd) (rl_actionable s) of Some r \<Rightarrow> r
           | None \<Rightarrow> (case rowFor (nd_ref nd) (rl_blocked s) of Some r \<Rightarrow> r
             | None \<Rightarrow> (case rowFor (nd_ref nd) (rl_active s) of Some r \<Rightarrow> r
               | None \<Rightarrow> minimalRow nd))))"

definition cycleDeps :: "internal_node list \<Rightarrow> (string \<times> workNodeRef list) list" where
  "cycleDeps nodes = foldl (\<lambda>m n. map_set (nodeRefKey (nd_ref n)) (nd_prereqs n) m) [] nodes"

record resume_projection =
  rp_generated_at :: string
  rp_scope :: resume_scope
  rp_ordered_next :: "resume_row option"
  rp_actionable :: "resume_row list"
  rp_blocked :: "resume_row list"
  rp_active :: "resume_row list"
  rp_redirects :: "redirect list"
  rp_cycles :: "workNodeRef list list"
  rp_unresolved :: "workNodeRef list"

definition buildResumeProjection ::
  "string \<Rightarrow> change_node_input list \<Rightarrow> epic_node_input list \<Rightarrow> resume_scope \<Rightarrow> resume_projection" where
  "buildResumeProjection now changes epics scope =
     (let nodes = resumeNodes changes epics scope;
          s = classifyNodes nodes
      in \<lparr>rp_generated_at = now, rp_scope = scope,
          rp_ordered_next = orderedNext nodes s,
          rp_actionable = js_sort (by_key row_rank) (rl_actionable s),
          rp_blocked = js_sort (by_key row_rank) (rl_blocked s),
          rp_active = js_sort (by_key row_rank) (rl_active s),
          rp_redirects = rl_redirects s,
          rp_cycles = cycle_paths (detectCycles (map nd_ref nodes)
            (\<lambda>ref. map_getOr (cycleDeps nodes) (nodeRefKey ref) []) nodeRefKey),
          rp_unresolved = rl_unresolved s\<rparr>)"

subsection \<open>What classification computes\<close>

text \<open>A prerequisite is met when the node its key resolves to is terminal.\<close>

definition prereqMet :: "internal_node list \<Rightarrow> workNodeRef \<Rightarrow> bool" where
  "prereqMet nodes p = (case map_get (nodeByKey nodes) (nodeRefKey p) of
      Some n \<Rightarrow> nd_terminal n | None \<Rightarrow> False)"

definition redirectsAt :: "internal_node list \<Rightarrow> internal_node \<Rightarrow> workNodeRef \<Rightarrow> redirect list" where
  "redirectsAt nodes nd p = (case map_get (nodeByKey nodes) (nodeRefKey p) of
      Some n \<Rightarrow> if nd_terminal n then [] else crossEpicRedirect nd n | None \<Rightarrow> [])"

definition nodeRow :: "internal_node list \<Rightarrow> internal_node \<Rightarrow> resume_row" where
  "nodeRow nodes nd = resumeRow nd (filter (\<lambda>p. \<not> prereqMet nodes p) (nd_prereqs nd))
     (concat (map (redirectsAt nodes nd) (nd_prereqs nd)))"

abbreviation openNodes :: "internal_node list \<Rightarrow> internal_node list" where
  "openNodes nodes \<equiv> filter (\<lambda>n. \<not> nd_terminal n) nodes"

lemma nodeRow_simps [simp]:
  "row_node (nodeRow nodes nd) = nd_ref nd" "row_rank (nodeRow nodes nd) = nd_rank nd"
  "row_blockers (nodeRow nodes nd) = filter (\<lambda>p. \<not> prereqMet nodes p) (nd_prereqs nd)"
  by (simp_all add: nodeRow_def resumeRow_def)

lemma nodeRow_lifecycle:
  "row_lifecycle (nodeRow nodes nd) =
     (if nd_active nd then Active
      else if \<exists>p \<in> set (nd_prereqs nd). \<not> prereqMet nodes p then Blocked
      else if nd_kind nd = RowChange then ReadyToStart else ReadyToPromote)"
  by (simp add: nodeRow_def resumeRow_def rowLifecycle_def filter_empty_conv)

lemma scanPrereq_step:
  "ps_blocking (scanPrereq (nodeByKey nodes) nd s p)
     = ps_blocking s @ (if prereqMet nodes p then [] else [p])"
  "ps_redirects (scanPrereq (nodeByKey nodes) nd s p) = ps_redirects s @ redirectsAt nodes nd p"
  "nodeRefKey ` set (ps_unresolved (scanPrereq (nodeByKey nodes) nd s p))
     = nodeRefKey ` set (ps_unresolved s)
       \<union> (if map_get (nodeByKey nodes) (nodeRefKey p) = None then {nodeRefKey p} else {})"
  by (auto simp: scanPrereq_def prereqMet_def redirectsAt_def image_iff split: option.splits) metis

lemma scanPrereqs:
  "ps_blocking (foldl (scanPrereq (nodeByKey nodes) nd) s ps)
     = ps_blocking s @ filter (\<lambda>p. \<not> prereqMet nodes p) ps"
  "ps_redirects (foldl (scanPrereq (nodeByKey nodes) nd) s ps)
     = ps_redirects s @ concat (map (redirectsAt nodes nd) ps)"
  "nodeRefKey ` set (ps_unresolved (foldl (scanPrereq (nodeByKey nodes) nd) s ps))
     = nodeRefKey ` set (ps_unresolved s)
       \<union> {k \<in> nodeRefKey ` set ps. map_get (nodeByKey nodes) k = None}"
  by (induction ps arbitrary: s) (auto simp: scanPrereq_step)

lemma fileRow_simps [simp]:
  "rl_unresolved (fileRow row s) = rl_unresolved s" "rl_redirects (fileRow row s) = rl_redirects s"
  by (simp_all add: fileRow_def split: row_lifecycle.splits)

abbreviation "ready \<equiv> \<lambda>r. row_lifecycle r = ReadyToStart \<or> row_lifecycle r = ReadyToPromote"

lemma fileRow_lists:
  "rl_actionable (fileRow row s) = rl_actionable s @ filter ready [row]"
  "rl_blocked (fileRow row s) = rl_blocked s @ filter (\<lambda>r. row_lifecycle r = Blocked) [row]"
  "rl_active (fileRow row s) = rl_active s @ filter (\<lambda>r. row_lifecycle r = Active) [row]"
  by (simp_all add: fileRow_def split: row_lifecycle.splits)

lemma classifyNode_step:
  "rl_actionable (classifyNode (nodeByKey nodes) s nd) = rl_actionable s
     @ filter ready (map (nodeRow nodes) (openNodes [nd]))"
  "rl_blocked (classifyNode (nodeByKey nodes) s nd) = rl_blocked s
     @ filter (\<lambda>r. row_lifecycle r = Blocked) (map (nodeRow nodes) (openNodes [nd]))"
  "rl_active (classifyNode (nodeByKey nodes) s nd) = rl_active s
     @ filter (\<lambda>r. row_lifecycle r = Active) (map (nodeRow nodes) (openNodes [nd]))"
  "rl_redirects (classifyNode (nodeByKey nodes) s nd) = rl_redirects s
     @ concat (map (\<lambda>n. concat (map (redirectsAt nodes n) (nd_prereqs n))) (openNodes [nd]))"
  "nodeRefKey ` set (rl_unresolved (classifyNode (nodeByKey nodes) s nd)) = nodeRefKey ` set (rl_unresolved s)
     \<union> {k \<in> (\<Union>n \<in> set (openNodes [nd]). nodeRefKey ` set (nd_prereqs n)). map_get (nodeByKey nodes) k = None}"
  by (simp_all add: classifyNode_def Let_def fileRow_lists scanPrereqs nodeRow_def)

lemma classifyNodes_lists:
  "rl_actionable (classifyNodes nodes) = filter ready (map (nodeRow nodes) (openNodes nodes))"
  "rl_blocked (classifyNodes nodes)
     = filter (\<lambda>r. row_lifecycle r = Blocked) (map (nodeRow nodes) (openNodes nodes))"
  "rl_active (classifyNodes nodes)
     = filter (\<lambda>r. row_lifecycle r = Active) (map (nodeRow nodes) (openNodes nodes))"
  "rl_redirects (classifyNodes nodes)
     = concat (map (\<lambda>n. concat (map (redirectsAt nodes n) (nd_prereqs n))) (openNodes nodes))"
  "nodeRefKey ` set (rl_unresolved (classifyNodes nodes))
     = {k \<in> (\<Union>n \<in> set (openNodes nodes). nodeRefKey ` set (nd_prereqs n)). map_get (nodeByKey nodes) k = None}"
proof -
  have fold: "rl_actionable (foldl (classifyNode (nodeByKey nodes)) s ns) = rl_actionable s
      @ filter ready (map (nodeRow nodes) (openNodes ns))"
    "rl_blocked (foldl (classifyNode (nodeByKey nodes)) s ns) = rl_blocked s
      @ filter (\<lambda>r. row_lifecycle r = Blocked) (map (nodeRow nodes) (openNodes ns))"
    "rl_active (foldl (classifyNode (nodeByKey nodes)) s ns) = rl_active s
      @ filter (\<lambda>r. row_lifecycle r = Active) (map (nodeRow nodes) (openNodes ns))"
    "rl_redirects (foldl (classifyNode (nodeByKey nodes)) s ns) = rl_redirects s
      @ concat (map (\<lambda>n. concat (map (redirectsAt nodes n) (nd_prereqs n))) (openNodes ns))"
    "nodeRefKey ` set (rl_unresolved (foldl (classifyNode (nodeByKey nodes)) s ns))
      = nodeRefKey ` set (rl_unresolved s)
        \<union> {k \<in> (\<Union>n \<in> set (openNodes ns). nodeRefKey ` set (nd_prereqs n)). map_get (nodeByKey nodes) k = None}"
    for s ns
    by (induction ns arbitrary: s) (auto simp: classifyNode_step)
  show "rl_actionable (classifyNodes nodes) = filter ready (map (nodeRow nodes) (openNodes nodes))"
    "rl_blocked (classifyNodes nodes)
       = filter (\<lambda>r. row_lifecycle r = Blocked) (map (nodeRow nodes) (openNodes nodes))"
    "rl_active (classifyNodes nodes)
       = filter (\<lambda>r. row_lifecycle r = Active) (map (nodeRow nodes) (openNodes nodes))"
    "rl_redirects (classifyNodes nodes)
       = concat (map (\<lambda>n. concat (map (redirectsAt nodes n) (nd_prereqs n))) (openNodes nodes))"
    "nodeRefKey ` set (rl_unresolved (classifyNodes nodes))
       = {k \<in> (\<Union>n \<in> set (openNodes nodes). nodeRefKey ` set (nd_prereqs n)). map_get (nodeByKey nodes) k = None}"
    by (simp_all add: classifyNodes_def fold)
qed

lemma classified_row:
  "set (rl_actionable (classifyNodes nodes)) \<union> set (rl_blocked (classifyNodes nodes))
     \<union> set (rl_active (classifyNodes nodes)) = nodeRow nodes ` set (openNodes nodes)"
  by (auto simp: classifyNodes_lists nodeRow_lifecycle split: if_splits)

lemma classified_sub:
  "set (rl_actionable (classifyNodes nodes)) \<subseteq> nodeRow nodes ` set (openNodes nodes)"
  "set (rl_blocked (classifyNodes nodes)) \<subseteq> nodeRow nodes ` set (openNodes nodes)"
  "set (rl_active (classifyNodes nodes)) \<subseteq> nodeRow nodes ` set (openNodes nodes)"
  by (auto simp: classifyNodes_lists)

text \<open>With one node per key, the row found for a node is the node's own row.\<close>

lemma rowFor_own:
  assumes "distinct (map (\<lambda>n. nodeRefKey (nd_ref n)) nodes)" "nd \<in> set (openNodes nodes)"
    and "rowFor (nd_ref nd) rows = Some r" "set rows \<subseteq> nodeRow nodes ` set (openNodes nodes)"
  shows "r = nodeRow nodes nd"
proof -
  from assms(3) have r: "r \<in> set rows" "nodeRefKey (row_node r) = nodeRefKey (nd_ref nd)"
    by (auto simp: rowFor_def dest: find_Some_mem)
  with assms(4) obtain n where n: "n \<in> set nodes" "r = nodeRow nodes n" by auto
  with r assms(1,2) have "n = nd" by (auto simp: distinct_map dest: inj_onD)
  with n show ?thesis by simp
qed

lemma rowFor_None:
  "rowFor (nd_ref nd) rows = None \<Longrightarrow> nodeRow nodes nd \<notin> set rows"
  by (auto simp: rowFor_def find_None_iff)

lemma orderedNext_eq:
  assumes "distinct (map (\<lambda>n. nodeRefKey (nd_ref n)) nodes)"
  shows "orderedNext nodes (classifyNodes nodes) =
    (if openNodes nodes = [] then None
     else Some (nodeRow nodes (hd (js_sort (by_key nd_rank) (openNodes nodes)))))"
proof (cases "js_sort (by_key nd_rank) (openNodes nodes)")
  case Nil
  then show ?thesis by (simp add: orderedNext_def)
next
  case (Cons nd rest)
  then have nd: "nd \<in> set (openNodes nodes)"
    by (metis list.set_intros(1) set_js_sort)
  let ?s = "classifyNodes nodes"
  note own = rowFor_own [OF assms nd]
  have A: "rowFor (nd_ref nd) (rl_actionable ?s) \<in> {None, Some (nodeRow nodes nd)}"
    and B: "rowFor (nd_ref nd) (rl_blocked ?s) \<in> {None, Some (nodeRow nodes nd)}"
    and C: "rowFor (nd_ref nd) (rl_active ?s) \<in> {None, Some (nodeRow nodes nd)}"
    using own [OF _ classified_sub(1)] own [OF _ classified_sub(2)] own [OF _ classified_sub(3)]
    by (metis insertCI not_Some_eq)+
  have "nodeRow nodes nd \<in> set (rl_actionable ?s) \<union> set (rl_blocked ?s) \<union> set (rl_active ?s)"
    unfolding classified_row using nd by blast
  then have "\<not> (rowFor (nd_ref nd) (rl_actionable ?s) = None \<and> rowFor (nd_ref nd) (rl_blocked ?s) = None
      \<and> rowFor (nd_ref nd) (rl_active ?s) = None)"
    using rowFor_None by blast
  with A B C have "(case rowFor (nd_ref nd) (rl_actionable ?s) of Some r \<Rightarrow> r
           | None \<Rightarrow> (case rowFor (nd_ref nd) (rl_blocked ?s) of Some r \<Rightarrow> r
             | None \<Rightarrow> (case rowFor (nd_ref nd) (rl_active ?s) of Some r \<Rightarrow> r
               | None \<Rightarrow> minimalRow nd))) = nodeRow nodes nd"
    by auto
  with Cons nd show ?thesis by (auto simp: orderedNext_def)
qed

subsection \<open>Properties\<close>

text \<open>
  The three lists partition the nodes that are not terminal: each appears in them once,
  with its rank; a node is active when it has work in progress, otherwise blocked when one of
  its prerequisites is unresolved or not terminal, otherwise actionable; a blocked row lists
  exactly those prerequisites; and each list is sorted by rank.
\<close>

theorem resume_lists_partition:
  "let nodes = resumeNodes changes epics scope; p = buildResumeProjection now changes epics scope
   in mset (map row_node (rp_actionable p @ rp_blocked p @ rp_active p)) = mset (map nd_ref (openNodes nodes)) \<and>
      set (rp_active p) = nodeRow nodes ` {n \<in> set (openNodes nodes). nd_active n} \<and>
      set (rp_blocked p) = nodeRow nodes ` {n \<in> set (openNodes nodes). \<not> nd_active n \<and>
          filter (\<lambda>q. \<not> prereqMet nodes q) (nd_prereqs n) \<noteq> []} \<and>
      set (rp_actionable p) = nodeRow nodes ` {n \<in> set (openNodes nodes). \<not> nd_active n \<and>
          filter (\<lambda>q. \<not> prereqMet nodes q) (nd_prereqs n) = []} \<and>
      sorted (map row_rank (rp_actionable p)) \<and> sorted (map row_rank (rp_blocked p)) \<and>
      sorted (map row_rank (rp_active p))"
proof -
  let ?nodes = "resumeNodes changes epics scope"
  have part: "mset (map row_node (filter ready rows)) + mset (map row_node (filter (\<lambda>r. row_lifecycle r = Blocked) rows))
      + mset (map row_node (filter (\<lambda>r. row_lifecycle r = Active) rows)) = mset (map row_node rows)"
    if "\<forall>r \<in> set rows. row_lifecycle r \<noteq> Done" for rows
    using that
  proof (induction rows)
    case (Cons r rows)
    then show ?case by (cases "row_lifecycle r") auto
  qed simp
  have "mset (map row_node (filter ready (map (nodeRow ?nodes) (openNodes ?nodes))))
      + mset (map row_node (filter (\<lambda>r. row_lifecycle r = Blocked) (map (nodeRow ?nodes) (openNodes ?nodes))))
      + mset (map row_node (filter (\<lambda>r. row_lifecycle r = Active) (map (nodeRow ?nodes) (openNodes ?nodes))))
      = mset (map row_node (map (nodeRow ?nodes) (openNodes ?nodes)))"
    by (rule part) (simp add: nodeRow_lifecycle)
  then have m: "mset (map row_node (rl_actionable (classifyNodes ?nodes))) + mset (map row_node (rl_blocked (classifyNodes ?nodes)))
      + mset (map row_node (rl_active (classifyNodes ?nodes))) = mset (map nd_ref (openNodes ?nodes))"
    by (simp add: classifyNodes_lists comp_def)
  have a: "set (rl_active (classifyNodes ?nodes)) = nodeRow ?nodes ` {n \<in> set (openNodes ?nodes). nd_active n}"
    by (auto simp: classifyNodes_lists nodeRow_lifecycle split: if_splits)
  have b: "set (rl_blocked (classifyNodes ?nodes)) = nodeRow ?nodes ` {n \<in> set (openNodes ?nodes). \<not> nd_active n \<and>
          filter (\<lambda>q. \<not> prereqMet ?nodes q) (nd_prereqs n) \<noteq> []}"
    by (auto simp: classifyNodes_lists nodeRow_lifecycle filter_empty_conv split: if_splits)
  have c: "set (rl_actionable (classifyNodes ?nodes)) = nodeRow ?nodes ` {n \<in> set (openNodes ?nodes). \<not> nd_active n \<and>
          filter (\<lambda>q. \<not> prereqMet ?nodes q) (nd_prereqs n) = []}"
    by (auto simp: classifyNodes_lists nodeRow_lifecycle filter_empty_conv split: if_splits)
  show ?thesis
    using m a b c by (simp add: buildResumeProjection_def Let_def add.assoc)
qed

text \<open>
  With one node per key, the next node is the row of a node that is not terminal and
  whose rank no such node undercuts (it may be blocked), and there is none only when every node
  is terminal.
\<close>

theorem resume_next_is_first:
  assumes "distinct (map (\<lambda>n. nodeRefKey (nd_ref n)) (resumeNodes changes epics scope))"
  shows "(case rp_ordered_next (buildResumeProjection now changes epics scope) of
      None \<Rightarrow> openNodes (resumeNodes changes epics scope) = []
    | Some r \<Rightarrow> (\<exists>nd \<in> set (openNodes (resumeNodes changes epics scope)).
          r = nodeRow (resumeNodes changes epics scope) nd \<and>
          (\<forall>n \<in> set (openNodes (resumeNodes changes epics scope)). nd_rank nd \<le> nd_rank n)))"
proof (cases "openNodes (resumeNodes changes epics scope) = []")
  case True
  then show ?thesis
    by (simp add: buildResumeProjection_def Let_def orderedNext_eq [OF assms])
next
  case False
  let ?nodes = "resumeNodes changes epics scope"
  let ?nd = "hd (js_sort (by_key nd_rank) (openNodes ?nodes))"
  from False have "js_sort (by_key nd_rank) (openNodes ?nodes) \<noteq> []" by simp
  from hd_in_set [OF this] have "?nd \<in> set (openNodes ?nodes)" by simp
  moreover have "\<forall>n \<in> set (openNodes ?nodes). nd_rank ?nd \<le> nd_rank n"
    by (blast intro: hd_by_key_min)
  ultimately have "\<exists>nd \<in> set (openNodes ?nodes). nodeRow ?nodes ?nd = nodeRow ?nodes nd \<and>
      (\<forall>n \<in> set (openNodes ?nodes). nd_rank nd \<le> nd_rank n)" by blast
  with False show ?thesis
    by (simp only: buildResumeProjection_def Let_def orderedNext_eq [OF assms] resume_projection.simps
        if_False option.case)
qed

lemma cycleDeps_of_node:
  assumes "distinct (map (\<lambda>n. nodeRefKey (nd_ref n)) nodes)" "nd \<in> set nodes"
  shows "map_getOr (cycleDeps nodes) (nodeRefKey (nd_ref nd)) [] = nd_prereqs nd"
  using map_of_foldl_set_distinct [OF assms, of nd_prereqs]
  by (simp add: cycleDeps_def map_getOr_def)

lemma nodeByKey_SomeD:
  assumes "map_get (nodeByKey nodes) k = Some n"
  shows "n \<in> set nodes \<and> nodeRefKey (nd_ref n) = k"
proof -
  from assms have "map_of (foldl (\<lambda>m n. map_set (nodeRefKey (nd_ref n)) n m) [] nodes) k = Some n"
    by (simp add: nodeByKey_def)
  then show ?thesis by (rule map_of_foldl_set_SomeD) auto
qed

abbreviation prereqEdges :: "internal_node list \<Rightarrow> (string \<times> string) set" where
  "prereqEdges nodes \<equiv> depEdges (\<lambda>ref. map_getOr (cycleDeps nodes) (nodeRefKey ref) []) nodeRefKey (map nd_ref nodes)"

lemma rp_cycles_Nil_iff:
  assumes "distinct (map (\<lambda>n. nodeRefKey (nd_ref n)) (resumeNodes changes epics scope))"
  shows "rp_cycles (buildResumeProjection now changes epics scope) = []
    \<longleftrightarrow> acyclic (prereqEdges (resumeNodes changes epics scope))"
  unfolding buildResumeProjection_def Let_def resume_projection.simps
  by (rule cycle_paths_Nil_iff) (use assms in \<open>simp add: comp_def\<close>)

text \<open>A nonempty set of nodes each of which needs another one of it makes the graph cyclic.\<close>

lemma stuck_nodes_cyclic:
  assumes d: "distinct (map (\<lambda>n. nodeRefKey (nd_ref n)) nodes)"
    and S: "S \<subseteq> set nodes" "S \<noteq> {}"
    and stuck: "\<And>n. n \<in> S \<Longrightarrow> \<exists>p \<in> set (nd_prereqs n). \<exists>m \<in> S. nodeRefKey (nd_ref m) = nodeRefKey p"
  shows "\<not> acyclic (prereqEdges nodes)"
proof (rule no_source_cyclic)
  let ?key = "\<lambda>n. nodeRefKey (nd_ref n)"
  show "finite (?key ` S)" using S(1) finite_subset by auto
  show "?key ` S \<noteq> {}" using S(2) by simp
  show "?key ` S \<subseteq> keySet nodeRefKey (map nd_ref nodes)" using S(1) by auto
  fix k assume "k \<in> ?key ` S"
  then obtain n where n: "n \<in> S" "k = ?key n" by auto
  from stuck [OF n(1)] obtain p m where pm: "p \<in> set (nd_prereqs n)" "m \<in> S" "?key m = nodeRefKey p" by auto
  have nn: "n \<in> set nodes" using n S(1) by auto
  have "?key m \<in> ?key ` set nodes" using pm(2) S(1) by blast
  have look: "lookupNode nodeRefKey (map nd_ref nodes) k = Some (nd_ref n)"
    unfolding n(2) by (rule lookupNode_key) (use d nn in \<open>auto simp: comp_def\<close>)
  show "\<exists>d \<in> ?key ` S. d \<in> set (nodeDeps (\<lambda>ref. map_getOr (cycleDeps nodes) (nodeRefKey ref) [])
      nodeRefKey (map nd_ref nodes) k)"
  proof (rule bexI)
    show "?key m \<in> set (nodeDeps (\<lambda>ref. map_getOr (cycleDeps nodes) (nodeRefKey ref) [])
      nodeRefKey (map nd_ref nodes) k)"
      using pm(1,3) \<open>?key m \<in> ?key ` set nodes\<close>
      by (simp add: nodeDeps_def look cycleDeps_of_node [OF d nn] image_image)
    show "?key m \<in> ?key ` S" using pm(2) by blast
  qed
qed

text \<open>
  Claim C21. With one node per key and clean diagnostics (no cycle, no unresolved reference), a
  project in which some node is not terminal always has something to work on: a node that is
  active or actionable.
\<close>

theorem resume_clean_not_stuck:
  assumes "distinct (map (\<lambda>n. nodeRefKey (nd_ref n)) (resumeNodes changes epics scope))"
    and "rp_cycles (buildResumeProjection now changes epics scope) = []"
    and "rp_unresolved (buildResumeProjection now changes epics scope) = []"
    and "openNodes (resumeNodes changes epics scope) \<noteq> []"
  shows "rp_actionable (buildResumeProjection now changes epics scope)
    @ rp_active (buildResumeProjection now changes epics scope) \<noteq> []"
proof
  let ?nodes = "resumeNodes changes epics scope"
  assume "rp_actionable (buildResumeProjection now changes epics scope)
    @ rp_active (buildResumeProjection now changes epics scope) = []"
  then have none: "rl_actionable (classifyNodes ?nodes) = []" "rl_active (classifyNodes ?nodes) = []"
    by (auto simp: buildResumeProjection_def Let_def)
  have "rl_unresolved (classifyNodes ?nodes) = []"
    using assms(3) by (simp add: buildResumeProjection_def Let_def)
  then have res: "map_get (nodeByKey ?nodes) (nodeRefKey p) \<noteq> None"
    if "n \<in> set (openNodes ?nodes)" "p \<in> set (nd_prereqs n)" for n p
    using classifyNodes_lists(5) [of ?nodes] that by (auto simp: image_iff)
  have "\<exists>p \<in> set (nd_prereqs n). \<exists>m \<in> set (openNodes ?nodes). nodeRefKey (nd_ref m) = nodeRefKey p"
    if n: "n \<in> set (openNodes ?nodes)" for n
  proof -
    from n none have "row_lifecycle (nodeRow ?nodes n) = Blocked"
      by (auto simp: classifyNodes_lists filter_empty_conv nodeRow_lifecycle split: if_splits)
    then obtain p where p: "p \<in> set (nd_prereqs n)" "\<not> prereqMet ?nodes p"
      by (auto simp: nodeRow_lifecycle split: if_splits)
    with res [OF n p(1)] obtain m where "map_get (nodeByKey ?nodes) (nodeRefKey p) = Some m"
      "\<not> nd_terminal m" by (auto simp: prereqMet_def split: option.splits)
    with nodeByKey_SomeD p(1) show ?thesis by fastforce
  qed
  then have "\<not> acyclic (prereqEdges ?nodes)"
    by (intro stuck_nodes_cyclic [OF assms(1), of "set (openNodes ?nodes)"]) (use assms(4) in \<open>auto simp: filter_empty_conv\<close>)
  with assms(2) show False by (simp add: rp_cycles_Nil_iff [OF assms(1)])
qed

text \<open>
  The redirects are exactly the pairs of a node that is not terminal and a prerequisite
  of it that resolves to a node that is not terminal either, of two different Epics.
\<close>

theorem resume_redirects_exact:
  "set (rp_redirects (buildResumeProjection now changes epics scope)) =
     {\<lparr>rd_source = a, rd_target = b, rd_blocker = nd_ref m, rd_blocked = nd_ref n\<rparr> | n q m a b.
        n \<in> set (openNodes (resumeNodes changes epics scope)) \<and> q \<in> set (nd_prereqs n) \<and>
        map_get (nodeByKey (resumeNodes changes epics scope)) (nodeRefKey q) = Some m \<and>
        \<not> nd_terminal m \<and> nd_source n = Some a \<and> nd_source m = Some b \<and> a \<noteq> [] \<and> b \<noteq> [] \<and> a \<noteq> b}"
proof -
  let ?nodes = "resumeNodes changes epics scope"
  have at: "set (redirectsAt ?nodes n q) =
      {\<lparr>rd_source = a, rd_target = b, rd_blocker = nd_ref m, rd_blocked = nd_ref n\<rparr> | m a b.
        map_get (nodeByKey ?nodes) (nodeRefKey q) = Some m \<and> \<not> nd_terminal m \<and>
        nd_source n = Some a \<and> nd_source m = Some b \<and> a \<noteq> [] \<and> b \<noteq> [] \<and> a \<noteq> b}" for n q
  proof (cases "map_get (nodeByKey ?nodes) (nodeRefKey q)")
    case None
    then show ?thesis by (simp add: redirectsAt_def)
  next
    case (Some m)
    then show ?thesis
      by (cases "nd_source n"; cases "nd_source m") (auto simp: redirectsAt_def crossEpicRedirect_def)
  qed
  have "set (rp_redirects (buildResumeProjection now changes epics scope)) =
      (\<Union>n \<in> set (openNodes ?nodes). \<Union>q \<in> set (nd_prereqs n). set (redirectsAt ?nodes n q))"
    by (simp add: buildResumeProjection_def Let_def classifyNodes_lists)
  also have "\<dots> = {r. \<exists>n q m a b. r = \<lparr>rd_source = a, rd_target = b, rd_blocker = nd_ref m, rd_blocked = nd_ref n\<rparr> \<and>
        n \<in> set (openNodes ?nodes) \<and> q \<in> set (nd_prereqs n) \<and>
        map_get (nodeByKey ?nodes) (nodeRefKey q) = Some m \<and>
        \<not> nd_terminal m \<and> nd_source n = Some a \<and> nd_source m = Some b \<and> a \<noteq> [] \<and> b \<noteq> [] \<and> a \<noteq> b}"
    (is "?L = ?R")
  proof (intro equalityI subsetI)
    fix r assume "r \<in> ?L"
    then obtain n q where nq: "n \<in> set (openNodes ?nodes)" "q \<in> set (nd_prereqs n)" "r \<in> set (redirectsAt ?nodes n q)"
      by (elim UN_E)
    from nq(3) obtain m a b where "r = \<lparr>rd_source = a, rd_target = b, rd_blocker = nd_ref m, rd_blocked = nd_ref n\<rparr>"
        "map_get (nodeByKey ?nodes) (nodeRefKey q) = Some m" "\<not> nd_terminal m"
        "nd_source n = Some a" "nd_source m = Some b" "a \<noteq> []" "b \<noteq> []" "a \<noteq> b"
      unfolding at by (elim CollectE exE conjE)
    with nq(1,2) show "r \<in> ?R" by (intro CollectI exI conjI)
  next
    fix r assume "r \<in> ?R"
    then obtain n q m a b where nq: "n \<in> set (openNodes ?nodes)" "q \<in> set (nd_prereqs n)"
        and r: "r = \<lparr>rd_source = a, rd_target = b, rd_blocker = nd_ref m, rd_blocked = nd_ref n\<rparr>"
        "map_get (nodeByKey ?nodes) (nodeRefKey q) = Some m" "\<not> nd_terminal m"
        "nd_source n = Some a" "nd_source m = Some b" "a \<noteq> []" "b \<noteq> []" "a \<noteq> b"
      by (elim CollectE exE conjE)
    from r have "r \<in> set (redirectsAt ?nodes n q)"
      unfolding at by (intro CollectI exI conjI)
    with nq show "r \<in> ?L" by (intro UN_I)
  qed
  finally show ?thesis .
qed

text \<open>
  A change without an Epic has a rank comparable with every linked one, as long as entry
  orders stay inside a band: in progress it comes after the first Epic's entries and before the
  entries of every later Epic, idle it comes after all of them, and it ties with none.
\<close>

theorem unlinked_rank_reachable:
  assumes "cn_membership u = None" and "cn_membership c = Some m"
    and "findIndex (\<lambda>e. ep_id e = mb_epic_id m) epics = Some i"
    and "0 \<le> mb_order m" "mb_order m < epicBandSpan"
  shows "if cn_inProgress u
    then (computeChangeRank c epics < computeChangeRank u epics \<longleftrightarrow> i = 0) \<and>
         (computeChangeRank u epics < computeChangeRank c epics \<longleftrightarrow> 0 < i)
    else computeChangeRank c epics < computeChangeRank u epics"
proof -
  have c: "computeChangeRank c epics = of_int (int i * epicBandSpan + mb_order m)"
    using assms by (simp add: computeChangeRank_def)
  have i: "i < length epics" using findIndex_Some [OF assms(3)] by simp
  show ?thesis
  proof (cases "cn_inProgress u")
    case True
    then have u: "computeChangeRank u epics = of_int (2 * epicBandSpan - 1) / 2"
      using assms(1) by (simp add: computeChangeRank_def unlinkedRank_def unlinkedActiveRank_def epicBandSpan_def)
    have lt: "computeChangeRank c epics < computeChangeRank u epics
        \<longleftrightarrow> 2 * (int i * epicBandSpan + mb_order m) < 2 * epicBandSpan - 1"
      unfolding c u by (simp only: of_int_less_iff [symmetric, where 'a = rat]) (simp add: field_simps)
    have gt: "computeChangeRank u epics < computeChangeRank c epics
        \<longleftrightarrow> 2 * epicBandSpan - 1 < 2 * (int i * epicBandSpan + mb_order m)"
      unfolding c u by (simp only: of_int_less_iff [symmetric, where 'a = rat]) (simp add: field_simps)
    show ?thesis
      using True assms(4,5) by (cases i) (auto simp: lt gt epicBandSpan_def)
  next
    case False
    have "int i * epicBandSpan + mb_order m < (int (length epics) + 1) * epicBandSpan"
      using i assms(4,5) by (simp add: epicBandSpan_def)
    then have "computeChangeRank c epics < of_int ((int (length epics) + 1) * epicBandSpan)"
      by (simp only: c of_int_less_iff)
    with False assms(1) show ?thesis
      by (simp add: computeChangeRank_def [of u] unlinkedRank_def)
  qed
qed

subsection \<open>A concrete project\<close>

definition ex_changes :: "change_node_input list" where
  "ex_changes =
     [\<lparr>cn_id = ''a'', cn_title = ''A'', cn_status = Draft, cn_lifecycle = LcOpen,
       cn_deps = [ChangeNode ''p'' ''b''], cn_inProgress = False,
       cn_membership = Some \<lparr>mb_epic_id = ''e1'', mb_entry_id = ''x'', mb_order = 1\<rparr>\<rparr>,
      \<lparr>cn_id = ''b'', cn_title = ''B'', cn_status = Draft, cn_lifecycle = LcOpen,
       cn_deps = [], cn_inProgress = True,
       cn_membership = Some \<lparr>mb_epic_id = ''e2'', mb_entry_id = ''y'', mb_order = 0\<rparr>\<rparr>,
      \<lparr>cn_id = ''c'', cn_title = ''C'', cn_status = Archived, cn_lifecycle = LcOpen,
       cn_deps = [], cn_inProgress = False, cn_membership = None\<rparr>,
      \<lparr>cn_id = ''d'', cn_title = ''D'', cn_status = Draft, cn_lifecycle = LcOpen,
       cn_deps = [ChangeNode ''p'' ''c''], cn_inProgress = True, cn_membership = None\<rparr>]"

definition ex_epics :: "epic_node_input list" where
  "ex_epics =
     [\<lparr>ep_id = ''e1'', ep_title = ''E1'', ep_entries = [ShellEntry ''x'' 1 ''X'' None [],
        ShellEntry ''w'' 2 ''W'' None [ChangeNode ''p'' ''c'']]\<rparr>,
      \<lparr>ep_id = ''e2'', ep_title = ''E2'', ep_entries = [ChangeEntry ''y'' 0 ''Y'' ''b'']\<rparr>]"

definition ex_scope :: resume_scope where
  "ex_scope = \<lparr>rs_project_id = ''p'', rs_epic_ids = None\<rparr>"

lemma ex_distinct: "distinct (map (\<lambda>n. nodeRefKey (nd_ref n)) (resumeNodes ex_changes ex_epics ex_scope))"
  by code_simp

theorem resume_next_is_first_witness:
  "map_option row_node (rp_ordered_next (buildResumeProjection ''t'' ex_changes ex_epics ex_scope))
     = Some (ChangeNode ''p'' ''a'') \<and>
   (\<exists>nd. nodeRow (resumeNodes ex_changes ex_epics ex_scope) nd
       = the (rp_ordered_next (buildResumeProjection ''t'' ex_changes ex_epics ex_scope)))"
proof -
  have "map_option row_node (rp_ordered_next (buildResumeProjection ''t'' ex_changes ex_epics ex_scope))
     = Some (ChangeNode ''p'' ''a'')" by code_simp
  then show ?thesis
    using resume_next_is_first [OF ex_distinct, of "''t''"] by (auto split: option.splits)
qed

theorem resume_clean_not_stuck_witness:
  "rp_actionable (buildResumeProjection ''t'' ex_changes ex_epics ex_scope)
    @ rp_active (buildResumeProjection ''t'' ex_changes ex_epics ex_scope) \<noteq> []"
proof (rule resume_clean_not_stuck [OF ex_distinct])
  show "rp_cycles (buildResumeProjection ''t'' ex_changes ex_epics ex_scope) = []" by code_simp
  show "rp_unresolved (buildResumeProjection ''t'' ex_changes ex_epics ex_scope) = []" by code_simp
  show "openNodes (resumeNodes ex_changes ex_epics ex_scope) \<noteq> []" by code_simp
qed

theorem unlinked_rank_reachable_witness:
  "computeChangeRank (ex_changes ! 0) ex_epics < computeChangeRank (ex_changes ! 3) ex_epics \<and>
   computeChangeRank (ex_changes ! 3) ex_epics < computeChangeRank (ex_changes ! 1) ex_epics"
  using unlinked_rank_reachable [of "ex_changes ! 3" "ex_changes ! 0" _ ex_epics 0]
    unlinked_rank_reachable [of "ex_changes ! 3" "ex_changes ! 1" _ ex_epics 1]
  by (simp add: ex_changes_def ex_epics_def epicBandSpan_def)

end
