(* ===== verification/Spec_Delta.thy ===== *)
theory Spec_Delta
  imports Prelude
begin

text \<open>
  Specifications and the deltas an archived change applies to them
  (\<^verbatim>\<open>plugin/src/types/specs.ts\<close>, \<^verbatim>\<open>plugin/src/archive/delta.ts\<close>).  A delta mutates the
  specification in place, so every operation returns its result record together with the new
  specification.  Unknown fields the schemas pass through are kept as JSON; the precondition
  that reconciliation reads from a delta is not read here and left out.  Logging is left out.
\<close>

subsection \<open>Specifications\<close>

datatype priority = Must | Should | May

record scenario =
  sc_id :: string
  sc_title :: string
  sc_given :: "string list"
  sc_when :: string
  sc_then :: "string list"
  sc_extra :: "(string \<times> json) list"

record requirement =
  rq_id :: string
  rq_title :: string
  rq_body :: string
  rq_priority :: priority
  rq_tags :: "string list option"
  rq_scenarios :: "scenario list option"
  rq_meta :: "string option"
  rq_extra :: "(string \<times> json) list"

record spec =
  sp_schema :: "string option"
  sp_name :: string
  sp_title :: string
  sp_purpose :: string
  sp_version :: string
  sp_updated_at :: string
  sp_requirements :: "requirement list"
  sp_extra :: "(string \<times> json) list"

definition orEmpty :: "'a list option \<Rightarrow> 'a list" where
  "orEmpty xs = (case xs of Some ys \<Rightarrow> ys | None \<Rightarrow> [])"

lemma orEmpty_simps [simp]: "orEmpty None = []" "orEmpty (Some xs) = xs"
  by (simp_all add: orEmpty_def)

text \<open>The scenario fields whose JSON text is compared.\<close>

definition scenarioNorm :: "scenario \<Rightarrow> string \<times> string \<times> string list \<times> string \<times> string list" where
  "scenarioNorm s = (sc_id s, sc_title s, sc_given s, sc_when s, sc_then s)"

text \<open>\<open>lc\<close> is \<^verbatim>\<open>localeCompare\<close>.  Tags are sorted by code unit and compared as one joined string.\<close>

definition requirementsContentEqual ::
  "string comparator \<Rightarrow> requirement \<Rightarrow> requirement \<Rightarrow> bool" where
  "requirementsContentEqual lc a b =
     (let tags = (\<lambda>r. joinWith [CHR 0x0A] (js_sort str_cmp (orEmpty (rq_tags r))));
          scn = (\<lambda>r. map scenarioNorm (js_sort (\<lambda>x y. lc (sc_id x) (sc_id y)) (orEmpty (rq_scenarios r))))
      in rq_id a = rq_id b \<and> rq_title a = rq_title b \<and> rq_body a = rq_body b
         \<and> rq_priority a = rq_priority b \<and> tags a = tags b \<and> scn a = scn b)"

subsection \<open>Deltas\<close>

record modify_changes =
  mc_title :: "string option"
  mc_body :: "string option"
  mc_priority :: "priority option"
  mc_tags :: "string list option"
  mc_scenarios :: "scenario list option"

text \<open>Each delta carries its identifier first.\<close>

datatype delta =
    DeltaAdd string requirement
  | DeltaModify string string modify_changes
  | DeltaRemove string string string
  | DeltaRename string string string "string option"

datatype operation = OpAdd | OpModify | OpRemove | OpRename

fun operationOf :: "delta \<Rightarrow> operation" where
  "operationOf (DeltaAdd _ _) = OpAdd"
| "operationOf (DeltaModify _ _ _) = OpModify"
| "operationOf (DeltaRemove _ _ _) = OpRemove"
| "operationOf (DeltaRename _ _ _ _) = OpRename"

record delta_result =
  dr_success :: bool
  dr_deltaId :: string
  dr_operation :: operation
  dr_targetId :: "string option"
  dr_newId :: "string option"
  dr_error :: "string option"

definition findRequirement :: "spec \<Rightarrow> string \<Rightarrow> requirement option" where
  "findRequirement s i = List.find (\<lambda>r. rq_id r = i) (sp_requirements s)"

definition indexOfRequirement :: "spec \<Rightarrow> string \<Rightarrow> nat option" where
  "indexOfRequirement s i = findIndex (\<lambda>r. rq_id r = i) (sp_requirements s)"

definition applyAddDelta ::
  "string comparator \<Rightarrow> spec \<Rightarrow> string \<Rightarrow> requirement \<Rightarrow> delta_result \<times> spec" where
  "applyAddDelta lc s deltaId rq =
     (let ok = \<lparr>dr_success = True, dr_deltaId = deltaId, dr_operation = OpAdd, dr_targetId = None,
            dr_newId = Some (rq_id rq), dr_error = None\<rparr>
      in case findRequirement s (rq_id rq) of
           Some existing \<Rightarrow>
             (if requirementsContentEqual lc existing rq then (ok, s)
              else (\<lparr>dr_success = False, dr_deltaId = deltaId, dr_operation = OpAdd, dr_targetId = None,
                 dr_newId = None,
                 dr_error = Some (''Requirement \"'' @ rq_id rq @ ''\" already exists in spec'')\<rparr>, s))
         | None \<Rightarrow> (ok, s\<lparr>sp_requirements := sp_requirements s @ [rq]\<rparr>))"

definition notFound :: "string \<Rightarrow> operation \<Rightarrow> string \<Rightarrow> delta_result" where
  "notFound deltaId op target =
     \<lparr>dr_success = False, dr_deltaId = deltaId, dr_operation = op, dr_targetId = Some target,
      dr_newId = None, dr_error = Some (''Requirement \"'' @ target @ ''\" not found in spec'')\<rparr>"

definition targetOk :: "string \<Rightarrow> operation \<Rightarrow> string \<Rightarrow> delta_result" where
  "targetOk deltaId op target =
     \<lparr>dr_success = True, dr_deltaId = deltaId, dr_operation = op, dr_targetId = Some target,
      dr_newId = None, dr_error = None\<rparr>"

text \<open>The object spread: a present field overrides.\<close>

definition mergeChanges :: "requirement \<Rightarrow> modify_changes \<Rightarrow> requirement" where
  "mergeChanges r c = r
     \<lparr>rq_title := (case mc_title c of Some t \<Rightarrow> t | None \<Rightarrow> rq_title r),
      rq_body := (case mc_body c of Some t \<Rightarrow> t | None \<Rightarrow> rq_body r),
      rq_priority := (case mc_priority c of Some p \<Rightarrow> p | None \<Rightarrow> rq_priority r),
      rq_tags := (case mc_tags c of Some t \<Rightarrow> Some t | None \<Rightarrow> rq_tags r),
      rq_scenarios := (case mc_scenarios c of Some t \<Rightarrow> Some t | None \<Rightarrow> rq_scenarios r)\<rparr>"

definition applyModifyDelta ::
  "spec \<Rightarrow> string \<Rightarrow> string \<Rightarrow> modify_changes \<Rightarrow> delta_result \<times> spec" where
  "applyModifyDelta s deltaId target changes =
     (case indexOfRequirement s target of
        None \<Rightarrow> (notFound deltaId OpModify target, s)
      | Some i \<Rightarrow> (targetOk deltaId OpModify target,
          s\<lparr>sp_requirements := (sp_requirements s)[i := mergeChanges (sp_requirements s ! i) changes]\<rparr>))"

definition applyRemoveDelta :: "spec \<Rightarrow> string \<Rightarrow> string \<Rightarrow> delta_result \<times> spec" where
  "applyRemoveDelta s deltaId target =
     (case indexOfRequirement s target of
        None \<Rightarrow> (notFound deltaId OpRemove target, s)
      | Some i \<Rightarrow> (targetOk deltaId OpRemove target,
          s\<lparr>sp_requirements := take i (sp_requirements s) @ drop (Suc i) (sp_requirements s)\<rparr>))"

definition applyRenameDelta ::
  "spec \<Rightarrow> string \<Rightarrow> string \<Rightarrow> string \<Rightarrow> string option \<Rightarrow> delta_result \<times> spec" where
  "applyRenameDelta s deltaId target newTitle newId =
     (case indexOfRequirement s target of
        None \<Rightarrow> (notFound deltaId OpRename target, s)
      | Some i \<Rightarrow>
          (if truthy newId \<and> newId \<noteq> Some target \<and> findRequirement s (the newId) \<noteq> None
           then (\<lparr>dr_success = False, dr_deltaId = deltaId, dr_operation = OpRename,
               dr_targetId = Some target, dr_newId = None,
               dr_error = Some (''Requirement ID \"'' @ the newId @ ''\" already exists in spec'')\<rparr>, s)
           else (let r = (sp_requirements s ! i)\<lparr>rq_title := newTitle\<rparr>;
                     r' = (if truthy newId then r\<lparr>rq_id := the newId\<rparr> else r)
                 in ((targetOk deltaId OpRename target)\<lparr>dr_newId := (if truthy newId then newId else None)\<rparr>,
                     s\<lparr>sp_requirements := (sp_requirements s)[i := r']\<rparr>))))"

fun applyDelta :: "string comparator \<Rightarrow> spec \<Rightarrow> delta \<Rightarrow> delta_result \<times> spec" where
  "applyDelta lc s (DeltaAdd i rq) = applyAddDelta lc s i rq"
| "applyDelta lc s (DeltaModify i target changes) = applyModifyDelta s i target changes"
| "applyDelta lc s (DeltaRemove i target reason) = applyRemoveDelta s i target"
| "applyDelta lc s (DeltaRename i target newTitle newId) = applyRenameDelta s i target newTitle newId"

subsection \<open>Batches\<close>

fun deltaOrder :: "operation \<Rightarrow> int" where
  "deltaOrder OpRename = 0"
| "deltaOrder OpRemove = 1"
| "deltaOrder OpModify = 2"
| "deltaOrder OpAdd = 3"

definition sortDeltas :: "delta list \<Rightarrow> delta list" where
  "sortDeltas deltas = js_sort (by_number (\<lambda>d. deltaOrder (operationOf d))) deltas"

text \<open>
  The loop of a batch, which stops on the first failure.  The three flags are set for the deltas
  that succeeded.
\<close>

record batch_flags =
  bf_add :: bool
  bf_modify :: bool
  bf_renameOrRemove :: bool

definition raiseFlag :: "operation \<Rightarrow> batch_flags \<Rightarrow> batch_flags" where
  "raiseFlag op f = f\<lparr>bf_add := bf_add f \<or> op = OpAdd, bf_modify := bf_modify f \<or> op = OpModify,
     bf_renameOrRemove := bf_renameOrRemove f \<or> op = OpRename \<or> op = OpRemove\<rparr>"

fun applyGo ::
  "string comparator \<Rightarrow> spec \<Rightarrow> batch_flags \<Rightarrow> delta_result list \<Rightarrow> delta list
   \<Rightarrow> spec \<times> batch_flags \<times> delta_result list" where
  "applyGo lc s f rs [] = (s, f, rs)"
| "applyGo lc s f rs (d # ds) =
     (let (r, s') = applyDelta lc s d
      in if dr_success r then applyGo lc s' (raiseFlag (operationOf d) f) (rs @ [r]) ds
         else (s', f, rs @ [r]))"

definition showVersion :: "int \<Rightarrow> int \<Rightarrow> int \<Rightarrow> string" where
  "showVersion major minor patch = showInt major @ ''.'' @ showInt minor @ ''.'' @ showInt patch"

definition bumpVersion :: "string \<Rightarrow> bool \<Rightarrow> bool \<Rightarrow> string" where
  "bumpVersion version hasAdd hasPatchChange =
     (case map jsNumber (splitOn (CHR ''.'') version) of
        [Some major, Some minor, Some patch] \<Rightarrow>
          (if hasAdd then showVersion major (minor + 1) 0
           else if hasPatchChange then showVersion major minor (patch + 1)
           else showVersion major minor (patch + 1))
      | _ \<Rightarrow> version @ ''-updated'')"

record spec_update =
  su_capability :: string
  su_originalVersion :: string
  su_newVersion :: string
  su_deltaResults :: "delta_result list"
  su_updatedSpec :: "spec option"

definition applyDeltasToSpec ::
  "string comparator \<Rightarrow> string \<Rightarrow> spec \<Rightarrow> delta list \<Rightarrow> string \<Rightarrow> spec_update \<times> spec" where
  "applyDeltasToSpec lc now s deltas currentVersion =
     (let (s1, f, results) = applyGo lc s \<lparr>bf_add = False, bf_modify = False, bf_renameOrRemove = False\<rparr> []
            (sortDeltas deltas);
          allSucceeded = (\<forall>r \<in> set results. dr_success r);
          newVersion = (if allSucceeded then bumpVersion currentVersion (bf_add f) (bf_modify f \<or> bf_renameOrRemove f)
            else currentVersion);
          s2 = (if allSucceeded then s1\<lparr>sp_version := newVersion, sp_updated_at := now\<rparr> else s1)
      in (\<lparr>su_capability = sp_name s2, su_originalVersion = currentVersion, su_newVersion = newVersion,
           su_deltaResults = results, su_updatedSpec = (if allSucceeded then Some s2 else None)\<rparr>, s2))"

subsection \<open>New capabilities\<close>

text \<open>\<^verbatim>\<open>toUpperCase\<close> on the ASCII letters capability keys consist of.\<close>

definition upperChar :: "char \<Rightarrow> char" where
  "upperChar c = (if (97::nat) \<le> of_char c \<and> (of_char c :: nat) \<le> 122
     then char_of ((of_char c :: nat) - 32) else c)"

fun capitalize :: "string \<Rightarrow> string" where
  "capitalize [] = []"
| "capitalize (c # cs) = upperChar c # cs"

definition formatTitle :: "string \<Rightarrow> string" where
  "formatTitle capability = joinWith '' '' (map capitalize (splitOn (CHR ''-'') capability))"

text \<open>
  The updated specification of the result is the same object as the returned one, so resetting
  its version shows in both.
\<close>

definition createSpecFromDeltas ::
  "string comparator \<Rightarrow> string \<Rightarrow> string \<Rightarrow> string \<Rightarrow> delta list \<Rightarrow> spec \<times> spec_update" where
  "createSpecFromDeltas lc schemaUrl now capability deltas =
     (let s0 = \<lparr>sp_schema = Some schemaUrl, sp_name = capability, sp_title = formatTitle capability,
            sp_purpose = ''Capability: '' @ formatTitle capability, sp_version = ''0.0.0'',
            sp_updated_at = now, sp_requirements = [], sp_extra = []\<rparr>;
          (res, s1) = applyDeltasToSpec lc now s0 deltas ''0.0.0'';
          version = (if \<exists>r \<in> set (su_deltaResults res). dr_success r then ''1.0.0'' else ''0.0.0'');
          s2 = s1\<lparr>sp_version := version\<rparr>
      in (s2, res\<lparr>su_newVersion := version,
            su_updatedSpec := map_option (\<lambda>_. s2) (su_updatedSpec res)\<rparr>))"

subsection \<open>The abstract effect of a delta\<close>

text \<open>
  A specification promises a finite map from requirement identifiers to requirements: what
  \<open>findRequirement\<close> returns.  \<open>specDelta\<close> says what a delta does to that map, \<open>None\<close> where it is
  refused.
\<close>

fun specDelta ::
  "string comparator \<Rightarrow> (string \<rightharpoonup> requirement) \<Rightarrow> delta \<Rightarrow> (string \<rightharpoonup> requirement) option" where
  "specDelta lc m (DeltaAdd i rq) =
     (case m (rq_id rq) of
        None \<Rightarrow> Some (m(rq_id rq \<mapsto> rq))
      | Some e \<Rightarrow> if requirementsContentEqual lc e rq then Some m else None)"
| "specDelta lc m (DeltaModify i t c) = map_option (\<lambda>r. m(t \<mapsto> mergeChanges r c)) (m t)"
| "specDelta lc m (DeltaRemove i t reason) = map_option (\<lambda>r. m(t := None)) (m t)"
| "specDelta lc m (DeltaRename i t title newId) =
     (case m t of None \<Rightarrow> None
      | Some r \<Rightarrow>
          (let r' = r\<lparr>rq_title := title\<rparr> in
           if \<not> truthy newId then Some (m(t \<mapsto> r'))
           else if newId \<noteq> Some t \<and> m (the newId) \<noteq> None then None
           else Some ((m(t := None))(the newId \<mapsto> r'\<lparr>rq_id := the newId\<rparr>))))"

abbreviation reqIds :: "spec \<Rightarrow> string list" where
  "reqIds s \<equiv> map rq_id (sp_requirements s)"

lemma findRequirement_None: "findRequirement s i = None \<longleftrightarrow> i \<notin> set (reqIds s)"
  by (auto simp: findRequirement_def find_None_iff)

lemma findRequirement_parts:
  assumes "sp_requirements s = ys @ x # zs" "distinct (reqIds s)"
  shows "findRequirement s (rq_id x) = Some x"
    and "findRequirement (s\<lparr>sp_requirements := ys @ zs\<rparr>) = (findRequirement s)(rq_id x := None)"
    and "rq_id x' \<notin> set (map rq_id (ys @ zs)) \<Longrightarrow>
      findRequirement (s\<lparr>sp_requirements := ys @ x' # zs\<rparr>)
        = ((findRequirement s)(rq_id x := None))(rq_id x' \<mapsto> x')"
  using assms
  by (auto simp: findRequirement_def find_append fun_eq_iff image_iff split: option.splits
      dest!: find_Some_mem) (auto simp: find_None_iff_all)

lemma indexOfRequirement_SomeE:
  assumes "indexOfRequirement s i = Some k"
  obtains ys x zs where "sp_requirements s = ys @ x # zs" "length ys = k" "rq_id x = i"
  using findIndex_SomeE [OF assms [unfolded indexOfRequirement_def]] that by metis

lemma indexOfRequirement_None:
  "indexOfRequirement s i = None \<longleftrightarrow> i \<notin> set (reqIds s)"
  by (auto simp: indexOfRequirement_def findIndex_None image_iff)

text \<open>What it means that a delta does to the specification what it does to its map.\<close>

definition refines :: "string comparator \<Rightarrow> spec \<Rightarrow> delta \<Rightarrow> bool" where
  "refines lc s d \<longleftrightarrow>
     (case specDelta lc (findRequirement s) d of
        None \<Rightarrow> \<not> dr_success (fst (applyDelta lc s d)) \<and> snd (applyDelta lc s d) = s
      | Some m \<Rightarrow> dr_success (fst (applyDelta lc s d)) \<and>
          findRequirement (snd (applyDelta lc s d)) = m \<and>
          distinct (reqIds (snd (applyDelta lc s d))) \<and>
          snd (applyDelta lc s d) = s\<lparr>sp_requirements := sp_requirements (snd (applyDelta lc s d))\<rparr>)"

lemma refines_add: "distinct (reqIds s) \<Longrightarrow> refines lc s (DeltaAdd i rq)"
proof (cases "findRequirement s (rq_id rq)")
  case None
  assume d: "distinct (reqIds s)"
  from None have n: "rq_id rq \<notin> set (reqIds s)" by (simp add: findRequirement_None)
  then have "findRequirement (s\<lparr>sp_requirements := sp_requirements s @ [rq]\<rparr>) k
      = (if k = rq_id rq then Some rq else findRequirement s k)" for k
    by (cases "findRequirement s k")
      (auto simp: findRequirement_def find_append image_iff dest!: find_Some_mem)
  then have "findRequirement (s\<lparr>sp_requirements := sp_requirements s @ [rq]\<rparr>)
      = (findRequirement s)(rq_id rq \<mapsto> rq)" by (simp add: fun_eq_iff)
  with None n d show ?thesis by (simp add: refines_def applyAddDelta_def Let_def)
next
  case (Some e)
  assume "distinct (reqIds s)"
  with Some show ?thesis by (simp add: refines_def applyAddDelta_def Let_def)
qed

lemma mergeChanges_id [simp]: "rq_id (mergeChanges r c) = rq_id r"
  by (simp add: mergeChanges_def)

lemma refines_modify: "distinct (reqIds s) \<Longrightarrow> refines lc s (DeltaModify i t c)"
proof (cases "indexOfRequirement s t")
  case None
  then have "findRequirement s t = None" by (simp add: findRequirement_None indexOfRequirement_None)
  with None show ?thesis by (simp add: refines_def applyModifyDelta_def notFound_def)
next
  case (Some k)
  assume d: "distinct (reqIds s)"
  from Some obtain ys x zs where x: "sp_requirements s = ys @ x # zs" "length ys = k" "rq_id x = t"
    by (rule indexOfRequirement_SomeE)
  note parts = findRequirement_parts [OF x(1) d]
  have "rq_id (mergeChanges x c) \<notin> set (map rq_id (ys @ zs))" using d x by auto
  from parts(3) [OF this] parts(1) x d Some show ?thesis
    by (auto simp: refines_def applyModifyDelta_def targetOk_def)
qed

lemma refines_remove: "distinct (reqIds s) \<Longrightarrow> refines lc s (DeltaRemove i t reason)"
proof (cases "indexOfRequirement s t")
  case None
  then have "findRequirement s t = None" by (simp add: findRequirement_None indexOfRequirement_None)
  with None show ?thesis by (simp add: refines_def applyRemoveDelta_def notFound_def)
next
  case (Some k)
  assume d: "distinct (reqIds s)"
  from Some obtain ys x zs where x: "sp_requirements s = ys @ x # zs" "length ys = k" "rq_id x = t"
    by (rule indexOfRequirement_SomeE)
  from findRequirement_parts (1,2) [OF x(1) d] x d Some show ?thesis
    by (auto simp: refines_def applyRemoveDelta_def targetOk_def)
qed

lemma refines_rename: "distinct (reqIds s) \<Longrightarrow> refines lc s (DeltaRename i t title newId)"
proof (cases "indexOfRequirement s t")
  case None
  then have "findRequirement s t = None" by (simp add: findRequirement_None indexOfRequirement_None)
  with None show ?thesis by (simp add: refines_def applyRenameDelta_def notFound_def)
next
  case (Some k)
  assume d: "distinct (reqIds s)"
  from Some obtain ys x zs where x: "sp_requirements s = ys @ x # zs" "length ys = k" "rq_id x = t"
    by (rule indexOfRequirement_SomeE)
  note parts = findRequirement_parts [OF x(1) d]
  show ?thesis
  proof (cases "truthy newId")
    case False
    have "rq_id (x\<lparr>rq_title := title\<rparr>) \<notin> set (map rq_id (ys @ zs))" using d x by auto
    from parts(3) [OF this] parts(1) False x d Some show ?thesis
      by (auto simp: refines_def applyRenameDelta_def targetOk_def)
  next
    case True
    then obtain n where n: "newId = Some n" "n \<noteq> []" by (cases newId) auto
    show ?thesis
    proof (cases "n \<noteq> t \<and> findRequirement s n \<noteq> None")
      case taken: True
      with n Some parts(1) x show ?thesis by (auto simp: refines_def applyRenameDelta_def)
    next
      case free: False
      let ?x = "x\<lparr>rq_title := title, rq_id := n\<rparr>"
      from free d x have fresh: "n \<notin> set (map rq_id (ys @ zs))"
        by (auto simp: findRequirement_None)
      then have "rq_id ?x \<notin> set (map rq_id (ys @ zs))" by simp
      from parts(3) [OF this] parts(1) free fresh n x d Some show ?thesis
        by (auto simp: refines_def applyRenameDelta_def targetOk_def)
    qed
  qed
qed

lemma applyDelta_refines_map: "distinct (reqIds s) \<Longrightarrow> refines lc s d"
  by (cases d) (simp_all add: refines_add refines_modify refines_remove refines_rename)

subsection \<open>Batches\<close>

text \<open>The abstract effect of a batch in a given order, \<open>None\<close> from the first refused delta on.\<close>

fun specDeltas ::
  "string comparator \<Rightarrow> (string \<rightharpoonup> requirement) \<Rightarrow> delta list \<Rightarrow> (string \<rightharpoonup> requirement) option" where
  "specDeltas lc m [] = Some m"
| "specDeltas lc m (d # ds) = Option.bind (specDelta lc m d) (\<lambda>m'. specDeltas lc m' ds)"

lemma applyGo_Cons:
  "applyGo lc s f rs (d # ds) =
     (if dr_success (fst (applyDelta lc s d))
      then applyGo lc (snd (applyDelta lc s d)) (raiseFlag (operationOf d) f)
        (rs @ [fst (applyDelta lc s d)]) ds
      else (snd (applyDelta lc s d), f, rs @ [fst (applyDelta lc s d)]))"
  by (simp add: case_prod_unfold Let_def)

lemma applyGo_refines:
  "distinct (reqIds s) \<Longrightarrow> \<forall>r \<in> set rs. dr_success r \<Longrightarrow>
   (case specDeltas lc (findRequirement s) ds of
      None \<Rightarrow> \<not> (\<forall>r \<in> set (snd (snd (applyGo lc s f rs ds))). dr_success r)
    | Some m \<Rightarrow> (\<forall>r \<in> set (snd (snd (applyGo lc s f rs ds))). dr_success r) \<and>
        findRequirement (fst (applyGo lc s f rs ds)) = m) \<and>
   distinct (reqIds (fst (applyGo lc s f rs ds))) \<and>
   fst (applyGo lc s f rs ds) = s\<lparr>sp_requirements := sp_requirements (fst (applyGo lc s f rs ds))\<rparr>"
proof (induction ds arbitrary: s f rs)
  case Nil
  then show ?case by simp
next
  case (Cons d ds)
  let ?r = "fst (applyDelta lc s d)" and ?s = "snd (applyDelta lc s d)"
  have ref: "refines lc s d" by (rule applyDelta_refines_map [OF Cons.prems(1)])
  show ?case
  proof (cases "specDelta lc (findRequirement s) d")
    case None
    with ref have "\<not> dr_success ?r" "?s = s" by (auto simp: refines_def)
    with None Cons.prems show ?thesis by (simp add: applyGo_Cons del: applyGo.simps)
  next
    case (Some m)
    with ref have r: "dr_success ?r" "findRequirement ?s = m" "distinct (reqIds ?s)"
      "?s = s\<lparr>sp_requirements := sp_requirements ?s\<rparr>" by (auto simp: refines_def)
    let ?g = "applyGo lc ?s (raiseFlag (operationOf d) f) (rs @ [?r]) ds"
    have g: "applyGo lc s f rs (d # ds) = ?g" using r(1) by (simp add: applyGo_Cons del: applyGo.simps)
    have IH: "(case specDeltas lc m ds of
        None \<Rightarrow> \<not> (\<forall>r \<in> set (snd (snd ?g)). dr_success r)
      | Some m \<Rightarrow> (\<forall>r \<in> set (snd (snd ?g)). dr_success r) \<and> findRequirement (fst ?g) = m)"
      "distinct (reqIds (fst ?g))" "fst ?g = ?s\<lparr>sp_requirements := sp_requirements (fst ?g)\<rparr>"
      using Cons.IH [OF r(3), of "rs @ [?r]" "raiseFlag (operationOf d) f"] Cons.prems(2) r(1,2) by auto
    have "?s\<lparr>sp_requirements := x\<rparr> = s\<lparr>sp_requirements := x\<rparr>" for x
      by (subst r(4)) simp
    with IH(3) have meta: "fst ?g = s\<lparr>sp_requirements := sp_requirements (fst ?g)\<rparr>" by simp
    have e: "specDeltas lc (findRequirement s) (d # ds) = specDeltas lc m ds" using Some by simp
    show ?thesis unfolding g e by (intro conjI) (fact IH(1), fact IH(2), fact meta)
  qed
qed

lemma applyDeltas_split:
  "applyDeltasToSpec lc now s deltas v =
     (let g = applyGo lc s \<lparr>bf_add = False, bf_modify = False, bf_renameOrRemove = False\<rparr> [] (sortDeltas deltas);
          f = fst (snd g);
          new = bumpVersion v (bf_add f) (bf_modify f \<or> bf_renameOrRemove f);
          s2 = (fst g)\<lparr>sp_version := new, sp_updated_at := now\<rparr>
      in if \<forall>r \<in> set (snd (snd g)). dr_success r
         then (\<lparr>su_capability = sp_name s2, su_originalVersion = v, su_newVersion = new,
                su_deltaResults = snd (snd g), su_updatedSpec = Some s2\<rparr>, s2)
         else (\<lparr>su_capability = sp_name (fst g), su_originalVersion = v, su_newVersion = v,
                su_deltaResults = snd (snd g), su_updatedSpec = None\<rparr>, fst g))"
  by (simp add: applyDeltasToSpec_def case_prod_unfold Let_def)

lemma findRequirement_meta [simp]:
  "findRequirement (s\<lparr>sp_version := v, sp_updated_at := t\<rparr>) = findRequirement s"
  by (simp add: findRequirement_def fun_eq_iff)

subsection \<open>Re-applying additions\<close>

text \<open>A batch of additions is present in a map when each has an equal requirement there.\<close>

fun present :: "string comparator \<Rightarrow> (string \<rightharpoonup> requirement) \<Rightarrow> delta \<Rightarrow> bool" where
  "present lc m (DeltaAdd i rq) =
     (case m (rq_id rq) of Some e \<Rightarrow> requirementsContentEqual lc e rq | None \<Rightarrow> False)"
| "present lc m _ = False"

lemma requirementsContentEqual_refl [simp]: "requirementsContentEqual lc a a"
  by (simp add: requirementsContentEqual_def Let_def)

lemma specDelta_add_present:
  "operationOf d = OpAdd \<Longrightarrow> specDelta lc m d = Some m' \<Longrightarrow> present lc m' d \<and> m \<subseteq>\<^sub>m m'"
  by (cases d) (auto simp: map_le_def split: option.splits if_splits)

lemma present_mono: "present lc m d \<Longrightarrow> m \<subseteq>\<^sub>m m' \<Longrightarrow> present lc m' d"
  by (cases d) (auto simp: map_le_def dom_def split: option.splits)

lemma specDeltas_adds_present:
  "\<forall>d \<in> set ds. operationOf d = OpAdd \<Longrightarrow> specDeltas lc m ds = Some m' \<Longrightarrow>
   (\<forall>d \<in> set ds. present lc m' d) \<and> m \<subseteq>\<^sub>m m'"
proof (induction ds arbitrary: m)
  case (Cons d ds)
  then obtain m1 where m1: "specDelta lc m d = Some m1" "specDeltas lc m1 ds = Some m'"
    by (auto split: bind_splits)
  with Cons.IH [of m1] Cons.prems have ih: "\<forall>d \<in> set ds. present lc m' d" "m1 \<subseteq>\<^sub>m m'" by auto
  from specDelta_add_present [OF _ m1(1)] Cons.prems(1) have "present lc m1 d" "m \<subseteq>\<^sub>m m1" by auto
  with ih show ?case by (auto intro: present_mono map_le_trans)
qed simp

lemma apply_present:
  assumes "present lc (findRequirement s) d"
  shows "dr_success (fst (applyDelta lc s d)) \<and> snd (applyDelta lc s d) = s"
proof -
  from assms obtain i rq e where "d = DeltaAdd i rq" "findRequirement s (rq_id rq) = Some e"
      "requirementsContentEqual lc e rq"
    by (cases d) (auto split: option.splits)
  then show ?thesis by (simp add: applyAddDelta_def Let_def)
qed

lemma applyGo_present:
  "\<forall>d \<in> set ds. present lc (findRequirement s) d \<Longrightarrow> \<forall>r \<in> set rs. dr_success r \<Longrightarrow>
   fst (applyGo lc s f rs ds) = s \<and> (\<forall>r \<in> set (snd (snd (applyGo lc s f rs ds))). dr_success r)"
proof (induction ds arbitrary: f rs)
  case (Cons d ds)
  from apply_present [of lc s d] Cons.prems(1)
  have "dr_success (fst (applyDelta lc s d))" "snd (applyDelta lc s d) = s" by auto
  with Cons.IH [of "rs @ [fst (applyDelta lc s d)]" "raiseFlag (operationOf d) f"] Cons.prems
  show ?case by (simp add: applyGo_Cons del: applyGo.simps)
qed simp

subsection \<open>Properties\<close>

text \<open>
  Claim C8. On a specification with unique requirement identifiers every delta does to the
  identifier-to-requirement map exactly what the abstract operation does: it succeeds when the
  abstract operation is defined and yields its map, fails leaving the specification untouched
  otherwise, and either way the identifiers stay unique.
\<close>

theorem applyDelta_refines:
  assumes "distinct (map rq_id (sp_requirements s))"
  shows "case specDelta lc (findRequirement s) d of
      None \<Rightarrow> \<not> dr_success (fst (applyDelta lc s d)) \<and> snd (applyDelta lc s d) = s
    | Some m \<Rightarrow> dr_success (fst (applyDelta lc s d)) \<and>
        findRequirement (snd (applyDelta lc s d)) = m \<and>
        distinct (map rq_id (sp_requirements (snd (applyDelta lc s d))))"
  using applyDelta_refines_map [OF assms, of lc d] by (auto simp: refines_def split: option.splits)

text \<open>
  A batch either has the effect of its deltas in canonical order on the map, with the
  version bumped and the update time set, or, when one of them is refused, it leaves the
  version, the update time and every other field but the requirements as they were and returns
  no updated specification.  Identifiers stay unique in both cases.
\<close>

theorem applyDeltas_all_or_no_version:
  assumes "distinct (map rq_id (sp_requirements s))"
    and "applyDeltasToSpec lc now s deltas v = (res, s')"
  shows "distinct (map rq_id (sp_requirements s')) \<and>
    (case specDeltas lc (findRequirement s) (sortDeltas deltas) of
       None \<Rightarrow> su_updatedSpec res = None \<and> su_newVersion res = v \<and>
         s' = s\<lparr>sp_requirements := sp_requirements s'\<rparr>
     | Some m \<Rightarrow> su_updatedSpec res = Some s' \<and> findRequirement s' = m \<and>
         s' = s\<lparr>sp_requirements := sp_requirements s', sp_version := su_newVersion res, sp_updated_at := now\<rparr>)"
proof -
  let ?g = "applyGo lc s \<lparr>bf_add = False, bf_modify = False, bf_renameOrRemove = False\<rparr> [] (sortDeltas deltas)"
  have g: "(case specDeltas lc (findRequirement s) (sortDeltas deltas) of
      None \<Rightarrow> \<not> (\<forall>r \<in> set (snd (snd ?g)). dr_success r)
    | Some m \<Rightarrow> (\<forall>r \<in> set (snd (snd ?g)). dr_success r) \<and> findRequirement (fst ?g) = m)"
    "distinct (reqIds (fst ?g))" "fst ?g = s\<lparr>sp_requirements := sp_requirements (fst ?g)\<rparr>"
    using applyGo_refines [OF assms(1), where rs = "[]" and lc = lc and ds = "sortDeltas deltas"
      and f = "\<lparr>bf_add = False, bf_modify = False, bf_renameOrRemove = False\<rparr>"] by auto
  show ?thesis
  proof (cases "specDeltas lc (findRequirement s) (sortDeltas deltas)")
    case None
    with g(1) have "\<not> (\<forall>r \<in> set (snd (snd ?g)). dr_success r)" by simp
    with assms(2) have "s' = fst ?g" "su_updatedSpec res = None" "su_newVersion res = v"
      by (auto simp: applyDeltas_split Let_def)
    with None g(2,3) show ?thesis by simp
  next
    case (Some m)
    with g(1) have ok: "\<forall>r \<in> set (snd (snd ?g)). dr_success r" "findRequirement (fst ?g) = m" by auto
    with assms(2) have r: "s' = (fst ?g)\<lparr>sp_version := su_newVersion res, sp_updated_at := now\<rparr>"
        "su_updatedSpec res = Some s'"
      by (auto simp: applyDeltas_split Let_def)
    have "s' = s\<lparr>sp_requirements := sp_requirements s', sp_version := su_newVersion res, sp_updated_at := now\<rparr>"
      by (subst r(1), subst g(3)) (simp add: r(1))
    moreover have "findRequirement s' = m" using ok(2) unfolding r(1) by (simp only: findRequirement_meta)
    moreover have "distinct (reqIds s')" using g(2) unfolding r(1) by simp
    ultimately show ?thesis unfolding Some option.case using r(2) by (intro conjI)
  qed
qed

text \<open>
  Applying a batch of additions again to the specification it produced succeeds and
  changes no requirement.
\<close>

theorem reapplying_adds_is_idempotent:
  assumes "distinct (map rq_id (sp_requirements s))" and "\<forall>d \<in> set deltas. operationOf d = OpAdd"
    and "su_updatedSpec (fst (applyDeltasToSpec lc now s deltas v)) = Some s'"
  shows "su_updatedSpec (fst (applyDeltasToSpec lc now' s' deltas v')) \<noteq> None \<and>
    sp_requirements (snd (applyDeltasToSpec lc now' s' deltas v')) = sp_requirements s'"
proof -
  obtain res s1 where r: "applyDeltasToSpec lc now s deltas v = (res, s1)"
    by (cases "applyDeltasToSpec lc now s deltas v")
  let ?g = "applyGo lc s \<lparr>bf_add = False, bf_modify = False, bf_renameOrRemove = False\<rparr> [] (sortDeltas deltas)"
  have g: "case specDeltas lc (findRequirement s) (sortDeltas deltas) of
      None \<Rightarrow> \<not> (\<forall>r \<in> set (snd (snd ?g)). dr_success r)
    | Some m \<Rightarrow> (\<forall>r \<in> set (snd (snd ?g)). dr_success r) \<and> findRequirement (fst ?g) = m"
    using applyGo_refines [OF assms(1), where rs = "[]" and lc = lc and ds = "sortDeltas deltas"
      and f = "\<lparr>bf_add = False, bf_modify = False, bf_renameOrRemove = False\<rparr>"] by auto
  from assms(3) have "\<forall>r \<in> set (snd (snd ?g)). dr_success r"
    and s': "findRequirement s' = findRequirement (fst ?g)"
    by (auto simp: applyDeltas_split Let_def split: if_splits)
  with g obtain m where m: "specDeltas lc (findRequirement s) (sortDeltas deltas) = Some m"
      "findRequirement s' = m" by (auto split: option.splits)
  have "\<forall>d \<in> set (sortDeltas deltas). operationOf d = OpAdd"
    using assms(2) by (simp add: sortDeltas_def)
  with specDeltas_adds_present [OF _ m(1)] m(2)
  have "\<forall>d \<in> set (sortDeltas deltas). present lc (findRequirement s') d" by auto
  from applyGo_present [OF this, of "[]"] show ?thesis
    by (simp add: applyDeltas_split Let_def)
qed

text \<open>
  The application order is a permutation of the batch in which renames precede
  removals, removals precede modifications and modifications precede additions, and deltas of
  one kind keep their order.
\<close>

theorem sortDeltas_canonical:
  "mset (sortDeltas deltas) = mset deltas \<and>
   sorted (map (\<lambda>d. deltaOrder (operationOf d)) (sortDeltas deltas)) \<and>
   filter (\<lambda>d. operationOf d = op) (sortDeltas deltas) = filter (\<lambda>d. operationOf d = op) deltas"
proof -
  have "filter (\<lambda>d. operationOf d = op) (sortDeltas deltas) = filter (\<lambda>d. operationOf d = op) deltas"
    unfolding sortDeltas_def by (rule by_number.js_sort_stable) (simp add: by_number_def)
  then show ?thesis by (simp add: sortDeltas_def sorted_by_number)
qed

text \<open>
  On a version of three numbers, an addition raises the minor number and clears the
  patch number, and any other successful batch raises the patch number; a version that does not
  consist of three parts gets a suffix instead.
\<close>

theorem bumpVersion_increments:
  "bumpVersion (showVersion (int a) (int b) (int c)) hasAdd hasPatch =
     (if hasAdd then showVersion (int a) (int b + 1) 0 else showVersion (int a) (int b) (int c + 1)) \<and>
   bumpVersion (showInt (int a) @ ''.'' @ showInt (int b)) hasAdd hasPatch
     = showInt (int a) @ ''.'' @ showInt (int b) @ ''-updated''"
proof -
  have dot: "CHR ''.'' \<notin> set (showNat n)" for n
    using isDigit_showNat [of "CHR ''.''" n] by (auto simp: isDigit_def)
  have s: "splitOn (CHR ''.'') (showVersion (int a) (int b) (int c)) = [showNat a, showNat b, showNat c]"
    by (simp add: showVersion_def showInt_def splitOn_sep splitOn_last dot)
  have t: "splitOn (CHR ''.'') (showInt (int a) @ ''.'' @ showInt (int b)) = [showNat a, showNat b]"
    by (simp add: showInt_def splitOn_sep splitOn_last dot)
  show ?thesis by (simp add: bumpVersion_def s t [simplified])
qed

subsection \<open>A concrete specification\<close>

definition ex_req :: "string \<Rightarrow> string \<Rightarrow> string list option \<Rightarrow> requirement" where
  "ex_req i t tags = \<lparr>rq_id = i, rq_title = t, rq_body = ''b'', rq_priority = Must, rq_tags = tags,
     rq_scenarios = None, rq_meta = None, rq_extra = []\<rparr>"

definition ex_spec :: spec where
  "ex_spec = \<lparr>sp_schema = None, sp_name = ''auth'', sp_title = ''Auth'', sp_purpose = ''p'',
     sp_version = ''1.4.2'', sp_updated_at = ''t0'',
     sp_requirements = [ex_req ''r1'' ''One'' None, ex_req ''r2'' ''Two'' (Some [''x''])], sp_extra = []\<rparr>"

lemma ex_spec_distinct: "distinct (map rq_id (sp_requirements ex_spec))"
  by code_simp

theorem applyDelta_refines_witness:
  "findRequirement (snd (applyDelta str_cmp ex_spec (DeltaRename ''d1'' ''r1'' ''Uno'' (Some ''r3'')))) ''r3''
     = Some (ex_req ''r3'' ''Uno'' None)"
  using applyDelta_refines [OF ex_spec_distinct, of str_cmp "DeltaRename ''d1'' ''r1'' ''Uno'' (Some ''r3'')"]
  by (simp add: ex_spec_def ex_req_def findRequirement_def)

theorem applyDeltas_all_or_no_version_witness:
  "distinct (map rq_id (sp_requirements (snd (applyDeltasToSpec str_cmp ''t1'' ex_spec
     [DeltaAdd ''d2'' (ex_req ''r4'' ''Four'' None), DeltaRemove ''d1'' ''r1'' ''gone''] ''1.4.2'')))) \<and>
   su_newVersion (fst (applyDeltasToSpec str_cmp ''t1'' ex_spec
     [DeltaAdd ''d2'' (ex_req ''r4'' ''Four'' None), DeltaRemove ''d1'' ''r1'' ''gone''] ''1.4.2'')) = ''1.5.0''"
proof
  show "distinct (map rq_id (sp_requirements (snd (applyDeltasToSpec str_cmp ''t1'' ex_spec
     [DeltaAdd ''d2'' (ex_req ''r4'' ''Four'' None), DeltaRemove ''d1'' ''r1'' ''gone''] ''1.4.2''))))"
    using applyDeltas_all_or_no_version [OF ex_spec_distinct prod.collapse [symmetric]] by blast
  show "su_newVersion (fst (applyDeltasToSpec str_cmp ''t1'' ex_spec
     [DeltaAdd ''d2'' (ex_req ''r4'' ''Four'' None), DeltaRemove ''d1'' ''r1'' ''gone''] ''1.4.2'')) = ''1.5.0''"
    by code_simp
qed

theorem reapplying_adds_is_idempotent_witness:
  "sp_requirements (snd (applyDeltasToSpec str_cmp ''t2''
      (the (su_updatedSpec (fst (applyDeltasToSpec str_cmp ''t1'' ex_spec [DeltaAdd ''d2'' (ex_req ''r4'' ''Four'' None)] ''1.4.2''))))
      [DeltaAdd ''d2'' (ex_req ''r4'' ''Four'' None)] ''1.5.0''))
   = [ex_req ''r1'' ''One'' None, ex_req ''r2'' ''Two'' (Some [''x'']), ex_req ''r4'' ''Four'' None]"
proof -
  let ?ds = "[DeltaAdd ''d2'' (ex_req ''r4'' ''Four'' None)]"
  obtain s' where s': "su_updatedSpec (fst (applyDeltasToSpec str_cmp ''t1'' ex_spec ?ds ''1.4.2'')) = Some s'"
      "sp_requirements s' = [ex_req ''r1'' ''One'' None, ex_req ''r2'' ''Two'' (Some [''x'']), ex_req ''r4'' ''Four'' None]"
  proof -
    have "map_option sp_requirements (su_updatedSpec (fst (applyDeltasToSpec str_cmp ''t1'' ex_spec ?ds ''1.4.2'')))
      = Some [ex_req ''r1'' ''One'' None, ex_req ''r2'' ''Two'' (Some [''x'']), ex_req ''r4'' ''Four'' None]"
      by code_simp
    then show ?thesis using that by blast
  qed
  have "\<forall>d \<in> set ?ds. operationOf d = OpAdd" by simp
  from reapplying_adds_is_idempotent [OF ex_spec_distinct this s'(1), of "''t2''" "''1.5.0''"] s'
  show ?thesis by simp
qed

text \<open>
  Content equality compares the tags as one string joined by line feeds, so an addition
  whose tags differ from the stored ones by a line feed inside a tag is taken for a
  re-application: it reports success and its tags are lost.
\<close>

theorem add_with_line_feed_tag_is_dropped:
  "applyDelta str_cmp (ex_spec\<lparr>sp_requirements := [ex_req ''r1'' ''One'' (Some [''a'', ''b''])]\<rparr>)
      (DeltaAdd ''d1'' (ex_req ''r1'' ''One'' (Some [''a'' @ CHR 0x0A # ''b''])))
   = (\<lparr>dr_success = True, dr_deltaId = ''d1'', dr_operation = OpAdd, dr_targetId = None,
       dr_newId = Some ''r1'', dr_error = None\<rparr>,
      ex_spec\<lparr>sp_requirements := [ex_req ''r1'' ''One'' (Some [''a'', ''b''])]\<rparr>)"
  by code_simp

end
