(* ===== verification/Gates.thy ===== *)
theory Gates
  imports Prelude
begin

text \<open>
  The seven-gate model (\<^verbatim>\<open>plugin/src/types/gates.ts\<close>): the ordered list of gates, the static
  criteria of each gate, the completion record, readiness blockers, and the functions that
  decide which gate may be completed.  A gates object has one completion per gate, so it is a
  total function; the schema fills a missing gate with the pending default.
\<close>

subsection \<open>Gate definitions\<close>

datatype gate_id = Proposal | Discovery | Design | Planning | Execution | Acceptance | Release

fun gateName :: "gate_id \<Rightarrow> string" where
  "gateName Proposal = ''proposal''"
| "gateName Discovery = ''discovery''"
| "gateName Design = ''design''"
| "gateName Planning = ''planning''"
| "gateName Execution = ''execution''"
| "gateName Acceptance = ''acceptance''"
| "gateName Release = ''release''"

text \<open>\<^verbatim>\<open>GATE_DEFS\<close>: identifier and description, in order.\<close>

definition gateDefs :: "(gate_id \<times> string) list" where
  "gateDefs =
     [(Proposal, ''Proposal: Problem statement confirmed via /adv-proposal''),
      (Discovery, ''Discovery: Context gathered, objectives agreed via /adv-discover''),
      (Design, ''Design: Architecture decisions validated via /adv-design''),
      (Planning, ''Planning: Task graph synthesized via /adv-prep''),
      (Execution, ''Execution: Deliverables produced via /adv-apply''),
      (Acceptance, ''Acceptance: User accepts deliverables via /adv-review''),
      (Release, ''Release: Final quality pass and archive via /adv-harden + /adv-archive'')]"

definition gateOrder :: "gate_id list" where
  "gateOrder = map fst gateDefs"

lemma gateOrder_eq [simp]:
  "gateOrder = [Proposal, Discovery, Design, Planning, Execution, Acceptance, Release]"
  by (simp add: gateOrder_def gateDefs_def)

lemma set_gateOrder: "g \<in> set gateOrder"
  by (cases g) simp_all

text \<open>\<^verbatim>\<open>GATE_ORDER.indexOf\<close>.\<close>

definition gateIndex :: "gate_id \<Rightarrow> nat" where
  "gateIndex g = the (findIndex (\<lambda>x. x = g) gateOrder)"

lemma gateIndex_simps [simp]:
  "gateIndex Proposal = 0" "gateIndex Discovery = 1" "gateIndex Design = 2" "gateIndex Planning = 3"
  "gateIndex Execution = 4" "gateIndex Acceptance = 5" "gateIndex Release = 6"
  by (simp_all add: gateIndex_def)

instantiation gate_id :: linorder
begin

definition less_eq_gate_id :: "gate_id \<Rightarrow> gate_id \<Rightarrow> bool" where
  "less_eq_gate_id a b \<longleftrightarrow> gateIndex a \<le> gateIndex b"

definition less_gate_id :: "gate_id \<Rightarrow> gate_id \<Rightarrow> bool" where
  "less_gate_id a b \<longleftrightarrow> gateIndex a < gateIndex b"

instance
proof
  fix x y z :: gate_id
  show "x < y \<longleftrightarrow> x \<le> y \<and> \<not> y \<le> x" by (auto simp: less_eq_gate_id_def less_gate_id_def)
  show "x \<le> x" by (simp add: less_eq_gate_id_def)
  show "x \<le> z" if "x \<le> y" "y \<le> z" using that by (simp add: less_eq_gate_id_def)
  show "x = y" if "x \<le> y" "y \<le> x" using that by (cases x; cases y) (simp_all add: less_eq_gate_id_def)
  show "x \<le> y \<or> y \<le> x" by (auto simp: less_eq_gate_id_def)
qed

end

lemma prior_iff: "p \<in> set (take (gateIndex g) gateOrder) \<longleftrightarrow> p < g"
  by (cases g; cases p) (simp_all add: less_gate_id_def)

datatype worktree_impact = Metadata | WorktreeMutation

fun gateWorktreeImpact :: "gate_id \<Rightarrow> worktree_impact" where
  "gateWorktreeImpact Proposal = Metadata"
| "gateWorktreeImpact Discovery = Metadata"
| "gateWorktreeImpact Design = Metadata"
| "gateWorktreeImpact Planning = WorktreeMutation"
| "gateWorktreeImpact Execution = WorktreeMutation"
| "gateWorktreeImpact Acceptance = WorktreeMutation"
| "gateWorktreeImpact Release = WorktreeMutation"

definition isMetadataOnlyGate :: "gate_id \<Rightarrow> bool" where
  "isMetadataOnlyGate g \<longleftrightarrow> gateWorktreeImpact g = Metadata"

definition isWorktreeMutationGate :: "gate_id \<Rightarrow> bool" where
  "isWorktreeMutationGate g \<longleftrightarrow> gateWorktreeImpact g = WorktreeMutation"

subsection \<open>Criteria\<close>

datatype criterion_status = CritPass | CritFail | CritNa

record gate_criterion =
  gc_id :: string
  gc_label :: string
  gc_status :: criterion_status
  gc_evaluatedAt :: string
  gc_evidence :: "string option"

record criterion_def =
  cd_id :: string
  cd_label :: string
  cd_description :: string

definition criterion :: "string \<Rightarrow> string \<Rightarrow> string \<Rightarrow> criterion_def" where
  "criterion i l d = \<lparr>cd_id = i, cd_label = l, cd_description = d\<rparr>"

definition allTasksDoneDef :: criterion_def where
  "allTasksDoneDef = criterion ''ALL_TASKS_DONE'' ''All tasks done''
     ''All tasks are in done or cancelled status''"

fun gateCriteriaDefinitions :: "gate_id \<Rightarrow> criterion_def list" where
  "gateCriteriaDefinitions Proposal =
     [criterion ''PROPOSAL_ARTIFACT_PRESENT'' ''Proposal artifact present''
        ''Proposal markdown content exists in workflow state'',
      criterion ''PROPOSAL_MIN_SIZE'' ''Proposal minimum size''
        ''Proposal has sufficient non-whitespace content'']"
| "gateCriteriaDefinitions Discovery =
     [criterion ''AGREEMENT_ARTIFACT_PRESENT'' ''Agreement artifact present''
        ''Agreement markdown content exists in workflow state'',
      criterion ''CONTRACT_MINTED'' ''Contract minted''
        ''Typed ChangeContract exists for this change'']"
| "gateCriteriaDefinitions Design =
     [criterion ''DESIGN_ARTIFACT_PRESENT'' ''Design artifact present''
        ''Design markdown content exists in workflow state'',
      criterion ''DESIGN_MIN_SIZE'' ''Design minimum size''
        ''Design has sufficient non-whitespace content'']"
| "gateCriteriaDefinitions Planning =
     [criterion ''USER_APPROVED'' ''User approved''
        ''Planning gate was explicitly approved by user'',
      criterion ''PREP_READINESS_PASS'' ''Prep readiness pass''
        ''Prep readiness checks passed'',
      criterion ''TASKS_EXIST'' ''Tasks exist''
        ''At least one task has been created'',
      criterion ''NO_ORPHAN_TASKS'' ''No orphan tasks''
        ''All tasks have valid dependencies or are unblocked'',
      criterion ''TDD_INTENTS_ASSIGNED'' ''TDD intents assigned''
        ''All tasks have tdd_intent metadata'']"
| "gateCriteriaDefinitions Execution = [allTasksDoneDef]"
| "gateCriteriaDefinitions Acceptance =
     [criterion ''CONTRACT_EXISTS'' ''Contract exists''
        ''Typed ChangeContract exists for this change'',
      criterion ''REVIEW_MATRIX_COMPLETE'' ''Review matrix complete''
        ''Contract review matrix has rows for all items'',
      criterion ''ALL_ROWS_PASSING'' ''All rows passing''
        ''All contract review matrix rows have passing status'',
      criterion ''EXECUTIVE_SUMMARY_PRESENT'' ''Executive summary present''
        ''Executive summary artifact exists with sufficient content'',
      allTasksDoneDef]"
| "gateCriteriaDefinitions Release =
     [criterion ''TRUNK_MERGED'' ''Trunk merged''
        ''Change branch has been merged to trunk'',
      criterion ''PR_HANDOFF_COMPLETE'' ''PR handoff complete''
        ''Pull request has been created and merged'',
      allTasksDoneDef]"

datatype freshness = Fresh | Stale | Pending

record criteria_snapshot =
  cs_criteria :: "gate_criterion list"
  cs_basisRevision :: nat

record criteria_projection =
  cp_current :: "gate_criterion list"
  cp_snapshot :: "gate_criterion list option"
  cp_freshness :: freshness
  cp_basisRevision :: nat
  cp_staleReason :: "string option"

subsection \<open>Blockers and completions\<close>

datatype artifact_kind = KProposal | KAgreement | KDesign | KAcceptance

fun artifactKindName :: "artifact_kind \<Rightarrow> string" where
  "artifactKindName KProposal = ''proposal''"
| "artifactKindName KAgreement = ''agreement''"
| "artifactKindName KDesign = ''design''"
| "artifactKindName KAcceptance = ''acceptance''"

record artifact_evidence =
  ae_kind :: artifact_kind
  ae_path :: "string option"
  ae_content_hash :: "string option"
  ae_non_whitespace_chars :: "nat option"
  ae_checked_at :: string
  ae_compatibility_reason :: "string option"

record readiness_blocker =
  rb_code :: string
  rb_gateId :: gate_id
  rb_message :: string
  rb_remediation :: string
  rb_blockingGateId :: "gate_id option"
  rb_artifactKind :: "artifact_kind option"
  rb_contractId :: "string option"
  rb_linkId :: "string option"
  rb_changeId :: "string option"
  rb_relationship :: "string option"

datatype gate_status = GPending | GInProgress | GAwaitingApproval | GStuck | GDone

record recovery_audit =
  ra_reason :: string
  ra_evidence :: string
  ra_recovered_at :: string

record gate_completion =
  gt_status :: gate_status
  gt_completed_at :: "string option"
  gt_completed_by :: "string option"
  gt_notes :: "string option"
  gt_approval_evidence :: "string option"
  gt_stuck_reason :: "string option"
  gt_readiness_blockers :: "readiness_blocker list option"
  gt_started_at :: "string option"
  gt_triggered_by :: "string option"
  gt_migrated_from :: "string option"
  gt_absorbed :: "json option"
  gt_artifact_evidence :: "artifact_evidence option"
  gt_recovery_audit :: "recovery_audit option"

definition pendingGate :: gate_completion where
  "pendingGate = \<lparr>gt_status = GPending, gt_completed_at = None, gt_completed_by = None,
     gt_notes = None, gt_approval_evidence = None, gt_stuck_reason = None,
     gt_readiness_blockers = None, gt_started_at = None, gt_triggered_by = None,
     gt_migrated_from = None, gt_absorbed = None, gt_artifact_evidence = None,
     gt_recovery_audit = None\<rparr>"

type_synonym gates = "gate_id \<Rightarrow> gate_completion"

definition createDefaultGates :: gates where
  "createDefaultGates = (\<lambda>_. pendingGate)"

subsection \<open>Order of completion\<close>

definition isGateSatisfied :: "gate_completion \<Rightarrow> bool" where
  "isGateSatisfied c \<longleftrightarrow> gt_status c = GDone"

definition canCompleteGate :: "gates \<Rightarrow> gate_id \<Rightarrow> bool" where
  "canCompleteGate gates g =
     (if gateIndex g = 0 then True
      else \<forall>p \<in> set (take (gateIndex g) gateOrder). isGateSatisfied (gates p))"

definition getIncompleteGates :: "gates \<Rightarrow> gate_id list" where
  "getIncompleteGates gates = filter (\<lambda>g. \<not> isGateSatisfied (gates g)) gateOrder"

definition allGatesSatisfied :: "gates \<Rightarrow> bool" where
  "allGatesSatisfied gates \<longleftrightarrow> (\<forall>g \<in> set gateOrder. isGateSatisfied (gates g))"

lemma canCompleteGate_iff: "canCompleteGate gates g \<longleftrightarrow> (\<forall>p < g. isGateSatisfied (gates p))"
proof (cases "gateIndex g = 0")
  case True
  then show ?thesis by (simp add: canCompleteGate_def less_gate_id_def)
next
  case False
  then show ?thesis
    unfolding canCompleteGate_def by (simp only: if_False Ball_def prior_iff)
qed

lemma allGatesSatisfied_iff: "allGatesSatisfied gates \<longleftrightarrow> (\<forall>g. isGateSatisfied (gates g))"
  using set_gateOrder by (auto simp: allGatesSatisfied_def simp del: gateOrder_eq)

text \<open>A gate reached in order: the satisfied gates are an initial segment of the order.\<close>

definition gates_in_order :: "gates \<Rightarrow> bool" where
  "gates_in_order gates \<longleftrightarrow> (\<forall>g p. isGateSatisfied (gates g) \<longrightarrow> p < g \<longrightarrow> isGateSatisfied (gates p))"

lemma gates_in_order_default: "gates_in_order createDefaultGates"
  by (simp add: gates_in_order_def createDefaultGates_def pendingGate_def isGateSatisfied_def)

lemma gates_in_order_complete:
  assumes "gates_in_order gates" "canCompleteGate gates g" "isGateSatisfied c"
  shows "gates_in_order (gates(g := c))"
  using assms unfolding gates_in_order_def canCompleteGate_iff by auto

end
