(* ===== verification/Task_Model.thy ===== *)
theory Task_Model
  imports Prelude
begin

text \<open>
  Tasks, their evidence vocabulary and the sub-agent reports about them
  (\<^verbatim>\<open>plugin/src/types/tasks.ts\<close>, \<^verbatim>\<open>types/evidence-policy.ts\<close>, \<^verbatim>\<open>types/specs.ts\<close> for dependencies and
  the part of \<^verbatim>\<open>types/subagent-reports.ts\<close> the gates read).  The validations of the error and
  delegation recovery schemas are functions returning the issues they add, in order.
\<close>

subsection \<open>Evidence policies\<close>

datatype evidence_policy =
    PTest | PReview | PStaticCheck | PDesignProof | PNotApplicable | PSourceCitation
  | PSourceAudit | PRubricReview | PStakeholderAcceptance | PArtifactReference

fun policyName :: "evidence_policy \<Rightarrow> string" where
  "policyName PTest = ''test''"
| "policyName PReview = ''review''"
| "policyName PStaticCheck = ''static_check''"
| "policyName PDesignProof = ''design_proof''"
| "policyName PNotApplicable = ''not_applicable''"
| "policyName PSourceCitation = ''source_citation''"
| "policyName PSourceAudit = ''source_audit''"
| "policyName PRubricReview = ''rubric_review''"
| "policyName PStakeholderAcceptance = ''stakeholder_acceptance''"
| "policyName PArtifactReference = ''artifact_reference''"

definition allPolicies :: "evidence_policy list" where
  "allPolicies = [PTest, PReview, PStaticCheck, PDesignProof, PNotApplicable, PSourceCitation,
     PSourceAudit, PRubricReview, PStakeholderAcceptance, PArtifactReference]"

text \<open>\<^verbatim>\<open>ContractEvidencePolicySchema.safeParse\<close>.\<close>

definition parsePolicy :: "string \<Rightarrow> evidence_policy option" where
  "parsePolicy s = List.find (\<lambda>p. policyName p = s) allPolicies"

lemma parsePolicy_name [simp]: "parsePolicy (policyName p) = Some p"
  by (cases p) (simp_all add: parsePolicy_def allPolicies_def)

definition proofBearingEvidencePolicies :: "evidence_policy list" where
  "proofBearingEvidencePolicies = [PTest, PStaticCheck, PReview, PArtifactReference]"

definition warnFirstEvidencePolicies :: "evidence_policy list" where
  "warnFirstEvidencePolicies = [PSourceCitation, PSourceAudit, PRubricReview,
     PStakeholderAcceptance, PDesignProof, PNotApplicable]"

definition isProofBearingEvidencePolicy :: "evidence_policy \<Rightarrow> bool" where
  "isProofBearingEvidencePolicy p \<longleftrightarrow> p \<in> set proofBearingEvidencePolicies"

definition isWarnFirstEvidencePolicy :: "evidence_policy \<Rightarrow> bool" where
  "isWarnFirstEvidencePolicy p \<longleftrightarrow> p \<in> set warnFirstEvidencePolicies"

lemma policy_partition: "isProofBearingEvidencePolicy p \<longleftrightarrow> \<not> isWarnFirstEvidencePolicy p"
  by (cases p) (simp_all add: isProofBearingEvidencePolicy_def isWarnFirstEvidencePolicy_def
      proofBearingEvidencePolicies_def warnFirstEvidencePolicies_def)

datatype compatibility = CNew | CReclassified | CLegacy
datatype plan_stage = StageV1 | StageV2

text \<open>The stored policy is a string; the resolver validates it.  \<^verbatim>\<open>review_evidence_ref\<close> is its
  report key.\<close>

record evidence_plan =
  pl_policy :: "string option"
  pl_proof_target :: "string option"
  pl_rationale :: "string option"
  pl_review_conclusion :: "string option"
  pl_review_evidence_ref :: "string option"
  pl_provenance :: "compatibility option"
  pl_stage :: "plan_stage option"

subsection \<open>Sub-agent reports\<close>

datatype report_scope = ScopeProse string | ScopeTask string | ScopeChange string

datatype warning_kind =
    VerificationMismatch | VerificationMissing | ConsumerFailure | DesignConcernPromoted

fun warningKindName :: "warning_kind \<Rightarrow> string" where
  "warningKindName VerificationMismatch = ''verification_mismatch''"
| "warningKindName VerificationMissing = ''verification_missing''"
| "warningKindName ConsumerFailure = ''consumer_failure''"
| "warningKindName DesignConcernPromoted = ''design_concern_promoted''"

record consumer_warning =
  cw_kind :: warning_kind
  cw_message :: string

record verification_entry =
  ve_run_id :: "string option"
  ve_test_run_id :: "string option"
  ve_command :: "string option"
  ve_exit_code :: int

datatype dimension_verdict = DimPass | DimConcern | DimNa

datatype design_dimension =
    ComponentCorrectness | SemanticHtmlA11y | ResponsiveBehavior | VisualPolish
  | SiteDesignConsistency | FinerDetails

fun dimensionName :: "design_dimension \<Rightarrow> string" where
  "dimensionName ComponentCorrectness = ''component_correctness''"
| "dimensionName SemanticHtmlA11y = ''semantic_html_a11y''"
| "dimensionName ResponsiveBehavior = ''responsive_behavior''"
| "dimensionName VisualPolish = ''visual_polish''"
| "dimensionName SiteDesignConsistency = ''site_design_consistency''"
| "dimensionName FinerDetails = ''finer_details''"

text \<open>
  The fields of a report the gates read.  \<open>sr_dimensions\<close> and \<open>sr_neighbors\<close> (the \<^verbatim>\<open>what\<close> texts)
  are meaningful for designer reports only, \<open>sr_verification\<close> for engineer and designer ones.
\<close>

record subagent_report =
  sr_change_id :: string
  sr_agent :: string
  sr_attempt :: nat
  sr_scope :: report_scope
  sr_task_id :: "string option"
  sr_verification :: "verification_entry list"
  sr_warnings :: "consumer_warning list option"
  sr_dimensions :: "design_dimension \<Rightarrow> dimension_verdict"
  sr_neighbors :: "string list"

definition subagentReportKey ::
  "string \<Rightarrow> string option \<Rightarrow> report_scope option \<Rightarrow> string \<Rightarrow> nat \<Rightarrow> string option \<Rightarrow> string" where
  "subagentReportKey changeId taskId scope agent attempt cycle =
     (let suffix = (if truthy cycle then ''|cycle:'' @ the cycle else []);
          tail = ''|'' @ agent @ ''|'' @ showNat attempt @ suffix
      in if truthy taskId then changeId @ ''|'' @ the taskId @ tail
         else changeId @ ''|'' @
           (case scope of
              Some (ScopeTask t) \<Rightarrow> ''task:'' @ t
            | Some (ScopeChange k) \<Rightarrow> ''change:'' @ k
            | _ \<Rightarrow> ''unknown-scope'') @ tail)"

definition reportKeyFromReport :: "subagent_report \<Rightarrow> string" where
  "reportKeyFromReport r =
     subagentReportKey (sr_change_id r)
       (case sr_scope r of ScopeTask t \<Rightarrow> Some t | _ \<Rightarrow> None)
       (case sr_scope r of ScopeProse s \<Rightarrow> None | sc \<Rightarrow> Some sc)
       (sr_agent r) (sr_attempt r) None"

subsection \<open>Error recovery\<close>

datatype attempt_outcome = AttFailed | AttSucceeded

record attempt =
  at_number :: nat
  at_error :: string
  at_diagnosis :: string
  at_fix_tried :: string
  at_strategy_label :: "string option"
  at_outcome :: attempt_outcome
  at_attempted_at :: string

datatype error_class = Transient | Semantic | Environmental | Fatal | ContractConflict

datatype attribution_kind =
    AttrContractConflict | AttrImplementationDefect | AttrInfrastructure | AttrExternalService | AttrUnknown

record failure_attribution =
  fa_kind :: attribution_kind
  fa_description :: string

record error_recovery =
  er_last_error :: string
  er_retry_count :: nat
  er_max_retries :: nat
  er_error_class :: error_class
  er_next_strategy :: "string option"
  er_attempts :: "attempt list option"
  er_total_attempts :: "nat option"
  er_budget_warning :: "string option"
  er_failure_attribution :: "failure_attribution option"

text \<open>A schema issue is the path it is reported on and its message.\<close>

type_synonym issue = "string \<times> string"

definition effectiveRetryCount :: "error_recovery \<Rightarrow> nat" where
  "effectiveRetryCount r = (case er_attempts r of Some xs \<Rightarrow> length xs | None \<Rightarrow> er_retry_count r)"

definition strategyLabels :: "attempt list \<Rightarrow> string list" where
  "strategyLabels xs = List.map_filter (\<lambda>a. if truthy (at_strategy_label a) then at_strategy_label a else None) xs"

definition issueIf :: "bool \<Rightarrow> 'a \<Rightarrow> 'a list" where
  "issueIf b x = (if b then [x] else [])"

lemma issueIf_simps [simp]: "issueIf True x = [x]" "issueIf False x = []" "(issueIf b x = []) = (\<not> b)"
  by (simp_all add: issueIf_def)

definition errorRecoveryIssues :: "error_recovery \<Rightarrow> issue list" where
  "errorRecoveryIssues r =
     issueIf (effectiveRetryCount r > er_max_retries r)
       (''retry_count'', ''retry_count must not exceed max_retries'')
     @ (case er_attempts r of
          Some xs \<Rightarrow> issueIf (er_error_class r = Semantic \<and> card (set (strategyLabels xs)) \<noteq> length (strategyLabels xs))
            (''attempts'', ''semantic retry strategy_label values must be distinct'')
        | None \<Rightarrow> [])
     @ (if er_error_class r = ContractConflict then
          issueIf (er_max_retries r \<noteq> 0)
            (''max_retries'', ''CONTRACT_CONFLICT errors are non-retryable; max_retries must be 0'')
          @ issueIf (er_retry_count r \<noteq> 0)
            (''retry_count'', ''CONTRACT_CONFLICT errors are non-retryable; retry_count must be 0'')
          @ (case er_attempts r of
               Some xs \<Rightarrow> issueIf (xs \<noteq> [])
                 (''attempts'', ''CONTRACT_CONFLICT errors are non-retryable; attempts must be empty'')
             | None \<Rightarrow> [])
          @ issueIf (case er_failure_attribution r of
                    Some f \<Rightarrow> fa_kind f \<noteq> AttrContractConflict | None \<Rightarrow> True)
            (''failure_attribution'', ''CONTRACT_CONFLICT errors require a contract_conflict failure_attribution'')
        else [])"

definition normalizeRecovery :: "error_recovery \<Rightarrow> error_recovery" where
  "normalizeRecovery r = (case er_attempts r of
      Some xs \<Rightarrow> r\<lparr>er_retry_count := length xs\<rparr> | None \<Rightarrow> r)"

text \<open>\<^verbatim>\<open>ErrorRecoverySchema.safeParse\<close> on a record of the right shape.\<close>

definition parseErrorRecovery :: "error_recovery \<Rightarrow> issue list + error_recovery" where
  "parseErrorRecovery r = (if errorRecoveryIssues r = [] then Inr (normalizeRecovery r)
     else Inl (errorRecoveryIssues r))"

text \<open>Retained attempts may come from a narrowed shape without a number.\<close>

record attempt_like =
  al_number :: "nat option"

fun derivedFloor :: "attempt_like list \<Rightarrow> nat \<Rightarrow> nat" where
  "derivedFloor [] highest = highest"
| "derivedFloor (a # as) highest =
     derivedFloor as (case al_number a of Some n \<Rightarrow> max highest n | None \<Rightarrow> highest)"

record recovery_like =
  ra_attempts :: "attempt_like list option"
  ra_total_attempts :: "nat option"
  ra_retry_count :: "nat option"

fun observedAttemptCount :: "recovery_like option \<Rightarrow> nat" where
  "observedAttemptCount None = 0"
| "observedAttemptCount (Some r) =
     (let attempts = (case ra_attempts r of Some xs \<Rightarrow> xs | None \<Rightarrow> []);
          floor = derivedFloor attempts (length attempts)
      in max floor (max (case ra_total_attempts r of Some n \<Rightarrow> n | None \<Rightarrow> 0)
                        (case ra_retry_count r of Some n \<Rightarrow> n | None \<Rightarrow> 0)))"

subsection \<open>Delegation recovery\<close>

record delegation_recovery =
  dg_empty_or_malformed_count :: nat
  dg_narrower_retry_count :: nat
  dg_inline_diagnosis_evidence :: bool
  dg_last_updated_at :: string
  dg_blocked_scope :: "string option"

definition delegationIssues :: "delegation_recovery \<Rightarrow> issue list" where
  "delegationIssues r =
     issueIf (dg_narrower_retry_count r > 1)
       (''narrower_retry_count'',
        ''AC5: at most one narrower retry is allowed after empty/malformed worker output'')
     @ issueIf (dg_narrower_retry_count r > 1 \<and> \<not> dg_inline_diagnosis_evidence r)
       (''inline_diagnosis_evidence'',
        ''AC5: inline diagnosis evidence is required before further same-scope delegation after empty/malformed worker output'')
     @ issueIf (dg_narrower_retry_count r > dg_empty_or_malformed_count r)
       (''narrower_retry_count'', ''narrower_retry_count must not exceed empty_or_malformed_count'')"

subsection \<open>Tasks\<close>

datatype task_status = TPending | TInProgress | TBlocked | TDone | TCancelled

datatype task_type = TyCode | TyDocs | TyOps | TyResearch | TyApproval | TyVerification

datatype dependency_type = BlockedBy | Related | DiscoveredFrom | Parent

record dependency =
  dp_type :: dependency_type
  dp_target :: string

record contract_refs =
  cr_implements :: "string list option"
  cr_verifies :: "string list option"
  cr_respects :: "string list option"
  cr_not_applicable_reason :: "string option"

record cancellation =
  ca_reason :: string
  ca_approval_evidence :: string
  ca_superseded_by :: "string option"
  ca_approved_at :: string

datatype tdd_intent = Inline | SeparateVerification | NotApplicable

fun tddIntentName :: "tdd_intent \<Rightarrow> string" where
  "tddIntentName Inline = ''inline''"
| "tddIntentName SeparateVerification = ''separate_verification''"
| "tddIntentName NotApplicable = ''not_applicable''"

record tdd_reclassification =
  tr_from_intent :: string
  tr_to_intent :: tdd_intent
  tr_reason :: string
  tr_approval_evidence :: string
  tr_approved_at :: string

text \<open>Wisdom drafts, which a semantic recovery leaves on its task.\<close>

datatype draft_status = DraftSuggested | DraftPromoted | DraftDismissed

datatype dismiss_reason = AutoCheckpoint | UserDismissed

datatype suggested_type = SugFailure | SugGotcha

record wisdom_draft =
  wd_id :: string
  wd_suggested_type :: suggested_type
  wd_suggested_content :: string
  wd_source_attempts :: "nat list option"
  wd_status :: draft_status
  wd_created_at :: string
  wd_dismissed_at :: "string option"
  wd_dismiss_reason :: "dismiss_reason option"
  wd_promoted_wisdom_id :: "string option"

text \<open>\<open>tk_tdd_evidence\<close> says whether the legacy record has a red and a green part.\<close>

record task =
  tk_id :: string
  tk_title :: string
  tk_type :: "task_type option"
  tk_status :: task_status
  tk_deps :: "dependency list option"
  tk_started_at :: "string option"
  tk_completed_at :: "string option"
  tk_completed_by :: "string option"
  tk_implementation_summary :: "string option"
  tk_verification :: "string option"
  tk_tdd_evidence :: "(bool \<times> bool) option"
  tk_cancellation :: "cancellation option"
  tk_tdd_reclassification :: "tdd_reclassification option"
  tk_contract_refs :: "contract_refs option"
  tk_evidence_plan :: "evidence_plan option"
  tk_evidence_policy :: "string option"
  tk_metadata :: "(string \<times> string) list option"
  tk_error_recovery :: "error_recovery option"
  tk_touched_files :: "string list option"
  tk_subagent_reports :: "subagent_report list option"
  tk_section :: "string option"
  tk_target_repo :: "string option"
  tk_target_path :: "string option"
  tk_priority :: int
  tk_created_at :: string
  tk_notes :: "string option"
  tk_summary :: "string option"
  tk_filesTouched :: "string list option"
  tk_checkpointSha :: "string option"
  tk_completedAt :: "string option"
  tk_assignedTo :: "string option"
  tk_delegation_recovery :: "delegation_recovery option"
  tk_structured_output :: "json option"
  tk_wisdom_drafts :: "wisdom_draft list option"

definition newTask :: "string \<Rightarrow> string \<Rightarrow> task" where
  "newTask i title = \<lparr>tk_id = i, tk_title = title, tk_type = None, tk_status = TPending, tk_deps = None,
     tk_started_at = None, tk_completed_at = None, tk_completed_by = None,
     tk_implementation_summary = None, tk_verification = None, tk_tdd_evidence = None,
     tk_cancellation = None, tk_tdd_reclassification = None, tk_contract_refs = None,
     tk_evidence_plan = None, tk_evidence_policy = None, tk_metadata = None,
     tk_error_recovery = None, tk_touched_files = None, tk_subagent_reports = None,
     tk_section = None, tk_target_repo = None, tk_target_path = None, tk_priority = 0, tk_created_at = [], tk_notes = None,
     tk_summary = None, tk_filesTouched = None, tk_checkpointSha = None, tk_completedAt = None,
     tk_assignedTo = None, tk_delegation_recovery = None, tk_structured_output = None,
     tk_wisdom_drafts = None\<rparr>"

subsection \<open>Properties\<close>

lemma derivedFloor_max:
  "derivedFloor as h = fold max (List.map_filter al_number as) h"
  by (induction as arbitrary: h) (auto simp: List.map_filter_simps max.commute split: option.splits)

lemma fold_max_ge: "(h :: nat) \<le> fold max ns h \<and> (\<forall>n \<in> set ns. n \<le> fold max ns h)
    \<and> (fold max ns h = h \<or> fold max ns h \<in> set ns)"
proof (induction ns arbitrary: h)
  case (Cons n ns)
  from Cons.IH [of "max n h"] show ?case by (auto simp: max_def split: if_splits)
qed simp

text \<open>
  A recovery record the schema accepts comes out with the counter of its retained
  history, within its budget, and is accepted again unchanged; a contract conflict has no
  budget, no retry and its attribution.
\<close>

theorem parsed_recovery_is_consistent:
  assumes "parseErrorRecovery r = Inr p"
  shows "er_retry_count p = effectiveRetryCount r \<and> er_retry_count p \<le> er_max_retries r \<and>
    parseErrorRecovery p = Inr p \<and>
    (er_error_class r = ContractConflict \<longrightarrow>
       er_max_retries p = 0 \<and> er_retry_count p = 0 \<and>
       map_option fa_kind (er_failure_attribution p) = Some AttrContractConflict)"
proof -
  from assms have ok: "errorRecoveryIssues r = []" and p: "p = normalizeRecovery r"
    by (auto simp: parseErrorRecovery_def split: if_splits)
  have "effectiveRetryCount r \<le> er_max_retries r" using ok
    by (simp add: errorRecoveryIssues_def)
  moreover have eff: "effectiveRetryCount p = effectiveRetryCount r" "er_retry_count p = effectiveRetryCount r"
    "er_max_retries p = er_max_retries r" "er_error_class p = er_error_class r"
    "er_failure_attribution p = er_failure_attribution r" "er_attempts p = er_attempts r"
    by (simp_all add: p normalizeRecovery_def effectiveRetryCount_def split: option.splits)
  moreover have conflict: "er_max_retries r = 0 \<and> effectiveRetryCount r = 0 \<and>
      map_option fa_kind (er_failure_attribution r) = Some AttrContractConflict"
    if "er_error_class r = ContractConflict"
    using ok that by (simp add: errorRecoveryIssues_def effectiveRetryCount_def split: option.splits)
  moreover have "errorRecoveryIssues p = []"
    using ok conflict unfolding errorRecoveryIssues_def eff by auto
  moreover have "normalizeRecovery p = p"
    by (simp add: p normalizeRecovery_def split: option.splits)
  ultimately show ?thesis by (simp add: parseErrorRecovery_def)
qed

definition ex_recovery :: error_recovery where
  "ex_recovery = \<lparr>er_last_error = ''e'', er_retry_count = 7, er_max_retries = 3, er_error_class = Semantic,
     er_next_strategy = None,
     er_attempts = Some [\<lparr>at_number = 1, at_error = ''e'', at_diagnosis = ''d'', at_fix_tried = ''f'',
       at_strategy_label = Some ''x'', at_outcome = AttFailed, at_attempted_at = ''t''\<rparr>],
     er_total_attempts = None, er_budget_warning = None, er_failure_attribution = None\<rparr>"

theorem parsed_recovery_is_consistent_witness:
  "parseErrorRecovery ex_recovery = Inr (ex_recovery\<lparr>er_retry_count := 1\<rparr>) \<and>
   er_retry_count (ex_recovery\<lparr>er_retry_count := 1\<rparr>) \<le> er_max_retries ex_recovery"
proof -
  have "parseErrorRecovery ex_recovery = Inr (ex_recovery\<lparr>er_retry_count := 1\<rparr>)" by code_simp
  with parsed_recovery_is_consistent [OF this] show ?thesis by blast
qed

text \<open>
  The attempt count reported to an operator is the largest of the retained window's
  length, every retained attempt number, the recorded total and the counter, so it is never
  below any of them; in particular a recorded total does not take precedence over a higher
  counter.
\<close>

theorem observedAttemptCount_is_max:
  "observedAttemptCount (Some r) = Max ({0, length (case ra_attempts r of Some xs \<Rightarrow> xs | None \<Rightarrow> [])}
     \<union> set (List.map_filter al_number (case ra_attempts r of Some xs \<Rightarrow> xs | None \<Rightarrow> []))
     \<union> set_option (ra_total_attempts r) \<union> set_option (ra_retry_count r))"
proof -
  let ?xs = "case ra_attempts r of Some xs \<Rightarrow> xs | None \<Rightarrow> []"
  let ?N = "{length ?xs} \<union> set (List.map_filter al_number ?xs)"
  have fl: "derivedFloor ?xs (length ?xs) = Max ?N"
    using fold_max_ge [of "length ?xs" "List.map_filter al_number ?xs"]
    unfolding derivedFloor_max by (intro Max_eqI [symmetric]) auto
  have opt: "(case x of Some n \<Rightarrow> n | None \<Rightarrow> 0) = Max ({0 :: nat} \<union> set_option x)" for x
    by (cases x) auto
  have "observedAttemptCount (Some r)
      = max (Max ?N) (max (Max ({0} \<union> set_option (ra_total_attempts r))) (Max ({0} \<union> set_option (ra_retry_count r))))"
    by (simp only: observedAttemptCount.simps Let_def fl opt)
  also have "\<dots> = Max (?N \<union> (({0} \<union> set_option (ra_total_attempts r)) \<union> ({0} \<union> set_option (ra_retry_count r))))"
    by (simp add: Max_Un del: Max_insert Un_insert_left)
  also have "?N \<union> (({0} \<union> set_option (ra_total_attempts r)) \<union> ({0} \<union> set_option (ra_retry_count r)))
      = {0, length ?xs} \<union> set (List.map_filter al_number ?xs)
        \<union> set_option (ra_total_attempts r) \<union> set_option (ra_retry_count r)" by auto
  finally show ?thesis .
qed

text \<open>
  Inline diagnosis evidence does not decide whether a delegation recovery is accepted:
  a second narrower retry is refused with or without it, and nothing else asks for it.
\<close>

theorem delegation_evidence_is_not_consulted:
  "(delegationIssues r = [] \<longleftrightarrow>
      dg_narrower_retry_count r \<le> 1 \<and> dg_narrower_retry_count r \<le> dg_empty_or_malformed_count r) \<and>
   (delegationIssues (r\<lparr>dg_inline_diagnosis_evidence := True\<rparr>) = []
      \<longleftrightarrow> delegationIssues (r\<lparr>dg_inline_diagnosis_evidence := False\<rparr>) = [])"
  by (auto simp: delegationIssues_def)

end
