(* ===== verification/Change_Model.thy ===== *)
theory Change_Model
  imports Dep_Graph Gates Task_Model Change_Types
begin

text \<open>
  The durable state of a change (\<^verbatim>\<open>plugin/src/types/change-state.ts\<close>), the contract, review matrix
  and operations follow-up types of \<^verbatim>\<open>types/changes.ts\<close>, and the task and gate operations of
  \<^verbatim>\<open>types/change-state-helpers.ts\<close>.  The state has the fields the modelled components read or
  write; the others (worktrees, wisdom, conformance, origin links) are only carried along by the
  code and left out.  An operation that throws for a missing task returns \<open>None\<close>.
\<close>

subsection \<open>Contract and review matrix\<close>

datatype contract_item_kind =
    SuccessCriterion | AcceptanceCriterion | Constraint | Avoidance | OutOfScope

fun itemKindName :: "contract_item_kind \<Rightarrow> string" where
  "itemKindName SuccessCriterion = ''success_criterion''"
| "itemKindName AcceptanceCriterion = ''acceptance_criterion''"
| "itemKindName Constraint = ''constraint''"
| "itemKindName Avoidance = ''avoidance''"
| "itemKindName OutOfScope = ''out_of_scope''"

datatype evidence_status = EsPass | EsFail | EsRespected | EsViolated | EsUnknown | EsNotApplicable

fun evidenceStatusName :: "evidence_status \<Rightarrow> string" where
  "evidenceStatusName EsPass = ''pass''"
| "evidenceStatusName EsFail = ''fail''"
| "evidenceStatusName EsRespected = ''respected''"
| "evidenceStatusName EsViolated = ''violated''"
| "evidenceStatusName EsUnknown = ''unknown''"
| "evidenceStatusName EsNotApplicable = ''not_applicable''"

record contract_item =
  ci_id :: string
  ci_kind :: contract_item_kind
  ci_text :: string
  ci_verificationRequired :: "bool option"
  ci_evidencePolicy :: evidence_policy
  ci_notRequiredReason :: "string option"
  ci_requiredCritical :: "bool option"

record review_row =
  rr_contractId :: string
  rr_kind :: contract_item_kind
  rr_status :: evidence_status
  rr_evidencePolicy :: evidence_policy
  rr_evidence :: string
  rr_notes :: "string option"

record review_matrix =
  rm_reviewedAt :: string
  rm_rows :: "review_row list"
  rm_recovery_audit :: "recovery_audit option"

datatype contract_rigor = RigorMinimal | RigorStandard | RigorStrict

record contract =
  cc_rigor :: contract_rigor
  cc_items :: "contract_item list"
  cc_reviewMatrix :: "review_matrix option"

subsection \<open>Operations follow-ups\<close>

datatype ops_relationship = OpsBlocks | OpsFollowsRelease | OpsMonitors | OpsCleanupAfter

fun relationshipName :: "ops_relationship \<Rightarrow> string" where
  "relationshipName OpsBlocks = ''blocks''"
| "relationshipName OpsFollowsRelease = ''follows_release''"
| "relationshipName OpsMonitors = ''monitors''"
| "relationshipName OpsCleanupAfter = ''cleanup_after''"

datatype ops_status =
    OpsNotStarted | OpsRunning | OpsPartial | OpsFailed | OpsRerunNeeded | OpsRollbackNeeded
  | OpsCleanupNeeded | OpsComplete

fun opsStatusName :: "ops_status \<Rightarrow> string" where
  "opsStatusName OpsNotStarted = ''not_started''"
| "opsStatusName OpsRunning = ''running''"
| "opsStatusName OpsPartial = ''partial''"
| "opsStatusName OpsFailed = ''failed''"
| "opsStatusName OpsRerunNeeded = ''rerun_needed''"
| "opsStatusName OpsRollbackNeeded = ''rollback_needed''"
| "opsStatusName OpsCleanupNeeded = ''cleanup_needed''"
| "opsStatusName OpsComplete = ''complete''"

datatype ops_source = ChildProfile | Unreachable

datatype ops_resolution_reason =
    ReasonVerified | ReasonChildMissing | ReasonProfileMissing | ReasonIdentityMismatch | ReasonUnreachable

record ops_resolution =
  or_status :: ops_status
  or_verified_at :: string
  or_child_updated_at :: "string option"
  or_reason :: "ops_resolution_reason option"
  or_source :: ops_source
  or_completion_signal :: "string option"
  or_health_verification :: "string option"
  or_rollback_disposition :: "string option"
  or_evidence_summary :: "string option"
  or_error :: "string option"

record ops_link =
  ol_id :: string
  ol_target_project_id :: "string option"
  ol_target_path :: "string option"
  ol_changeId :: string
  ol_relationship :: ops_relationship
  ol_status :: ops_status
  ol_required_handoff :: bool
  ol_linked_at :: string
  ol_source_artifact :: "string option"
  ol_source_contract_id :: "string option"
  ol_resolution :: "ops_resolution option"

subsection \<open>The state of a change\<close>

datatype artifact_source = SrcTemporal | SrcDisk | SrcArchive | SrcRecovery

record artifact_metadata =
  am_path :: "string option"
  am_updatedAt :: string
  am_contentHash :: "string option"
  am_source :: "artifact_source option"
  am_readable :: "bool option"

datatype document_kind =
    DocProposal | DocProblemStatement | DocAgreement | DocDesign | DocExecutiveSummary | DocAcceptance

datatype artifact_slot =
    ArtProposal | ArtProblemStatement | ArtDiscovery | ArtDesign | ArtAgreement
  | ArtExecutiveSummary | ArtAcceptance

datatype disposition_verb = DvFixed | DvRejectedWithEvidence | DvSplit | DvFastFollow

record disposition =
  di_taskId :: string
  di_concernKey :: string
  di_disposition :: disposition_verb
  di_evidence :: string
  di_dispositionedAt :: string
  di_recovery_audit :: "recovery_audit option"

record durable_run =
  dn_runId :: "string option"
  dn_command :: "string option"
  dn_exitCode :: "int option"

record change_state =
  cs_changeId :: string
  cs_projectId :: string
  cs_title :: string
  cs_status :: change_status
  cs_lifecycle :: lifecycle_state
  cs_initializedAt :: string
  cs_createdAt :: string
  cs_tasks :: "task list"
  cs_reports :: "subagent_report list"
  cs_design_dispositions :: "disposition list"
  cs_verification_dispositions :: "disposition list"
  cs_gates :: gates
  cs_artifacts :: "artifact_slot \<Rightarrow> artifact_metadata option"
  cs_documents :: "document_kind \<Rightarrow> string option"
  cs_contract :: "contract option"
  cs_acceptanceRevision :: "nat option"
  cs_stateRevision :: nat
  cs_criteriaSnapshot :: "criteria_snapshot option"
  cs_opsLinks :: "ops_link list"
  cs_testRuns :: "(string \<times> durable_run list) list"

definition normalizeChangeLifecycleState :: "string option \<Rightarrow> lifecycle_state" where
  "normalizeChangeLifecycleState status =
     (if status = Some ''archived'' then LcArchived
      else if status = Some ''closed'' then LcClosed else LcOpen)"

definition createChangeState :: "string \<Rightarrow> string \<Rightarrow> string \<Rightarrow> change_state" where
  "createChangeState changeId title createdAt =
     \<lparr>cs_changeId = changeId, cs_projectId = [], cs_title = title, cs_status = Draft,
      cs_lifecycle = LcOpen, cs_initializedAt = createdAt, cs_createdAt = createdAt,
      cs_tasks = [], cs_reports = [], cs_design_dispositions = [], cs_verification_dispositions = [],
      cs_gates = createDefaultGates, cs_artifacts = (\<lambda>_. None), cs_documents = (\<lambda>_. None),
      cs_contract = None, cs_acceptanceRevision = Some 0, cs_stateRevision = 0,
      cs_criteriaSnapshot = None, cs_opsLinks = [], cs_testRuns = []\<rparr>"

definition acceptanceCriteriaFromContract :: "contract \<Rightarrow> string list" where
  "acceptanceCriteriaFromContract c =
     map ci_text (filter (\<lambda>i. ci_kind i = AcceptanceCriterion) (cc_items c))"

subsection \<open>Task operations\<close>

definition getTask :: "change_state \<Rightarrow> string \<Rightarrow> task option" where
  "getTask st i = List.find (\<lambda>t. tk_id t = i) (cs_tasks st)"

text \<open>Mutating the first task with the identifier.\<close>

definition putTask :: "change_state \<Rightarrow> string \<Rightarrow> task \<Rightarrow> change_state" where
  "putTask st i t = (case findIndex (\<lambda>t. tk_id t = i) (cs_tasks st) of
      Some k \<Rightarrow> st\<lparr>cs_tasks := (cs_tasks st)[k := t]\<rparr> | None \<Rightarrow> st)"

record update_task_input =
  ui_status :: task_status
  ui_now :: string
  ui_notes :: "string option"
  ui_summary :: "string option"
  ui_errorRecovery :: "error_recovery option"
  ui_touchedFiles :: "string list option"

definition applyTaskUpdate :: "update_task_input \<Rightarrow> task \<Rightarrow> task" where
  "applyTaskUpdate inp t =
     (let t1 = t\<lparr>tk_status := ui_status inp\<rparr>;
          t2 = (if ui_status inp = TInProgress \<and> \<not> truthy (tk_started_at t1)
                then t1\<lparr>tk_started_at := Some (ui_now inp)\<rparr> else t1);
          t3 = (if ui_status inp = TDone \<or> ui_status inp = TCancelled
                then t2\<lparr>tk_completed_at := Some (ui_now inp),
                        tk_completed_by := (if truthy (ui_notes inp) then ui_notes inp else tk_completed_by t2)\<rparr>
                else t2);
          t4 = (if ui_summary inp \<noteq> None then t3\<lparr>tk_implementation_summary := ui_summary inp\<rparr> else t3);
          t5 = (if ui_errorRecovery inp \<noteq> None then t4\<lparr>tk_error_recovery := ui_errorRecovery inp\<rparr> else t4)
      in (if ui_touchedFiles inp \<noteq> None then t5\<lparr>tk_touched_files := ui_touchedFiles inp\<rparr> else t5))"

definition updateTaskInChangeState ::
  "change_state \<Rightarrow> string \<Rightarrow> update_task_input \<Rightarrow> (task \<times> change_state) option" where
  "updateTaskInChangeState st i inp = (case getTask st i of
      None \<Rightarrow> None
    | Some t \<Rightarrow> Some (applyTaskUpdate inp t, putTask st i (applyTaskUpdate inp t)))"

definition applyCancel :: "cancellation \<Rightarrow> string \<Rightarrow> task \<Rightarrow> task" where
  "applyCancel c now t = t\<lparr>tk_status := TCancelled, tk_completed_at := Some now, tk_cancellation := Some c\<rparr>"

definition cancelTaskInChangeState ::
  "change_state \<Rightarrow> string \<Rightarrow> cancellation \<Rightarrow> string \<Rightarrow> (task \<times> change_state) option" where
  "cancelTaskInChangeState st i c now = (case getTask st i of
      None \<Rightarrow> None
    | Some t \<Rightarrow> Some (applyCancel c now t, putTask st i (applyCancel c now t)))"

definition applyReclassify :: "tdd_reclassification \<Rightarrow> task \<Rightarrow> task" where
  "applyReclassify r t =
     (let m = (case tk_metadata t of Some m \<Rightarrow> m | None \<Rightarrow> [])
      in t\<lparr>tk_metadata := Some (map_set ''tdd_intent'' (tddIntentName (tr_to_intent r)) m),
           tk_tdd_reclassification := Some r\<rparr>)"

definition reclassifyTaskTddInChangeState ::
  "change_state \<Rightarrow> string \<Rightarrow> tdd_reclassification \<Rightarrow> (task \<times> change_state) option" where
  "reclassifyTaskTddInChangeState st i r = (case getTask st i of
      None \<Rightarrow> None
    | Some t \<Rightarrow> Some (applyReclassify r t, putTask st i (applyReclassify r t)))"

definition completeGateInChangeState ::
  "change_state \<Rightarrow> gate_id \<Rightarrow> string \<Rightarrow> string \<Rightarrow> string option \<Rightarrow> change_state" where
  "completeGateInChangeState st g now by notes =
     (let c = cs_gates st g;
          c' = c\<lparr>gt_status := GDone, gt_completed_at := Some now, gt_completed_by := Some by,
                 gt_notes := (if truthy notes then notes else gt_notes c)\<rparr>
      in st\<lparr>cs_gates := (cs_gates st)(g := c')\<rparr>)"

subsection \<open>Queries\<close>

definition isSettled :: "task \<Rightarrow> bool" where
  "isSettled t \<longleftrightarrow> tk_status t = TDone \<or> tk_status t = TCancelled"

definition taskBlockers :: "change_state \<Rightarrow> task \<Rightarrow> string list" where
  "taskBlockers st t =
     (case tk_deps t of
        None \<Rightarrow> []
      | Some deps \<Rightarrow> map dp_target (filter (\<lambda>d.
          case getTask st (dp_target d) of Some b \<Rightarrow> \<not> isSettled b | None \<Rightarrow> False)
          (filter (\<lambda>d. dp_type d = BlockedBy) deps)))"

fun readyGo :: "change_state \<Rightarrow> task list \<times> (task \<times> string list) list \<Rightarrow> task list
    \<Rightarrow> task list \<times> (task \<times> string list) list" where
  "readyGo st acc [] = acc"
| "readyGo st (ready, blocked) (t # ts) =
     (if tk_status t \<noteq> TPending then readyGo st (ready, blocked) ts
      else if taskBlockers st t = [] then readyGo st (ready @ [t], blocked) ts
      else readyGo st (ready, blocked @ [(t, taskBlockers st t)]) ts)"

definition getReadyTasks :: "change_state \<Rightarrow> task list \<times> (task \<times> string list) list" where
  "getReadyTasks st = readyGo st ([], []) (cs_tasks st)"

text \<open>
  The metadata filters of the task list.  \<^verbatim>\<open>in\<close> also finds the names every object inherits.
\<close>

definition isLineEnd :: "char \<Rightarrow> bool" where
  "isLineEnd c \<longleftrightarrow> (of_char c :: nat) \<in> {10, 13}"

definition dotPlus :: "string \<Rightarrow> bool" where
  "dotPlus s \<longleftrightarrow> s \<noteq> [] \<and> (\<forall>c \<in> set s. \<not> isLineEnd c)"

definition hasKeyMatch :: "string \<Rightarrow> string option" where
  "hasKeyMatch f =
     (let p = ''has_metadata_key:''; rest = drop (length p) f
      in if startsWith f p \<and> dotPlus rest then Some rest else None)"

definition kvMatch :: "string \<Rightarrow> (string \<times> string) option" where
  "kvMatch f =
     (let p = ''metadata:''; rest = drop (length p) f;
          key = takeWhile (\<lambda>c. c \<noteq> CHR ''='') rest;
          val = drop (Suc (length key)) rest
      in if startsWith f p \<and> key \<noteq> [] \<and> length key < length rest \<and> dotPlus val then Some (key, val) else None)"

definition listTasks :: "change_state \<Rightarrow> task_status option \<Rightarrow> string option \<Rightarrow> task list" where
  "listTasks st status flt =
     (let tasks = (case status of Some s \<Rightarrow> filter (\<lambda>t. tk_status t = s) (cs_tasks st) | None \<Rightarrow> cs_tasks st)
      in if \<not> truthy flt then tasks
         else (case hasKeyMatch (the flt) of
            Some k \<Rightarrow> filter (\<lambda>t. case tk_metadata t of
                Some m \<Rightarrow> map_get m k \<noteq> None \<or> k \<in> set objectPrototypeKeys | None \<Rightarrow> False) tasks
          | None \<Rightarrow> (case kvMatch (the flt) of
              Some (k, v) \<Rightarrow> filter (\<lambda>t. case tk_metadata t of
                  Some m \<Rightarrow> map_get m k = Some v | None \<Rightarrow> False) tasks
            | None \<Rightarrow> tasks)))"

subsection \<open>The contract of a task edit\<close>

text \<open>
  Every mutation of one task fails exactly when no task has the identifier, and otherwise
  changes that task alone, keeping its identifier.
\<close>

locale task_edit =
  fixes edit :: "change_state \<Rightarrow> string \<Rightarrow> (task \<times> change_state) option"
    and f :: "task \<Rightarrow> task"
  assumes edit_missing: "getTask st i = None \<Longrightarrow> edit st i = None"
    and edit_found: "getTask st i = Some t \<Longrightarrow> edit st i = Some (f t, putTask st i (f t))"
    and keeps_id: "tk_id (f t) = tk_id t"
begin

lemma edit_cases:
  assumes "edit st i = Some (t', st')"
  obtains t ys zs where "getTask st i = Some t" "t' = f t" "cs_tasks st = ys @ t # zs"
    "tk_id t = i" "i \<notin> tk_id ` set ys" "st' = st\<lparr>cs_tasks := ys @ f t # zs\<rparr>"
proof (cases "getTask st i")
  case None
  with assms edit_missing show ?thesis by auto
next
  case (Some t)
  then have "findIndex (\<lambda>t. tk_id t = i) (cs_tasks st) \<noteq> None"
    by (auto simp: getTask_def findIndex_None dest: find_Some_mem)
  then obtain k where k: "findIndex (\<lambda>t. tk_id t = i) (cs_tasks st) = Some k" by auto
  then obtain ys x zs where x: "cs_tasks st = ys @ x # zs" "length ys = k" "tk_id x = i"
      "\<And>y. y \<in> set ys \<Longrightarrow> tk_id y \<noteq> i" by (rule findIndex_SomeE) blast
  have "List.find (\<lambda>t. tk_id t = i) ys = None" using x(4) by (auto simp: find_None_iff)
  then have "getTask st i = Some x" using x(1,3) by (simp add: getTask_def find_append)
  with Some have "x = t" by simp
  moreover have "i \<notin> tk_id ` set ys" using x(4) by blast
  ultimately show ?thesis
    using x(1-3) k assms edit_found [OF Some]
    by (intro that [of t ys zs]) (auto simp: putTask_def Some)
qed

lemma edit_None: "edit st i = None \<longleftrightarrow> i \<notin> tk_id ` set (cs_tasks st)"
proof (cases "getTask st i")
  case None
  then have "i \<notin> tk_id ` set (cs_tasks st)" by (auto simp: getTask_def find_None_iff)
  with None show ?thesis by (simp add: edit_missing)
next
  case (Some t)
  then have "t \<in> set (cs_tasks st)" "tk_id t = i" by (auto simp: getTask_def dest: find_Some_mem)
  with Some show ?thesis by (auto simp: edit_found)
qed

lemma edit_frame:
  assumes "edit st i = Some (t', st')"
  shows "map tk_id (cs_tasks st') = map tk_id (cs_tasks st)"
    and "getTask st' j = (if j = i then Some t' else getTask st j)"
    and "st' = st\<lparr>cs_tasks := cs_tasks st'\<rparr>"
proof -
  from assms obtain t ys zs where e: "getTask st i = Some t" "t' = f t" "cs_tasks st = ys @ t # zs"
    "tk_id t = i" "i \<notin> tk_id ` set ys" "st' = st\<lparr>cs_tasks := ys @ f t # zs\<rparr>" by (rule edit_cases)
  show "map tk_id (cs_tasks st') = map tk_id (cs_tasks st)" using e keeps_id by simp
  have "List.find (\<lambda>t. tk_id t = i) ys = None" using e(5) by (auto simp: find_None_iff)
  then show "getTask st' j = (if j = i then Some t' else getTask st j)"
    using e keeps_id [of t] by (auto simp: getTask_def find_append split: option.split)
  show "st' = st\<lparr>cs_tasks := cs_tasks st'\<rparr>" using e by simp
qed

end

lemma applyTaskUpdate_id [simp]: "tk_id (applyTaskUpdate inp t) = tk_id t"
  by (simp add: applyTaskUpdate_def Let_def)

lemma applyCancel_id [simp]: "tk_id (applyCancel c now t) = tk_id t"
  by (simp add: applyCancel_def)

lemma applyReclassify_id [simp]: "tk_id (applyReclassify r t) = tk_id t"
  by (simp add: applyReclassify_def Let_def)

interpretation update_task: task_edit "\<lambda>st i. updateTaskInChangeState st i inp" "applyTaskUpdate inp" for inp
  by unfold_locales (simp_all add: updateTaskInChangeState_def)

interpretation cancel_task: task_edit "\<lambda>st i. cancelTaskInChangeState st i c now" "applyCancel c now" for c now
  by unfold_locales (simp_all add: cancelTaskInChangeState_def)

interpretation reclassify_task: task_edit "\<lambda>st i. reclassifyTaskTddInChangeState st i r" "applyReclassify r" for r
  by unfold_locales (simp_all add: reclassifyTaskTddInChangeState_def)

subsection \<open>Ready tasks\<close>

lemma readyGo_eq:
  "readyGo st acc ts =
     (fst acc @ filter (\<lambda>t. tk_status t = TPending \<and> taskBlockers st t = []) ts,
      snd acc @ map (\<lambda>t. (t, taskBlockers st t))
        (filter (\<lambda>t. tk_status t = TPending \<and> taskBlockers st t \<noteq> []) ts))"
  by (induction st acc ts rule: readyGo.induct) auto

lemma getReadyTasks_eq:
  "getReadyTasks st =
     (filter (\<lambda>t. tk_status t = TPending \<and> taskBlockers st t = []) (cs_tasks st),
      map (\<lambda>t. (t, taskBlockers st t))
        (filter (\<lambda>t. tk_status t = TPending \<and> taskBlockers st t \<noteq> []) (cs_tasks st)))"
  by (simp add: getReadyTasks_def readyGo_eq)

lemma getTask_distinct:
  "distinct (map tk_id (cs_tasks st)) \<Longrightarrow> t \<in> set (cs_tasks st) \<Longrightarrow> getTask st (tk_id t) = Some t"
  unfolding getTask_def
  by (cases "List.find (\<lambda>x. tk_id x = tk_id t) (cs_tasks st)")
    (auto simp: find_None_iff distinct_map dest!: find_Some_mem dest: inj_onD)

text \<open>The identifiers a task waits for.\<close>

definition waitsFor :: "change_state \<Rightarrow> string \<Rightarrow> string list" where
  "waitsFor st i = (case getTask st i of
      Some t \<Rightarrow> map dp_target (filter (\<lambda>d. dp_type d = BlockedBy) (case tk_deps t of Some ds \<Rightarrow> ds | None \<Rightarrow> []))
    | None \<Rightarrow> [])"

lemma taskBlockers_mem:
  assumes "distinct (map tk_id (cs_tasks st))" "t \<in> set (cs_tasks st)"
  shows "b \<in> set (taskBlockers st t) \<longleftrightarrow>
    b \<in> set (waitsFor st (tk_id t)) \<and> (\<exists>t'. getTask st b = Some t' \<and> \<not> isSettled t')"
proof (cases "tk_deps t")
  case None
  then show ?thesis by (simp add: taskBlockers_def waitsFor_def getTask_distinct [OF assms])
next
  case (Some ds)
  have "(case x of Some b \<Rightarrow> \<not> isSettled b | None \<Rightarrow> False) \<longleftrightarrow> (\<exists>t'. x = Some t' \<and> \<not> isSettled t')" for x
    by (cases x) auto
  with Some show ?thesis
    by (auto simp: taskBlockers_def waitsFor_def getTask_distinct [OF assms])
qed

subsection \<open>Properties\<close>

text \<open>
  Updating, cancelling and reclassifying a task each fail exactly when no task has the
  identifier; otherwise they return the task as changed, every other lookup, the identifiers and
  their order, and every other field of the state are as before.
\<close>

theorem task_edits_change_one_task:
  assumes "edit = (\<lambda>st i. updateTaskInChangeState st i inp) \<or> edit = (\<lambda>st i. cancelTaskInChangeState st i c now)
    \<or> edit = (\<lambda>st i. reclassifyTaskTddInChangeState st i r)"
  shows "case edit st i of
      None \<Rightarrow> i \<notin> tk_id ` set (cs_tasks st)
    | Some (t', st') \<Rightarrow> i \<in> tk_id ` set (cs_tasks st) \<and>
        map tk_id (cs_tasks st') = map tk_id (cs_tasks st) \<and>
        (\<forall>j. getTask st' j = (if j = i then Some t' else getTask st j)) \<and>
        st' = st\<lparr>cs_tasks := cs_tasks st'\<rparr>"
  using assms
proof (elim disjE)
  assume e: "edit = (\<lambda>st i. updateTaskInChangeState st i inp)"
  show ?thesis unfolding e
    using update_task.edit_None [of st i inp] update_task.edit_frame [of st i inp]
    by (auto split: option.splits prod.splits)
next
  assume e: "edit = (\<lambda>st i. cancelTaskInChangeState st i c now)"
  show ?thesis unfolding e
    using cancel_task.edit_None [of st i c now] cancel_task.edit_frame [of st i c now]
    by (auto split: option.splits prod.splits)
next
  assume e: "edit = (\<lambda>st i. reclassifyTaskTddInChangeState st i r)"
  show ?thesis unfolding e
    using reclassify_task.edit_None [of st i r] reclassify_task.edit_frame [of st i r]
    by (auto split: option.splits prod.splits)
qed

text \<open>
  Ready and blocked tasks partition the pending ones, in order: ready are those without
  an unsettled blocker, and a blocked one comes with exactly the unsettled tasks it waits for; a
  dependency on a task that does not exist never blocks.
\<close>

theorem ready_tasks_partition:
  assumes "distinct (map tk_id (cs_tasks st))"
  shows "fst (getReadyTasks st) = filter (\<lambda>t. t \<notin> set (map fst (snd (getReadyTasks st))))
      (filter (\<lambda>t. tk_status t = TPending) (cs_tasks st)) \<and>
    (\<forall>(t, bs) \<in> set (snd (getReadyTasks st)). bs \<noteq> [] \<and> tk_status t = TPending \<and>
       set bs = {b \<in> set (waitsFor st (tk_id t)). \<exists>t'. getTask st b = Some t' \<and> \<not> isSettled t'}) \<and>
    (\<forall>t \<in> set (fst (getReadyTasks st)). \<forall>b \<in> set (waitsFor st (tk_id t)).
       \<forall>t'. getTask st b = Some t' \<longrightarrow> isSettled t')"
proof -
  have "fst (getReadyTasks st) = filter (\<lambda>t. t \<notin> set (map fst (snd (getReadyTasks st))))
      (filter (\<lambda>t. tk_status t = TPending) (cs_tasks st))"
    by (auto simp: getReadyTasks_eq intro!: filter_cong)
  moreover have "bs \<noteq> [] \<and> tk_status t = TPending \<and>
      set bs = {b \<in> set (waitsFor st (tk_id t)). \<exists>t'. getTask st b = Some t' \<and> \<not> isSettled t'}"
    if "(t, bs) \<in> set (snd (getReadyTasks st))" for t bs
    using that taskBlockers_mem [OF assms] by (auto simp: getReadyTasks_eq)
  moreover have "isSettled t'" if "t \<in> set (fst (getReadyTasks st))" "b \<in> set (waitsFor st (tk_id t))"
      "getTask st b = Some t'" for t b t'
    using that taskBlockers_mem [OF assms, of t b] by (auto simp: getReadyTasks_eq)
  ultimately show ?thesis by blast
qed

text \<open>
  Tasks never deadlock on acyclic dependencies: when every task is pending or settled
  and some task is pending, some pending task is ready.
\<close>

theorem acyclic_tasks_have_a_ready_one:
  assumes "distinct (map tk_id (cs_tasks st))"
    and "acyclic (dep_rel (waitsFor st) (tk_id ` set (cs_tasks st)))"
    and "\<forall>t \<in> set (cs_tasks st). tk_status t = TPending \<or> isSettled t"
    and "\<exists>t \<in> set (cs_tasks st). tk_status t = TPending"
  shows "fst (getReadyTasks st) \<noteq> []"
proof
  assume none: "fst (getReadyTasks st) = []"
  let ?R = "{tk_id t | t. t \<in> set (cs_tasks st) \<and> tk_status t = TPending}"
  have "\<not> acyclic (dep_rel (waitsFor st) (tk_id ` set (cs_tasks st)))"
  proof (rule no_source_cyclic)
    show "finite ?R" by (rule finite_subset [of _ "tk_id ` set (cs_tasks st)"]) auto
    show "?R \<noteq> {}" using assms(4) by auto
    show "?R \<subseteq> tk_id ` set (cs_tasks st)" by auto
    fix k assume "k \<in> ?R"
    then obtain t where t: "t \<in> set (cs_tasks st)" "tk_status t = TPending" "k = tk_id t" by auto
    with none have "taskBlockers st t \<noteq> []" by (auto simp: getReadyTasks_eq filter_empty_conv)
    then obtain b where "b \<in> set (taskBlockers st t)" by (cases "taskBlockers st t") auto
    with taskBlockers_mem [OF assms(1) t(1)] obtain t' where b: "b \<in> set (waitsFor st k)"
      "getTask st b = Some t'" "\<not> isSettled t'" using t(3) by auto
    then have "t' \<in> set (cs_tasks st)" "tk_id t' = b" by (auto simp: getTask_def dest: find_Some_mem)
    with b assms(3) show "\<exists>d \<in> ?R. d \<in> set (waitsFor st k)" by auto
  qed
  with assms(2) show False by contradiction
qed

text \<open>
  Completing a gate keeps the gates an initial segment of their order exactly when the
  gate was completable, and changes no other gate.
\<close>

theorem completeGate_keeps_order_iff:
  assumes "gates_in_order (cs_gates st)"
  shows "(gates_in_order (cs_gates (completeGateInChangeState st g now by notes)) \<longleftrightarrow> canCompleteGate (cs_gates st) g) \<and>
    (\<forall>h. h \<noteq> g \<longrightarrow> cs_gates (completeGateInChangeState st g now by notes) h = cs_gates st h)"
proof (intro conjI)
  show "\<forall>h. h \<noteq> g \<longrightarrow> cs_gates (completeGateInChangeState st g now by notes) h = cs_gates st h"
    by (simp add: completeGateInChangeState_def Let_def)
  show "gates_in_order (cs_gates (completeGateInChangeState st g now by notes)) \<longleftrightarrow> canCompleteGate (cs_gates st) g"
  proof
    assume "gates_in_order (cs_gates (completeGateInChangeState st g now by notes))"
    then show "canCompleteGate (cs_gates st) g"
      unfolding gates_in_order_def canCompleteGate_iff
      by (auto simp: completeGateInChangeState_def Let_def isGateSatisfied_def split: if_splits)
  next
    assume "canCompleteGate (cs_gates st) g"
    with assms show "gates_in_order (cs_gates (completeGateInChangeState st g now by notes))"
      unfolding completeGateInChangeState_def Let_def
      by (simp add: gates_in_order_complete isGateSatisfied_def)
  qed
qed

subsection \<open>A concrete change\<close>

definition ex_task :: "string \<Rightarrow> task_status \<Rightarrow> string list \<Rightarrow> task" where
  "ex_task i s waits = (newTask i i)\<lparr>tk_status := s,
     tk_deps := Some (map (\<lambda>w. \<lparr>dp_type = BlockedBy, dp_target = w\<rparr>) waits)\<rparr>"

definition ex_change :: change_state where
  "ex_change = (createChangeState ''c'' ''C'' ''t0'')\<lparr>cs_tasks :=
     [ex_task ''a'' TPending [''b''], ex_task ''b'' TPending [''d'', ''gone''], ex_task ''d'' TDone []]\<rparr>"

lemma ex_change_distinct: "distinct (map tk_id (cs_tasks ex_change))"
  by code_simp

theorem task_edits_change_one_task_witness:
  "map_option (\<lambda>(t', st'). (tk_status t', map tk_id (cs_tasks st')))
      (cancelTaskInChangeState ex_change ''b'' \<lparr>ca_reason = ''r'', ca_approval_evidence = ''e'',
         ca_superseded_by = None, ca_approved_at = ''t1''\<rparr> ''t1'')
     = Some (TCancelled, [''a'', ''b'', ''d''])"
proof -
  let ?c = "\<lparr>ca_reason = ''r'', ca_approval_evidence = ''e'', ca_superseded_by = None, ca_approved_at = ''t1''\<rparr>"
  have s: "map_option (\<lambda>(t', st'). tk_status t') (cancelTaskInChangeState ex_change ''b'' ?c ''t1'') = Some TCancelled"
    by code_simp
  have ids: "map tk_id (cs_tasks ex_change) = [''a'', ''b'', ''d'']" by code_simp
  show ?thesis
    using task_edits_change_one_task [where edit = "\<lambda>st i. cancelTaskInChangeState st i ?c ''t1''"
        and c = ?c and now = "''t1''" and st = ex_change and i = "''b''"] s ids
    by (auto split: option.splits)
qed

theorem ready_tasks_partition_witness:
  "map tk_id (fst (getReadyTasks ex_change)) = [''b''] \<and>
   map (\<lambda>(t, bs). (tk_id t, bs)) (snd (getReadyTasks ex_change)) = [(''a'', [''b''])] \<and>
   set (fst (getReadyTasks ex_change)) \<inter> set (map fst (snd (getReadyTasks ex_change))) = {}"
proof (intro conjI)
  show "map tk_id (fst (getReadyTasks ex_change)) = [''b'']" by code_simp
  show "map (\<lambda>(t, bs). (tk_id t, bs)) (snd (getReadyTasks ex_change)) = [(''a'', [''b''])]" by code_simp
  have f: "fst (getReadyTasks ex_change) = filter (\<lambda>t. t \<notin> set (map fst (snd (getReadyTasks ex_change))))
      (filter (\<lambda>t. tk_status t = TPending) (cs_tasks ex_change))"
    using ready_tasks_partition [OF ex_change_distinct] by (elim conjE)
  show "set (fst (getReadyTasks ex_change)) \<inter> set (map fst (snd (getReadyTasks ex_change))) = {}"
    unfolding f by auto
qed

theorem acyclic_tasks_have_a_ready_one_witness:
  "fst (getReadyTasks ex_change) \<noteq> []"
proof (rule acyclic_tasks_have_a_ready_one [OF ex_change_distinct])
  have w: "waitsFor ex_change ''a'' = [''b'']" "waitsFor ex_change ''b'' = [''d'', ''gone'']"
    "waitsFor ex_change ''d'' = []" "tk_id ` set (cs_tasks ex_change) = {''a'', ''b'', ''d''}"
    by code_simp+
  have "dep_rel (waitsFor ex_change) (tk_id ` set (cs_tasks ex_change))
      = {(''a'', ''b''), (''b'', ''d''), (''b'', ''gone'')}"
    unfolding w(4) by (auto simp: dep_rel_def w)
  moreover have "acyclic {(''a'', ''b''), (''b'', ''d''), (''b'', ''gone'')}"
    by (simp add: acyclic_insert rtrancl_insert)
  ultimately show "acyclic (dep_rel (waitsFor ex_change) (tk_id ` set (cs_tasks ex_change)))" by simp
  show "\<forall>t \<in> set (cs_tasks ex_change). tk_status t = TPending \<or> isSettled t" by code_simp
  show "\<exists>t \<in> set (cs_tasks ex_change). tk_status t = TPending" by code_simp
qed

theorem completeGate_keeps_order_iff_witness:
  "\<not> gates_in_order (cs_gates (completeGateInChangeState ex_change Design ''t1'' ''user'' None)) \<and>
   gates_in_order (cs_gates (completeGateInChangeState ex_change Proposal ''t1'' ''user'' None))"
proof -
  have g: "gates_in_order (cs_gates ex_change)"
    by (simp add: ex_change_def createChangeState_def gates_in_order_default)
  have "\<not> canCompleteGate (cs_gates ex_change) Design" "canCompleteGate (cs_gates ex_change) Proposal"
    by code_simp+
  with completeGate_keeps_order_iff [OF g] show ?thesis by blast
qed

text \<open>
  The metadata-key filter of the task list also finds inherited names: a task with
  empty metadata is listed for a key every object has, and not for a key it lacks.
\<close>

theorem metadata_key_filter_matches_inherited_names:
  "listTasks (st\<lparr>cs_tasks := [(newTask i title)\<lparr>tk_metadata := Some []\<rparr>]\<rparr>) None (Some ''has_metadata_key:constructor'')
     = [(newTask i title)\<lparr>tk_metadata := Some []\<rparr>] \<and>
   listTasks (st\<lparr>cs_tasks := [(newTask i title)\<lparr>tk_metadata := Some []\<rparr>]\<rparr>) None (Some ''has_metadata_key:env'') = []"
  by (simp add: listTasks_def Let_def hasKeyMatch_def startsWith_def dotPlus_def isLineEnd_def
      newTask_def objectPrototypeKeys_def)

end
