(* ===== verification/Evidence_Plan.thy ===== *)
theory Evidence_Plan
  imports Task_Model
begin

text \<open>
  The task classifier and the evidence-plan resolver
  (\<^verbatim>\<open>plugin/src/validator/task-classifier.ts\<close>, \<^verbatim>\<open>types/tdd-helpers.ts\<close>).  The title heuristics are
  regular expressions that look for words between word boundaries, ignoring ASCII case;
  \<open>wordAt\<close> is their matcher.
\<close>

subsection \<open>Word patterns\<close>

text \<open>\<^verbatim>\<open>\b\<close> before position \<open>i\<close>.\<close>

definition wordBoundary :: "string \<Rightarrow> nat \<Rightarrow> bool" where
  "wordBoundary s i \<longleftrightarrow>
     (0 < i \<and> i \<le> length s \<and> isWordChar (s ! (i - 1))) \<noteq> (i < length s \<and> isWordChar (s ! i))"

definition wordAt :: "string \<Rightarrow> string \<Rightarrow> nat \<Rightarrow> bool" where
  "wordAt w s i \<longleftrightarrow> startsWith (drop i (map lowerChar s)) w \<and> i + length w \<le> length s"

text \<open>\<^verbatim>\<open>/\bw\b/i\<close> and \<^verbatim>\<open>/\bw/i\<close>.\<close>

definition hasWord :: "string \<Rightarrow> string \<Rightarrow> bool" where
  "hasWord s w \<longleftrightarrow> (\<exists>i \<in> set [0..<Suc (length s)].
     wordAt w s i \<and> wordBoundary s i \<and> wordBoundary s (i + length w))"

definition hasWordPrefix :: "string \<Rightarrow> string \<Rightarrow> bool" where
  "hasWordPrefix s w \<longleftrightarrow> (\<exists>i \<in> set [0..<Suc (length s)]. wordAt w s i \<and> wordBoundary s i)"

text \<open>\<^verbatim>\<open>/\bschema.stub\b/i\<close>: any character but a line terminator between the two parts.\<close>

definition hasSchemaStub :: "string \<Rightarrow> bool" where
  "hasSchemaStub s \<longleftrightarrow> (\<exists>i \<in> set [0..<Suc (length s)].
     wordAt ''schema'' s i \<and> wordBoundary s i \<and> i + 6 < length s
     \<and> (of_char (s ! (i + 6)) :: nat) \<notin> {10, 13}
     \<and> wordAt ''stub'' s (i + 7) \<and> wordBoundary s (i + 11))"

definition tddRequiredWords :: "string list" where
  "tddRequiredWords =
     [''implement'', ''create'', ''add'', ''fix'', ''refactor'', ''handle'', ''validate'', ''parse'',
      ''calculate'', ''process'', ''generate'', ''transform'', ''convert'', ''filter'', ''sort'', ''merge'',
      ''api'', ''endpoint'', ''function'', ''method'', ''class'', ''module'', ''service'', ''handler'',
      ''controller'', ''repository'', ''store'']"

definition tddTrivialWords :: "string list" where
  "tddTrivialWords =
     [''doc'', ''docs'', ''documentation'', ''readme'', ''changelog'', ''config'', ''configuration'',
      ''format'', ''formatting'', ''lint'', ''linting'', ''typo'', ''comment'', ''rename'', ''move'',
      ''cleanup'', ''clean up'', ''remove unused'', ''update version'', ''bump version'', ''denylist'',
      ''allowlist'', ''blocklist'', ''data file'', ''mapping table'', ''manifest'', ''seed data'',
      ''fixture'', ''constant'', ''constants'', ''entry to'']"

definition matchesRequired :: "string \<Rightarrow> bool" where
  "matchesRequired title \<longleftrightarrow> (\<exists>w \<in> set tddRequiredWords. hasWord title w) \<or> hasWordPrefix title ''auth''"

definition isTrivialTask :: "string \<Rightarrow> bool" where
  "isTrivialTask title \<longleftrightarrow> (\<exists>w \<in> set tddTrivialWords. hasWord title w) \<or> hasSchemaStub title"

definition isLogicTask :: "string \<Rightarrow> bool" where
  "isLogicTask title = (if isTrivialTask title then False else matchesRequired title)"

definition isTestTask :: "string \<Rightarrow> bool" where
  "isTestTask title \<longleftrightarrow>
     (\<exists>w \<in> set [''test'', ''tests'', ''spec'', ''specs'', ''failing test'', ''red phase'']. hasWord title w)"

text \<open>The last alternative: \<^verbatim>\<open>write\<close>, white space, and a word not starting with \<^verbatim>\<open>test\<close> or \<^verbatim>\<open>spec\<close>.\<close>

definition writesNonTest :: "string \<Rightarrow> bool" where
  "writesNonTest s \<longleftrightarrow> (\<exists>i \<in> set [0..<Suc (length s)]. wordAt ''write'' s i \<and> wordBoundary s i \<and>
     (\<exists>j \<in> set [i + 6..<Suc (length s)]. (\<forall>k \<in> set [i + 5..<j]. isWs (s ! k)) \<and>
        \<not> wordAt ''test'' s j \<and> \<not> wordAt ''spec'' s j \<and> wordBoundary s j))"

definition isImplTask :: "string \<Rightarrow> bool" where
  "isImplTask title \<longleftrightarrow>
     (\<exists>w \<in> set [''implement'', ''impl'', ''create'', ''build'', ''add'', ''develop'', ''code'']. hasWord title w)
     \<or> writesNonTest title"

subsection \<open>TDD intent\<close>

definition metadataGet :: "task \<Rightarrow> string \<Rightarrow> string option" where
  "metadataGet t k = (case tk_metadata t of Some m \<Rightarrow> map_get m k | None \<Rightarrow> None)"

definition parseTddIntent :: "string \<Rightarrow> tdd_intent option" where
  "parseTddIntent s = List.find (\<lambda>i. tddIntentName i = s) [Inline, SeparateVerification, NotApplicable]"

definition classifyTddIntent :: "task \<Rightarrow> tdd_intent" where
  "classifyTddIntent t =
     (case Option.bind (metadataGet t ''tdd_intent'') parseTddIntent of
        Some i \<Rightarrow> i
      | None \<Rightarrow>
          (if isTrivialTask (tk_title t) then NotApplicable
           else if matchesRequired (tk_title t) then Inline
           else if isTestTask (tk_title t) then Inline
           else Inline))"

definition requiresTddEvidence :: "task \<Rightarrow> bool" where
  "requiresTddEvidence t =
     (let intent = classifyTddIntent t
      in if intent = NotApplicable \<or> intent = SeparateVerification then False
         else metadataGet t ''tdd_intent'' = Some ''inline'' \<or> isLogicTask (tk_title t))"

datatype tdd_compliance = Compliant | Missing | NotRequired

definition getTaskTddCompliance :: "task \<Rightarrow> tdd_compliance" where
  "getTaskTddCompliance t =
     (if \<not> requiresTddEvidence t then NotRequired
      else if tk_tdd_evidence t = Some (True, True) then Compliant
      else if truthy (map_option trim (tk_verification t)) then Compliant
      else Missing)"

subsection \<open>The evidence resolver\<close>

fun defaultPolicyFor :: "task_type \<Rightarrow> evidence_policy" where
  "defaultPolicyFor TyCode = PTest"
| "defaultPolicyFor TyVerification = PTest"
| "defaultPolicyFor TyDocs = PSourceCitation"
| "defaultPolicyFor TyOps = PArtifactReference"
| "defaultPolicyFor TyResearch = PSourceCitation"
| "defaultPolicyFor TyApproval = PStakeholderAcceptance"

fun proofTargetFor :: "evidence_policy \<Rightarrow> string" where
  "proofTargetFor PTest = ''Automated red/green tests evidenced by adv_run_test''"
| "proofTargetFor PReview = ''Structured review conclusion''"
| "proofTargetFor PStaticCheck = ''Static analysis or check output''"
| "proofTargetFor PDesignProof = ''Design proof or design artifact''"
| "proofTargetFor PNotApplicable = ''No evidence required''"
| "proofTargetFor PSourceCitation = ''Source citation or reference''"
| "proofTargetFor PSourceAudit = ''Source audit or inspection''"
| "proofTargetFor PRubricReview = ''Rubric-based review''"
| "proofTargetFor PStakeholderAcceptance = ''Stakeholder acceptance evidence''"
| "proofTargetFor PArtifactReference = ''Artifact reference or operational output''"

definition isBehaviorCritical :: "task_type \<Rightarrow> bool" where
  "isBehaviorCritical t \<longleftrightarrow> t = TyCode \<or> t = TyVerification"

definition countNonWhitespace :: "string \<Rightarrow> nat" where
  "countNonWhitespace s = length (filter (\<lambda>c. \<not> isWs c) s)"

definition resolveCompatibility :: "task \<Rightarrow> compatibility" where
  "resolveCompatibility t =
     (case Option.bind (tk_evidence_plan t) pl_provenance of
        Some c \<Rightarrow> c
      | None \<Rightarrow> if tk_tdd_reclassification t \<noteq> None then CReclassified else CLegacy)"

record evidence_resolution =
  es_valid :: bool
  es_policy :: evidence_policy
  es_proof_target :: string
  es_rationale :: "string option"
  es_review_conclusion :: "string option"
  es_review_evidence_ref :: "string option"
  es_compatibility :: compatibility
  es_stage :: "plan_stage option"
  es_errors :: "string list"

definition orElse :: "'a option \<Rightarrow> 'a option \<Rightarrow> 'a option" where
  "orElse a b = (case a of Some x \<Rightarrow> Some x | None \<Rightarrow> b)"

definition effectiveType :: "task \<Rightarrow> task_type" where
  "effectiveType t = (case tk_type t of Some ty \<Rightarrow> ty | None \<Rightarrow> TyCode)"

definition declaredPolicy :: "task \<Rightarrow> string option" where
  "declaredPolicy t = orElse (Option.bind (tk_evidence_plan t) pl_policy) (tk_evidence_policy t)"

text \<open>The effective policy and the error an unreadable declaration adds.\<close>

definition effectivePolicy :: "task \<Rightarrow> evidence_policy \<times> string list" where
  "effectivePolicy t =
     (if truthy (declaredPolicy t)
      then (case parsePolicy (the (declaredPolicy t)) of
              Some p \<Rightarrow> (p, [])
            | None \<Rightarrow> (defaultPolicyFor (effectiveType t),
                       [''Invalid evidence_policy: '' @ the (declaredPolicy t)]))
      else (defaultPolicyFor (effectiveType t), []))"

definition nonEmpty :: "string option \<Rightarrow> string option" where
  "nonEmpty s = (if truthy s then s else None)"

text \<open>The checks of a non-test route of behavior-critical work.\<close>

definition routeErrors :: "evidence_policy \<Rightarrow> string option \<Rightarrow> string option \<Rightarrow> string option
    \<Rightarrow> plan_stage option \<Rightarrow> string list" where
  "routeErrors policy rationale conclusion ref stage =
     (if \<not> truthy rationale
      then [''Non-test route '' @ [CHR 0x27] @ policyName policy @ [CHR 0x27] @ '' for logic-bearing work requires a bounded rationale.'']
      else if countNonWhitespace (the rationale) > 500
      then [''Rationale exceeds 500 non-whitespace characters (got '' @ showNat (countNonWhitespace (the rationale)) @ '').'']
      else [])
     @ issueIf (stage \<noteq> Some StageV2 \<and> \<not> truthy conclusion \<and> ref = None)
       (''Non-test route '' @ [CHR 0x27] @ policyName policy @ [CHR 0x27]
         @ '' for logic-bearing work requires a linked review conclusion or reviewer evidence reference.'')"

definition resolveTaskEvidence :: "task \<Rightarrow> evidence_resolution" where
  "resolveTaskEvidence t =
     (let compat = resolveCompatibility t;
          isNew = (compat = CNew \<or> compat = CReclassified);
          critical = isBehaviorCritical (effectiveType t);
          (policy, errs1) = effectivePolicy t;
          errs2 = issueIf (critical \<and> policy = PNotApplicable)
            (''Behavior-critical task cannot use evidence_policy '' @ [CHR 0x27] @ ''not_applicable'' @ [CHR 0x27]
             @ ''. Use a proof-bearing route such as test, review, or static_check.'');
          plan = tk_evidence_plan t;
          target = (case map_option trim (Option.bind plan pl_proof_target) of
              Some p \<Rightarrow> p | None \<Rightarrow> proofTargetFor policy);
          rationale = map_option trim (Option.bind plan pl_rationale);
          conclusion = map_option trim (Option.bind plan pl_review_conclusion);
          ref = Option.bind plan pl_review_evidence_ref;
          stage = Option.bind plan pl_stage;
          errs3 = (if isNew \<and> critical \<and> policy \<noteq> PTest
            then routeErrors policy rationale conclusion ref stage else []);
          errors = errs1 @ errs2 @ errs3
      in \<lparr>es_valid = (errors = []), es_policy = policy, es_proof_target = target,
          es_rationale = nonEmpty rationale, es_review_conclusion = nonEmpty conclusion,
          es_review_evidence_ref = ref, es_compatibility = compat, es_stage = stage,
          es_errors = errors\<rparr>)"

subsection \<open>Stage-aware validation\<close>

datatype evidence_stage = Prep | Completion

definition reportOwnedBy :: "task \<Rightarrow> subagent_report \<Rightarrow> bool" where
  "reportOwnedBy t r = (case sr_scope r of ScopeTask i \<Rightarrow> i = tk_id t | _ \<Rightarrow> sr_task_id r = Some (tk_id t))"

definition resolvesReviewRef :: "task \<Rightarrow> string \<Rightarrow> subagent_report list \<Rightarrow> bool" where
  "resolvesReviewRef t key reports \<longleftrightarrow>
     (\<exists>r \<in> set reports. reportKeyFromReport r = key \<and> sr_agent r = ''adv-reviewer'' \<and> reportOwnedBy t r)"

definition completionErrors :: "task \<Rightarrow> evidence_policy \<Rightarrow> subagent_report list \<Rightarrow> string list" where
  "completionErrors t policy reports =
     (let plan = tk_evidence_plan t;
          ref = Option.bind plan pl_review_evidence_ref;
          conclusion = Option.bind plan pl_review_conclusion
      in if Option.bind plan pl_stage = Some StageV2
         then (case ref of
                 None \<Rightarrow> [''Stage-v2 non-test route '' @ [CHR 0x27] @ policyName policy @ [CHR 0x27]
                    @ '' requires a reviewer-owned review_evidence_ref by completion.'']
               | Some key \<Rightarrow> issueIf (\<not> resolvesReviewRef t key reports)
                   (''review_evidence_ref '' @ key
                    @ '' does not resolve to a persisted task-scoped reviewer report owned by task '' @ tk_id t @ ''.''))
         else issueIf (\<not> truthy conclusion \<and> ref = None)
           (''Non-test route '' @ [CHR 0x27] @ policyName policy @ [CHR 0x27]
            @ '' requires a linked review conclusion or reviewer evidence reference.''))"

definition validateTaskEvidenceForStage ::
  "task \<Rightarrow> evidence_stage \<Rightarrow> subagent_report list \<Rightarrow> string list" where
  "validateTaskEvidenceForStage t stage reports =
     (let base = resolveTaskEvidence t;
          policy = es_policy base
      in es_errors base @
         (if stage = Completion \<and> isBehaviorCritical (effectiveType t) \<and> policy \<noteq> PTest \<and> policy \<noteq> PNotApplicable
          then completionErrors t policy reports else []))"

subsection \<open>Properties\<close>

abbreviation planRef :: "task \<Rightarrow> string option" where
  "planRef t \<equiv> Option.bind (tk_evidence_plan t) pl_review_evidence_ref"

abbreviation planConclusion :: "task \<Rightarrow> string option" where
  "planConclusion t \<equiv> Option.bind (tk_evidence_plan t) pl_review_conclusion"

abbreviation planRationale :: "task \<Rightarrow> string option" where
  "planRationale t \<equiv> map_option trim (Option.bind (tk_evidence_plan t) pl_rationale)"

abbreviation planStage :: "task \<Rightarrow> plan_stage option" where
  "planStage t \<equiv> Option.bind (tk_evidence_plan t) pl_stage"

lemma routeErrors_Nil:
  "routeErrors policy rationale conclusion ref stage = [] \<longleftrightarrow>
     truthy rationale \<and> countNonWhitespace (the rationale) \<le> 500 \<and>
     (stage = Some StageV2 \<or> truthy conclusion \<or> ref \<noteq> None)"
  by (auto simp: routeErrors_def)

lemma resolved_errors_Nil:
  "es_errors (resolveTaskEvidence t) = [] \<longleftrightarrow>
     snd (effectivePolicy t) = [] \<and>
     \<not> (isBehaviorCritical (effectiveType t) \<and> fst (effectivePolicy t) = PNotApplicable) \<and>
     (resolveCompatibility t = CLegacy \<or> \<not> isBehaviorCritical (effectiveType t) \<or> fst (effectivePolicy t) = PTest \<or>
       truthy (planRationale t) \<and> countNonWhitespace (the (planRationale t)) \<le> 500 \<and>
       (planStage t = Some StageV2 \<or> truthy (map_option trim (planConclusion t)) \<or> planRef t \<noteq> None))"
  by (cases "resolveCompatibility t")
    (auto simp: resolveTaskEvidence_def Let_def case_prod_unfold routeErrors_Nil)

lemma resolved_policy [simp]: "es_policy (resolveTaskEvidence t) = fst (effectivePolicy t)"
  by (simp add: resolveTaskEvidence_def Let_def case_prod_unfold)

lemma completionErrors_Nil:
  "completionErrors t policy reports = [] \<longleftrightarrow>
     (if planStage t = Some StageV2 then \<exists>key. planRef t = Some key \<and> resolvesReviewRef t key reports
      else truthy (planConclusion t) \<or> planRef t \<noteq> None)"
  by (auto simp: completionErrors_def Let_def split: option.splits)

lemma validateTaskEvidence_metadata:
  "validateTaskEvidenceForStage (t\<lparr>tk_metadata := m\<rparr>) stage reports = validateTaskEvidenceForStage t stage reports"
proof -
  have fields: "tk_evidence_plan (t\<lparr>tk_metadata := m\<rparr>) = tk_evidence_plan t"
    "tk_id (t\<lparr>tk_metadata := m\<rparr>) = tk_id t" "tk_type (t\<lparr>tk_metadata := m\<rparr>) = tk_type t"
    "tk_evidence_policy (t\<lparr>tk_metadata := m\<rparr>) = tk_evidence_policy t"
    "tk_tdd_reclassification (t\<lparr>tk_metadata := m\<rparr>) = tk_tdd_reclassification t" by simp_all
  have parts: "resolveCompatibility (t\<lparr>tk_metadata := m\<rparr>) = resolveCompatibility t"
    "effectiveType (t\<lparr>tk_metadata := m\<rparr>) = effectiveType t"
    "effectivePolicy (t\<lparr>tk_metadata := m\<rparr>) = effectivePolicy t"
    "reportOwnedBy (t\<lparr>tk_metadata := m\<rparr>) = reportOwnedBy t"
    by (simp_all only: resolveCompatibility_def effectivePolicy_def declaredPolicy_def effectiveType_def
        reportOwnedBy_def [abs_def] fields)
  show ?thesis
    by (simp only: validateTaskEvidenceForStage_def resolveTaskEvidence_def completionErrors_def
        resolvesReviewRef_def fields parts)
qed

text \<open>
  The declared metadata decides the test intent whenever it is one of the three values,
  whatever the title says; otherwise a title with a trivial word needs no tests and every other
  title is treated as inline work.  The stage-aware evidence check does not look at the intent.
\<close>

theorem tdd_intent_metadata_first:
  "classifyTddIntent t =
     (case Option.bind (metadataGet t ''tdd_intent'') parseTddIntent of
        Some i \<Rightarrow> i | None \<Rightarrow> if isTrivialTask (tk_title t) then NotApplicable else Inline) \<and>
   parseTddIntent (tddIntentName i) = Some i \<and>
   getTaskTddCompliance (t\<lparr>tk_metadata := Some [(''tdd_intent'', ''not_applicable'')]\<rparr>) = NotRequired \<and>
   validateTaskEvidenceForStage (t\<lparr>tk_metadata := m\<rparr>) stage reports = validateTaskEvidenceForStage t stage reports \<and>
   classifyTddIntent (t\<lparr>tk_title := ''Add login endpoint'', tk_metadata := None\<rparr>) = Inline \<and>
   classifyTddIntent (t\<lparr>tk_title := ''Update README for API'', tk_metadata := None\<rparr>) = NotApplicable"
proof (intro conjI)
  show p: "parseTddIntent (tddIntentName i) = Some i" for i
    by (cases i) (simp_all add: parseTddIntent_def)
  show "classifyTddIntent t =
     (case Option.bind (metadataGet t ''tdd_intent'') parseTddIntent of
        Some i \<Rightarrow> i | None \<Rightarrow> if isTrivialTask (tk_title t) then NotApplicable else Inline)"
    by (simp add: classifyTddIntent_def split: option.splits)
  show "getTaskTddCompliance (t\<lparr>tk_metadata := Some [(''tdd_intent'', ''not_applicable'')]\<rparr>) = NotRequired"
    by (simp add: getTaskTddCompliance_def requiresTddEvidence_def classifyTddIntent_def metadataGet_def
        parseTddIntent_def Let_def)
  show "validateTaskEvidenceForStage (t\<lparr>tk_metadata := m\<rparr>) stage reports
      = validateTaskEvidenceForStage t stage reports"
    by (rule validateTaskEvidence_metadata)
  have "\<not> isTrivialTask ''Add login endpoint''" "isTrivialTask ''Update README for API''" by code_simp+
  then show "classifyTddIntent (t\<lparr>tk_title := ''Add login endpoint'', tk_metadata := None\<rparr>) = Inline"
    "classifyTddIntent (t\<lparr>tk_title := ''Update README for API'', tk_metadata := None\<rparr>) = NotApplicable"
    by (simp_all add: classifyTddIntent_def metadataGet_def)
qed

text \<open>
  A stage-v2 plan that proves behavior-critical work by something other than tests is
  valid at completion only when its policy is readable and not "not applicable", and its
  reference resolves to a report of the reviewer agent owned by the same task; and for such a
  plan recorded as new the rationale is present and at most 500 characters long.
\<close>

theorem stage_v2_route_needs_owned_review:
  assumes "isBehaviorCritical (effectiveType t)" "fst (effectivePolicy t) \<noteq> PTest"
    and "planStage t = Some StageV2"
  shows "validateTaskEvidenceForStage t Completion reports = [] \<longleftrightarrow>
    snd (effectivePolicy t) = [] \<and> fst (effectivePolicy t) \<noteq> PNotApplicable \<and>
    (\<exists>r \<in> set reports. planRef t = Some (reportKeyFromReport r) \<and> sr_agent r = ''adv-reviewer'' \<and> reportOwnedBy t r) \<and>
    (resolveCompatibility t = CLegacy \<or>
       truthy (planRationale t) \<and> countNonWhitespace (the (planRationale t)) \<le> 500)"
proof (cases "fst (effectivePolicy t) = PNotApplicable")
  case True
  then show ?thesis
    using assms(1) by (simp add: validateTaskEvidenceForStage_def Let_def resolved_errors_Nil)
next
  case False
  have "(\<exists>key. planRef t = Some key \<and> resolvesReviewRef t key reports) \<longleftrightarrow>
      (\<exists>r \<in> set reports. planRef t = Some (reportKeyFromReport r) \<and> sr_agent r = ''adv-reviewer'' \<and> reportOwnedBy t r)"
    by (auto simp: resolvesReviewRef_def)
  then show ?thesis
    using assms False
    by (auto simp: validateTaskEvidenceForStage_def Let_def resolved_errors_Nil completionErrors_Nil)
qed

definition ex_reviewed_task :: task where
  "ex_reviewed_task = (newTask ''t1'' ''Implement parser'')\<lparr>tk_status := TDone, tk_evidence_plan := Some
     \<lparr>pl_policy = Some ''review'', pl_proof_target = Some ''x'', pl_rationale = Some ''no runtime behavior'',
      pl_review_conclusion = None, pl_review_evidence_ref = Some ''c|t1|adv-reviewer|1'',
      pl_provenance = Some CNew, pl_stage = Some StageV2\<rparr>\<rparr>"

definition ex_review_report :: "string \<Rightarrow> subagent_report" where
  "ex_review_report agent = \<lparr>sr_change_id = ''c'', sr_agent = agent, sr_attempt = 1,
     sr_scope = ScopeTask ''t1'', sr_task_id = Some ''t1'', sr_verification = [], sr_warnings = None,
     sr_dimensions = (\<lambda>_. DimPass), sr_neighbors = []\<rparr>"

theorem stage_v2_route_needs_owned_review_witness:
  "validateTaskEvidenceForStage ex_reviewed_task Completion [ex_review_report ''adv-reviewer''] = [] \<and>
   validateTaskEvidenceForStage ex_reviewed_task Completion [ex_review_report ''adv-engineer''] \<noteq> []"
proof -
  have a: "isBehaviorCritical (effectiveType ex_reviewed_task)" "fst (effectivePolicy ex_reviewed_task) \<noteq> PTest"
    "planStage ex_reviewed_task = Some StageV2" by code_simp+
  have "snd (effectivePolicy ex_reviewed_task) = []" "fst (effectivePolicy ex_reviewed_task) \<noteq> PNotApplicable"
    "planRef ex_reviewed_task = Some (reportKeyFromReport (ex_review_report ''adv-reviewer''))"
    "sr_agent (ex_review_report ''adv-reviewer'') = ''adv-reviewer''"
    "reportOwnedBy ex_reviewed_task (ex_review_report ''adv-reviewer'')"
    "sr_agent (ex_review_report ''adv-engineer'') \<noteq> ''adv-reviewer''"
    "truthy (planRationale ex_reviewed_task) \<and> countNonWhitespace (the (planRationale ex_reviewed_task)) \<le> 500"
    by code_simp+
  then show ?thesis
    by (simp add: stage_v2_route_needs_owned_review [OF a])
qed

end
