(* ===== verification/Gate_Readiness.thy ===== *)
theory Gate_Readiness
  imports Change_Model Evidence_Plan
begin

text \<open>
  The readiness evaluator of the quality gates (\<^verbatim>\<open>plugin/src/gates/gate-readiness.ts\<close>) with the
  re-resolution of typed verification evidence (\<^verbatim>\<open>utils/typed-verification-evidence.ts\<close>): the
  blockers of each gate, the artifact evidence, the advisory warnings, the criteria evaluators
  and the acceptance projection.  The evaluation time is an argument.
\<close>

subsection \<open>Results and blockers\<close>

definition isFailingContractReviewStatus :: "evidence_status \<Rightarrow> bool" where
  "isFailingContractReviewStatus s \<longleftrightarrow> s \<in> set [EsFail, EsViolated, EsUnknown]"

definition handoffOpsRelationships :: "ops_relationship list" where
  "handoffOpsRelationships = [OpsFollowsRelease, OpsMonitors, OpsCleanupAfter]"

definition completeOpsStatuses :: "ops_status list" where
  "completeOpsStatuses = [OpsComplete]"

fun artifactBackedGate :: "gate_id \<Rightarrow> artifact_kind option" where
  "artifactBackedGate Proposal = Some KProposal"
| "artifactBackedGate Discovery = Some KAgreement"
| "artifactBackedGate Design = Some KDesign"
| "artifactBackedGate Acceptance = Some KAcceptance"
| "artifactBackedGate _ = None"

definition minGateArtifactChars :: nat where
  "minGateArtifactChars = 20"

record readiness_options =
  ro_compatibilityReason :: "string option"
  ro_enforceDiscoveryContract :: "bool option"
  ro_strictUnknownRows :: "bool option"

record readiness_warning =
  rw_code :: string
  rw_message :: string
  rw_artifactKind :: "artifact_kind option"

record readiness_result =
  re_ready :: bool
  re_blockers :: "readiness_blocker list"
  re_evidence :: "artifact_evidence option"
  re_warnings :: "readiness_warning list"

definition makeBlocker :: "string \<Rightarrow> gate_id \<Rightarrow> string \<Rightarrow> string \<Rightarrow> readiness_blocker" where
  "makeBlocker code g message remediation =
     \<lparr>rb_code = code, rb_gateId = g, rb_message = message, rb_remediation = remediation,
      rb_blockingGateId = None, rb_artifactKind = None, rb_contractId = None, rb_linkId = None,
      rb_changeId = None, rb_relationship = None\<rparr>"

definition priorGateBlockers :: "change_state \<Rightarrow> gate_id \<Rightarrow> readiness_blocker list" where
  "priorGateBlockers st g =
     (if gateIndex g = 0 then []
      else map (\<lambda>p. (makeBlocker ''PRIOR_GATE_INCOMPLETE'' g
             (''Prior gate '' @ gateName p @ '' must be completed before '' @ gateName g @ ''.'')
             (''Complete the '' @ gateName p @ '' gate before retrying '' @ gateName g @ ''.''))
           \<lparr>rb_blockingGateId := Some p\<rparr>)
        (filter (\<lambda>p. gt_status (cs_gates st p) \<noteq> GDone) (take (gateIndex g) gateOrder)))"

definition compatibilityEvidence :: "artifact_kind \<Rightarrow> string \<Rightarrow> artifact_evidence" where
  "compatibilityEvidence kind reason =
     \<lparr>ae_kind = kind, ae_path = None, ae_content_hash = None, ae_non_whitespace_chars = None,
      ae_checked_at = ''1970-01-01T00:00:00.000Z'', ae_compatibility_reason = Some reason\<rparr>"

definition readableArtifactPath :: "artifact_metadata option \<Rightarrow> string option" where
  "readableArtifactPath m = (case m of
      None \<Rightarrow> None
    | Some a \<Rightarrow> if truthy (am_path a) \<and> am_readable a = Some True then am_path a else None)"

fun documentOf :: "artifact_kind \<Rightarrow> document_kind" where
  "documentOf KProposal = DocProposal"
| "documentOf KAgreement = DocAgreement"
| "documentOf KDesign = DocDesign"
| "documentOf KAcceptance = DocAcceptance"

fun slotOf :: "artifact_kind \<Rightarrow> artifact_slot" where
  "slotOf KProposal = ArtProposal"
| "slotOf KAgreement = ArtAgreement"
| "slotOf KDesign = ArtDesign"
| "slotOf KAcceptance = ArtAcceptance"

text \<open>A document that is present and not blank.\<close>

definition substantive :: "string option \<Rightarrow> bool" where
  "substantive content \<longleftrightarrow> truthy (map_option trim content)"

subsection \<open>Advisory warnings\<close>

definition includesStr :: "string \<Rightarrow> string \<Rightarrow> bool" where
  "includesStr s sub \<longleftrightarrow> (\<exists>i \<in> set [0..<Suc (length s)]. startsWith (drop i s) sub)"

definition contradictionKeywords :: "string list" where
  "contradictionKeywords = [''TODO'', ''TBD'', ''FIXME'', ''HACK'', ''contradicts'', ''overrides'']"

definition artifactCascadeWarnings :: "change_state \<Rightarrow> gate_id \<Rightarrow> readiness_warning list" where
  "artifactCascadeWarnings st g =
     (case artifactBackedGate g of
        None \<Rightarrow> []
      | Some kind \<Rightarrow>
          (let prior = (if gateIndex g > 0 then
                 filter (\<lambda>k. substantive (cs_documents st (documentOf k)))
                   (List.map_filter artifactBackedGate
                     (filter (\<lambda>p. gt_status (cs_gates st p) = GDone) (take (gateIndex g) gateOrder)))
                 else []);
               content = (case cs_documents st (documentOf kind) of Some c \<Rightarrow> c | None \<Rightarrow> []);
               found = (if trim content \<noteq> [] then
                 filter (\<lambda>k. includesStr (map lowerChar content) (map lowerChar k)) contradictionKeywords else [])
           in issueIf (prior \<noteq> [])
                \<lparr>rw_code = ''CASCADE_REMINDER'',
                 rw_message = ''Prior artifacts ('' @ joinWith '', '' (map artifactKindName prior)
                   @ '') should be consistent with '' @ artifactKindName kind
                   @ ''. Verify no contradictions in truth ordering cascade before proceeding.'',
                 rw_artifactKind = None\<rparr>
              @ issueIf (found \<noteq> [])
                \<lparr>rw_code = ''ARTIFACT_CONTRADICTION_KEYWORDS'',
                 rw_message = artifactKindName kind @ '' contains potential contradiction indicators: ''
                   @ joinWith '', '' found @ ''. Review before proceeding.'',
                 rw_artifactKind = Some kind\<rparr>))"

subsection \<open>Artifact evidence from state\<close>

definition notReady :: "readiness_blocker \<Rightarrow> readiness_result" where
  "notReady b = \<lparr>re_ready = False, re_blockers = [b], re_evidence = None, re_warnings = []\<rparr>"

definition artifactEvidence ::
  "artifact_kind \<Rightarrow> artifact_metadata option \<Rightarrow> nat \<Rightarrow> string \<Rightarrow> artifact_evidence" where
  "artifactEvidence kind m chars checkedAt =
     \<lparr>ae_kind = kind, ae_path = readableArtifactPath m,
      ae_content_hash = nonEmpty (Option.bind m am_contentHash),
      ae_non_whitespace_chars = Some chars, ae_checked_at = checkedAt, ae_compatibility_reason = None\<rparr>"

definition stateBackedArtifactEvidence ::
  "change_state \<Rightarrow> gate_id \<Rightarrow> artifact_kind \<Rightarrow> string \<Rightarrow> readiness_result" where
  "stateBackedArtifactEvidence st g kind checkedAt =
     (let content = cs_documents st (documentOf kind) in
      if \<not> substantive content then
        notReady ((makeBlocker ''ARTIFACT_MISSING'' g
            (artifactKindName kind @ '' artifact is missing from workflow state.'')
            ''Persist the required artifact through the disk artifact update path before retrying gate completion.'')
          \<lparr>rb_artifactKind := Some kind\<rparr>)
      else
        (let chars = countNonWhitespace (the content) in
         if chars < minGateArtifactChars then
           notReady ((makeBlocker ''ARTIFACT_UNDERSIZED'' g
               (artifactKindName kind @ '' artifact has '' @ showNat chars
                 @ '' non-whitespace characters; minimum is '' @ showNat minGateArtifactChars @ ''.'')
               ''Populate the required artifact with substantive gate evidence before retrying gate completion.'')
             \<lparr>rb_artifactKind := Some kind\<rparr>)
         else \<lparr>re_ready = True, re_blockers = [],
                re_evidence = Some (artifactEvidence kind (cs_artifacts st (slotOf kind)) chars checkedAt),
                re_warnings = []\<rparr>))"

definition stateBackedAcceptanceProof :: "change_state \<Rightarrow> string \<Rightarrow> readiness_result" where
  "stateBackedAcceptanceProof st checkedAt =
     (let content = cs_documents st DocExecutiveSummary in
      if \<not> substantive content then
        notReady ((makeBlocker ''ACCEPTANCE_EXECUTIVE_SUMMARY_MISSING'' Acceptance
            ''Acceptance requires executive-summary content in workflow state.''
            ''Persist executive-summary content through the disk artifact update path before retrying acceptance.'')
          \<lparr>rb_artifactKind := Some KAcceptance\<rparr>)
      else
        (let chars = countNonWhitespace (the content) in
         if chars < minGateArtifactChars then
           notReady ((makeBlocker ''ACCEPTANCE_EXECUTIVE_SUMMARY_UNDERSIZED'' Acceptance
               (''executive-summary artifact has '' @ showNat chars
                 @ '' non-whitespace characters; minimum is '' @ showNat minGateArtifactChars @ ''.'')
               ''Populate executive-summary with substantive acceptance evidence before retrying acceptance.'')
             \<lparr>rb_artifactKind := Some KAcceptance\<rparr>)
         else \<lparr>re_ready = True, re_blockers = [],
                re_evidence = Some (artifactEvidence KAcceptance (cs_artifacts st ArtExecutiveSummary) chars checkedAt),
                re_warnings = []\<rparr>))"

subsection \<open>Contract blockers\<close>

definition agreementExists :: "change_state \<Rightarrow> bool" where
  "agreementExists st \<longleftrightarrow> substantive (cs_documents st DocAgreement)
     \<or> cs_artifacts st ArtAgreement \<noteq> None \<or> cs_artifacts st ArtDiscovery \<noteq> None"

definition discoveryContractBlockers :: "change_state \<Rightarrow> gate_id \<Rightarrow> readiness_blocker list" where
  "discoveryContractBlockers st g =
     (if g \<noteq> Discovery then []
      else if \<not> agreementExists st \<or> cs_contract st \<noteq> None then []
      else [(makeBlocker ''DISCOVERY_CONTRACT_MISSING'' g
          ''Discovery requires typed contract proof once agreement is approved.''
          ''Run adv_contract_mint for this change before completing discovery.'')
        \<lparr>rb_artifactKind := Some KAgreement\<rparr>])"

definition expectedItems :: "contract \<Rightarrow> contract_item list" where
  "expectedItems c = filter (\<lambda>i. ci_verificationRequired i \<noteq> Some False) (cc_items c)"

text \<open>The scan for contract identifiers that occur on several rows.\<close>

fun scanRows :: "string list \<Rightarrow> string list \<Rightarrow> string list \<Rightarrow> string list \<times> string list" where
  "scanRows seen dups [] = (seen, dups)"
| "scanRows seen dups (i # is) =
     (if i \<in> set seen then scanRows seen (if i \<in> set dups then dups else dups @ [i]) is
      else scanRows (seen @ [i]) dups is)"

definition validateReviewMatrixRowCoverage ::
  "change_state \<Rightarrow> bool option \<Rightarrow> string + (nat \<times> nat)" where
  "validateReviewMatrixRowCoverage st strictOpt =
     (case Option.bind (cs_contract st) cc_reviewMatrix of
        None \<Rightarrow> Inl ''No review matrix''
      | Some m \<Rightarrow>
          (let c = the (cs_contract st);
               strict = (case strictOpt of Some b \<Rightarrow> b | None \<Rightarrow> True);
               expected = expectedItems c;
               ids = map rr_contractId (rm_rows m);
               (seen, dups) = scanRows [] [] ids;
               missing = map ci_id (filter (\<lambda>i. ci_id i \<notin> set seen) expected);
               known = (if strict then map ci_id (cc_items c) else map ci_id expected);
               unknown = filter (\<lambda>i. i \<notin> set known) ids
           in if dups \<noteq> [] \<or> missing \<noteq> [] \<or> unknown \<noteq> [] then
                Inl (joinWith ''; ''
                  (issueIf (missing \<noteq> []) (''missing: '' @ joinWith '', '' missing)
                   @ issueIf (dups \<noteq> []) (''duplicate: '' @ joinWith '', '' dups)
                   @ issueIf (unknown \<noteq> []) (''unknown: '' @ joinWith '', '' unknown)))
              else Inr (length (rm_rows m), length expected)))"

text \<open>\<^verbatim>\<open>new Map(rows.map(row => [row.contractId, row]))\<close>.\<close>

definition rowsById :: "review_row list \<Rightarrow> (string \<times> review_row) list" where
  "rowsById rows = foldl (\<lambda>m r. map_set (rr_contractId r) r m) [] rows"

definition executiveSummaryBlockers :: "change_state \<Rightarrow> gate_id \<Rightarrow> readiness_blocker list" where
  "executiveSummaryBlockers st g =
     (let es = cs_artifacts st ArtExecutiveSummary;
          hasContentHash = truthy (map_option trim (Option.bind es am_contentHash));
          hasMetadataContext = (case es of None \<Rightarrow> False
            | Some a \<Rightarrow> am_source a \<noteq> None \<or> truthy (am_path a) \<or> am_readable a \<noteq> None);
          hasMetadata = (hasContentHash \<and> hasMetadataContext);
          hasContent = substantive (cs_documents st DocExecutiveSummary)
      in issueIf (\<not> hasMetadata \<and> \<not> hasContent)
           ((makeBlocker ''ACCEPTANCE_EXECUTIVE_SUMMARY_MISSING'' g
              ''Acceptance requires workflow-visible executive-summary artifact metadata.''
              ''Persist executive-summary.md and update workflow artifact metadata before retrying acceptance.'')
            \<lparr>rb_artifactKind := Some KAcceptance\<rparr>)
         @ issueIf (\<not> hasContentHash \<and> \<not> hasContent)
           ((makeBlocker ''ACCEPTANCE_EXECUTIVE_SUMMARY_HASH_MISSING'' g
              ''Acceptance requires executive-summary artifact metadata with contentHash evidence.''
              ''Signal executiveSummary artifact metadata with a server-computed contentHash before retrying acceptance.'')
            \<lparr>rb_artifactKind := Some KAcceptance\<rparr>))"

definition reviewRowBlockers :: "gate_id \<Rightarrow> (string \<times> review_row) list \<Rightarrow> contract_item \<Rightarrow> readiness_blocker list" where
  "reviewRowBlockers g rows i =
     (case map_get rows (ci_id i) of
        None \<Rightarrow> [(makeBlocker ''ACCEPTANCE_REVIEW_ROW_MISSING'' g
            (''Acceptance review matrix is missing row '' @ ci_id i @ ''.'')
            ''Complete the contract review matrix before retrying acceptance.'')
          \<lparr>rb_artifactKind := Some KAcceptance, rb_contractId := Some (ci_id i)\<rparr>]
      | Some row \<Rightarrow> issueIf (isFailingContractReviewStatus (rr_status row))
          ((makeBlocker ''ACCEPTANCE_REVIEW_ROW_FAILING'' g
            (''Acceptance review row '' @ ci_id i @ '' has non-passing status '' @ evidenceStatusName (rr_status row) @ ''.'')
            ''Resolve the failing contract review row before retrying acceptance.'')
          \<lparr>rb_artifactKind := Some KAcceptance, rb_contractId := Some (ci_id i)\<rparr>))"

definition acceptanceContractBlockers ::
  "change_state \<Rightarrow> gate_id \<Rightarrow> bool option \<Rightarrow> readiness_blocker list" where
  "acceptanceContractBlockers st g strictUnknownRows =
     (if g \<noteq> Acceptance then []
      else (case cs_contract st of
        None \<Rightarrow> [(makeBlocker ''ACCEPTANCE_CONTRACT_MISSING'' g
            ''Acceptance requires typed contract proof for new changes.''
            ''Mint or migrate the ChangeContract, or record an explicit compatibility rationale for legacy replay.'')
          \<lparr>rb_artifactKind := Some KAcceptance\<rparr>]
      | Some c \<Rightarrow> (case cc_reviewMatrix c of
          None \<Rightarrow> [(makeBlocker ''ACCEPTANCE_REVIEW_MATRIX_MISSING'' g
              ''Acceptance requires a contract review matrix.''
              ''Complete review matrix generation before retrying acceptance.'')
            \<lparr>rb_artifactKind := Some KAcceptance\<rparr>]
        | Some m \<Rightarrow>
            (case validateReviewMatrixRowCoverage st strictUnknownRows of
               Inr _ \<Rightarrow> []
             | Inl reason \<Rightarrow> [(makeBlocker ''ACCEPTANCE_REVIEW_MATRIX_INVALID'' g
                 (''Acceptance review matrix has invalid row coverage: '' @ reason @ ''.'')
                 ''Provide exactly one passing review row for each required contract item before retrying acceptance.'')
               \<lparr>rb_artifactKind := Some KAcceptance\<rparr>])
            @ executiveSummaryBlockers st g
            @ concat (map (reviewRowBlockers g (rowsById (rm_rows m))) (expectedItems c)))))"

subsection \<open>Required-critical obligations\<close>

definition contractItemsCoveredByTasks :: "change_state \<Rightarrow> string set" where
  "contractItemsCoveredByTasks st =
     (\<Union>t \<in> set (filter (\<lambda>t. tk_status t \<noteq> TCancelled) (cs_tasks st)).
        case tk_contract_refs t of
          None \<Rightarrow> {}
        | Some r \<Rightarrow> set (case cr_implements r of Some xs \<Rightarrow> xs | None \<Rightarrow> [])
             \<union> set (case cr_verifies r of Some xs \<Rightarrow> xs | None \<Rightarrow> []))"

definition matrixRows :: "contract \<Rightarrow> (string \<times> review_row) list" where
  "matrixRows c = (case cc_reviewMatrix c of Some m \<Rightarrow> rowsById (rm_rows m) | None \<Rightarrow> [])"

definition criticalItems :: "contract \<Rightarrow> contract_item list" where
  "criticalItems c = filter (\<lambda>i. ci_requiredCritical i = Some True) (cc_items c)"

definition checkRequiredObligationReleaseBlockers :: "change_state \<Rightarrow> gate_id \<Rightarrow> readiness_blocker list" where
  "checkRequiredObligationReleaseBlockers st g =
     (if g \<noteq> Release then []
      else (case cs_contract st of
        None \<Rightarrow> []
      | Some c \<Rightarrow> concat (map (\<lambda>i.
          (case map_get (matrixRows c) (ci_id i) of
             Some row \<Rightarrow> issueIf (isFailingContractReviewStatus (rr_status row))
               ((makeBlocker ''REQUIRED_OBLIGATION_UNRESOLVED'' g
                 (''Required-critical obligation '' @ ci_id i @ '' has failing review status ''
                   @ evidenceStatusName (rr_status row) @ ''.'')
                 ''Resolve the failing required-critical contract review row before releasing.'')
                \<lparr>rb_contractId := Some (ci_id i)\<rparr>)
           | None \<Rightarrow> [])) (criticalItems c))))"

definition checkRequiredObligationRouting :: "change_state \<Rightarrow> gate_id \<Rightarrow> readiness_blocker list" where
  "checkRequiredObligationRouting st g =
     (if g \<noteq> Release then []
      else (case cs_contract st of
        None \<Rightarrow> []
      | Some c \<Rightarrow> concat (map (\<lambda>i.
          if truthy (ci_notRequiredReason i) then []
          else if map_get (matrixRows c) (ci_id i) \<noteq> None then []
          else if ci_id i \<in> contractItemsCoveredByTasks st then []
          else [(makeBlocker ''REQUIRED_OBLIGATION_NOT_ROUTED'' g
              (''Required-critical obligation '' @ ci_id i @ '' has no task coverage and no review matrix row.'')
              ''Route via adv_change_reenter or fast-follow split, or add task coverage and complete review.'')
            \<lparr>rb_contractId := Some (ci_id i)\<rparr>]) (criticalItems c))))"

subsection \<open>Design concerns\<close>

definition designDimensionKeys :: "design_dimension list" where
  "designDimensionKeys = [ComponentCorrectness, SemanticHtmlA11y, ResponsiveBehavior, VisualPolish,
     SiteDesignConsistency, FinerDetails]"

definition reportTaskId :: "subagent_report \<Rightarrow> string option" where
  "reportTaskId r = (case sr_scope r of ScopeTask i \<Rightarrow> Some i | _ \<Rightarrow> sr_task_id r)"

text \<open>A later attempt replaces an earlier one in its place; an equal attempt does not.\<close>

definition keepLatest ::
  "(subagent_report \<Rightarrow> string option) \<Rightarrow> (string \<times> subagent_report) list \<Rightarrow> subagent_report
   \<Rightarrow> (string \<times> subagent_report) list" where
  "keepLatest key m r = (case key r of
      None \<Rightarrow> m
    | Some k \<Rightarrow> (case map_get m k of
        None \<Rightarrow> map_set k r m
      | Some old \<Rightarrow> if sr_attempt old < sr_attempt r then map_set k r m else m))"

definition latestBy ::
  "(subagent_report \<Rightarrow> string option) \<Rightarrow> subagent_report list \<Rightarrow> (string \<times> subagent_report) list" where
  "latestBy key rs = foldl (keepLatest key) [] rs"

definition latestDesignerReportsByTask :: "change_state \<Rightarrow> (string \<times> subagent_report) list" where
  "latestDesignerReportsByTask st =
     latestBy (\<lambda>r. if sr_agent r = ''adv-designer'' then nonEmpty (reportTaskId r) else None) (cs_reports st)"

definition isDispositioned :: "disposition list \<Rightarrow> string \<Rightarrow> string \<Rightarrow> bool" where
  "isDispositioned ds taskId key \<longleftrightarrow> (\<exists>d \<in> set ds. di_taskId d = taskId \<and> di_concernKey d = key)"

definition dimensionConcerns :: "change_state \<Rightarrow> string \<Rightarrow> subagent_report \<Rightarrow> design_dimension list" where
  "dimensionConcerns st taskId r = filter (\<lambda>d. sr_dimensions r d = DimConcern \<and>
     \<not> isDispositioned (cs_design_dispositions st) taskId (''dimension:'' @ dimensionName d)) designDimensionKeys"

definition neighborConcerns :: "change_state \<Rightarrow> string \<Rightarrow> subagent_report \<Rightarrow> (nat \<times> string) list" where
  "neighborConcerns st taskId r = filter (\<lambda>(i, w).
     \<not> isDispositioned (cs_design_dispositions st) taskId (''neighbor:'' @ showNat i)) (enumerate 0 (sr_neighbors r))"

definition designBlockersFor :: "change_state \<Rightarrow> gate_id \<Rightarrow> string \<times> subagent_report \<Rightarrow> readiness_blocker list" where
  "designBlockersFor st g p =
     map (\<lambda>d. makeBlocker ''DESIGN_CONCERN_UNRESOLVED'' g
         (''Unresolved design concern ('' @ dimensionName d @ '') on task '' @ fst p @ '' from adv-designer report.'')
         ''Fix the concern and submit an updated adv-designer report, or record a typed disposition via adv_design_concern_disposition (fixed | rejected_with_evidence | split | fast_follow).'')
       (dimensionConcerns st (fst p) (snd p))
     @ map (\<lambda>(i, w). makeBlocker ''DESIGN_CONCERN_UNRESOLVED'' g
         (''Unresolved neighboring UI recommendation on task '' @ fst p @ '': '' @ w)
         ''Include the fix now, or record a typed disposition via adv_design_concern_disposition (rejected_with_evidence | split | fast_follow).'')
       (neighborConcerns st (fst p) (snd p))"

definition checkUnresolvedDesignConcerns :: "change_state \<Rightarrow> gate_id \<Rightarrow> readiness_blocker list" where
  "checkUnresolvedDesignConcerns st g =
     (if g \<noteq> Acceptance \<and> g \<noteq> Release then []
      else concat (map (designBlockersFor st g) (latestDesignerReportsByTask st)))"

subsection \<open>Verification evidence\<close>

definition latestDurableByRunId :: "durable_run list \<Rightarrow> (string \<times> int option) list" where
  "latestDurableByRunId rs = foldl (\<lambda>m r. if truthy (dn_runId r) then map_set (the (dn_runId r)) (dn_exitCode r) m else m) [] rs"

definition entryRunId :: "verification_entry \<Rightarrow> string option" where
  "entryRunId e = (if truthy (ve_test_run_id e) then ve_test_run_id e else nonEmpty (ve_run_id e))"

definition entryWarnings :: "(string \<times> int option) list \<Rightarrow> verification_entry \<Rightarrow> consumer_warning list" where
  "entryWarnings durable e = (case entryRunId e of
      None \<Rightarrow> []
    | Some i \<Rightarrow> (case map_get durable i of
        None \<Rightarrow> [\<lparr>cw_kind = VerificationMissing,
            cw_message = ''No durable adv_run_test evidence found for run_id: '' @ i\<rparr>]
      | Some code \<Rightarrow> (case code of
            None \<Rightarrow> []
          | Some c \<Rightarrow> issueIf (c \<noteq> ve_exit_code e)
              \<lparr>cw_kind = VerificationMismatch,
               cw_message = ''Reported exit_code '' @ showInt (ve_exit_code e)
                 @ '' differs from durable adv_run_test exitCode '' @ showInt c @ '' for run_id: '' @ i\<rparr>)))"

definition resolveTypedVerificationWarnings ::
  "verification_entry list \<Rightarrow> durable_run list option \<Rightarrow> consumer_warning list" where
  "resolveTypedVerificationWarnings entries records =
     concat (map (entryWarnings (latestDurableByRunId (case records of Some rs \<Rightarrow> rs | None \<Rightarrow> []))) entries)"

definition isVerificationWarning :: "consumer_warning \<Rightarrow> bool" where
  "isVerificationWarning w \<longleftrightarrow> cw_kind w = VerificationMissing \<or> cw_kind w = VerificationMismatch"

definition latestVerificationReportsForTask :: "change_state \<Rightarrow> string \<Rightarrow> subagent_report list" where
  "latestVerificationReportsForTask st taskId =
     map snd (latestBy (\<lambda>r. if reportTaskId r = Some taskId then Some (sr_agent r) else None) (cs_reports st))"

definition isTypedEntry :: "bool \<Rightarrow> verification_entry \<Rightarrow> bool" where
  "isTypedEntry isStaticCheck e \<longleftrightarrow> truthy (ve_test_run_id e) \<or> truthy (ve_run_id e)
     \<or> (isStaticCheck \<and> ve_command e \<noteq> None \<and> ve_exit_code e = 0)"

definition reportWarnings ::
  "change_state \<Rightarrow> evidence_policy \<Rightarrow> string \<Rightarrow> subagent_report \<Rightarrow> consumer_warning list" where
  "reportWarnings st policy taskId r =
     (let persisted = filter isVerificationWarning (case sr_warnings r of Some ws \<Rightarrow> ws | None \<Rightarrow> [])
      in if sr_agent r \<noteq> ''adv-engineer'' \<and> sr_agent r \<noteq> ''adv-designer'' then persisted
         else
           (let isStatic = (policy = PStaticCheck);
                typed = filter (isTypedEntry isStatic) (sr_verification r);
                resolved = resolveTypedVerificationWarnings typed (map_get (cs_testRuns st) taskId)
            in if isStatic then
                 resolved @ (if typed \<noteq> [] \<and> resolved = [] then [] else persisted)
               else
                 resolved @ (if length typed \<noteq> length (sr_verification r) then persisted else [])))"

definition verificationConcernKey :: string where
  "verificationConcernKey = ''verification''"

definition verificationBlockersFor :: "change_state \<Rightarrow> gate_id \<Rightarrow> task \<Rightarrow> readiness_blocker list" where
  "verificationBlockersFor st g t =
     (let policy = es_policy (resolveTaskEvidence t);
          warnings = concat (map (reportWarnings st policy (tk_id t)) (latestVerificationReportsForTask st (tk_id t)))
      in if tk_status t \<noteq> TDone then []
         else if \<not> isProofBearingEvidencePolicy policy then []
         else if isDispositioned (cs_verification_dispositions st) (tk_id t) verificationConcernKey then []
         else if warnings = [] then []
         else [makeBlocker ''VERIFICATION_EVIDENCE_MISSING'' g
           (''Completed task '' @ tk_id t @ '' (evidence_policy: '' @ policyName policy
             @ '') has unresolved verification evidence: ''
             @ joinWith '', '' (map warningKindName (mk_set (map cw_kind warnings))) @ ''.'')
           (''Re-run adv_run_test and submit an updated task report so the latest report is warning-free; otherwise coordinate a recovery decision with the orchestrator (taskId: ''
             @ tk_id t @ '', concernKey: '' @ verificationConcernKey @ '').'')])"

definition checkUnresolvedVerificationEvidence :: "change_state \<Rightarrow> gate_id \<Rightarrow> readiness_blocker list" where
  "checkUnresolvedVerificationEvidence st g =
     (if g \<noteq> Acceptance \<and> g \<noteq> Release then []
      else concat (map (verificationBlockersFor st g) (cs_tasks st)))"

definition evidencePlanBlockersFor :: "change_state \<Rightarrow> gate_id \<Rightarrow> task \<Rightarrow> readiness_blocker list" where
  "evidencePlanBlockersFor st g t =
     (let errors = validateTaskEvidenceForStage t Completion
            (cs_reports st @ (case tk_subagent_reports t of Some rs \<Rightarrow> rs | None \<Rightarrow> []))
      in if tk_status t \<noteq> TDone then []
         else issueIf (errors \<noteq> [])
           (makeBlocker ''EVIDENCE_PLAN_INVALID'' g
             (''Completed task '' @ tk_id t @ '' has an invalid completion-stage evidence plan: ''
               @ joinWith ''; '' errors @ ''.'')
             (''Fix the task evidence plan or reclassify with user approval before completing '' @ gateName g @ ''.'')))"

definition checkCompletedTaskEvidencePlan :: "change_state \<Rightarrow> gate_id \<Rightarrow> readiness_blocker list" where
  "checkCompletedTaskEvidencePlan st g =
     (if g \<noteq> Acceptance \<and> g \<noteq> Release then []
      else concat (map (evidencePlanBlockersFor st g) (cs_tasks st)))"

subsection \<open>Respects claims\<close>

definition avoidanceOosIds :: "contract \<Rightarrow> string list" where
  "avoidanceOosIds c = map ci_id (filter (\<lambda>i. ci_kind i = Avoidance \<or> ci_kind i = OutOfScope) (cc_items c))"

definition taskRespects :: "task \<Rightarrow> string list" where
  "taskRespects t = (case Option.bind (tk_contract_refs t) cr_respects of Some xs \<Rightarrow> xs | None \<Rightarrow> [])"

definition hasReviewerAuthority :: "change_state \<Rightarrow> task \<Rightarrow> bool" where
  "hasReviewerAuthority st t \<longleftrightarrow>
     (\<exists>r \<in> set (cs_reports st). sr_agent r = ''adv-reviewer'' \<and> reportTaskId r = Some (tk_id t))"

definition respectsBlockersFor :: "change_state \<Rightarrow> gate_id \<Rightarrow> string list \<Rightarrow> task \<Rightarrow> readiness_blocker list" where
  "respectsBlockersFor st g ids t =
     (let claimed = filter (\<lambda>i. i \<in> set ids) (taskRespects t)
      in if tk_status t \<noteq> TDone then []
         else if claimed = [] then []
         else issueIf (\<not> hasReviewerAuthority st t)
           (makeBlocker ''RESPECTS_EVIDENCE_AUTHORITY_MISSING'' g
             (''Completed task '' @ tk_id t @ '' claims to respect avoidance/out_of_scope item(s) ''
               @ joinWith '', '' claimed
               @ '' but lacks task-scoped review authority from a non-claiming agent (adv-reviewer). Self-asserted compliance alone is insufficient (AC3).'')
             (''Submit an adv-reviewer report scoped to task '' @ tk_id t
               @ '' confirming the respects claim(s), or remove the respects ref(s) if the task does not actually honor the boundary.'')))"

definition checkRespectsEvidenceAuthority :: "change_state \<Rightarrow> gate_id \<Rightarrow> readiness_blocker list" where
  "checkRespectsEvidenceAuthority st g =
     (if g \<noteq> Acceptance \<and> g \<noteq> Release then []
      else (case cs_contract st of
        None \<Rightarrow> []
      | Some c \<Rightarrow> if avoidanceOosIds c = [] then []
          else concat (map (respectsBlockersFor st g (avoidanceOosIds c)) (cs_tasks st))))"

subsection \<open>Operations follow-ups\<close>

definition hasCompleteOpsProof :: "ops_link \<Rightarrow> bool" where
  "hasCompleteOpsProof l = (case ol_resolution l of
      None \<Rightarrow> False
    | Some r \<Rightarrow> or_source r = ChildProfile \<and> or_status r \<in> set completeOpsStatuses
        \<and> truthy (or_completion_signal r) \<and> truthy (or_health_verification r)
        \<and> truthy (or_rollback_disposition r))"

definition mustResolve :: "ops_link \<Rightarrow> bool" where
  "mustResolve l \<longleftrightarrow> ol_relationship l = OpsBlocks
     \<or> (ol_relationship l \<in> set handoffOpsRelationships \<and> ol_required_handoff l)"

definition opsBlocker :: "string \<Rightarrow> gate_id \<Rightarrow> ops_link \<Rightarrow> string \<Rightarrow> string \<Rightarrow> readiness_blocker" where
  "opsBlocker code g l message remediation =
     (makeBlocker code g message remediation)
       \<lparr>rb_linkId := Some (ol_id l), rb_changeId := Some (ol_changeId l),
        rb_relationship := Some (relationshipName (ol_relationship l))\<rparr>"

definition incompleteOpsCode :: "ops_link \<Rightarrow> string" where
  "incompleteOpsCode l = (if ol_relationship l = OpsBlocks then ''OPS_FOLLOWUP_BLOCKS_INCOMPLETE''
     else ''OPS_FOLLOWUP_HANDOFF_INCOMPLETE'')"

definition opsSubject :: "ops_link \<Rightarrow> string" where
  "opsSubject l = ''Ops follow-up '' @ ol_id l @ '' ('' @ ol_changeId l @ '')''"

definition opsCompleteRemediation :: "ops_link \<Rightarrow> string" where
  "opsCompleteRemediation l = ''Complete the ops follow-up change '' @ ol_changeId l
     @ '' before releasing, or change the relationship/required handoff if it is not a release blocker.''"

definition makeOpsResolutionBlocker :: "ops_link \<Rightarrow> gate_id \<Rightarrow> readiness_blocker option" where
  "makeOpsResolutionBlocker l g =
     (if \<not> mustResolve l then None
      else if ol_resolution l = None \<and> ol_status l \<notin> set completeOpsStatuses then
        Some (opsBlocker (incompleteOpsCode l) g l
          (opsSubject l @ '' is incomplete (status: '' @ opsStatusName (ol_status l) @ '').'')
          (opsCompleteRemediation l))
      else (case ol_resolution l of
          None \<Rightarrow> Some (opsBlocker ''OPS_FOLLOWUP_STATUS_UNVERIFIED'' g l
            (opsSubject l @ '' lacks fresh verified child-state proof; parent status ''
              @ opsStatusName (ol_status l) @ '' is not release authority.'')
            (''Verify child ops follow-up change '' @ ol_changeId l
              @ '' and project a fresh resolution proof before release.''))
        | Some r \<Rightarrow>
            (if or_source r = Unreachable then
               Some (opsBlocker ''OPS_FOLLOWUP_STATUS_UNVERIFIED'' g l
                 (opsSubject l @ '' lacks fresh verified child-state proof; parent status ''
                   @ opsStatusName (ol_status l) @ '' is not release authority.'')
                 (''Verify child ops follow-up change '' @ ol_changeId l
                   @ '' and project a fresh resolution proof before release.''))
             else if or_status r = OpsComplete \<and> \<not> hasCompleteOpsProof l then
               Some (opsBlocker ''OPS_FOLLOWUP_COMPLETION_PROOF_INCOMPLETE'' g l
                 (opsSubject l @ '' is marked complete but lacks completion signal, health verification, or rollback/cleanup disposition proof.'')
                 (''Record completion signal, health verification, and rollback/cleanup disposition on child ops follow-up ''
                   @ ol_changeId l @ '', then re-run reconciliation.''))
             else if or_status r \<notin> set completeOpsStatuses then
               Some (opsBlocker (incompleteOpsCode l) g l
                 (opsSubject l @ '' verified child status is incomplete (status: '' @ opsStatusName (or_status r) @ '').'')
                 (opsCompleteRemediation l))
             else None)))"

definition checkOpsFollowupReleaseBlockers :: "change_state \<Rightarrow> gate_id \<Rightarrow> readiness_blocker list" where
  "checkOpsFollowupReleaseBlockers st g =
     (if g \<noteq> Release then []
      else List.map_filter (\<lambda>l. makeOpsResolutionBlocker l g) (cs_opsLinks st))"

datatype proof_reason = ProofIncomplete | ProofUnverified | ProofUnreachable
datatype status_source = FromChildProfile | FromUnreachable | FromParentSnapshot

record open_obligation =
  oo_linkId :: string
  oo_changeId :: string
  oo_relationship :: ops_relationship
  oo_required_handoff :: bool
  oo_status :: ops_status
  oo_status_source :: status_source
  oo_completion_proof :: proof_reason
  oo_verified_at :: "string option"
  oo_resolution_error :: "string option"

definition incompleteOpsProofReason :: "ops_link \<Rightarrow> proof_reason" where
  "incompleteOpsProofReason l = (case ol_resolution l of
      None \<Rightarrow> ProofUnverified
    | Some r \<Rightarrow> if or_source r = Unreachable then ProofUnreachable else ProofIncomplete)"

definition getOpenOpsFollowupObligations :: "ops_link list \<Rightarrow> open_obligation list" where
  "getOpenOpsFollowupObligations links =
     map (\<lambda>l. \<lparr>oo_linkId = ol_id l, oo_changeId = ol_changeId l, oo_relationship = ol_relationship l,
         oo_required_handoff = ol_required_handoff l,
         oo_status = (case ol_resolution l of Some r \<Rightarrow> or_status r | None \<Rightarrow> ol_status l),
         oo_status_source = (case ol_resolution l of
             Some r \<Rightarrow> (case or_source r of ChildProfile \<Rightarrow> FromChildProfile | Unreachable \<Rightarrow> FromUnreachable)
           | None \<Rightarrow> FromParentSnapshot),
         oo_completion_proof = incompleteOpsProofReason l,
         oo_verified_at = nonEmpty (map_option or_verified_at (ol_resolution l)),
         oo_resolution_error = nonEmpty (Option.bind (ol_resolution l) or_error)\<rparr>)
       (filter (\<lambda>l. \<not> hasCompleteOpsProof l) links)"

subsection \<open>The evaluator\<close>

definition completedWorkBlockers :: "change_state \<Rightarrow> gate_id \<Rightarrow> readiness_blocker list" where
  "completedWorkBlockers st g =
     checkUnresolvedDesignConcerns st g @ checkUnresolvedVerificationEvidence st g
     @ checkCompletedTaskEvidencePlan st g @ checkRespectsEvidenceAuthority st g"

definition evaluateGateReadiness :: "change_state \<Rightarrow> gate_id \<Rightarrow> readiness_options \<Rightarrow> readiness_result" where
  "evaluateGateReadiness st g opts =
     (let kind = artifactBackedGate g;
          compat = nonEmpty (ro_compatibilityReason opts);
          evidence = (case (kind, compat) of
              (Some k, Some reason) \<Rightarrow> Some (compatibilityEvidence k reason) | _ \<Rightarrow> None);
          discovery = (if g = Discovery \<and> ro_enforceDiscoveryContract opts \<noteq> Some False
            then discoveryContractBlockers st g else []);
          acceptance = (if kind = Some KAcceptance then
              (if compat \<noteq> None \<and> cs_contract st = None then []
               else acceptanceContractBlockers st g (ro_strictUnknownRows opts))
              @ completedWorkBlockers st g
            else []);
          release = (if g = Release then
              checkRequiredObligationReleaseBlockers st g @ checkRequiredObligationRouting st g
              @ checkOpsFollowupReleaseBlockers st g @ completedWorkBlockers st g
            else []);
          blockers = priorGateBlockers st g @ discovery @ acceptance @ release
      in \<lparr>re_ready = (blockers = []), re_blockers = blockers, re_evidence = evidence,
          re_warnings = artifactCascadeWarnings st g\<rparr>)"

definition renderAcceptanceProjection :: "change_state \<Rightarrow> string" where
  "renderAcceptanceProjection st =
     (let nl = [CHR 0x0A] in
      case Option.bind (cs_contract st) cc_reviewMatrix of
        None \<Rightarrow> ''# Acceptance'' @ nl @ nl @ ''No typed acceptance proof available.'' @ nl
      | Some m \<Rightarrow>
          (let rows = rowsById (rm_rows m);
               ls = [''# Acceptance'', [], ''Reviewed at: '' @ rm_reviewedAt m, [],
                     ''## Contract Review Matrix'', [],
                     ''| ID | Kind | Requirement | Status | Evidence |'', ''|---|---|---|---|---|'']
                 @ map (\<lambda>i. ''| '' @ ci_id i @ '' | '' @ itemKindName (ci_kind i) @ '' | '' @ ci_text i @ '' | ''
                     @ (case map_get rows (ci_id i) of Some r \<Rightarrow> evidenceStatusName (rr_status r) | None \<Rightarrow> ''missing'')
                     @ '' | '' @ (case map_get rows (ci_id i) of Some r \<Rightarrow> rr_evidence r | None \<Rightarrow> []) @ '' |'')
                   (cc_items (the (cs_contract st)))
                 @ [[]]
           in joinWith nl ls @ nl))"

subsection \<open>Criteria\<close>

type_synonym verdict = "criterion_status \<times> string"

definition presentVerdict :: "change_state \<Rightarrow> document_kind \<Rightarrow> string \<Rightarrow> verdict" where
  "presentVerdict st d name =
     (if \<not> substantive (cs_documents st d) then (CritFail, name @ '' content missing'')
      else (CritPass, name @ '' present''))"

definition sizeVerdict :: "string \<Rightarrow> verdict" where
  "sizeVerdict content =
     (let chars = countNonWhitespace content
      in if chars < minGateArtifactChars
         then (CritFail, showNat chars @ '' chars < '' @ showNat minGateArtifactChars)
         else (CritPass, showNat chars @ '' chars''))"

definition minSizeVerdict :: "change_state \<Rightarrow> document_kind \<Rightarrow> string \<Rightarrow> verdict" where
  "minSizeVerdict st d name =
     (case cs_documents st d of None \<Rightarrow> (CritNa, ''No '' @ name @ '' content'')
      | Some content \<Rightarrow> sizeVerdict content)"

definition contractVerdict :: "change_state \<Rightarrow> verdict" where
  "contractVerdict st = (if cs_contract st = None then (CritFail, ''No contract'')
     else (CritPass, ''Contract exists''))"

definition allTasksDoneVerdict :: "change_state \<Rightarrow> verdict" where
  "allTasksDoneVerdict st =
     (let n = length (filter (\<lambda>t. tk_status t \<noteq> TDone \<and> tk_status t \<noteq> TCancelled) (cs_tasks st))
      in if cs_tasks st = [] then (CritNa, ''No tasks'')
         else if n > 0 then (CritFail, showNat n @ '' incomplete tasks'')
         else (CritPass, ''All tasks done/cancelled''))"

definition tddIntentsVerdict :: "change_state \<Rightarrow> verdict" where
  "tddIntentsVerdict st =
     (let n = length (filter (\<lambda>t. \<not> truthy (metadataGet t ''tdd_intent'')) (cs_tasks st))
      in if cs_tasks st = [] then (CritNa, ''No tasks'')
         else if n > 0 then (CritFail, showNat n @ '' tasks without tdd_intent'')
         else (CritPass, ''All tasks have tdd_intent''))"

definition matrixCompleteVerdict :: "change_state \<Rightarrow> verdict" where
  "matrixCompleteVerdict st = (case validateReviewMatrixRowCoverage st None of
      Inl reason \<Rightarrow> (CritFail, reason)
    | Inr (rows, items) \<Rightarrow> (CritPass, showNat rows @ '' rows for '' @ showNat items @ '' items''))"

definition failingRows :: "change_state \<Rightarrow> review_row list" where
  "failingRows st = (case Option.bind (cs_contract st) cc_reviewMatrix of
      Some m \<Rightarrow> filter (\<lambda>r. isFailingContractReviewStatus (rr_status r)) (rm_rows m) | None \<Rightarrow> [])"

definition allRowsVerdict :: "change_state \<Rightarrow> verdict" where
  "allRowsVerdict st = (case validateReviewMatrixRowCoverage st None of
      Inl reason \<Rightarrow> (CritFail, reason)
    | Inr _ \<Rightarrow>
        (let n = length (failingRows st)
         in if n > 0 then (CritFail, showNat n @ '' failing rows'') else (CritPass, ''All rows passing'')))"

definition executiveSummaryVerdict :: "change_state \<Rightarrow> verdict" where
  "executiveSummaryVerdict st =
     (if \<not> substantive (cs_documents st DocExecutiveSummary)
      then (CritFail, ''Executive summary missing'')
      else sizeVerdict (the (cs_documents st DocExecutiveSummary)))"

text \<open>\<^verbatim>\<open>CRITERION_EVALUATORS\<close>: none of the evaluators throws on a state of the right shape.\<close>

definition criterionEvaluator :: "string \<Rightarrow> (change_state \<Rightarrow> verdict) option" where
  "criterionEvaluator i = map_of
     [(''PROPOSAL_ARTIFACT_PRESENT'', \<lambda>st. presentVerdict st DocProposal ''Proposal''),
      (''PROPOSAL_MIN_SIZE'', \<lambda>st. minSizeVerdict st DocProposal ''proposal''),
      (''AGREEMENT_ARTIFACT_PRESENT'', \<lambda>st. presentVerdict st DocAgreement ''Agreement''),
      (''CONTRACT_MINTED'', contractVerdict),
      (''DESIGN_ARTIFACT_PRESENT'', \<lambda>st. presentVerdict st DocDesign ''Design''),
      (''DESIGN_MIN_SIZE'', \<lambda>st. minSizeVerdict st DocDesign ''design''),
      (''USER_APPROVED'', \<lambda>st. (CritNa, ''Evaluated at completion time'')),
      (''PREP_READINESS_PASS'', \<lambda>st. (CritNa, ''Evaluated at completion time'')),
      (''TASKS_EXIST'', \<lambda>st. if cs_tasks st = [] then (CritFail, ''No tasks'')
         else (CritPass, showNat (length (cs_tasks st)) @ '' tasks'')),
      (''NO_ORPHAN_TASKS'', \<lambda>st. if cs_tasks st = [] then (CritNa, ''No tasks to check'')
         else (CritPass, ''Tasks present'')),
      (''TDD_INTENTS_ASSIGNED'', tddIntentsVerdict),
      (''ALL_TASKS_DONE'', allTasksDoneVerdict),
      (''CONTRACT_EXISTS'', contractVerdict),
      (''REVIEW_MATRIX_COMPLETE'', matrixCompleteVerdict),
      (''ALL_ROWS_PASSING'', allRowsVerdict),
      (''EXECUTIVE_SUMMARY_PRESENT'', executiveSummaryVerdict),
      (''TRUNK_MERGED'', \<lambda>st. (CritNa, ''Requires git inspection'')),
      (''PR_HANDOFF_COMPLETE'', \<lambda>st. (CritNa, ''Requires GitHub API''))] i"

definition evaluateGateCriteria :: "string \<Rightarrow> change_state \<Rightarrow> gate_id \<Rightarrow> gate_criterion list" where
  "evaluateGateCriteria now st g = map (\<lambda>d.
     let v = (case criterionEvaluator (cd_id d) of
         Some f \<Rightarrow> f st | None \<Rightarrow> (CritNa, ''No evaluator implemented''))
     in \<lparr>gc_id = cd_id d, gc_label = cd_label d, gc_status = fst v, gc_evaluatedAt = now,
         gc_evidence = Some (snd v)\<rparr>) (gateCriteriaDefinitions g)"

definition deriveAcceptanceCriteriaProjection :: "string \<Rightarrow> change_state \<Rightarrow> criteria_projection" where
  "deriveAcceptanceCriteriaProjection now st =
     (let basis = (case cs_acceptanceRevision st of Some n \<Rightarrow> n | None \<Rightarrow> 0);
          snap = cs_criteriaSnapshot st
      in \<lparr>cp_current = evaluateGateCriteria now st Acceptance,
          cp_snapshot = map_option cs_criteria snap,
          cp_freshness = (case snap of None \<Rightarrow> Pending
            | Some s \<Rightarrow> if cs_basisRevision s = basis then Fresh else Stale),
          cp_basisRevision = basis,
          cp_staleReason = (case snap of None \<Rightarrow> None
            | Some s \<Rightarrow> if cs_basisRevision s = basis then None
                else Some (''Acceptance criteria snapshot captured at revision '' @ showNat (cs_basisRevision s)
                  @ ''; current revision is '' @ showNat basis))\<rparr>)"

subsection \<open>Row coverage\<close>

lemma scanRows_spec:
  "set (fst (scanRows seen dups is)) = set seen \<union> set is \<and>
   (snd (scanRows seen dups is) = [] \<longleftrightarrow> dups = [] \<and> distinct is \<and> set is \<inter> set seen = {})"
proof (induction "is" arbitrary: seen dups)
  case (Cons i "is")
  show ?case
  proof (cases "i \<in> set seen")
    case True
    then show ?thesis using Cons.IH [of seen "if i \<in> set dups then dups else dups @ [i]"] by auto
  next
    case False
    then show ?thesis using Cons.IH [of "seen @ [i]" dups] by auto
  qed
qed simp

text \<open>Coverage is valid when the rows have distinct known identifiers and every required item one.\<close>

lemma rowCoverage_Inr:
  assumes "cs_contract st = Some c" "cc_reviewMatrix c = Some m"
  shows "(\<exists>x. validateReviewMatrixRowCoverage st strict = Inr x) \<longleftrightarrow>
    distinct (map rr_contractId (rm_rows m)) \<and>
    ci_id ` set (expectedItems c) \<subseteq> rr_contractId ` set (rm_rows m) \<and>
    rr_contractId ` set (rm_rows m) \<subseteq>
      ci_id ` set (if strict = Some False then expectedItems c else cc_items c)"
proof -
  obtain seen dups where sc: "scanRows [] [] (map rr_contractId (rm_rows m)) = (seen, dups)"
    by (cases "scanRows [] [] (map rr_contractId (rm_rows m))")
  have sp: "set seen = rr_contractId ` set (rm_rows m)" "dups = [] \<longleftrightarrow> distinct (map rr_contractId (rm_rows m))"
    using scanRows_spec [of "[]" "[]" "map rr_contractId (rm_rows m)"] sc by auto
  have missing: "(filter (\<lambda>i. ci_id i \<notin> rr_contractId ` set (rm_rows m)) (expectedItems c) = []) \<longleftrightarrow>
      ci_id ` set (expectedItems c) \<subseteq> rr_contractId ` set (rm_rows m)"
    by (auto simp: filter_empty_conv)
  have unknown: "(filter (\<lambda>i. i \<notin> set (map ci_id xs)) (map rr_contractId (rm_rows m)) = []) \<longleftrightarrow>
      rr_contractId ` set (rm_rows m) \<subseteq> ci_id ` set xs" for xs
    by (auto simp: filter_empty_conv)
  let ?known = "if strict = Some False then expectedItems c else cc_items c"
  have known: "(if (case strict of Some b \<Rightarrow> b | None \<Rightarrow> True) then map ci_id (cc_items c) else map ci_id (expectedItems c))
      = map ci_id ?known"
    by (cases strict) auto
  have "(\<exists>x. validateReviewMatrixRowCoverage st strict = Inr x) \<longleftrightarrow>
      dups = [] \<and> filter (\<lambda>i. ci_id i \<notin> set seen) (expectedItems c) = [] \<and>
      filter (\<lambda>i. i \<notin> set (map ci_id ?known)) (map rr_contractId (rm_rows m)) = []"
    unfolding validateReviewMatrixRowCoverage_def
    by (simp only: assms bind.simps option.case option.sel Let_def sc prod.case known) auto
  then show ?thesis unfolding sp(1) missing unknown sp(2) .
qed

subsection \<open>When the checks are silent\<close>

lemma priorGateBlockers_Nil: "priorGateBlockers st g = [] \<longleftrightarrow> canCompleteGate (cs_gates st) g"
  by (auto simp: priorGateBlockers_def canCompleteGate_def isGateSatisfied_def filter_empty_conv simp del: gateOrder_eq)

lemma concat_map_Nil: "concat (map f xs) = [] \<longleftrightarrow> (\<forall>x \<in> set xs. f x = [])"
  by auto

lemma makeOpsResolutionBlocker_None:
  "makeOpsResolutionBlocker l g = None \<longleftrightarrow> \<not> mustResolve l \<or> hasCompleteOpsProof l"
  by (cases "ol_resolution l")
    (auto simp: makeOpsResolutionBlocker_def hasCompleteOpsProof_def completeOpsStatuses_def
      split: ops_source.splits)

lemma opsBlockers_Nil:
  "checkOpsFollowupReleaseBlockers st Release = [] \<longleftrightarrow>
     (\<forall>l \<in> set (cs_opsLinks st). mustResolve l \<longrightarrow> hasCompleteOpsProof l)"
proof -
  have "List.map_filter f xs = [] \<longleftrightarrow> (\<forall>x \<in> set xs. f x = None)" for f :: "ops_link \<Rightarrow> readiness_blocker option" and xs
    by (induction xs) (auto simp: List.map_filter_simps split: option.splits)
  then show ?thesis
    by (auto simp: checkOpsFollowupReleaseBlockers_def makeOpsResolutionBlocker_None)
qed

lemma rowsById_distinct:
  "distinct (map rr_contractId rows) \<Longrightarrow> r \<in> set rows \<Longrightarrow> map_get (rowsById rows) (rr_contractId r) = Some r"
  unfolding rowsById_def by (rule map_of_foldl_set_distinct [of rr_contractId rows r "\<lambda>r. r"])

lemma rowsById_SomeD:
  assumes "map_get (rowsById rows) i = Some r"
  shows "r \<in> set rows \<and> rr_contractId r = i"
  using assms unfolding rowsById_def by (rule map_of_foldl_set_SomeD) auto

lemma rowsById_None: "map_get (rowsById rows) i = None \<longleftrightarrow> i \<notin> rr_contractId ` set rows"
  unfolding rowsById_def by (rule map_of_foldl_set_None)

lemma executiveSummaryBlockers_Nil:
  "executiveSummaryBlockers st g = [] \<longleftrightarrow>
     substantive (cs_documents st DocExecutiveSummary) \<or>
     (\<exists>a. cs_artifacts st ArtExecutiveSummary = Some a \<and> truthy (map_option trim (am_contentHash a)) \<and>
        (am_source a \<noteq> None \<or> truthy (am_path a) \<or> am_readable a \<noteq> None))"
  by (cases "cs_artifacts st ArtExecutiveSummary") (auto simp: executiveSummaryBlockers_def Let_def)

lemma reviewRowBlockers_Nil:
  "reviewRowBlockers g rows i = [] \<longleftrightarrow>
     (\<exists>r. map_get rows (ci_id i) = Some r \<and> \<not> isFailingContractReviewStatus (rr_status r))"
  by (auto simp: reviewRowBlockers_def split: option.splits)

text \<open>Each required item has one row, no row is unknown, and no required row fails.\<close>

definition reviewMatrixOk :: "contract \<Rightarrow> review_matrix \<Rightarrow> contract_item list \<Rightarrow> bool" where
  "reviewMatrixOk c m known \<longleftrightarrow>
     distinct (map rr_contractId (rm_rows m)) \<and>
     rr_contractId ` set (rm_rows m) \<subseteq> ci_id ` set known \<and>
     (\<forall>i \<in> set (expectedItems c). \<exists>r \<in> set (rm_rows m).
        rr_contractId r = ci_id i \<and> \<not> isFailingContractReviewStatus (rr_status r))"

lemma acceptanceContractBlockers_Nil:
  "acceptanceContractBlockers st Acceptance strict = [] \<longleftrightarrow>
     (\<exists>c m. cs_contract st = Some c \<and> cc_reviewMatrix c = Some m \<and>
        reviewMatrixOk c m (if strict = Some False then expectedItems c else cc_items c) \<and>
        executiveSummaryBlockers st Acceptance = [])"
proof (cases "cs_contract st")
  case None
  then show ?thesis by (simp add: acceptanceContractBlockers_def)
next
  case c: (Some c)
  show ?thesis
  proof (cases "cc_reviewMatrix c")
    case None
    with c show ?thesis by (simp add: acceptanceContractBlockers_def)
  next
    case m: (Some m)
    let ?known = "if strict = Some False then expectedItems c else cc_items c"
    let ?cov = "validateReviewMatrixRowCoverage st strict"
    have cov: "(\<exists>x. ?cov = Inr x) \<longleftrightarrow> distinct (map rr_contractId (rm_rows m)) \<and>
        ci_id ` set (expectedItems c) \<subseteq> rr_contractId ` set (rm_rows m) \<and>
        rr_contractId ` set (rm_rows m) \<subseteq> ci_id ` set ?known"
      by (rule rowCoverage_Inr [OF c m])
    have rows: "(\<exists>r. map_get (rowsById (rm_rows m)) (ci_id i) = Some r \<and> \<not> isFailingContractReviewStatus (rr_status r))
        \<longleftrightarrow> (\<exists>r \<in> set (rm_rows m). rr_contractId r = ci_id i \<and> \<not> isFailingContractReviewStatus (rr_status r))"
      if "distinct (map rr_contractId (rm_rows m))" for i
      using rowsById_distinct [OF that] by (metis rowsById_SomeD)
    have "acceptanceContractBlockers st Acceptance strict = [] \<longleftrightarrow>
        (\<exists>x. ?cov = Inr x) \<and> executiveSummaryBlockers st Acceptance = [] \<and>
        (\<forall>i \<in> set (expectedItems c). reviewRowBlockers Acceptance (rowsById (rm_rows m)) i = [])"
      by (cases ?cov) (simp_all add: acceptanceContractBlockers_def c m)
    also have "\<dots> \<longleftrightarrow> reviewMatrixOk c m ?known \<and> executiveSummaryBlockers st Acceptance = []"
    proof (cases "distinct (map rr_contractId (rm_rows m))")
      case True
      have sub: "ci_id ` set (expectedItems c) \<subseteq> rr_contractId ` set (rm_rows m)"
        if "\<forall>i \<in> set (expectedItems c). \<exists>r \<in> set (rm_rows m).
          rr_contractId r = ci_id i \<and> \<not> isFailingContractReviewStatus (rr_status r)"
        using that by force
      show ?thesis
        unfolding cov reviewMatrixOk_def reviewRowBlockers_Nil rows [OF True] using sub True by blast
    next
      case False
      then show ?thesis unfolding cov reviewMatrixOk_def by blast
    qed
    finally show ?thesis using c m by simp
  qed
qed

text \<open>What a completed task owes before acceptance and release.\<close>

definition verificationResolved :: "change_state \<Rightarrow> task \<Rightarrow> bool" where
  "verificationResolved st t \<longleftrightarrow>
     (let policy = es_policy (resolveTaskEvidence t) in
        isProofBearingEvidencePolicy policy \<longrightarrow>
        isDispositioned (cs_verification_dispositions st) (tk_id t) verificationConcernKey \<or>
        (\<forall>r \<in> set (latestVerificationReportsForTask st (tk_id t)). reportWarnings st policy (tk_id t) r = []))"

definition evidencePlanValid :: "change_state \<Rightarrow> task \<Rightarrow> bool" where
  "evidencePlanValid st t \<longleftrightarrow>
     validateTaskEvidenceForStage t Completion
       (cs_reports st @ (case tk_subagent_reports t of Some rs \<Rightarrow> rs | None \<Rightarrow> [])) = []"

definition respectsReviewed :: "change_state \<Rightarrow> task \<Rightarrow> bool" where
  "respectsReviewed st t \<longleftrightarrow>
     (case cs_contract st of None \<Rightarrow> True
      | Some c \<Rightarrow> set (taskRespects t) \<inter> set (avoidanceOosIds c) \<noteq> {} \<longrightarrow> hasReviewerAuthority st t)"

definition completedTaskClear :: "change_state \<Rightarrow> task \<Rightarrow> bool" where
  "completedTaskClear st t \<longleftrightarrow> verificationResolved st t \<and> evidencePlanValid st t \<and> respectsReviewed st t"

definition designConcernsResolved :: "change_state \<Rightarrow> bool" where
  "designConcernsResolved st \<longleftrightarrow> (\<forall>p \<in> set (latestDesignerReportsByTask st).
     dimensionConcerns st (fst p) (snd p) = [] \<and> neighborConcerns st (fst p) (snd p) = [])"

lemma designBlockersFor_Nil:
  "designBlockersFor st g p = [] \<longleftrightarrow>
     dimensionConcerns st (fst p) (snd p) = [] \<and> neighborConcerns st (fst p) (snd p) = []"
  by (simp add: designBlockersFor_def)

lemma verificationBlockersFor_Nil:
  "verificationBlockersFor st g t = [] \<longleftrightarrow> (tk_status t = TDone \<longrightarrow> verificationResolved st t)"
  by (simp add: verificationBlockersFor_def verificationResolved_def Let_def)

lemma evidencePlanBlockersFor_Nil:
  "evidencePlanBlockersFor st g t = [] \<longleftrightarrow> (tk_status t = TDone \<longrightarrow> evidencePlanValid st t)"
  by (simp add: evidencePlanBlockersFor_def evidencePlanValid_def Let_def issueIf_def)

lemma respectsBlockersFor_Nil:
  assumes "cs_contract st = Some c"
  shows "respectsBlockersFor st g (avoidanceOosIds c) t = [] \<longleftrightarrow> (tk_status t = TDone \<longrightarrow> respectsReviewed st t)"
proof -
  have "filter (\<lambda>i. i \<in> set (avoidanceOosIds c)) (taskRespects t) = [] \<longleftrightarrow>
      set (taskRespects t) \<inter> set (avoidanceOosIds c) = {}"
    by (auto simp: filter_empty_conv)
  with assms show ?thesis
    by (simp add: respectsBlockersFor_def respectsReviewed_def Let_def issueIf_def)
qed

lemma respectsAuthority_Nil:
  assumes "g = Acceptance \<or> g = Release"
  shows "checkRespectsEvidenceAuthority st g = [] \<longleftrightarrow>
    (\<forall>t \<in> set (cs_tasks st). tk_status t = TDone \<longrightarrow> respectsReviewed st t)"
proof (cases "cs_contract st")
  case None
  then show ?thesis by (simp add: checkRespectsEvidenceAuthority_def respectsReviewed_def)
next
  case c: (Some c)
  have g: "\<not> (g \<noteq> Acceptance \<and> g \<noteq> Release)" using assms by blast
  show ?thesis
  proof (cases "avoidanceOosIds c = []")
    case True
    then show ?thesis by (simp add: checkRespectsEvidenceAuthority_def respectsReviewed_def c)
  next
    case False
    then show ?thesis
      by (simp only: checkRespectsEvidenceAuthority_def c option.case if_not_P [OF g] if_False
        concat_map_Nil respectsBlockersFor_Nil [OF c])
  qed
qed

lemma completedWorkBlockers_Nil:
  assumes "g = Acceptance \<or> g = Release"
  shows "completedWorkBlockers st g = [] \<longleftrightarrow> designConcernsResolved st \<and>
    (\<forall>t \<in> set (cs_tasks st). tk_status t = TDone \<longrightarrow> completedTaskClear st t)"
proof -
  have g: "\<not> (g \<noteq> Acceptance \<and> g \<noteq> Release)" using assms by blast
  show ?thesis
    unfolding completedWorkBlockers_def append_is_Nil_conv respectsAuthority_Nil [OF assms]
      checkUnresolvedDesignConcerns_def checkUnresolvedVerificationEvidence_def
      checkCompletedTaskEvidencePlan_def if_not_P [OF g] concat_map_Nil designBlockersFor_Nil
      verificationBlockersFor_Nil evidencePlanBlockersFor_Nil completedTaskClear_def designConcernsResolved_def
    by blast
qed

lemma evaluate_ready:
  "re_ready (evaluateGateReadiness st g opts) \<longleftrightarrow> re_blockers (evaluateGateReadiness st g opts) = []"
  by (simp add: evaluateGateReadiness_def Let_def)

end
