(* ===== verification/Gate_Decisions.thy ===== *)
theory Gate_Decisions
  imports Gate_Readiness
begin

text \<open>
  What the readiness evaluator decides: for each gate, the exact condition under which it has no
  blocker, and how reports, advisory criteria and operations follow-ups bear on it.
\<close>

subsection \<open>The conditions of the gates\<close>

text \<open>The work of every completed task, and the design concerns of the designer reports.\<close>

definition completedWorkClear :: "change_state \<Rightarrow> bool" where
  "completedWorkClear st \<longleftrightarrow> designConcernsResolved st \<and>
     (\<forall>t \<in> set (cs_tasks st). tk_status t = TDone \<longrightarrow> completedTaskClear st t)"

definition summaryRecorded :: "change_state \<Rightarrow> bool" where
  "summaryRecorded st \<longleftrightarrow> substantive (cs_documents st DocExecutiveSummary) \<or>
     (\<exists>a. cs_artifacts st ArtExecutiveSummary = Some a \<and> truthy (map_option trim (am_contentHash a)) \<and>
        (am_source a \<noteq> None \<or> truthy (am_path a) \<or> am_readable a \<noteq> None))"

definition contractAccepted :: "change_state \<Rightarrow> bool option \<Rightarrow> bool" where
  "contractAccepted st strict \<longleftrightarrow>
     (\<exists>c m. cs_contract st = Some c \<and> cc_reviewMatrix c = Some m \<and>
        reviewMatrixOk c m (if strict = Some False then expectedItems c else cc_items c))"

text \<open>A required-critical item: its row does not fail, and it is waived, reviewed or has a task.\<close>

definition criticalItemHandled :: "change_state \<Rightarrow> contract \<Rightarrow> contract_item \<Rightarrow> bool" where
  "criticalItemHandled st c i \<longleftrightarrow>
     (case map_get (matrixRows c) (ci_id i) of
        Some r \<Rightarrow> \<not> isFailingContractReviewStatus (rr_status r)
      | None \<Rightarrow> truthy (ci_notRequiredReason i) \<or> ci_id i \<in> contractItemsCoveredByTasks st)"

definition criticalItemsHandled :: "change_state \<Rightarrow> bool" where
  "criticalItemsHandled st \<longleftrightarrow>
     (case cs_contract st of None \<Rightarrow> True
      | Some c \<Rightarrow> \<forall>i \<in> set (criticalItems c). criticalItemHandled st c i)"

definition opsFollowupsProved :: "change_state \<Rightarrow> bool" where
  "opsFollowupsProved st \<longleftrightarrow> (\<forall>l \<in> set (cs_opsLinks st). mustResolve l \<longrightarrow> hasCompleteOpsProof l)"

lemma completedWork_clear:
  "g = Acceptance \<or> g = Release \<Longrightarrow> completedWorkBlockers st g = [] \<longleftrightarrow> completedWorkClear st"
  by (simp add: completedWorkBlockers_Nil completedWorkClear_def)

lemma contractBlockers_Nil:
  "acceptanceContractBlockers st Acceptance strict = [] \<longleftrightarrow> contractAccepted st strict \<and> summaryRecorded st"
  unfolding acceptanceContractBlockers_Nil executiveSummaryBlockers_Nil contractAccepted_def summaryRecorded_def
  by blast

lemma obligations_Nil:
  "checkRequiredObligationReleaseBlockers st Release @ checkRequiredObligationRouting st Release = []
     \<longleftrightarrow> criticalItemsHandled st"
proof (cases "cs_contract st")
  case None
  then show ?thesis
    by (simp add: checkRequiredObligationReleaseBlockers_def checkRequiredObligationRouting_def
        criticalItemsHandled_def)
next
  case (Some c)
  have "(case map_get (matrixRows c) (ci_id i) of
           Some row \<Rightarrow> issueIf (isFailingContractReviewStatus (rr_status row)) (b row) | None \<Rightarrow> []) = [] \<and>
        (if truthy (ci_notRequiredReason i) then []
         else if map_get (matrixRows c) (ci_id i) \<noteq> None then []
         else if ci_id i \<in> contractItemsCoveredByTasks st then [] else [b']) = []
        \<longleftrightarrow> criticalItemHandled st c i" for i b and b' :: readiness_blocker
    by (simp add: criticalItemHandled_def split: option.split)
  note item = this
  show ?thesis
    by (simp only: checkRequiredObligationReleaseBlockers_def checkRequiredObligationRouting_def
      criticalItemsHandled_def Some option.case append_is_Nil_conv concat_map_Nil if_False simp_thms
      ball_conj_distrib [symmetric] item)
qed

text \<open>
  A gate that is reported ready can be completed without breaking the order of the
  gates, and its completion makes no other gate ready out of turn: the gates stay an initial
  segment of their order.
\<close>

theorem ready_gate_completes_in_order:
  assumes "gates_in_order (cs_gates st)" "re_ready (evaluateGateReadiness st g opts)"
  shows "gates_in_order (cs_gates (completeGateInChangeState st g now by notes)) \<and>
    (\<forall>p < g. gt_status (cs_gates st p) = GDone)"
proof (intro conjI)
  have "priorGateBlockers st g = []"
    using assms(2) by (simp add: evaluateGateReadiness_def Let_def)
  then have c: "canCompleteGate (cs_gates st) g" by (simp only: priorGateBlockers_Nil)
  with assms(1) show "gates_in_order (cs_gates (completeGateInChangeState st g now by notes))"
    unfolding completeGateInChangeState_def Let_def
    by (simp add: gates_in_order_complete isGateSatisfied_def)
  show "\<forall>p < g. gt_status (cs_gates st p) = GDone"
    using c by (simp add: canCompleteGate_iff isGateSatisfied_def)
qed

text \<open>
  Claim C2. The acceptance gate is ready exactly when the gates before it are done, the work of
  every completed task is clear, and the contract is accepted with a recorded executive summary.
  A compatibility reason lifts only the last condition, and only for a change without contract.
\<close>

theorem acceptance_ready_iff:
  "re_ready (evaluateGateReadiness st Acceptance opts) \<longleftrightarrow>
     canCompleteGate (cs_gates st) Acceptance \<and> completedWorkClear st \<and>
     ((truthy (ro_compatibilityReason opts) \<and> cs_contract st = None) \<or>
      (contractAccepted st (ro_strictUnknownRows opts) \<and> summaryRecorded st))"
  unfolding evaluate_ready
  by (auto simp: evaluateGateReadiness_def Let_def priorGateBlockers_Nil completedWork_clear
      contractBlockers_Nil nonEmpty_def contractAccepted_def simp del: gateOrder_eq)

text \<open>
  Claim C3. The release gate is ready exactly when the gates before it are done, every
  required-critical contract item is handled, every operations follow-up that must resolve has a
  complete proof from its own change, and the work of every completed task is clear.  Its options
  do not matter.
\<close>

theorem release_ready_iff:
  "re_ready (evaluateGateReadiness st Release opts) \<longleftrightarrow>
     canCompleteGate (cs_gates st) Release \<and> criticalItemsHandled st \<and>
     opsFollowupsProved st \<and> completedWorkClear st"
proof -
  have "re_blockers (evaluateGateReadiness st Release opts) =
      priorGateBlockers st Release @
      (checkRequiredObligationReleaseBlockers st Release @ checkRequiredObligationRouting st Release) @
      checkOpsFollowupReleaseBlockers st Release @ completedWorkBlockers st Release"
    by (simp add: evaluateGateReadiness_def Let_def)
  then show ?thesis
    unfolding evaluate_ready opsFollowupsProved_def
    by (simp only: append_is_Nil_conv [of "priorGateBlockers st Release"]
        append_is_Nil_conv [of "checkRequiredObligationReleaseBlockers st Release @ checkRequiredObligationRouting st Release"]
        append_is_Nil_conv [of "checkOpsFollowupReleaseBlockers st Release"]
        priorGateBlockers_Nil obligations_Nil opsBlockers_Nil completedWork_clear simp_thms)
qed

subsection \<open>The report that counts\<close>

text \<open>The first report of the highest attempt among those with a key.\<close>

definition decidingReport ::
  "(subagent_report \<Rightarrow> string option) \<Rightarrow> subagent_report list \<Rightarrow> string \<Rightarrow> subagent_report \<Rightarrow> bool" where
  "decidingReport key rs k r \<longleftrightarrow> key r = Some k \<and>
     (\<exists>xs ys. rs = xs @ r # ys \<and>
        (\<forall>r' \<in> set xs. key r' = Some k \<longrightarrow> sr_attempt r' < sr_attempt r) \<and>
        (\<forall>r' \<in> set ys. key r' = Some k \<longrightarrow> sr_attempt r' \<le> sr_attempt r))"

lemma decidingReport_Nil [simp]: "\<not> decidingReport key [] k r"
  by (simp add: decidingReport_def)

lemma decidingReport_snoc:
  "decidingReport key (rs @ [x]) k r \<longleftrightarrow>
     (decidingReport key rs k r \<and> (key x = Some k \<longrightarrow> sr_attempt x \<le> sr_attempt r)) \<or>
     (r = x \<and> key x = Some k \<and> (\<forall>r' \<in> set rs. key r' = Some k \<longrightarrow> sr_attempt r' < sr_attempt x))"
    (is "?l \<longleftrightarrow> ?old \<or> ?new")
proof
  assume ?l
  then obtain xs ys where k: "key r = Some k" and e: "rs @ [x] = xs @ r # ys"
    and xs: "\<forall>r' \<in> set xs. key r' = Some k \<longrightarrow> sr_attempt r' < sr_attempt r"
    and ys: "\<forall>r' \<in> set ys. key r' = Some k \<longrightarrow> sr_attempt r' \<le> sr_attempt r"
    unfolding decidingReport_def by blast
  show "?old \<or> ?new"
  proof (cases ys rule: rev_cases)
    case Nil
    then show ?thesis using e k xs by simp
  next
    case (snoc zs y)
    with e have rs: "rs = xs @ r # zs" and y: "y = x" by simp_all
    have "?old"
      unfolding decidingReport_def
      using k rs y xs ys snoc by (intro conjI exI [of _ xs] exI [of _ zs]) auto
    then show ?thesis ..
  qed
next
  assume "?old \<or> ?new"
  then show ?l
  proof
    assume o: ?old
    then obtain xs ys where k: "key r = Some k" and e: "rs = xs @ r # ys"
      and xs: "\<forall>r' \<in> set xs. key r' = Some k \<longrightarrow> sr_attempt r' < sr_attempt r"
      and ys: "\<forall>r' \<in> set ys. key r' = Some k \<longrightarrow> sr_attempt r' \<le> sr_attempt r"
      unfolding decidingReport_def by blast
    show ?l
      unfolding decidingReport_def
      using k e xs ys o by (intro conjI exI [of _ xs] exI [of _ "ys @ [x]"]) auto
  next
    assume n: ?new
    show ?l
      unfolding decidingReport_def
      using n by (intro conjI exI [of _ rs] exI [of _ "[]"]) auto
  qed
qed

lemma decidingReport_max:
  assumes "decidingReport key rs k r" "x \<in> set rs" "key x = Some k"
  shows "sr_attempt x \<le> sr_attempt r"
  using assms unfolding decidingReport_def by fastforce

lemma decidingReport_unique:
  "decidingReport key rs k r \<Longrightarrow> decidingReport key rs k q \<Longrightarrow> r = q"
proof (induction rs rule: rev_induct)
  case (snoc x rs)
  have old: "key x = Some k \<Longrightarrow> \<forall>r' \<in> set rs. key r' = Some k \<longrightarrow> sr_attempt r' < sr_attempt x \<Longrightarrow>
      decidingReport key rs k z \<Longrightarrow> sr_attempt x \<le> sr_attempt z \<Longrightarrow> False" for z
    unfolding decidingReport_def by fastforce
  from snoc.prems snoc.IH show ?case
    unfolding decidingReport_snoc using old by blast
qed simp

lemma map_get_keepLatest:
  "map_get (keepLatest key m x) k =
     (if key x = Some k then
        (case map_get m k of None \<Rightarrow> Some x
         | Some old \<Rightarrow> if sr_attempt old < sr_attempt x then Some x else Some old)
      else map_get m k)"
  by (auto simp: keepLatest_def update_conv' split: option.splits)

lemma latestBy_get:
  "case map_get (latestBy key rs) k of
     None \<Rightarrow> \<forall>x \<in> set rs. key x \<noteq> Some k
   | Some r \<Rightarrow> decidingReport key rs k r"
proof (induction rs rule: rev_induct)
  case Nil
  show ?case by (simp add: latestBy_def)
next
  case (snoc x rs)
  have e: "latestBy key (rs @ [x]) = keepLatest key (latestBy key rs) x" by (simp add: latestBy_def)
  show ?case
  proof (cases "map_get (latestBy key rs) k")
    case None
    with snoc show ?thesis by (auto simp: e map_get_keepLatest decidingReport_snoc)
  next
    case (Some old)
    with snoc have d: "decidingReport key rs k old" by simp
    have "sr_attempt old < sr_attempt x \<Longrightarrow> \<forall>r' \<in> set rs. key r' = Some k \<longrightarrow> sr_attempt r' < sr_attempt x"
      using decidingReport_max [OF d] by force
    with d Some show ?thesis by (auto simp: e map_get_keepLatest decidingReport_snoc)
  qed
qed

lemma latestBy_get_iff: "map_get (latestBy key rs) k = Some r \<longleftrightarrow> decidingReport key rs k r"
proof (cases "map_get (latestBy key rs) k")
  case None
  with latestBy_get [where key = key and rs = rs and k = k] have "\<forall>x \<in> set rs. key x \<noteq> Some k" by simp
  with None show ?thesis by (auto simp: decidingReport_def)
next
  case (Some q)
  with latestBy_get [where key = key and rs = rs and k = k] have "decidingReport key rs k q" by simp
  with Some show ?thesis using decidingReport_unique by auto
qed

lemma latestBy_distinct: "distinct (map fst (latestBy key rs))"
proof -
  have "distinct (map fst m) \<Longrightarrow> distinct (map fst (foldl (keepLatest key) m rs))" for m
    by (induction rs arbitrary: m) (auto simp: keepLatest_def distinct_update split: option.splits)
  then show ?thesis by (simp add: latestBy_def)
qed

lemma set_latestBy: "set (latestBy key rs) = {(k, r). decidingReport key rs k r}"
  using latestBy_distinct [of key rs] by (auto simp: latestBy_get_iff [symmetric])

lemma deciding_exists: "(\<exists>r. decidingReport key rs k r) \<longleftrightarrow> (\<exists>r \<in> set rs. key r = Some k)"
proof
  assume "\<exists>r. decidingReport key rs k r"
  then show "\<exists>r \<in> set rs. key r = Some k" by (auto simp: decidingReport_def)
next
  assume "\<exists>r \<in> set rs. key r = Some k"
  then have "map_get (latestBy key rs) k \<noteq> None"
    using latestBy_get [where key = key and rs = rs and k = k] by (auto split: option.splits)
  then show "\<exists>r. decidingReport key rs k r" by (auto simp: latestBy_get_iff)
qed

definition designerKey :: "subagent_report \<Rightarrow> string option" where
  "designerKey r = (if sr_agent r = ''adv-designer'' then nonEmpty (reportTaskId r) else None)"

definition taskAgentKey :: "string \<Rightarrow> subagent_report \<Rightarrow> string option" where
  "taskAgentKey i r = (if reportTaskId r = Some i then Some (sr_agent r) else None)"

text \<open>
  Of the designer reports of a task only one counts at acceptance and release, the first
  one of the highest attempt, and every task with a designer report has exactly one; of the
  verification reports of a task one counts for each agent, chosen the same way.
\<close>

theorem latest_reports_decide:
  "set (latestDesignerReportsByTask st) = {(i, r). decidingReport designerKey (cs_reports st) i r} \<and>
   distinct (map fst (latestDesignerReportsByTask st)) \<and>
   fst ` set (latestDesignerReportsByTask st) = {i. \<exists>r \<in> set (cs_reports st). designerKey r = Some i} \<and>
   set (latestVerificationReportsForTask st t) =
     {r. \<exists>agent. decidingReport (taskAgentKey t) (cs_reports st) agent r}"
proof (intro conjI)
  have d: "latestDesignerReportsByTask st = latestBy designerKey (cs_reports st)" for st
    by (simp add: latestDesignerReportsByTask_def designerKey_def [abs_def])
  show 1: "set (latestDesignerReportsByTask st) = {(i, r). decidingReport designerKey (cs_reports st) i r}"
    by (simp only: d set_latestBy)
  show "distinct (map fst (latestDesignerReportsByTask st))" by (simp only: d latestBy_distinct)
  show "fst ` set (latestDesignerReportsByTask st) = {i. \<exists>r \<in> set (cs_reports st). designerKey r = Some i}"
    unfolding 1 by (auto simp: deciding_exists [symmetric] image_iff)
  have "latestVerificationReportsForTask st t = map snd (latestBy (taskAgentKey t) (cs_reports st))"
    by (simp add: latestVerificationReportsForTask_def taskAgentKey_def [abs_def])
  then show "set (latestVerificationReportsForTask st t) =
     {r. \<exists>agent. decidingReport (taskAgentKey t) (cs_reports st) agent r}"
    by (simp add: set_latestBy) force
qed

subsection \<open>Advisory criteria and proofs\<close>

lemma allRowsVerdict_pass:
  assumes "fst (allRowsVerdict st) = CritPass"
  shows "contractAccepted st None"
proof -
  have m: "Option.bind (cs_contract st) cc_reviewMatrix \<noteq> None"
  proof
    assume "Option.bind (cs_contract st) cc_reviewMatrix = None"
    then have "validateReviewMatrixRowCoverage st None = Inl ''No review matrix''"
      by (simp add: validateReviewMatrixRowCoverage_def)
    with assms show False by (simp add: allRowsVerdict_def)
  qed
  then obtain c m where c: "cs_contract st = Some c" and m: "cc_reviewMatrix c = Some m"
    by (cases "cs_contract st") auto
  have ok: "\<exists>x. validateReviewMatrixRowCoverage st None = Inr x" and f: "failingRows st = []"
    using assms by (auto simp: allRowsVerdict_def Let_def split: sum.splits if_splits)
  have pass: "\<forall>r \<in> set (rm_rows m). \<not> isFailingContractReviewStatus (rr_status r)"
    using f by (simp add: failingRows_def c m filter_empty_conv)
  have cov: "distinct (map rr_contractId (rm_rows m))"
      "ci_id ` set (expectedItems c) \<subseteq> rr_contractId ` set (rm_rows m)"
      "rr_contractId ` set (rm_rows m) \<subseteq> ci_id ` set (cc_items c)"
    using ok unfolding rowCoverage_Inr [OF c m] by simp_all
  have "\<exists>r \<in> set (rm_rows m). rr_contractId r = ci_id i \<and> \<not> isFailingContractReviewStatus (rr_status r)"
    if "i \<in> set (expectedItems c)" for i
    using cov(2) pass that by force
  with cov c m show ?thesis by (auto simp: contractAccepted_def reviewMatrixOk_def)
qed

definition passingRow :: "string \<Rightarrow> evidence_status \<Rightarrow> review_row" where
  "passingRow i s = \<lparr>rr_contractId = i, rr_kind = AcceptanceCriterion, rr_status = s,
     rr_evidencePolicy = PTest, rr_evidence = ''e'', rr_notes = None\<rparr>"

definition contractItem :: "string \<Rightarrow> bool \<Rightarrow> contract_item" where
  "contractItem i required = \<lparr>ci_id = i, ci_kind = AcceptanceCriterion, ci_text = ''text'',
     ci_verificationRequired = Some required, ci_evidencePolicy = PTest, ci_notRequiredReason = None,
     ci_requiredCritical = Some required\<rparr>"

definition ex_doneGate :: gate_completion where
  "ex_doneGate = pendingGate\<lparr>gt_status := GDone\<rparr>"

text \<open>A change reviewed before acceptance, with the given rows.\<close>

definition ex_reviewed :: "review_row list \<Rightarrow> change_state" where
  "ex_reviewed rows = (createChangeState ''c'' ''C'' ''t0'')\<lparr>
     cs_gates := (\<lambda>g. if g = Acceptance \<or> g = Release then pendingGate else ex_doneGate),
     cs_documents := (\<lambda>d. if d = DocExecutiveSummary then Some ''what was done'' else None),
     cs_contract := Some \<lparr>cc_rigor = RigorStandard, cc_items = [contractItem ''AC1'' True, contractItem ''AC2'' False],
       cc_reviewMatrix = Some \<lparr>rm_reviewedAt = ''t1'', rm_rows = rows, rm_recovery_audit = None\<rparr>\<rparr>\<rparr>"

definition noOptions :: readiness_options where
  "noOptions = \<lparr>ro_compatibilityReason = None, ro_enforceDiscoveryContract = None, ro_strictUnknownRows = None\<rparr>"

text \<open>
  When the advisory criterion "all rows passing" passes, the contract checks of the
  acceptance gate ask for nothing but the executive summary.  The converse fails: a failing row
  of an item that needs no verification fails the criterion and does not block the gate.
\<close>

theorem passing_rows_leave_only_summary:
  assumes "fst (allRowsVerdict st) = CritPass"
  shows "acceptanceContractBlockers st Acceptance None = executiveSummaryBlockers st Acceptance \<and>
    fst (allRowsVerdict (ex_reviewed [passingRow ''AC1'' EsPass, passingRow ''AC2'' EsFail])) = CritFail \<and>
    acceptanceContractBlockers (ex_reviewed [passingRow ''AC1'' EsPass, passingRow ''AC2'' EsFail])
      Acceptance None = []"
proof (intro conjI)
  obtain c m where c: "cs_contract st = Some c" and m: "cc_reviewMatrix c = Some m"
    and ok: "reviewMatrixOk c m (cc_items c)"
    using allRowsVerdict_pass [OF assms] by (auto simp: contractAccepted_def)
  have cov: "\<exists>x. validateReviewMatrixRowCoverage st None = Inr x"
    unfolding rowCoverage_Inr [OF c m] using ok by (force simp: reviewMatrixOk_def)
  have "reviewRowBlockers Acceptance (rowsById (rm_rows m)) i = []" if "i \<in> set (expectedItems c)" for i
    using ok that rowsById_distinct unfolding reviewRowBlockers_Nil reviewMatrixOk_def by metis
  with cov show "acceptanceContractBlockers st Acceptance None = executiveSummaryBlockers st Acceptance"
    by (auto simp: acceptanceContractBlockers_def c m)
  show "fst (allRowsVerdict (ex_reviewed [passingRow ''AC1'' EsPass, passingRow ''AC2'' EsFail])) = CritFail"
    by code_simp
  show "acceptanceContractBlockers (ex_reviewed [passingRow ''AC1'' EsPass, passingRow ''AC2'' EsFail])
      Acceptance None = []"
    by code_simp
qed

theorem passing_rows_leave_only_summary_witness:
  "acceptanceContractBlockers (ex_reviewed [passingRow ''AC1'' EsPass]) Acceptance None = []"
proof -
  have "fst (allRowsVerdict (ex_reviewed [passingRow ''AC1'' EsPass])) = CritPass" by code_simp
  moreover have "executiveSummaryBlockers (ex_reviewed [passingRow ''AC1'' EsPass]) Acceptance = []" by code_simp
  ultimately show ?thesis using passing_rows_leave_only_summary by metis
qed

theorem ready_gate_completes_in_order_witness:
  "gates_in_order (cs_gates (completeGateInChangeState (ex_reviewed [passingRow ''AC1'' EsPass])
     Acceptance ''t2'' ''user'' None)) \<and> gt_status (cs_gates (ex_reviewed [passingRow ''AC1'' EsPass]) Execution) = GDone"
proof -
  let ?st = "ex_reviewed [passingRow ''AC1'' EsPass]"
  have "\<forall>g \<in> set gateOrder. \<forall>p \<in> set gateOrder.
      isGateSatisfied (cs_gates ?st g) \<longrightarrow> p < g \<longrightarrow> isGateSatisfied (cs_gates ?st p)" by code_simp
  then have o: "gates_in_order (cs_gates ?st)"
    unfolding gates_in_order_def using set_gateOrder by blast
  have r: "re_ready (evaluateGateReadiness ?st Acceptance noOptions)" by code_simp
  have "Execution < Acceptance" by code_simp
  with ready_gate_completes_in_order [OF o r] show ?thesis by blast
qed

subsection \<open>Operations follow-ups\<close>

text \<open>
  At release one blocker is raised for each operations link that must resolve and has no
  complete proof from its own change, in the order of the links and naming the link; every such
  link is also listed as an open obligation, with the status the proof reports.  A follow-up link
  without required handoff never blocks.
\<close>

theorem release_ops_blockers_name_open_links:
  "map rb_linkId (checkOpsFollowupReleaseBlockers st Release) =
     map (Some \<circ> ol_id) (filter (\<lambda>l. mustResolve l \<and> \<not> hasCompleteOpsProof l) (cs_opsLinks st)) \<and>
   filter (\<lambda>q. oo_relationship q = OpsBlocks \<or> oo_required_handoff q) (getOpenOpsFollowupObligations (cs_opsLinks st)) =
     getOpenOpsFollowupObligations (filter (\<lambda>l. mustResolve l \<and> \<not> hasCompleteOpsProof l) (cs_opsLinks st)) \<and>
   map (\<lambda>b. the (rb_linkId b)) (checkOpsFollowupReleaseBlockers st Release) =
     map oo_linkId (filter (\<lambda>q. oo_relationship q = OpsBlocks \<or> oo_required_handoff q)
       (getOpenOpsFollowupObligations (cs_opsLinks st)))"
proof -
  have link: "rb_linkId b = Some (ol_id l)" if "makeOpsResolutionBlocker l g = Some b" for l g b
    using that by (auto simp: makeOpsResolutionBlocker_def opsBlocker_def split: if_splits option.splits)
  have must: "mustResolve l \<longleftrightarrow> ol_relationship l = OpsBlocks \<or> ol_required_handoff l" for l
    by (cases "ol_relationship l") (auto simp: mustResolve_def handoffOpsRelationships_def)
  have b: "map rb_linkId (List.map_filter (\<lambda>l. makeOpsResolutionBlocker l Release) ls) =
      map (Some \<circ> ol_id) (filter (\<lambda>l. mustResolve l \<and> \<not> hasCompleteOpsProof l) ls)" for ls
  proof (induction ls)
    case (Cons l ls)
    show ?case
    proof (cases "makeOpsResolutionBlocker l Release")
      case None
      with Cons.IH show ?thesis using makeOpsResolutionBlocker_None [of l Release]
        by (auto simp: List.map_filter_simps)
    next
      case (Some x)
      with Cons.IH link [OF Some] show ?thesis using makeOpsResolutionBlocker_None [of l Release]
        by (auto simp: List.map_filter_simps)
    qed
  qed (simp add: List.map_filter_simps)
  have o: "filter (\<lambda>q. oo_relationship q = OpsBlocks \<or> oo_required_handoff q) (getOpenOpsFollowupObligations ls) =
      getOpenOpsFollowupObligations (filter (\<lambda>l. mustResolve l \<and> \<not> hasCompleteOpsProof l) ls)" for ls
    unfolding getOpenOpsFollowupObligations_def by (induction ls) (auto simp: must)
  have i: "map oo_linkId (getOpenOpsFollowupObligations (filter (\<lambda>l. mustResolve l \<and> \<not> hasCompleteOpsProof l) ls)) =
      map ol_id (filter (\<lambda>l. mustResolve l \<and> \<not> hasCompleteOpsProof l) ls)" for ls
    unfolding getOpenOpsFollowupObligations_def by (induction ls) auto
  have r: "map rb_linkId (checkOpsFollowupReleaseBlockers st Release) =
     map (Some \<circ> ol_id) (filter (\<lambda>l. mustResolve l \<and> \<not> hasCompleteOpsProof l) (cs_opsLinks st))"
    by (simp add: checkOpsFollowupReleaseBlockers_def b)
  have "map (\<lambda>b. the (rb_linkId b)) bs = map the (map rb_linkId bs)" for bs :: "readiness_blocker list"
    by simp
  then have "map (\<lambda>b. the (rb_linkId b)) (checkOpsFollowupReleaseBlockers st Release) =
     map ol_id (filter (\<lambda>l. mustResolve l \<and> \<not> hasCompleteOpsProof l) (cs_opsLinks st))"
    by (simp only: r) simp
  with r o i show ?thesis by simp
qed

text \<open>
  A required-critical item that has no review row and is named only by a task still
  pending does not block the release gate, although nothing verified it; and neither does a
  completed task whose policy asks for tests but for which no report and no run was ever recorded.
\<close>

definition ex_unverified :: change_state where
  "ex_unverified = (ex_reviewed [])\<lparr>
     cs_gates := (\<lambda>g. if g = Release then pendingGate else ex_doneGate),
     cs_tasks := [(newTask ''t1'' ''Implement it'')\<lparr>tk_contract_refs := Some
       \<lparr>cr_implements = Some [''AC1''], cr_verifies = None, cr_respects = None,
        cr_not_applicable_reason = None\<rparr>\<rparr>]\<rparr>"

definition ex_done_unproved :: task where
  "ex_done_unproved = (hd (cs_tasks ex_unverified))\<lparr>tk_status := TDone\<rparr>"

theorem unverified_work_passes_release:
  "map tk_status (cs_tasks ex_unverified) = [TPending] \<and>
   map ci_id (criticalItems (the (cs_contract ex_unverified))) = [''AC1''] \<and>
   matrixRows (the (cs_contract ex_unverified)) = [] \<and>
   re_ready (evaluateGateReadiness ex_unverified Release noOptions) \<and>
   \<not> re_ready (evaluateGateReadiness (ex_unverified\<lparr>cs_tasks := []\<rparr>) Release noOptions) \<and>
   isProofBearingEvidencePolicy (es_policy (resolveTaskEvidence ex_done_unproved)) \<and>
   cs_reports (ex_unverified\<lparr>cs_tasks := [ex_done_unproved]\<rparr>) = [] \<and>
   cs_testRuns (ex_unverified\<lparr>cs_tasks := [ex_done_unproved]\<rparr>) = [] \<and>
   re_ready (evaluateGateReadiness (ex_unverified\<lparr>cs_tasks := [ex_done_unproved]\<rparr>) Release noOptions)"
proof (intro conjI)
qed (code_simp)+

subsection \<open>Artifact and verification evidence\<close>

lemma substantive_iff: "substantive c \<longleftrightarrow> (\<exists>s. c = Some s \<and> 0 < countNonWhitespace s)"
  by (cases c) (auto simp: substantive_def trim_Nil_iff countNonWhitespace_def filter_empty_conv)

text \<open>
  The artifact evidence of a gate is ready exactly when the document holds at least 20
  characters that are not white space; the evidence then carries that count, and otherwise the
  single blocker says whether the document is missing (blank) or too short.  The advisory size
  criterion of proposal and design agrees with it, and so does the executive summary of the
  acceptance proof.
\<close>

theorem artifact_evidence_needs_20_chars:
  "let r = stateBackedArtifactEvidence st g kind now;
       n = (case cs_documents st (documentOf kind) of Some s \<Rightarrow> countNonWhitespace s | None \<Rightarrow> 0)
   in re_ready r = (20 \<le> n) \<and>
      map rb_code (re_blockers r) = (if 20 \<le> n then [] else if n = 0 then [''ARTIFACT_MISSING''] else [''ARTIFACT_UNDERSIZED'']) \<and>
      Option.bind (re_evidence r) ae_non_whitespace_chars = (if 20 \<le> n then Some n else None) \<and>
      (fst (minSizeVerdict st (documentOf kind) name) = CritPass) = re_ready r \<and>
      re_ready (stateBackedAcceptanceProof st now) = (fst (executiveSummaryVerdict st) = CritPass)"
proof (cases "cs_documents st (documentOf kind)")
  case None
  then show ?thesis
    by (auto simp: stateBackedArtifactEvidence_def stateBackedAcceptanceProof_def executiveSummaryVerdict_def
        substantive_iff notReady_def makeBlocker_def minSizeVerdict_def sizeVerdict_def Let_def minGateArtifactChars_def)
next
  case (Some s)
  then show ?thesis
    by (auto simp: stateBackedArtifactEvidence_def stateBackedAcceptanceProof_def executiveSummaryVerdict_def
        substantive_iff notReady_def makeBlocker_def minSizeVerdict_def sizeVerdict_def Let_def minGateArtifactChars_def
        artifactEvidence_def)
qed

text \<open>The exit code of the last record of a run.\<close>

definition lastExit :: "durable_run list \<Rightarrow> string \<Rightarrow> int option option" where
  "lastExit rs i = map_option dn_exitCode (List.find (\<lambda>r. dn_runId r = Some i) (rev rs))"

lemma latestDurable_lastExit:
  "i \<noteq> [] \<Longrightarrow> map_get (latestDurableByRunId rs) i = lastExit rs i"
proof (induction rs rule: rev_induct)
  case Nil
  then show ?case by (simp add: latestDurableByRunId_def lastExit_def)
next
  case (snoc r rs)
  have "latestDurableByRunId (rs @ [r]) = (if truthy (dn_runId r)
      then map_set (the (dn_runId r)) (dn_exitCode r) (latestDurableByRunId rs) else latestDurableByRunId rs)"
    by (simp add: latestDurableByRunId_def)
  with snoc show ?case by (cases "dn_runId r") (auto simp: lastExit_def update_conv')
qed

text \<open>
  A typed verification entry raises no warning exactly when it names no run, or the last
  durable record of its run gives the exit code it reports, or gives none: a later record of the
  same run replaces an earlier one, so reported success cannot rest on a superseded record.
\<close>

theorem verification_entry_needs_last_record:
  "(resolveTypedVerificationWarnings [e] (Some rs) = [] \<longleftrightarrow>
     (case entryRunId e of
        None \<Rightarrow> True
      | Some i \<Rightarrow> lastExit rs i = Some (Some (ve_exit_code e)) \<or> lastExit rs i = Some None)) \<and>
   resolveTypedVerificationWarnings (es @ fs) recs =
     resolveTypedVerificationWarnings es recs @ resolveTypedVerificationWarnings fs recs"
proof
  have i: "entryRunId e = Some i \<Longrightarrow> i \<noteq> []" for i
    by (auto simp: entryRunId_def nonEmpty_def split: if_splits elim: truthy.elims)
  show "(resolveTypedVerificationWarnings [e] (Some rs) = [] \<longleftrightarrow>
     (case entryRunId e of
        None \<Rightarrow> True
      | Some i \<Rightarrow> lastExit rs i = Some (Some (ve_exit_code e)) \<or> lastExit rs i = Some None))"
    using i by (auto simp: resolveTypedVerificationWarnings_def entryWarnings_def latestDurable_lastExit
        split: option.splits)
  show "resolveTypedVerificationWarnings (es @ fs) recs =
     resolveTypedVerificationWarnings es recs @ resolveTypedVerificationWarnings fs recs"
    by (simp add: resolveTypedVerificationWarnings_def)
qed

end
