(* ===== verification/Ops_Types.thy ===== *)
theory Ops_Types
  imports Change_Model
begin

text \<open>
  The records of operations follow-ups (\<^verbatim>\<open>plugin/src/types/changes.ts\<close>): where a follow-up comes from, the
  evidence and the runbook runs it collects, and the profile its change owns.  The links that point
  to it are part of \<open>Change_Model\<close>.
\<close>

subsection \<open>Provenance\<close>

datatype ops_kind =
    OpsMigration | OpsBackfill | OpsDeployConfig | OpsMonitoring | OpsCleanup | OpsTeardown | OpsOther

datatype ops_source_kind = FromRequiredFollowUp | FromReportFollowUp | FromAgenda | FromManual

record ops_followup_source =
  of_change_id :: string
  of_project_id :: "string option"
  of_path :: "string option"
  of_artifact :: "string option"
  of_contract_id :: "string option"
  of_task_id :: "string option"
  of_report_key :: "string option"
  of_agenda_id :: "string option"
  of_kind :: ops_source_kind

subsection \<open>Evidence\<close>

datatype ops_entry_status =
    EntryStarted | EntryPartial | EntryPass | EntryFail | EntryRerunNeeded | EntryRollbackNeeded
  | EntryCleanupNeeded | EntryComplete

record ops_evidence_entry =
  oe_id :: string
  oe_recorded_at :: string
  oe_env :: string
  oe_action :: string
  oe_batch :: "string option"
  oe_status :: ops_entry_status
  oe_summary :: string
  oe_next_step :: "string option"
  oe_completion_signal :: "string option"

subsection \<open>Runs\<close>

datatype ops_run_status =
    RunNotStarted | RunPlanned | RunApprovalRequired | RunApproved | RunRunning | RunPartial | RunFailed
  | RunRerunNeeded | RunRollbackNeeded | RunCleanupNeeded | RunComplete

datatype step_kind = StepPlan | StepApproval | StepExecute | StepHealthCheck | StepRollback | StepCleanup

datatype step_status = StepPending | StepRunning | StepPass | StepFail | StepSkipped

datatype approval_policy =
    ApprovalRequired "string option"
  | BoundedLowRisk string "string list"
  | NotProdImpacting "string option"

datatype artifact_ref =
    RefPointer string "string option"
  | RefNone string

record ops_run_plan =
  opn_env :: string
  opn_action :: string
  opn_bounds :: "string list"
  opn_evidence_policy :: string
  opn_rollback_plan :: string

record ops_run_step =
  ost_id :: string
  ost_title :: string
  ost_kind :: step_kind
  ost_status :: step_status
  ost_approval_policy :: "approval_policy option"

record ops_run_evidence =
  ore_id :: string
  ore_recorded_at :: string
  ore_step_id :: "string option"
  ore_step_kind :: step_kind
  ore_env :: string
  ore_run_id :: "string option"
  ore_batch :: "string option"
  ore_status :: ops_entry_status
  ore_summary :: string
  ore_artifact :: artifact_ref
  ore_next_status :: ops_run_status
  ore_completion_signal :: "string option"
  ore_health_verification :: "string option"
  ore_rollback_disposition :: "string option"

record ops_run =
  orn_id :: string
  orn_title :: string
  orn_status :: ops_run_status
  orn_created_at :: string
  orn_updated_at :: "string option"
  orn_plan :: ops_run_plan
  orn_steps :: "ops_run_step list"
  orn_evidence :: "ops_run_evidence list"

subsection \<open>The profile\<close>

record ops_profile =
  op_kind :: ops_kind
  op_source :: ops_followup_source
  op_relationship :: ops_relationship
  op_status :: ops_status
  op_created_at :: string
  op_updated_at :: "string option"
  op_completion_signal :: "string option"
  op_evidence :: "ops_evidence_entry list"
  op_runs :: "ops_run list"

end
