(* ===== verification/Projection_Commit.thy ===== *)
theory Projection_Commit
  imports Ops_Types Spec_Delta
begin

text \<open>
  The conditional change-projection transaction (\<^verbatim>\<open>plugin/src/storage/change-projection-transaction.ts\<close>),
  with the loader it reads through (\<^verbatim>\<open>storage/change-projection-reader.ts\<close>), the lock budget
  (\<^verbatim>\<open>utils/tool-budgets.ts\<close>) and the reserved identifiers (\<^verbatim>\<open>utils/synthetic-fixture-detector.ts\<close>).
  The stored file is a value; a commit maps it to an outcome and the file it leaves.  What the file
  system does (the lock, the write, what the written text loads as) is an argument.
\<close>

subsection \<open>Reserved identifiers\<close>

text \<open>\<open>afterPrefix p s\<close> is the rest of \<open>s\<close> when it starts with \<open>p\<close>.\<close>

definition afterPrefix :: "string \<Rightarrow> string \<Rightarrow> string option" where
  "afterPrefix p s = (if startsWith s p then Some (drop (length p) s) else None)"

definition allDigits :: "string option \<Rightarrow> bool" where
  "allDigits r = (case r of Some s \<Rightarrow> (\<forall>c \<in> set s. isDigit c) | None \<Rightarrow> False)"

definition parityMarker :: "string \<Rightarrow> bool" where
  "parityMarker s =
     (case afterPrefix ''[parity:'' s of
        None \<Rightarrow> False
      | Some r \<Rightarrow>
          (let label = takeWhile (\<lambda>c. isWordChar c \<or> c = CHR ''-'') r;
               rest = drop (length label) r
           in label \<noteq> [] \<and> length rest \<ge> 2 \<and> hd rest = CHR '']'' \<and> isWs (rest ! 1)))"

definition parityWord :: "string \<Rightarrow> bool" where
  "parityWord s \<longleftrightarrow> (\<exists>p \<in> set [''paritylegacy'', ''parityvalidation'', ''paritysynthetic''].
     case afterPrefix p s of Some r \<Rightarrow> (\<forall>c \<in> set r. isWordChar c) | None \<Rightarrow> False)"

text \<open>Two words separated by white space, at least one character of it when \<open>needed\<close>.\<close>

definition spacedWords :: "string \<Rightarrow> bool \<Rightarrow> string \<Rightarrow> string \<Rightarrow> bool" where
  "spacedWords a needed b s =
     (case afterPrefix a s of
        None \<Rightarrow> False
      | Some r \<Rightarrow> (\<not> needed \<or> (r \<noteq> [] \<and> isWs (hd r))) \<and> allDigits (afterPrefix b (dropWhile isWs r)))"

definition isSyntheticValidationDraftPattern :: "string \<Rightarrow> bool" where
  "isSyntheticValidationDraftPattern input =
     (let s = lowerStr (trim input)
      in s \<noteq> [] \<and>
         (parityMarker s \<or> parityWord s
          \<or> spacedWords ''change'' True ''roundtrip'' s
          \<or> spacedWords ''task'' True ''parity'' s \<or> spacedWords ''gate'' True ''parity'' s
          \<or> spacedWords ''wisdom'' True ''parity'' s \<or> spacedWords ''reentry'' True ''parity'' s
          \<or> spacedWords ''latency'' False ''legacy'' s
          \<or> (\<exists>p \<in> set [''changeroundtrip'', ''taskparity'', ''gateparity'', ''wisdomparity'',
                ''reentryparity'', ''latencylegacy'', ''cleanupparityharnessleak'',
                ''userintuitcomparisonprotocol'']. allDigits (afterPrefix p s))))"

subsection \<open>Lock budget\<close>

definition defaultToolTimeoutMs :: int where "defaultToolTimeoutMs = 10000"

definition toolResponseHeadroomMs :: int where "toolResponseHeadroomMs = 199"

definition lockAcquisitionDeadlineBudgetMs :: int where
  "lockAcquisitionDeadlineBudgetMs = defaultToolTimeoutMs - toolResponseHeadroomMs"

definition defaultLockBudgetMs :: int where "defaultLockBudgetMs = 15000"

definition deriveLockBudgetMs :: "int option \<Rightarrow> int option \<Rightarrow> int" where
  "deriveLockBudgetMs requestedMs remainingOuterBudgetMs =
     (let requested = (case requestedMs of Some r \<Rightarrow> r | None \<Rightarrow> defaultLockBudgetMs)
      in case remainingOuterBudgetMs of
           None \<Rightarrow> max 0 requested
         | Some remaining \<Rightarrow>
             (let ceiling = min lockAcquisitionDeadlineBudgetMs (remaining - toolResponseHeadroomMs)
              in max 0 (min requested ceiling)))"

subsection \<open>The stored change\<close>

datatype authority_kind = AkMutation | AkRecovery | AkTemporal

record audit_entry =
  au_mutation_kind :: string
  au_authority_kind :: authority_kind
  au_authority_reason :: string
  au_authority_evidence :: string
  au_operation_id :: "string option"
  au_payload_hash :: "string option"
  au_state_revision :: "nat option"
  au_prior_revision :: nat
  au_new_revision :: nat
  au_committed_at :: string
  au_payload :: "json option"

record reentry_entry =
  re_from_gate :: gate_id
  re_reason :: string
  re_scope_delta :: "string option"
  re_reopened_by :: string
  re_approval_evidence :: "string option"
  re_reopened_at :: string
  re_gates_reset :: "gate_id list"

text \<open>
  The fields the transaction and the modelled mutations read or write; the remaining fields travel
  together as \<open>cd_rest\<close>.
\<close>

record change_doc =
  cd_id :: string
  cd_title :: string
  cd_status :: change_status
  cd_tasks :: "task list option"
  cd_deltas :: "(string \<times> delta list) list option"
  cd_gates :: "gates option"
  cd_documents :: "(string \<times> string) list option"
  cd_contract :: "contract option"
  cd_acceptanceCriteria :: "string list option"
  cd_design_dispositions :: "disposition list option"
  cd_verification_dispositions :: "disposition list option"
  cd_reentry_history :: "reentry_entry list option"
  cd_ops_links :: "ops_link list option"
  cd_ops_followup :: "ops_profile option"
  cd_projection_revision :: "nat option"
  cd_projection_commits :: "audit_entry list option"
  cd_state_revision :: "nat option"
  cd_rest :: json

text \<open>What is on disk, and what \<^verbatim>\<open>loadChange\<close> makes of it.  Text that parses as JSON but not as a
  change is kept as the JSON value and the message of the schema error.\<close>

datatype projection_file =
    Absent
  | Oversized
  | Unreadable string
  | Corrupt string
  | Invalid json string
  | Valid change_doc

datatype load_failure = FailOversized | FailCorrupt | FailUnreadable | FailSchema

fun loadChange :: "projection_file \<Rightarrow> (load_failure \<times> string) + change_doc option" where
  "loadChange Absent = Inr None"
| "loadChange Oversized = Inl (FailOversized, ''exceeds byte limit'')"
| "loadChange (Unreadable e) = Inl (FailUnreadable, e)"
| "loadChange (Corrupt e) = Inl (FailCorrupt, e)"
| "loadChange (Invalid raw e) = Inl (FailSchema, e)"
| "loadChange (Valid d) = Inr (Some d)"

subsection \<open>Collections that must not collapse\<close>

datatype protected_field = PfTasks | PfDeltas | PfGates | PfDocuments

definition protectedCollectionFields :: "protected_field list" where
  "protectedCollectionFields = [PfTasks, PfDeltas, PfGates, PfDocuments]"

fun protectedFieldName :: "protected_field \<Rightarrow> string" where
  "protectedFieldName PfTasks = ''tasks''"
| "protectedFieldName PfDeltas = ''deltas''"
| "protectedFieldName PfGates = ''gates''"
| "protectedFieldName PfDocuments = ''documents''"

text \<open>A gate map has a key for every gate.\<close>

fun collectionSize :: "protected_field \<Rightarrow> change_doc \<Rightarrow> nat option" where
  "collectionSize PfTasks d = map_option length (cd_tasks d)"
| "collectionSize PfDeltas d = map_option length (cd_deltas d)"
| "collectionSize PfGates d = map_option (\<lambda>_. length gateOrder) (cd_gates d)"
| "collectionSize PfDocuments d = map_option length (cd_documents d)"

definition populated :: "protected_field \<Rightarrow> change_doc \<Rightarrow> bool" where
  "populated f d \<longleftrightarrow> (case collectionSize f d of Some n \<Rightarrow> n \<noteq> 0 | None \<Rightarrow> False)"

definition findCollectionWipe ::
  "change_doc \<Rightarrow> change_doc \<Rightarrow> protected_field list \<Rightarrow> (protected_field \<times> nat) option" where
  "findCollectionWipe latest candidate allowEmptied =
     map_option (\<lambda>f. (f, the (collectionSize f latest)))
       (List.find (\<lambda>f. f \<notin> set allowEmptied \<and> populated f latest \<and> \<not> populated f candidate)
         protectedCollectionFields)"

subsection \<open>The transaction\<close>

datatype verify_result = VerifyBool bool | VerifyReport bool "string option"

record commit_options =
  co_changeId :: string
  co_expectedRevision :: "nat option"
  co_operationId :: "string option"
  co_payloadHash :: "string option"
  co_stateRevision :: "nat option"
  co_authority_kind :: authority_kind
  co_reason :: string
  co_evidence :: string
  co_mutationKind :: string
  co_mutateLatest :: "change_doc \<Rightarrow> string + change_doc"
  co_normalize :: "(json \<Rightarrow> string + change_doc) option"
  co_verify :: "change_doc \<Rightarrow> change_doc \<Rightarrow> nat \<Rightarrow> nat \<Rightarrow> verify_result"
  co_allowEmptied :: "protected_field list"
  co_afterCommit :: "(change_doc \<Rightarrow> string option) option"
  co_lockTimeoutMs :: "int option"
  co_payload :: "json option"

text \<open>
  What the file system does during one commit: whether the lock is granted, how the write fails if
  it does, and what the written document loads as.  \<open>ce_remainingMs\<close> is the ambient tool budget.
\<close>

record commit_env =
  ce_lockGranted :: bool
  ce_writeError :: "string option"
  ce_stored :: "change_doc \<Rightarrow> projection_file"
  ce_now :: string
  ce_remainingMs :: "int option"

datatype commit_outcome =
    Committed change_doc nat change_doc audit_entry bool
  | CommittedUnverified change_doc nat change_doc audit_entry string
  | StaleRevision nat nat
  | StateRegression nat nat
  | StateRevisionConflict nat
  | OperationConflict string string string
  | LockTimeout int
  | SchemaError string
  | WriteError string
  | OperatorRequired string

definition maxAuditEntries :: nat where
  "maxAuditEntries = 50"

text \<open>\<^verbatim>\<open>slice(-n)\<close>.\<close>

definition lastN :: "nat \<Rightarrow> 'a list \<Rightarrow> 'a list" where
  "lastN n xs = drop (length xs - n) xs"

definition commitsOf :: "change_doc \<Rightarrow> audit_entry list" where
  "commitsOf d = (case cd_projection_commits d of Some es \<Rightarrow> es | None \<Rightarrow> [])"

definition revisionOf :: "change_doc \<Rightarrow> nat" where
  "revisionOf d = (case cd_projection_revision d of Some n \<Rightarrow> n | None \<Rightarrow> 0)"

definition stateRevisionOf :: "change_doc \<Rightarrow> nat" where
  "stateRevisionOf d = (case cd_state_revision d of Some n \<Rightarrow> n | None \<Rightarrow> 0)"

text \<open>Step 1: the latest document, read inside the lock.\<close>

definition readLatest :: "commit_options \<Rightarrow> projection_file \<Rightarrow> commit_outcome + change_doc" where
  "readLatest opts file =
     (case loadChange file of
        Inr (Some d) \<Rightarrow> Inr d
      | Inr None \<Rightarrow> Inl (OperatorRequired ''change not found'')
      | Inl (failure, err) \<Rightarrow>
          (case (failure, co_normalize opts, file) of
             (FailSchema, Some repair, Invalid raw _) \<Rightarrow>
               (case repair raw of Inr d \<Rightarrow> Inr d | Inl e \<Rightarrow> Inl (SchemaError e))
           | (FailSchema, _, _) \<Rightarrow> Inl (SchemaError err)
           | _ \<Rightarrow> Inl (OperatorRequired err)))"

text \<open>Step 3: a repeated operation identity is answered from the audit trail.\<close>

definition replayCheck :: "commit_options \<Rightarrow> change_doc \<Rightarrow> commit_outcome option" where
  "replayCheck opts latest =
     (if \<not> truthy (co_operationId opts) then None
      else (case List.find (\<lambda>e. au_operation_id e = co_operationId opts) (commitsOf latest) of
          None \<Rightarrow> None
        | Some e \<Rightarrow>
            Some (if co_payloadHash opts = au_payload_hash e \<and> co_stateRevision opts = au_state_revision e
                  then Committed latest (au_new_revision e) latest e True
                  else OperationConflict (the (co_operationId opts))
                    (case au_payload_hash e of Some h \<Rightarrow> h | None \<Rightarrow> [])
                    (case co_payloadHash opts of Some h \<Rightarrow> h | None \<Rightarrow> []))))"

text \<open>Steps 4 and 5: the revision fences.\<close>

definition revisionFence :: "commit_options \<Rightarrow> change_doc \<Rightarrow> commit_outcome option" where
  "revisionFence opts latest =
     (case co_expectedRevision opts of
        Some expected \<Rightarrow>
          if revisionOf latest \<noteq> expected then Some (StaleRevision expected (revisionOf latest)) else None
      | None \<Rightarrow> None)"

definition stateFence :: "commit_options \<Rightarrow> change_doc \<Rightarrow> commit_outcome option" where
  "stateFence opts latest =
     (case co_stateRevision opts of
        None \<Rightarrow> None
      | Some r \<Rightarrow>
          if r < stateRevisionOf latest then Some (StateRegression (stateRevisionOf latest) r)
          else if r = stateRevisionOf latest \<and> truthy (co_operationId opts) then
            (case List.find (\<lambda>e. au_state_revision e = Some r) (commitsOf latest) of
               None \<Rightarrow> None
             | Some e \<Rightarrow>
                 if au_operation_id e \<noteq> co_operationId opts
                    \<or> (co_payloadHash opts \<noteq> None \<and> au_payload_hash e \<noteq> co_payloadHash opts)
                 then Some (StateRevisionConflict r) else None)
          else None)"

definition auditFor :: "commit_options \<Rightarrow> string \<Rightarrow> change_doc \<Rightarrow> audit_entry" where
  "auditFor opts now latest =
     \<lparr>au_mutation_kind = co_mutationKind opts, au_authority_kind = co_authority_kind opts,
      au_authority_reason = co_reason opts, au_authority_evidence = co_evidence opts,
      au_operation_id = co_operationId opts, au_payload_hash = co_payloadHash opts,
      au_state_revision = co_stateRevision opts, au_prior_revision = revisionOf latest,
      au_new_revision = revisionOf latest + 1, au_committed_at = now, au_payload = co_payload opts\<rparr>"

definition stamped :: "commit_options \<Rightarrow> string \<Rightarrow> change_doc \<Rightarrow> change_doc \<Rightarrow> change_doc" where
  "stamped opts now latest candidate =
     candidate\<lparr>cd_projection_revision := Some (revisionOf latest + 1),
       cd_projection_commits := Some (lastN maxAuditEntries (commitsOf candidate @ [auditFor opts now latest])),
       cd_state_revision := (case co_stateRevision opts of Some r \<Rightarrow> Some r | None \<Rightarrow> cd_state_revision latest)\<rparr>"

text \<open>Steps 6 and 7: the value to write.\<close>

definition prepareCommit :: "commit_options \<Rightarrow> string \<Rightarrow> change_doc \<Rightarrow> commit_outcome + change_doc" where
  "prepareCommit opts now latest =
     (case replayCheck opts latest of Some r \<Rightarrow> Inl r | None \<Rightarrow>
       (case revisionFence opts latest of Some r \<Rightarrow> Inl r | None \<Rightarrow>
         (case stateFence opts latest of Some r \<Rightarrow> Inl r | None \<Rightarrow>
           (case co_mutateLatest opts latest of
              Inl e \<Rightarrow> Inl (OperatorRequired (''Mutation failed: '' @ e))
            | Inr candidate \<Rightarrow>
                (case findCollectionWipe latest candidate (co_allowEmptied opts) of
                   Some (f, n) \<Rightarrow> Inl (OperatorRequired (''Refusing to commit '' @ co_mutationKind opts
                     @ '': it would empty '' @ protectedFieldName f))
                 | None \<Rightarrow>
                     (if isSyntheticValidationDraftPattern (cd_id candidate)
                      then Inl (OperatorRequired ''Refusing to write a synthetic draft'')
                      else Inr (stamped opts now latest candidate)))))))"

text \<open>Steps 9 to 11: what the read-back proves.\<close>

definition lastAudit :: "change_doc \<Rightarrow> audit_entry option" where
  "lastAudit d = (if commitsOf d = [] then None else Some (last (commitsOf d)))"

definition identityProved :: "commit_options \<Rightarrow> change_doc \<Rightarrow> bool" where
  "identityProved opts readback \<longleftrightarrow>
     (truthy (co_operationId opts) \<longrightarrow>
        Option.bind (lastAudit readback) au_operation_id = co_operationId opts \<and>
        (co_payloadHash opts = None \<or> Option.bind (lastAudit readback) au_payload_hash = co_payloadHash opts) \<and>
        (co_stateRevision opts = None \<or> Option.bind (lastAudit readback) au_state_revision = co_stateRevision opts))"

definition defaultVerifyError :: string where
  "defaultVerifyError = ''Mutation-specific postcondition failed.''"

fun verifyError :: "verify_result \<Rightarrow> string option" where
  "verifyError (VerifyBool True) = None"
| "verifyError (VerifyBool False) = Some defaultVerifyError"
| "verifyError (VerifyReport True e) = None"
| "verifyError (VerifyReport False e) = Some (case e of Some x \<Rightarrow> x | None \<Rightarrow> defaultVerifyError)"

definition verifyReadback ::
  "commit_options \<Rightarrow> change_doc \<Rightarrow> change_doc \<Rightarrow> change_doc \<Rightarrow> audit_entry \<Rightarrow> commit_outcome" where
  "verifyReadback opts latest value readback audit =
     (let new = revisionOf latest + 1;
          unverified = CommittedUnverified value new readback audit
      in if revisionOf readback \<noteq> new then unverified ''Readback revision does not match''
         else if \<not> identityProved opts readback then unverified ''Readback audit entry does not prove operation identity''
         else if co_stateRevision opts \<noteq> None \<and> Some (stateRevisionOf readback) \<noteq> co_stateRevision opts
         then unverified ''Readback state_revision does not match''
         else (case verifyError (co_verify opts latest readback (revisionOf latest) new) of
             Some e \<Rightarrow> unverified e
           | None \<Rightarrow>
               (case Option.bind (co_afterCommit opts) (\<lambda>f. f readback) of
                  Some e \<Rightarrow> unverified e
                | None \<Rightarrow> Committed value new readback audit False)))"

definition readBackOutcome ::
  "commit_options \<Rightarrow> change_doc \<Rightarrow> change_doc \<Rightarrow> audit_entry \<Rightarrow> projection_file \<Rightarrow> commit_outcome" where
  "readBackOutcome opts latest value audit file =
     (case loadChange file of
        Inl (FailSchema, e) \<Rightarrow> SchemaError e
      | Inl (_, e) \<Rightarrow> OperatorRequired (''Readback failed after commit: '' @ e)
      | Inr None \<Rightarrow> OperatorRequired ''Readback returned no data after commit''
      | Inr (Some readback) \<Rightarrow> verifyReadback opts latest value readback audit)"

definition commitChangeProjection ::
  "commit_options \<Rightarrow> commit_env \<Rightarrow> projection_file \<Rightarrow> commit_outcome \<times> projection_file" where
  "commitChangeProjection opts env file =
     (if isSyntheticValidationDraftPattern (co_changeId opts) then
        (OperatorRequired ''Refusing to commit projection for synthetic draft'', file)
      else if file = Absent then (OperatorRequired ''change not found'', file)
      else if \<not> ce_lockGranted env then
        (LockTimeout (deriveLockBudgetMs (co_lockTimeoutMs opts) (ce_remainingMs env)), file)
      else (case readLatest opts file of
          Inl r \<Rightarrow> (r, file)
        | Inr latest \<Rightarrow>
            (case prepareCommit opts (ce_now env) latest of
               Inl r \<Rightarrow> (r, file)
             | Inr value \<Rightarrow>
                 (case ce_writeError env of
                    Some e \<Rightarrow> (WriteError e, file)
                  | None \<Rightarrow>
                      (readBackOutcome opts latest value (auditFor opts (ce_now env) latest) (ce_stored env value),
                       ce_stored env value)))))"

subsection \<open>What a commit writes\<close>

text \<open>The file system stores what is written: the schema accepts the document and reads it back.\<close>

definition faithful :: "commit_env \<Rightarrow> bool" where
  "faithful env \<longleftrightarrow> ce_stored env = Valid"

text \<open>A document without the bookkeeping of the transaction.\<close>

definition payloadOf :: "change_doc \<Rightarrow> change_doc" where
  "payloadOf d = d\<lparr>cd_projection_revision := None, cd_projection_commits := None, cd_state_revision := None\<rparr>"

lemma findCollectionWipe_None:
  "findCollectionWipe latest candidate allowed = None \<longleftrightarrow>
     (\<forall>f. f \<in> set allowed \<or> (populated f latest \<longrightarrow> populated f candidate))"
proof -
  have "f \<in> set protectedCollectionFields" for f
    by (cases f) (simp_all add: protectedCollectionFields_def)
  then show ?thesis by (auto simp: findCollectionWipe_def find_None_iff)
qed

lemma prepareCommit_Inr:
  "prepareCommit opts now latest = Inr value \<longleftrightarrow>
     replayCheck opts latest = None \<and> revisionFence opts latest = None \<and> stateFence opts latest = None \<and>
     (\<exists>candidate. co_mutateLatest opts latest = Inr candidate \<and>
        findCollectionWipe latest candidate (co_allowEmptied opts) = None \<and>
        \<not> isSyntheticValidationDraftPattern (cd_id candidate) \<and> value = stamped opts now latest candidate)"
  by (auto simp: prepareCommit_def split: option.splits sum.splits)

lemma stamped_fields [simp]:
  "revisionOf (stamped opts now latest c) = revisionOf latest + 1"
  "commitsOf (stamped opts now latest c) = lastN maxAuditEntries (commitsOf c @ [auditFor opts now latest])"
  "payloadOf (stamped opts now latest c) = payloadOf c"
  "cd_id (stamped opts now latest c) = cd_id c"
  by (simp_all add: stamped_def revisionOf_def commitsOf_def payloadOf_def)

lemma populated_stamped [simp]: "populated f (stamped opts now latest c) = populated f c"
  by (cases f) (simp_all add: populated_def stamped_def)

text \<open>The outcomes that report a written document.\<close>

fun writtenValue :: "commit_outcome \<Rightarrow> change_doc option" where
  "writtenValue (Committed v _ _ _ False) = Some v"
| "writtenValue (CommittedUnverified v _ _ _ _) = Some v"
| "writtenValue _ = None"

lemma verifyReadback_written [simp]:
  "writtenValue (verifyReadback opts latest value readback audit) = Some value"
  by (simp add: verifyReadback_def Let_def split: option.splits)

lemma replayCheck_cases:
  "replayCheck opts latest = Some r \<Longrightarrow> writtenValue r = None"
  by (auto simp: replayCheck_def split: if_splits option.splits)

lemma prepareCommit_Inl: "prepareCommit opts now latest = Inl r \<Longrightarrow> writtenValue r = None"
  by (auto simp: prepareCommit_def revisionFence_def stateFence_def
      split: option.splits sum.splits if_splits prod.splits dest: replayCheck_cases)

lemma readLatest_Inl: "readLatest opts file = Inl r \<Longrightarrow> writtenValue r = None"
  by (cases "file") (auto simp: readLatest_def split: option.splits sum.splits)

lemma readLatest_Valid [simp]: "readLatest opts (Valid d) = Inr d"
  by (simp add: readLatest_def)

lemma commit_written_iff:
  assumes "faithful env"
  shows "writtenValue (fst (commitChangeProjection opts env file)) = Some v \<longleftrightarrow>
    \<not> isSyntheticValidationDraftPattern (co_changeId opts) \<and> file \<noteq> Absent \<and> ce_lockGranted env \<and>
    ce_writeError env = None \<and>
    (\<exists>latest. readLatest opts file = Inr latest \<and> prepareCommit opts (ce_now env) latest = Inr v)"
  using assms
  by (auto simp: commitChangeProjection_def faithful_def readBackOutcome_def
      split: sum.splits option.splits dest: prepareCommit_Inl readLatest_Inl)

lemma commit_file:
  assumes "faithful env"
  shows "snd (commitChangeProjection opts env file) =
    (case writtenValue (fst (commitChangeProjection opts env file)) of Some v \<Rightarrow> Valid v | None \<Rightarrow> file)"
  using assms
  by (auto simp: commitChangeProjection_def faithful_def readBackOutcome_def
      split: sum.splits option.splits dest: prepareCommit_Inl readLatest_Inl)

end
