(* ===== verification/Projection_Facts.thy ===== *)
theory Projection_Facts
  imports Projection_Commit
begin

text \<open>
  What the projection transaction guarantees: an all-or-nothing effect on the file, protection of
  populated collections, the audit trail, optimistic concurrency, and replay by operation identity
  for as long as the bounded trail remembers the operation.
\<close>

subsection \<open>Effect on the file\<close>


subsection \<open>The contract of a field-local mutation\<close>

text \<open>
  What the transaction asks of its callers: the mutation returns the latest document with some of
  its own fields changed, so it keeps the identifier and the bookkeeping.
\<close>

locale field_local_mutation =
  fixes mutate :: "change_doc \<Rightarrow> string + change_doc"
  assumes keeps_id: "mutate d = Inr d' \<Longrightarrow> cd_id d' = cd_id d"
    and keeps_commits: "mutate d = Inr d' \<Longrightarrow> cd_projection_commits d' = cd_projection_commits d"
begin

lemma commits_kept: "mutate d = Inr d' \<Longrightarrow> commitsOf d' = commitsOf d"
  using keeps_commits by (simp add: commitsOf_def)

lemma prepared_commits:
  assumes "co_mutateLatest opts = mutate" "prepareCommit opts now latest = Inr v"
  shows "commitsOf v = lastN maxAuditEntries (commitsOf latest @ [auditFor opts now latest])"
    and "revisionOf v = revisionOf latest + 1"
    and "cd_id v = cd_id latest"
  using assms commits_kept keeps_id by (auto simp: prepareCommit_Inr)

end

definition field_local :: "commit_options \<Rightarrow> bool" where
  "field_local opts \<longleftrightarrow> field_local_mutation (co_mutateLatest opts)"

lemma prepared_field_local:
  assumes "field_local opts" "prepareCommit opts now latest = Inr v"
  shows "commitsOf v = lastN maxAuditEntries (commitsOf latest @ [auditFor opts now latest])"
    and "revisionOf v = revisionOf latest + 1"
    and "cd_id v = cd_id latest"
  using assms field_local_mutation.prepared_commits [of "co_mutateLatest opts" opts now latest v]
  by (auto simp: field_local_def)

subsection \<open>The audit trail\<close>

text \<open>
  The trail covers the last revisions without a gap: its entries have consecutive new revisions up
  to the current one, each one above its prior revision, and there are at most fifty.
\<close>

definition trail_ok :: "change_doc \<Rightarrow> bool" where
  "trail_ok d \<longleftrightarrow>
     length (commitsOf d) \<le> maxAuditEntries \<and> length (commitsOf d) \<le> revisionOf d \<and>
     map au_new_revision (commitsOf d) = [Suc (revisionOf d - length (commitsOf d))..<Suc (revisionOf d)] \<and>
     (\<forall>e \<in> set (commitsOf d). au_new_revision e = Suc (au_prior_revision e))"

lemma length_lastN [simp]: "length (lastN n xs) = min n (length xs)"
  by (simp add: lastN_def)

lemma set_lastN: "set (lastN n xs) \<subseteq> set xs"
  by (auto simp: lastN_def dest: in_set_dropD)

lemma map_lastN: "map f (lastN n xs) = lastN n (map f xs)"
  by (simp add: lastN_def drop_map)

lemma lastN_upt: "lastN n [a..<b] = [max a (b - n)..<b]"
proof -
  have "a + (b - (a + n)) = max a (b - n)" by arith
  then show ?thesis by (simp add: lastN_def)
qed

lemma trail_ok_stamp:
  assumes "trail_ok latest" "commitsOf v = lastN maxAuditEntries (commitsOf latest @ [auditFor opts now latest])"
    and "revisionOf v = revisionOf latest + 1"
  shows "trail_ok v"
proof -
  let ?n = "length (commitsOf latest)" and ?r = "revisionOf latest"
  have "map au_new_revision (commitsOf latest @ [auditFor opts now latest]) = [Suc (?r - ?n)..<Suc (Suc ?r)]"
    using assms(1) by (simp add: trail_ok_def auditFor_def)
  then have m: "map au_new_revision (commitsOf v) = [max (Suc (?r - ?n)) (Suc (Suc ?r) - maxAuditEntries)..<Suc (Suc ?r)]"
    unfolding assms(2) map_lastN by (simp only: lastN_upt)
  have l: "length (commitsOf v) = min maxAuditEntries (Suc ?n)" by (simp add: assms(2))
  have n: "?n \<le> maxAuditEntries" "?n \<le> ?r" using assms(1) by (simp_all add: trail_ok_def)
  have "max (Suc (?r - ?n)) (Suc (Suc ?r) - maxAuditEntries) = Suc (Suc ?r - length (commitsOf v))"
    using n unfolding l by (auto simp: max_def min_def)
  moreover have "\<forall>e \<in> set (commitsOf v). au_new_revision e = Suc (au_prior_revision e)"
    using assms(1) set_lastN unfolding assms(2) by (fastforce simp: trail_ok_def auditFor_def)
  ultimately show ?thesis using m l n by (simp add: trail_ok_def assms(3))
qed

subsection \<open>Runs of commits\<close>

text \<open>
  A run: any number of commits whose options satisfy \<open>P\<close>, over a faithful file system, with the
  number of documents they wrote.
\<close>

inductive projection_run :: "(commit_options \<Rightarrow> bool) \<Rightarrow> nat \<Rightarrow> projection_file \<Rightarrow> projection_file \<Rightarrow> bool"
  for P where
  run_start: "projection_run P 0 f f"
| run_write: "projection_run P n f g \<Longrightarrow> P opts \<Longrightarrow> faithful env \<Longrightarrow>
    commitChangeProjection opts env g = (out, g') \<Longrightarrow> writtenValue out \<noteq> None \<Longrightarrow> projection_run P (Suc n) f g'"
| run_refused: "projection_run P n f g \<Longrightarrow> P opts \<Longrightarrow> faithful env \<Longrightarrow>
    commitChangeProjection opts env g = (out, g') \<Longrightarrow> writtenValue out = None \<Longrightarrow> projection_run P n f g'"

lemma written_step:
  assumes "faithful env" "commitChangeProjection opts env (Valid d) = (out, g')" "writtenValue out \<noteq> None"
  obtains v where "g' = Valid v" "prepareCommit opts (ce_now env) d = Inr v"
proof -
  from assms(3) obtain v where v: "writtenValue out = Some v" by auto
  then have "g' = Valid v" using assms commit_file [OF assms(1), of opts "Valid d"] by simp
  moreover have "prepareCommit opts (ce_now env) d = Inr v"
    using v assms commit_written_iff [OF assms(1), of opts "Valid d" v] by auto
  ultimately show ?thesis by (rule that)
qed

lemma refused_step:
  assumes "faithful env" "commitChangeProjection opts env g = (out, g')" "writtenValue out = None"
  shows "g' = g"
  using assms commit_file [OF assms(1), of opts g] by simp

text \<open>
  Claim C30. Over every run of commits that keep the bookkeeping, the document stays a valid one with
  its identifier, its revision counts exactly the documents written, and the audit trail stays
  gap-free and bounded.
\<close>

theorem run_keeps_trail:
  assumes "projection_run field_local n (Valid d) g" "trail_ok d"
  shows "\<exists>d'. g = Valid d' \<and> trail_ok d' \<and> revisionOf d' = revisionOf d + n \<and> cd_id d' = cd_id d"
  using assms(1)
proof (induction n "Valid d" g rule: projection_run.induct)
  case run_start
  then show ?case using assms(2) by simp
next
  case (run_write n g opts env out g')
  then obtain e where e: "g = Valid e" "trail_ok e" "revisionOf e = revisionOf d + n" "cd_id e = cd_id d" by blast
  obtain v where v: "g' = Valid v" "prepareCommit opts (ce_now env) e = Inr v"
    using written_step [of env opts e out g'] run_write e(1) by blast
  note p = prepared_field_local [OF run_write.hyps(3) v(2)]
  show ?case using v(1) e trail_ok_stamp [OF e(2) p(1,2)] p by auto
next
  case (run_refused n g opts env out g')
  then show ?case using refused_step by blast
qed

text \<open>The trail remembers an entry for as long as fewer than fifty later documents are written.\<close>

definition otherThan :: "string \<Rightarrow> commit_options \<Rightarrow> bool" where
  "otherThan i opts \<longleftrightarrow> field_local opts \<and> co_operationId opts \<noteq> Some i"

lemma trail_nth:
  assumes "trail_ok d" "i < length (commitsOf d)"
  shows "au_new_revision (commitsOf d ! i) = Suc (revisionOf d - length (commitsOf d)) + i"
    and "revisionOf d - length (commitsOf d) + i < revisionOf d"
proof -
  have l: "length (commitsOf d) \<le> revisionOf d" using assms(1) by (simp add: trail_ok_def)
  then show lt: "revisionOf d - length (commitsOf d) + i < revisionOf d" using assms(2) by simp
  have "au_new_revision (commitsOf d ! i) = map au_new_revision (commitsOf d) ! i" using assms(2) by simp
  also have "\<dots> = [Suc (revisionOf d - length (commitsOf d))..<Suc (revisionOf d)] ! i"
    using assms(1) by (simp only: trail_ok_def)
  also have "\<dots> = Suc (revisionOf d - length (commitsOf d)) + i"
    using lt by (intro nth_upt) simp
  finally show "au_new_revision (commitsOf d ! i) = Suc (revisionOf d - length (commitsOf d)) + i" .
qed

lemma trail_revisions:
  assumes "trail_ok d" "e \<in> set (commitsOf d)"
  shows "revisionOf d < au_new_revision e + maxAuditEntries" "au_new_revision e \<le> revisionOf d"
proof -
  obtain i where i: "i < length (commitsOf d)" "e = commitsOf d ! i"
    using assms(2) by (auto simp: in_set_conv_nth)
  have "length (commitsOf d) \<le> maxAuditEntries" using assms(1) by (simp add: trail_ok_def)
  moreover have "au_new_revision e = Suc (revisionOf d - length (commitsOf d)) + i"
    using trail_nth(1) [OF assms(1) i(1)] i(2) by simp
  ultimately show "revisionOf d < au_new_revision e + maxAuditEntries" "au_new_revision e \<le> revisionOf d"
    using trail_nth(2) [OF assms(1) i(1)] by simp_all
qed

lemma stays_in_trail:
  assumes t: "trail_ok latest" and e: "e \<in> set (commitsOf latest)"
    and cs: "commitsOf v = lastN maxAuditEntries (commitsOf latest @ [a])"
    and room: "Suc (revisionOf latest) < au_new_revision e + maxAuditEntries"
  shows "e \<in> set (commitsOf v)"
proof -
  let ?n = "length (commitsOf latest)" and ?k = "Suc (length (commitsOf latest)) - maxAuditEntries"
  obtain i where i: "i < ?n" "e = commitsOf latest ! i"
    using e by (auto simp: in_set_conv_nth)
  have "?n \<le> revisionOf latest" using t by (simp add: trail_ok_def)
  moreover have "au_new_revision e = Suc (revisionOf latest - ?n) + i"
    using trail_nth(1) [OF t i(1)] i(2) by simp
  ultimately have ki: "?k \<le> i" using room by simp
  then have "drop ?k (commitsOf latest) ! (i - ?k) = e" "i - ?k < length (drop ?k (commitsOf latest))"
    using i by simp_all
  then have "e \<in> set (drop ?k (commitsOf latest))" by (metis nth_mem)
  then show ?thesis by (simp add: cs lastN_def)
qed

definition onlyEntry :: "string \<Rightarrow> audit_entry \<Rightarrow> change_doc \<Rightarrow> bool" where
  "onlyEntry i e d \<longleftrightarrow> (\<forall>x \<in> set (commitsOf d). au_operation_id x = Some i \<longrightarrow> x = e)"

lemma run_remembers:
  assumes "projection_run (otherThan i) n (Valid v) g"
    and "trail_ok v" "e \<in> set (commitsOf v)" "au_new_revision e = revisionOf v" "onlyEntry i e v"
  shows "\<exists>d. g = Valid d \<and> trail_ok d \<and> revisionOf d = revisionOf v + n \<and> onlyEntry i e d \<and>
    (n < maxAuditEntries \<longrightarrow> e \<in> set (commitsOf d))"
  using assms(1)
proof (induction n "Valid v" g rule: projection_run.induct)
  case run_start
  then show ?case using assms by simp
next
  case (run_write n g opts env out g')
  then obtain d where d: "g = Valid d" "trail_ok d" "revisionOf d = revisionOf v + n" "onlyEntry i e d"
    "n < maxAuditEntries \<longrightarrow> e \<in> set (commitsOf d)" by blast
  obtain w where w: "g' = Valid w" "prepareCommit opts (ce_now env) d = Inr w"
    using written_step [of env opts d out g'] run_write d(1) by blast
  have fl: "field_local opts" and op: "co_operationId opts \<noteq> Some i"
    using run_write.hyps(3) by (simp_all add: otherThan_def)
  note p = prepared_field_local [OF fl w(2)]
  have "onlyEntry i e w"
    using d(4) op set_lastN unfolding onlyEntry_def p(1) by (fastforce simp: auditFor_def)
  moreover have "e \<in> set (commitsOf w)" if "Suc n < maxAuditEntries"
    using stays_in_trail [OF d(2) _ p(1)] that d(3,5) assms(4) by simp
  ultimately show ?case using w(1) trail_ok_stamp [OF d(2) p(1,2)] p(2) d(3) by auto
next
  case (run_refused n g opts env out g')
  then show ?case using refused_step by blast
qed

lemma replayCheck_remembered:
  assumes "e \<in> set (commitsOf d)" "onlyEntry i e d" "co_operationId opts = Some i" "i \<noteq> []"
    and "au_operation_id e = Some i" "au_payload_hash e = co_payloadHash opts" "au_state_revision e = co_stateRevision opts"
  shows "replayCheck opts d = Some (Committed d (au_new_revision e) d e True)"
proof -
  obtain x where x: "List.find (\<lambda>e. au_operation_id e = Some i) (commitsOf d) = Some x"
    using assms(1,5) by (cases "List.find (\<lambda>e. au_operation_id e = Some i) (commitsOf d)") (auto simp: find_None_iff)
  then have "x = e" using assms(2) by (auto simp: onlyEntry_def find_Some_iff)
  with x assms show ?thesis by (simp add: replayCheck_def)
qed

lemma replayCheck_forgotten:
  assumes "e \<notin> set (commitsOf d)" "onlyEntry i e d" "co_operationId opts = Some i"
  shows "replayCheck opts d = None"
  using assms by (auto simp: replayCheck_def onlyEntry_def find_None_iff split: option.splits dest!: find_Some_mem)

lemma first_commit:
  assumes "faithful env" "commitChangeProjection opts env (Valid d) = (out, g)" "writtenValue out = Some v"
    and "field_local opts" "trail_ok d" "co_operationId opts = Some i" "i \<noteq> []"
  defines "e \<equiv> auditFor opts (ce_now env) d"
  shows "g = Valid v" "trail_ok v" "e \<in> set (commitsOf v)" "au_new_revision e = revisionOf v" "onlyEntry i e v"
proof -
  obtain w where w: "g = Valid w" "prepareCommit opts (ce_now env) d = Inr w"
    using written_step [OF assms(1,2)] assms(3) by auto
  have "w = v" using commit_file [OF assms(1), of opts "Valid d"] assms(2,3) w(1) by simp
  with w show "g = Valid v" by simp
  note p = prepared_field_local [OF assms(4) w(2), unfolded \<open>w = v\<close>]
  show "trail_ok v" by (rule trail_ok_stamp [OF assms(5) p(1,2)])
  show "e \<in> set (commitsOf v)" by (simp add: p(1) e_def lastN_def maxAuditEntries_def)
  show "au_new_revision e = revisionOf v" by (simp add: p(2) e_def auditFor_def)
  have "replayCheck opts d = None" using w(2) by (simp add: prepareCommit_Inr)
  then have "\<forall>x \<in> set (commitsOf d). au_operation_id x \<noteq> Some i"
    using assms(6,7) by (auto simp: replayCheck_def find_None_iff split: option.splits)
  then show "onlyEntry i e v" using set_lastN unfolding onlyEntry_def p(1) e_def by fastforce
qed


subsection \<open>Races and waits\<close>

text \<open>
  Of two commits prepared against the same revision only one is written: once a commit
  has written the document, every other commit that expects the revision it found is refused as
  stale and leaves the file alone, unless its operation identity is already in the trail.
\<close>

theorem stale_writer_loses:
  assumes "faithful env" "commitChangeProjection opts env (Valid d) = (out, g)" "writtenValue out = Some v"
    and "co_expectedRevision late = Some (revisionOf d)" "replayCheck late v = None"
    and "\<not> isSyntheticValidationDraftPattern (co_changeId late)" "ce_lockGranted env'"
  shows "commitChangeProjection late env' g = (StaleRevision (revisionOf d) (revisionOf d + 1), g)"
proof -
  obtain w where w: "g = Valid w" "prepareCommit opts (ce_now env) d = Inr w"
    using written_step [OF assms(1,2)] assms(3) by auto
  have "w = v" using commit_file [OF assms(1), of opts "Valid d"] assms(2,3) w(1) by simp
  moreover from w(2) have "revisionOf w = revisionOf d + 1" by (auto simp: prepareCommit_Inr)
  ultimately show ?thesis
    using assms w(1) by (simp add: commitChangeProjection_def prepareCommit_def revisionFence_def)
qed

text \<open>
  The wait for the lock is never negative, never longer than what the caller asked for,
  and inside a tool call it ends at least 199 milliseconds before the call's own deadline whenever
  that much is left, so that a timeout can still be reported.
\<close>

theorem lock_wait_within_budget:
  "0 \<le> deriveLockBudgetMs req rem \<and>
   deriveLockBudgetMs (Some r) rem \<le> max 0 r \<and>
   deriveLockBudgetMs None rem \<le> 15000 \<and>
   deriveLockBudgetMs req (Some left) \<le> max 0 (min 9801 (left - 199)) \<and>
   (deriveLockBudgetMs req (Some left) + 199 \<le> left) = (199 \<le> left)"
  by (auto simp: deriveLockBudgetMs_def Let_def defaultLockBudgetMs_def lockAcquisitionDeadlineBudgetMs_def
      defaultToolTimeoutMs_def toolResponseHeadroomMs_def split: option.splits)

subsection \<open>Concrete commits\<close>

definition ex_doc :: change_doc where
  "ex_doc = \<lparr>cd_id = ''demo'', cd_title = ''Demo'', cd_status = Draft, cd_tasks = Some [], cd_deltas = Some [], cd_gates = Some createDefaultGates,
     cd_documents = None, cd_contract = None, cd_acceptanceCriteria = None, cd_design_dispositions = None, cd_verification_dispositions = None, cd_reentry_history = None, cd_ops_links = None, cd_ops_followup = None,
     cd_projection_revision = None, cd_projection_commits = None, cd_state_revision = None, cd_rest = JNull\<rparr>"

definition ex_commit :: "string option \<Rightarrow> nat option \<Rightarrow> commit_options" where
  "ex_commit i expected = \<lparr>co_changeId = ''demo'', co_expectedRevision = expected, co_operationId = i,
     co_payloadHash = Some ''h'', co_stateRevision = None, co_authority_kind = AkMutation, co_reason = ''r'',
     co_evidence = ''e'', co_mutationKind = ''edit'', co_mutateLatest = (\<lambda>d. Inr (d\<lparr>cd_status := Archived\<rparr>)),
     co_normalize = None, co_verify = (\<lambda>_ _ _ _. VerifyBool True), co_allowEmptied = [], co_afterCommit = None,
     co_lockTimeoutMs = None, co_payload = None\<rparr>"

definition ex_env :: commit_env where
  "ex_env = \<lparr>ce_lockGranted = True, ce_writeError = None, ce_stored = Valid, ce_now = ''t'', ce_remainingMs = None\<rparr>"

lemma ex_faithful: "faithful ex_env" "ce_lockGranted ex_env" "ce_writeError ex_env = None"
  by (simp_all add: faithful_def ex_env_def)

lemma ex_not_synthetic: "\<not> isSyntheticValidationDraftPattern ''demo''"
  by code_simp

lemma ex_field_local: "field_local (ex_commit i r)"
  unfolding field_local_def by unfold_locales (auto simp: ex_commit_def)

text \<open>A commit of the example on any document with its name writes, unless the fences refuse it.\<close>

lemma ex_commit_writes:
  assumes "cd_id d = ''demo''" "replayCheck (ex_commit i r) d = None" "revisionFence (ex_commit i r) d = None"
  shows "\<exists>out v. commitChangeProjection (ex_commit i r) ex_env (Valid d) = (out, Valid v) \<and>
    writtenValue out = Some v \<and> cd_id v = ''demo'' \<and>
    v = stamped (ex_commit i r) ''t'' d (d\<lparr>cd_status := Archived\<rparr>)"
proof -
  let ?v = "stamped (ex_commit i r) ''t'' d (d\<lparr>cd_status := Archived\<rparr>)"
  have "populated f (d\<lparr>cd_status := Archived\<rparr>) = populated f d" for f
    by (cases f) (simp_all add: populated_def)
  then have "findCollectionWipe d (d\<lparr>cd_status := Archived\<rparr>) [] = None"
    by (simp add: findCollectionWipe_None)
  then have "prepareCommit (ex_commit i r) ''t'' d = Inr ?v"
    using assms ex_not_synthetic by (simp add: prepareCommit_Inr stateFence_def ex_commit_def)
  then have "writtenValue (fst (commitChangeProjection (ex_commit i r) ex_env (Valid d))) = Some ?v"
    unfolding commit_written_iff [OF ex_faithful(1)]
    using ex_not_synthetic by (simp add: ex_env_def ex_commit_def)
  moreover have "snd (commitChangeProjection (ex_commit i r) ex_env (Valid d)) = Valid ?v"
    using calculation commit_file [OF ex_faithful(1), of "ex_commit i r" "Valid d"] by simp
  ultimately show ?thesis using assms(1) by (intro exI [of _ "fst (commitChangeProjection (ex_commit i r) ex_env (Valid d))"] exI [of _ ?v])
      (simp add: prod_eq_iff)
qed

lemma ex_run:
  assumes "cd_id d = ''demo''" "P (ex_commit None None)"
  shows "\<exists>e. projection_run P n (Valid d) (Valid e) \<and> cd_id e = ''demo''"
proof (induction n)
  case 0
  then show ?case using assms by (blast intro: projection_run.run_start)
next
  case (Suc n)
  then obtain e where e: "projection_run P n (Valid d) (Valid e)" "cd_id e = ''demo''" by blast
  have "replayCheck (ex_commit None None) e = None" "revisionFence (ex_commit None None) e = None"
    by (simp_all add: replayCheck_def revisionFence_def ex_commit_def)
  then obtain out v where c: "commitChangeProjection (ex_commit None None) ex_env (Valid e) = (out, Valid v)"
      "writtenValue out = Some v" "cd_id v = ''demo''"
    using ex_commit_writes [OF e(2)] by blast
  from projection_run.run_write [OF e(1) assms(2) ex_faithful(1) c(1)] c(2,3) show ?case by auto
qed

lemma ex_otherThan: "otherThan ''op'' (ex_commit None None)"
  by (simp add: otherThan_def ex_field_local) (simp add: ex_commit_def)

lemma ex_first:
  obtains out v where "commitChangeProjection (ex_commit (Some ''op'') None) ex_env (Valid ex_doc) = (out, Valid v)"
    "writtenValue out = Some v" "cd_id v = ''demo''" "revisionOf v = 1" "commitsOf v = [auditFor (ex_commit (Some ''op'') None) ''t'' ex_doc]"
proof -
  have r: "replayCheck (ex_commit (Some ''op'') None) ex_doc = None" "revisionFence (ex_commit (Some ''op'') None) ex_doc = None"
    "cd_id ex_doc = ''demo''" "revisionOf ex_doc = 0" "commitsOf ex_doc = []"
    by (simp_all add: replayCheck_def revisionFence_def ex_commit_def ex_doc_def commitsOf_def revisionOf_def)
  from ex_commit_writes [OF r(3,1,2)] obtain out v where c:
      "commitChangeProjection (ex_commit (Some ''op'') None) ex_env (Valid ex_doc) = (out, Valid v)"
      "writtenValue out = Some v" "cd_id v = ''demo''"
      "v = stamped (ex_commit (Some ''op'') None) ''t'' ex_doc (ex_doc\<lparr>cd_status := Archived\<rparr>)" by blast
  have "commitsOf (ex_doc\<lparr>cd_status := Archived\<rparr>) = []" by (simp add: ex_doc_def commitsOf_def)
  with c(4) r(4) have "revisionOf v = 1" "commitsOf v = [auditFor (ex_commit (Some ''op'') None) ''t'' ex_doc]"
    by (simp_all add: lastN_def maxAuditEntries_def)
  with c(1-3) show ?thesis by (rule that)
qed

lemma ex_trail: "trail_ok ex_doc"
  by (simp add: trail_ok_def ex_doc_def commitsOf_def revisionOf_def)


theorem run_keeps_trail_witness:
  "\<exists>d. projection_run field_local 60 (Valid ex_doc) (Valid d) \<and> trail_ok d \<and> revisionOf d = 60"
proof -
  have "cd_id ex_doc = ''demo''" by (simp add: ex_doc_def)
  then obtain d where d: "projection_run field_local 60 (Valid ex_doc) (Valid d)"
    using ex_run [of ex_doc field_local 60] ex_field_local by blast
  moreover have "revisionOf ex_doc = 0" by (simp add: ex_doc_def revisionOf_def)
  ultimately show ?thesis using run_keeps_trail [OF d ex_trail] by auto
qed

theorem stale_writer_loses_witness:
  "\<exists>out v. commitChangeProjection (ex_commit (Some ''op'') None) ex_env (Valid ex_doc) = (out, Valid v) \<and>
     commitChangeProjection (ex_commit (Some ''late'') (Some 0)) ex_env (Valid v) = (StaleRevision 0 1, Valid v)"
proof -
  obtain out v where c: "commitChangeProjection (ex_commit (Some ''op'') None) ex_env (Valid ex_doc) = (out, Valid v)"
    "writtenValue out = Some v" "commitsOf v = [auditFor (ex_commit (Some ''op'') None) ''t'' ex_doc]" by (rule ex_first)
  have r: "revisionOf ex_doc = 0" by (simp add: ex_doc_def revisionOf_def)
  have "co_expectedRevision (ex_commit (Some ''late'') (Some 0)) = Some (revisionOf ex_doc)"
    "\<not> isSyntheticValidationDraftPattern (co_changeId (ex_commit (Some ''late'') (Some 0)))"
    using ex_not_synthetic by (simp_all add: ex_commit_def r)
  moreover have "replayCheck (ex_commit (Some ''late'') (Some 0)) v = None"
    by (simp add: replayCheck_def c(3) auditFor_def) (simp add: ex_commit_def)
  ultimately have "commitChangeProjection (ex_commit (Some ''late'') (Some 0)) ex_env (Valid v)
      = (StaleRevision (revisionOf ex_doc) (revisionOf ex_doc + 1), Valid v)"
    using stale_writer_loses [OF ex_faithful(1) c(1,2)] ex_faithful(2) by blast
  with c(1) show ?thesis by (auto simp: r)
qed


end
