(* ===== verification/Mutation_Coordinator.thy ===== *)
theory Mutation_Coordinator
  imports Projection_Facts Gate_Readiness
begin

text \<open>
  The mutation coordinator every tool commits through (\<^verbatim>\<open>plugin/src/tools/change-mutation-coordinator.ts\<close>),
  over the commit that also publishes the summary shard (\<^verbatim>\<open>storage/change-summary-shard.ts\<close>), and the
  adapter from its outcomes to gate readiness (\<^verbatim>\<open>tools/change-mutation-readiness-adapter.ts\<close>).
\<close>

subsection \<open>The mutation coordinator\<close>

datatype summary_outcome =
    SumCommitted change_doc nat audit_entry
  | SumIdempotent change_doc nat audit_entry
  | SumConflict string
  | SumError "(change_doc \<times> nat \<times> audit_entry) option" string

text \<open>
  A commit that also publishes the summary shard: \<open>publish\<close> is how publishing fails while the lock
  is held, \<open>reread\<close> how reading the published shard fails afterwards.
\<close>

definition commitWithSummary ::
  "commit_options \<Rightarrow> (change_doc \<Rightarrow> string option) \<Rightarrow> string option \<Rightarrow> commit_env \<Rightarrow> projection_file
    \<Rightarrow> summary_outcome \<times> projection_file" where
  "commitWithSummary opts publish reread env file =
     (let (out, file') = commitChangeProjection
            (opts\<lparr>co_afterCommit := Some publish, co_allowEmptied := [], co_payload := None\<rparr>) env file
      in ((case out of
             Committed v r rb a idem \<Rightarrow>
               (case reread of Some e \<Rightarrow> SumError None e
                | None \<Rightarrow> if idem then SumIdempotent v r a else SumCommitted v r a)
           | CommittedUnverified v r rb a e \<Rightarrow> SumError (Some (v, r, a)) (''Snapshot committed but summary shard/pointer unverified: '' @ e)
           | StaleRevision e a \<Rightarrow> SumConflict ''stale_revision''
           | StateRegression e a \<Rightarrow> SumConflict ''state_regression''
           | StateRevisionConflict r \<Rightarrow> SumConflict ''state_revision_conflict''
           | OperationConflict i h k \<Rightarrow> SumConflict ''operation_conflict''
           | LockTimeout ms \<Rightarrow> SumError None ''lock_timeout''
           | SchemaError e \<Rightarrow> SumError None e
           | WriteError e \<Rightarrow> SumError None e
           | OperatorRequired e \<Rightarrow> SumError None e), file'))"

datatype mutation_outcome =
    Verified change_doc nat audit_entry
  | Unverified string audit_entry
  | StaleMutation nat nat
  | MutationRefused string

record mutation_intent =
  mi_changeId :: string
  mi_mutationKind :: string
  mi_mutate :: "change_doc \<Rightarrow> string + change_doc"
  mi_verify :: "change_doc \<Rightarrow> bool"
  mi_normalize :: "(json \<Rightarrow> string + change_doc) option"
  mi_reason :: string
  mi_evidence :: string
  mi_authority_kind :: authority_kind

text \<open>The environment of one mutation: the file system, publishing, and the fresh identity.\<close>

record mutation_env =
  me_commit :: commit_env
  me_publish :: "change_doc \<Rightarrow> string option"
  me_reread :: "string option"
  me_uuid :: string
  me_hash :: "string \<Rightarrow> string"

definition operationIdOf :: "mutation_intent \<Rightarrow> string \<Rightarrow> string" where
  "operationIdOf mi uuid = ''mutation:'' @ mi_mutationKind mi @ '':'' @ mi_changeId mi @ '':'' @ uuid"

definition mutationOptions :: "mutation_intent \<Rightarrow> nat option \<Rightarrow> mutation_env \<Rightarrow> commit_options" where
  "mutationOptions mi expected env =
     \<lparr>co_changeId = mi_changeId mi, co_expectedRevision = expected,
      co_operationId = Some (operationIdOf mi (me_uuid env)),
      co_payloadHash = Some (me_hash env (operationIdOf mi (me_uuid env) @ '':'' @ mi_reason mi @ '':'' @ mi_evidence mi)),
      co_stateRevision = None, co_authority_kind = mi_authority_kind mi, co_reason = mi_reason mi,
      co_evidence = mi_evidence mi, co_mutationKind = mi_mutationKind mi, co_mutateLatest = mi_mutate mi,
      co_normalize = mi_normalize mi, co_verify = (\<lambda>_ readback _ _. VerifyBool (mi_verify mi readback)),
      co_allowEmptied = [], co_afterCommit = None, co_lockTimeoutMs = None, co_payload = None\<rparr>"

definition coordinateChangeMutation ::
  "mutation_intent \<Rightarrow> nat option \<Rightarrow> bool \<Rightarrow> mutation_env \<Rightarrow> projection_file
    \<Rightarrow> mutation_outcome \<times> projection_file" where
  "coordinateChangeMutation mi expected hasDir env file =
     (if \<not> hasDir then (MutationRefused ''Disk mutation requires a changesDir'', file)
      else
        (let (out, file') = commitWithSummary (mutationOptions mi expected env) (me_publish env) (me_reread env)
               (me_commit env) file
         in ((case out of
                SumCommitted v r a \<Rightarrow> Verified v r a
              | SumIdempotent v r a \<Rightarrow> Verified v r a
              | SumError (Some (v, r, a)) e \<Rightarrow> Unverified e a
              | SumError None e \<Rightarrow> MutationRefused e
              | SumConflict e \<Rightarrow> MutationRefused e), file')))"

text \<open>The adapter that turns an outcome into a readiness result; \<open>toState\<close> is \<^verbatim>\<open>changeToState\<close>.\<close>

definition adapterBlocker :: "string \<Rightarrow> gate_id \<Rightarrow> string \<Rightarrow> readiness_blocker" where
  "adapterBlocker code g message = makeBlocker code g message ''Resolve the blocker and retry gate completion.''"

definition evaluateGateReadinessFromMutationOutcome ::
  "(change_doc \<Rightarrow> change_state) \<Rightarrow> mutation_outcome \<Rightarrow> gate_id \<Rightarrow> readiness_options \<Rightarrow> readiness_result" where
  "evaluateGateReadinessFromMutationOutcome toState outcome g opts =
     (case outcome of
        Verified v r a \<Rightarrow> evaluateGateReadiness (toState v) g opts
      | Unverified reason a \<Rightarrow> notReady (adapterBlocker ''RECOVERY_UNVERIFIED'' g
          (''Recovery mutation completed but its postcondition could not be verified: '' @ reason))
      | StaleMutation e a \<Rightarrow> notReady (adapterBlocker ''STALE_REVISION'' g
          (''Projection revision stale: expected '' @ showNat e @ '', actual '' @ showNat a @ ''.''))
      | MutationRefused reason \<Rightarrow> notReady (adapterBlocker ''OPERATOR_REQUIRED'' g (''Mutation blocked: '' @ reason)))"

subsection \<open>What an outcome says about the file\<close>

lemma mutationOptions_fields [simp]:
  "co_changeId (mutationOptions mi e env) = mi_changeId mi"
  "co_expectedRevision (mutationOptions mi e env) = e"
  "co_operationId (mutationOptions mi e env) = Some (operationIdOf mi (me_uuid env))"
  "co_stateRevision (mutationOptions mi e env) = None"
  "co_mutateLatest (mutationOptions mi e env) = mi_mutate mi"
  "co_allowEmptied (mutationOptions mi e env) = []"
  "co_verify (mutationOptions mi e env) = (\<lambda>_ readback _ _. VerifyBool (mi_verify mi readback))"
  by (simp_all add: mutationOptions_def)

definition summaryOptions :: "mutation_intent \<Rightarrow> nat option \<Rightarrow> mutation_env \<Rightarrow> commit_options" where
  "summaryOptions mi e env = (mutationOptions mi e env)
     \<lparr>co_afterCommit := Some (me_publish env), co_allowEmptied := [], co_payload := None\<rparr>"

definition outcomeOf :: "string option \<Rightarrow> commit_outcome \<Rightarrow> mutation_outcome" where
  "outcomeOf reread out =
     (case out of
        Committed v r rb a idem \<Rightarrow>
          (case reread of Some e \<Rightarrow> MutationRefused e | None \<Rightarrow> Verified v r a)
      | CommittedUnverified v r rb a e \<Rightarrow>
          Unverified (''Snapshot committed but summary shard/pointer unverified: '' @ e) a
      | StaleRevision e a \<Rightarrow> MutationRefused ''stale_revision''
      | StateRegression e a \<Rightarrow> MutationRefused ''state_regression''
      | StateRevisionConflict r \<Rightarrow> MutationRefused ''state_revision_conflict''
      | OperationConflict i h k \<Rightarrow> MutationRefused ''operation_conflict''
      | LockTimeout ms \<Rightarrow> MutationRefused ''lock_timeout''
      | SchemaError e \<Rightarrow> MutationRefused e
      | WriteError e \<Rightarrow> MutationRefused e
      | OperatorRequired e \<Rightarrow> MutationRefused e)"

lemma coordinate_eq:
  "coordinateChangeMutation mi e True env file =
     (let (out, file') = commitChangeProjection (summaryOptions mi e env) (me_commit env) file
      in (outcomeOf (me_reread env) out, file'))"
  by (auto simp: coordinateChangeMutation_def commitWithSummary_def summaryOptions_def Let_def outcomeOf_def
      split: prod.splits commit_outcome.splits option.splits)

lemma readLatest_refuses:
  "readLatest opts file = Inl r \<Longrightarrow> \<exists>e. r = SchemaError e \<or> r = OperatorRequired e"
  by (cases "file") (auto simp: readLatest_def split: option.splits sum.splits)

text \<open>
  What a tool may conclude from the outcome of a mutation, on a file system that stores what
  is written.  Verified: the file holds the returned document (a replay leaves it as it was).
  Unverified: the document was written although the tool reports an error.  Refused: nothing was
  written, unless reading the published summary back failed, which is reported as a refusal after
  the write.  A stale revision is never reported as such.
\<close>

theorem mutation_outcome_and_file:
  assumes "faithful (me_commit env)" "coordinateChangeMutation mi e True env file = (out, file')"
  shows "case out of
      Verified v r a \<Rightarrow> file' = Valid v \<or> file' = file \<and> readLatest (summaryOptions mi e env) file = Inr v
    | Unverified reason a \<Rightarrow> \<exists>v. file' = Valid v \<and> lastAudit v = Some a
    | StaleMutation x y \<Rightarrow> False
    | MutationRefused reason \<Rightarrow> file' = file \<or> me_reread env \<noteq> None"
proof -
  obtain c where c: "commitChangeProjection (summaryOptions mi e env) (me_commit env) file = (c, file')"
    and out: "out = outcomeOf (me_reread env) c"
    using assms(2) by (auto simp: coordinate_eq Let_def split: prod.splits)
  have file': "file' = (case writtenValue c of Some v \<Rightarrow> Valid v | None \<Rightarrow> file)"
    using commit_file [OF assms(1), of "summaryOptions mi e env" "file"] c by simp
  have replay: "readLatest (summaryOptions mi e env) file = Inr v" if "c = Committed v r rb a True" for v r rb a
    using that c assms(1)
    by (auto simp: commitChangeProjection_def prepareCommit_def replayCheck_def revisionFence_def stateFence_def
        readBackOutcome_def verifyReadback_def faithful_def Let_def
        split: if_splits sum.splits option.splits prod.splits dest: readLatest_refuses)
  have unverified: "lastAudit v = Some a" if "c = CommittedUnverified v r rb a x" for v r rb a x
  proof -
    from that c have "writtenValue (fst (commitChangeProjection (summaryOptions mi e env) (me_commit env) file)) = Some v"
      by simp
    then obtain latest where l: "readLatest (summaryOptions mi e env) file = Inr latest"
        "prepareCommit (summaryOptions mi e env) (ce_now (me_commit env)) latest = Inr v"
      using commit_written_iff [OF assms(1)] by blast
    have "a = auditFor (summaryOptions mi e env) (ce_now (me_commit env)) latest"
      using that c l assms(1)
      by (auto simp: commitChangeProjection_def readBackOutcome_def verifyReadback_def faithful_def Let_def
          split: if_splits option.splits)
    with l(2) show ?thesis by (auto simp: prepareCommit_Inr lastAudit_def lastN_def maxAuditEntries_def)
  qed
  show ?thesis
  proof (cases c)
    case (Committed v r rb a idem)
    then show ?thesis using file' out replay by (cases idem) (auto simp: outcomeOf_def split: option.splits)
  qed (use file' out unverified in \<open>auto simp: outcomeOf_def\<close>)
qed

text \<open>Whatever the outcome, the file holds the old document or a stamped mutation of it.\<close>

lemma coordinate_effect:
  assumes "faithful (me_commit env)" "coordinateChangeMutation mi e True env (Valid d) = (out, file')"
  shows "file' = Valid d \<or> (\<exists>v d'. file' = Valid v \<and> mi_mutate mi d = Inr d' \<and> payloadOf v = payloadOf d' \<and> cd_id v = cd_id d'
    \<and> \<not> isSyntheticValidationDraftPattern (cd_id d'))"
proof -
  let ?o = "summaryOptions mi e env"
  have f: "file' = snd (commitChangeProjection ?o (me_commit env) (Valid d))"
    using assms(2) by (auto simp: coordinate_eq Let_def split: prod.splits)
  show ?thesis
  proof (cases "writtenValue (fst (commitChangeProjection ?o (me_commit env) (Valid d)))")
    case None
    then show ?thesis using f commit_file [OF assms(1), of ?o "Valid d"] by simp
  next
    case (Some v)
    then have "prepareCommit ?o (ce_now (me_commit env)) d = Inr v"
      using commit_written_iff [OF assms(1), of ?o "Valid d" v] by simp
    then obtain d' where d': "mi_mutate mi d = Inr d'" "payloadOf v = payloadOf d'" "cd_id v = cd_id d'"
        "\<not> isSyntheticValidationDraftPattern (cd_id d')"
      by (auto simp: prepareCommit_Inr summaryOptions_def)
    then show ?thesis using f Some commit_file [OF assms(1), of ?o "Valid d"] by auto
  qed
qed

subsection \<open>The contract of a tool mutation\<close>

text \<open>
  What a tool that commits through the coordinator promises: on the documents it is meant for its
  mutation returns a document, edits only fields of its own, empties no populated collection, and
  establishes the postcondition it verifies, which reads no bookkeeping field.
\<close>

locale tool_mutation = field_local_mutation mutate
  for mutate :: "change_doc \<Rightarrow> string + change_doc" +
  fixes verify :: "change_doc \<Rightarrow> bool" and pre :: "change_doc \<Rightarrow> bool"
  assumes applies: "pre d \<Longrightarrow> \<exists>d'. mutate d = Inr d'"
    and keeps_populated: "mutate d = Inr d' \<Longrightarrow> populated f d \<Longrightarrow> populated f d'"
    and establishes: "pre d \<Longrightarrow> mutate d = Inr d' \<Longrightarrow> verify d'"
    and reads_payload: "payloadOf d = payloadOf e \<Longrightarrow> verify d = verify e"

text \<open>A file system and a publisher that work, and an operation identity not used before.\<close>

definition workingEnv :: "mutation_env \<Rightarrow> bool" where
  "workingEnv env \<longleftrightarrow> faithful (me_commit env) \<and> ce_lockGranted (me_commit env) \<and>
     ce_writeError (me_commit env) = None \<and> (\<forall>d. me_publish env d = None) \<and> me_reread env = None"

definition freshOperation :: "mutation_intent \<Rightarrow> mutation_env \<Rightarrow> change_doc \<Rightarrow> bool" where
  "freshOperation mi env d \<longleftrightarrow>
     Some (operationIdOf mi (me_uuid env)) \<notin> au_operation_id ` set (commitsOf d)"

lemma fresh_no_replay:
  assumes "freshOperation mi env d"
  shows "replayCheck (summaryOptions mi e env) d = None"
proof -
  have "List.find (\<lambda>x. au_operation_id x = Some (operationIdOf mi (me_uuid env))) (commitsOf d) = None"
    using assms by (auto simp: freshOperation_def find_None_iff image_iff)
  then show ?thesis by (simp add: replayCheck_def summaryOptions_def)
qed

context tool_mutation
begin

lemma commits_verified:
  assumes "mi_mutate mi = mutate" "mi_verify mi = verify" "pre d" "workingEnv env" "freshOperation mi env d"
    and "\<not> isSyntheticValidationDraftPattern (mi_changeId mi)" "\<not> isSyntheticValidationDraftPattern (cd_id d)"
  obtains d' v a where "mutate d = Inr d'" "payloadOf v = payloadOf d'" "revisionOf v = revisionOf d + 1"
    "coordinateChangeMutation mi None True env (Valid d) = (Verified v (revisionOf d + 1) a, Valid v)"
    "cd_id v = cd_id d" "commitsOf v = lastN maxAuditEntries (commitsOf d @ [a])"
    "au_operation_id a = Some (operationIdOf mi (me_uuid env))"
proof -
  let ?o = "summaryOptions mi None env" and ?now = "ce_now (me_commit env)"
  from applies [OF assms(3)] obtain d' where d': "mutate d = Inr d'" by blast
  define v where "v = stamped ?o ?now d d'"
  have w: "findCollectionWipe d d' (co_allowEmptied ?o) = None"
    using keeps_populated [OF d'] by (simp add: findCollectionWipe_None)
  have p: "prepareCommit ?o ?now d = Inr v"
    using fresh_no_replay [OF assms(5), of None] w d' assms(1,7) keeps_id [OF d']
    by (simp add: prepareCommit_Inr revisionFence_def stateFence_def v_def summaryOptions_def)
  have vp: "payloadOf v = payloadOf d'" and vr: "revisionOf v = revisionOf d + 1" and vi: "cd_id v = cd_id d"
    using keeps_id [OF d'] by (simp_all add: v_def)
  have verified: "verify v"
    using establishes [OF assms(3) d'] reads_payload [OF vp] by simp
  have audit: "lastAudit v = Some (auditFor ?o ?now d)"
    by (simp add: v_def lastAudit_def lastN_def maxAuditEntries_def)
  have identity: "identityProved ?o v"
    by (simp add: identityProved_def audit auditFor_def summaryOptions_def)
  have "commitChangeProjection ?o (me_commit env) (Valid d)
      = (Committed v (revisionOf d + 1) v (auditFor ?o ?now d) False, Valid v)"
    using assms(2,4,6) p identity vr verified
    by (simp add: commitChangeProjection_def workingEnv_def faithful_def readBackOutcome_def verifyReadback_def Let_def
        summaryOptions_def)
  then have "coordinateChangeMutation mi None True env (Valid d) = (Verified v (revisionOf d + 1) (auditFor ?o ?now d), Valid v)"
    using assms(4) by (simp add: coordinate_eq outcomeOf_def workingEnv_def)
  moreover have "commitsOf v = lastN maxAuditEntries (commitsOf d @ [auditFor ?o ?now d])"
    using commits_kept [OF d'] by (simp add: v_def)
  moreover have "au_operation_id (auditFor ?o ?now d) = Some (operationIdOf mi (me_uuid env))"
    by (simp add: auditFor_def summaryOptions_def)
  ultimately show ?thesis using that [OF d' vp vr _ vi] by blast
qed

end

subsection \<open>A concrete mutation\<close>

definition ex_menv :: mutation_env where
  "ex_menv = \<lparr>me_commit = ex_env, me_publish = (\<lambda>_. None), me_reread = None, me_uuid = ''u'', me_hash = (\<lambda>s. s)\<rparr>"

lemma ex_working: "workingEnv ex_menv"
  using ex_faithful by (simp add: workingEnv_def ex_menv_def)

lemma ex_fresh: "freshOperation mi ex_menv ex_doc"
  by (simp add: freshOperation_def ex_doc_def commitsOf_def)

end
