(* ===== verification/Dispositions.thy ===== *)
theory Dispositions
  imports Mutation_Coordinator
begin

text \<open>
  Dispositions of design concerns and verification gaps: the disposition tool
  (\<^verbatim>\<open>plugin/src/tools/disposition-tool-factory.ts\<close>) and the reconciliation that clears recovery
  markers before acceptance (\<^verbatim>\<open>tools/acceptance-reconciliation.ts\<close>).
\<close>

subsection \<open>Recording a disposition\<close>

datatype disposition_family = DesignConcern | VerificationGap

fun dispositionsOf :: "disposition_family \<Rightarrow> change_doc \<Rightarrow> disposition list" where
  "dispositionsOf DesignConcern d = orEmpty (cd_design_dispositions d)"
| "dispositionsOf VerificationGap d = orEmpty (cd_verification_dispositions d)"

fun setDispositions :: "disposition_family \<Rightarrow> disposition list \<Rightarrow> change_doc \<Rightarrow> change_doc" where
  "setDispositions DesignConcern ds d = d\<lparr>cd_design_dispositions := Some ds\<rparr>"
| "setDispositions VerificationGap ds d = d\<lparr>cd_verification_dispositions := Some ds\<rparr>"

definition dispositionKey :: "disposition \<Rightarrow> string \<times> string" where
  "dispositionKey x = (di_taskId x, di_concernKey x)"

definition upsertDisposition :: "disposition list \<Rightarrow> disposition \<Rightarrow> disposition list" where
  "upsertDisposition existing x = filter (\<lambda>y. dispositionKey y \<noteq> dispositionKey x) existing @ [x]"

definition dispositionPostcondition :: "disposition list \<Rightarrow> disposition \<Rightarrow> bool" where
  "dispositionPostcondition ds expected =
     (case List.find (\<lambda>y. dispositionKey y = dispositionKey expected) ds of
        None \<Rightarrow> False
      | Some found \<Rightarrow> di_disposition found = di_disposition expected \<and> di_evidence found = di_evidence expected)"

record disposition_args =
  dg_taskId :: string
  dg_concernKey :: string
  dg_disposition :: disposition_verb
  dg_evidence :: string
  dg_dryRun :: bool

text \<open>\<^verbatim>\<open>DesignConcernDispositionSchema\<close>: the strings are trimmed and must not be blank.\<close>

definition parseDisposition :: "disposition_args \<Rightarrow> string \<Rightarrow> disposition option" where
  "parseDisposition args now =
     (if trim (dg_taskId args) = [] \<or> trim (dg_concernKey args) = [] \<or> trim (dg_evidence args) = [] \<or> trim now = []
      then None
      else Some \<lparr>di_taskId = trim (dg_taskId args), di_concernKey = trim (dg_concernKey args),
        di_disposition = dg_disposition args, di_evidence = trim (dg_evidence args),
        di_dispositionedAt = trim now, di_recovery_audit = None\<rparr>)"

text \<open>One tool per configuration; \<^verbatim>\<open>tools/design-concern.ts\<close> is the only one.\<close>

record disposition_config =
  dc_field :: disposition_family
  dc_mutationKind :: string
  dc_reason :: string

definition designConcernConfig :: disposition_config where
  "designConcernConfig = \<lparr>dc_field = DesignConcern, dc_mutationKind = ''design_concern_disposition'',
     dc_reason = ''record design-concern disposition''\<rparr>"

definition dispositionIntent :: "disposition_config \<Rightarrow> string \<Rightarrow> string \<Rightarrow> disposition \<Rightarrow> mutation_intent" where
  "dispositionIntent cfg changeId evidence x =
     \<lparr>mi_changeId = changeId, mi_mutationKind = dc_mutationKind cfg,
      mi_mutate = (\<lambda>latest. Inr (setDispositions (dc_field cfg) (upsertDisposition (dispositionsOf (dc_field cfg) latest) x) latest)),
      mi_verify = (\<lambda>rb. dispositionPostcondition (dispositionsOf (dc_field cfg) rb) x),
      mi_normalize = None, mi_reason = dc_reason cfg, mi_evidence = evidence, mi_authority_kind = AkMutation\<rparr>"

text \<open>What the store returns for the change.\<close>

datatype get_result = GetError string | GetMissing | GetContextMismatch string | GetOk change_doc

datatype disposition_response =
    DispError string
  | DispTaskNotFound
  | DispInvalid
  | DispDryRun disposition
  | DispRecorded disposition
  | DispUnverified string
  | DispStale nat nat
  | DispOperatorRequired string

definition runDisposition ::
  "disposition_config \<Rightarrow> string \<Rightarrow> disposition_args \<Rightarrow> string \<Rightarrow> get_result \<Rightarrow> mutation_env \<Rightarrow> projection_file
    \<Rightarrow> disposition_response \<times> projection_file" where
  "runDisposition cfg changeId args now got env file =
     (case got of
        GetError e \<Rightarrow> (DispError e, file)
      | GetContextMismatch e \<Rightarrow> (DispError e, file)
      | GetMissing \<Rightarrow> (DispError (''Change not found: '' @ changeId), file)
      | GetOk change \<Rightarrow>
          (if dg_taskId args \<notin> tk_id ` set (orEmpty (cd_tasks change)) then (DispTaskNotFound, file)
           else (case parseDisposition args now of
               None \<Rightarrow> (DispInvalid, file)
             | Some x \<Rightarrow>
                 (if dg_dryRun args then (DispDryRun x, file)
                  else
                    (let (out, file') = coordinateChangeMutation (dispositionIntent cfg changeId (dg_evidence args) x) None True env file
                     in ((case out of
                            Verified v r a \<Rightarrow> DispRecorded x
                          | Unverified reason a \<Rightarrow> DispUnverified reason
                          | StaleMutation e a \<Rightarrow> DispStale e a
                          | MutationRefused reason \<Rightarrow> DispOperatorRequired reason), file'))))))"

subsection \<open>Pending recovery markers\<close>

datatype pending_item = PendingDisposition disposition_family disposition | PendingMatrix review_matrix

definition reviewMatrixOf :: "change_doc \<Rightarrow> review_matrix option" where
  "reviewMatrixOf d = Option.bind (cd_contract d) cc_reviewMatrix"

definition collectPendingReconciliationItems :: "change_doc \<Rightarrow> pending_item list" where
  "collectPendingReconciliationItems d =
     map (PendingDisposition DesignConcern) (filter (\<lambda>x. di_recovery_audit x \<noteq> None) (dispositionsOf DesignConcern d))
     @ map (PendingDisposition VerificationGap) (filter (\<lambda>x. di_recovery_audit x \<noteq> None) (dispositionsOf VerificationGap d))
     @ (case reviewMatrixOf d of
          Some m \<Rightarrow> if rm_recovery_audit m \<noteq> None then [PendingMatrix m] else []
        | None \<Rightarrow> [])"

text \<open>The expected rows are looked up in a \<^verbatim>\<open>Map\<close>, which keeps the last row of an identifier.\<close>

definition reviewMatrixMatches :: "review_matrix \<Rightarrow> review_matrix \<Rightarrow> bool" where
  "reviewMatrixMatches actual expected \<longleftrightarrow>
     rm_reviewedAt actual = rm_reviewedAt expected \<and> length (rm_rows actual) = length (rm_rows expected) \<and>
     (\<forall>row \<in> set (rm_rows actual).
        case List.find (\<lambda>e. rr_contractId e = rr_contractId row) (rev (rm_rows expected)) of
          None \<Rightarrow> False
        | Some e \<Rightarrow> rr_kind row = rr_kind e \<and> rr_status row = rr_status e \<and> rr_evidencePolicy row = rr_evidencePolicy e
            \<and> rr_evidence row = rr_evidence e \<and> rr_notes row = rr_notes e)"

text \<open>Without the audit, only the disposition itself is compared.\<close>

definition sameDisposition :: "disposition \<Rightarrow> disposition \<Rightarrow> bool" where
  "sameDisposition x expected \<longleftrightarrow> di_taskId x = di_taskId expected \<and> di_concernKey x = di_concernKey expected
     \<and> di_disposition x = di_disposition expected \<and> di_evidence x = di_evidence expected
     \<and> di_dispositionedAt x = di_dispositionedAt expected"

definition matchesPendingRecoveredDisposition :: "disposition \<Rightarrow> disposition \<Rightarrow> bool \<Rightarrow> bool" where
  "matchesPendingRecoveredDisposition x expected requireRecoveryAudit \<longleftrightarrow>
     sameDisposition x expected \<and> (requireRecoveryAudit \<longrightarrow> di_recovery_audit x = di_recovery_audit expected)"

definition matchesPendingRecoveredMatrix :: "review_matrix \<Rightarrow> review_matrix \<Rightarrow> bool \<Rightarrow> bool" where
  "matchesPendingRecoveredMatrix m expected requireRecoveryAudit \<longleftrightarrow>
     reviewMatrixMatches m expected \<and> (requireRecoveryAudit \<longrightarrow> rm_recovery_audit m = rm_recovery_audit expected)"

definition stripDispositions :: "disposition_family \<Rightarrow> pending_item list \<Rightarrow> disposition list \<Rightarrow> disposition list" where
  "stripDispositions fam items ds = map (\<lambda>x.
     if \<exists>it \<in> set items. case it of
          PendingDisposition f e \<Rightarrow> f = fam \<and> matchesPendingRecoveredDisposition x e True
        | PendingMatrix _ \<Rightarrow> False
     then x\<lparr>di_recovery_audit := None\<rparr> else x) ds"

definition pendingMatrixOf :: "pending_item list \<Rightarrow> review_matrix option" where
  "pendingMatrixOf items =
     (case List.map_filter (\<lambda>it. case it of PendingMatrix m \<Rightarrow> Some m | _ \<Rightarrow> None) items of [] \<Rightarrow> None | m # _ \<Rightarrow> Some m)"

definition stripMatrix :: "pending_item list \<Rightarrow> contract option \<Rightarrow> contract option" where
  "stripMatrix items c =
     (case (pendingMatrixOf items, Option.bind c cc_reviewMatrix) of
        (Some expected, Some m) \<Rightarrow>
          if matchesPendingRecoveredMatrix m expected True
          then map_option (\<lambda>k. k\<lparr>cc_reviewMatrix := Some (m\<lparr>rm_recovery_audit := None\<rparr>)\<rparr>) c else c
      | _ \<Rightarrow> c)"

text \<open>Comparing the markers of two matrices raises when the one on disk has none.\<close>

definition stripRaises :: "pending_item list \<Rightarrow> change_doc \<Rightarrow> bool" where
  "stripRaises items d \<longleftrightarrow>
     (case (pendingMatrixOf items, reviewMatrixOf d) of
        (Some expected, Some m) \<Rightarrow> reviewMatrixMatches m expected \<and> rm_recovery_audit m = None
      | _ \<Rightarrow> False)"

definition stripRecoveryAuditMarkers :: "change_doc \<Rightarrow> pending_item list \<Rightarrow> change_doc" where
  "stripRecoveryAuditMarkers d items = d\<lparr>
     cd_design_dispositions := map_option (stripDispositions DesignConcern items) (cd_design_dispositions d),
     cd_verification_dispositions := map_option (stripDispositions VerificationGap items) (cd_verification_dispositions d),
     cd_contract := stripMatrix items (cd_contract d)\<rparr>"

subsection \<open>Clearing the markers\<close>

fun itemCleared :: "change_doc \<Rightarrow> pending_item \<Rightarrow> bool" where
  "itemCleared rb (PendingDisposition fam e) =
     (case List.find (\<lambda>x. dispositionKey x = dispositionKey e) (dispositionsOf fam rb) of
        None \<Rightarrow> False
      | Some found \<Rightarrow> matchesPendingRecoveredDisposition found e False \<and> di_recovery_audit found = None)"
| "itemCleared rb (PendingMatrix e) =
     (case reviewMatrixOf rb of
        None \<Rightarrow> False
      | Some found \<Rightarrow> matchesPendingRecoveredMatrix found e False \<and> rm_recovery_audit found = None)"

fun itemLabel :: "pending_item \<Rightarrow> string" where
  "itemLabel (PendingDisposition DesignConcern e) = ''design_concern:'' @ di_taskId e @ '':'' @ di_concernKey e"
| "itemLabel (PendingDisposition VerificationGap e) = ''verification_evidence:'' @ di_taskId e @ '':'' @ di_concernKey e"
| "itemLabel (PendingMatrix e) = ''contract_review_matrix:reviewMatrix''"

definition clearIntent :: "string \<Rightarrow> pending_item list \<Rightarrow> mutation_intent" where
  "clearIntent changeId items =
     \<lparr>mi_changeId = changeId, mi_mutationKind = ''acceptance_remediation_reconciliation'',
      mi_mutate = (\<lambda>latest. if stripRaises items latest then Inl ''Cannot read properties of undefined''
        else Inr (stripRecoveryAuditMarkers latest items)),
      mi_verify = (\<lambda>rb. list_all (itemCleared rb) items), mi_normalize = None,
      mi_reason = ''clear acceptance recovery markers after direct disk reconciliation'',
      mi_evidence = ''acceptance-reconciliation-clear:'' @ changeId @ '':'' @ joinWith '','' (map itemLabel items),
      mi_authority_kind = AkRecovery\<rparr>"

datatype reconcile_result = Reconciled nat change_doc | ReconcileBlocked string "pending_item list"

text \<open>\<open>file\<close> is what is loaded, \<open>file1\<close> what is on disk when the markers are cleared.\<close>

definition reconcileRecoveredAcceptanceRemediation ::
  "string \<Rightarrow> mutation_env \<Rightarrow> projection_file \<Rightarrow> projection_file \<Rightarrow> reconcile_result \<times> projection_file" where
  "reconcileRecoveredAcceptanceRemediation changeId env file file1 =
     (case loadChange file of
        Inl _ \<Rightarrow> (ReconcileBlocked ''ACCEPTANCE_RECONCILIATION_READ_FAILED'' [], file1)
      | Inr None \<Rightarrow> (ReconcileBlocked ''ACCEPTANCE_RECONCILIATION_READ_FAILED'' [], file1)
      | Inr (Some change) \<Rightarrow>
          (let items = collectPendingReconciliationItems change
           in if items = [] then (Reconciled 0 change, file1)
              else (let (out, file') = coordinateChangeMutation (clearIntent changeId items) None True env file1
                in ((case out of
                       Verified v r a \<Rightarrow> Reconciled (length items) (stripRecoveryAuditMarkers change items)
                     | _ \<Rightarrow> ReconcileBlocked ''ACCEPTANCE_RECONCILIATION_CLEAR_FAILED'' items), file'))))"

subsection \<open>Distinct keys\<close>

text \<open>Every writer replaces the entry of a key, so the keys of a family are distinct.\<close>

definition keysDistinct :: "change_doc \<Rightarrow> bool" where
  "keysDistinct d \<longleftrightarrow> (\<forall>fam. distinct (map dispositionKey (dispositionsOf fam d)))"

lemma dispositions_set [simp]:
  "dispositionsOf fam (setDispositions fam ds d) = ds"
  "fam \<noteq> fam' \<Longrightarrow> dispositionsOf fam (setDispositions fam' ds d) = dispositionsOf fam d"
  by (cases fam; cases fam'; simp)+

lemma set_keeps [simp]:
  "cd_id (setDispositions fam ds d) = cd_id d"
  "cd_projection_commits (setDispositions fam ds d) = cd_projection_commits d"
  by (cases fam; simp)+

lemma upsert_distinct:
  "distinct (map dispositionKey ds) \<Longrightarrow> distinct (map dispositionKey (upsertDisposition ds x))"
  by (auto simp: upsertDisposition_def distinct_map_filter)

lemma upsert_keys_distinct:
  "keysDistinct d \<Longrightarrow> keysDistinct (setDispositions fam (upsertDisposition (dispositionsOf fam d) x) d)"
  by (metis dispositions_set keysDistinct_def upsert_distinct)

lemma find_key:
  assumes "distinct (map k xs)" "x \<in> set xs"
  shows "List.find (\<lambda>y. k y = k x) xs = Some x"
proof -
  obtain z where z: "List.find (\<lambda>y. k y = k x) xs = Some z"
    using assms(2) by (cases "List.find (\<lambda>y. k y = k x) xs") (auto simp: find_None_iff)
  then have "z \<in> set xs" "k z = k x" by (auto simp: find_Some_iff)
  with assms have "z = x" by (auto simp: distinct_map inj_on_def)
  with z show ?thesis by simp
qed

lemma upsert_postcondition: "dispositionPostcondition (upsertDisposition ds x) x"
proof -
  have "List.find (\<lambda>y. dispositionKey y = dispositionKey x) (upsertDisposition ds x) = Some x"
    unfolding upsertDisposition_def by (induction ds) auto
  then show ?thesis by (simp add: dispositionPostcondition_def)
qed

lemma dispositions_payload: "payloadOf d = payloadOf e \<Longrightarrow> dispositionsOf fam d = dispositionsOf fam e"
  by (cases fam) (auto simp: payloadOf_def dest: arg_cong [of _ _ cd_design_dispositions]
      arg_cong [of _ _ cd_verification_dispositions])

lemma matrix_payload: "payloadOf d = payloadOf e \<Longrightarrow> reviewMatrixOf d = reviewMatrixOf e"
  by (auto simp: payloadOf_def reviewMatrixOf_def dest: arg_cong [of _ _ cd_contract])

lemma populated_set [simp]: "populated f (setDispositions fam ds d) = populated f d"
  by (cases f; cases fam) (simp_all add: populated_def)

lemma populated_strip [simp]: "populated f (stripRecoveryAuditMarkers d items) = populated f d"
  by (cases f) (simp_all add: populated_def stripRecoveryAuditMarkers_def)

interpretation disp: tool_mutation
  "\<lambda>latest. Inr (setDispositions fam (upsertDisposition (dispositionsOf fam latest) x) latest)"
  "\<lambda>rb. dispositionPostcondition (dispositionsOf fam rb) x" "\<lambda>_. True" for fam x
proof (unfold_locales, goal_cases)
  case (6 d e)
  then show ?case using dispositions_payload [OF 6] by simp
qed (auto simp: upsert_postcondition)

subsection \<open>Clearing keeps what it does not confirm\<close>

lemma strip_dispositions [simp]:
  "dispositionsOf fam (stripRecoveryAuditMarkers d items) = stripDispositions fam items (dispositionsOf fam d)"
proof -
  have "orEmpty (map_option (stripDispositions f items) ds) = stripDispositions f items (orEmpty ds)" for f ds
    by (cases ds) (simp_all add: stripDispositions_def)
  then show ?thesis by (cases fam) (simp_all add: stripRecoveryAuditMarkers_def)
qed

lemma strip_keys [simp]: "map dispositionKey (stripDispositions fam items ds) = map dispositionKey ds"
proof -
  have "dispositionKey (if c then x\<lparr>di_recovery_audit := None\<rparr> else x) = dispositionKey x" for c x
    by (simp add: dispositionKey_def)
  then show ?thesis by (simp add: stripDispositions_def o_def)
qed

lemma matches_self [simp]: "matchesPendingRecoveredDisposition e e b"
  by (simp add: matchesPendingRecoveredDisposition_def sameDisposition_def)

lemma matrix_matches_self:
  assumes "distinct (map rr_contractId (rm_rows m))"
  shows "reviewMatrixMatches m m"
proof -
  have "distinct (map rr_contractId (rev (rm_rows m)))" using assms by (simp flip: rev_map)
  then have "List.find (\<lambda>e. rr_contractId e = rr_contractId row) (rev (rm_rows m)) = Some row"
    if "row \<in> set (rm_rows m)" for row
    using find_key [of rr_contractId "rev (rm_rows m)" row] that by simp
  then show ?thesis by (auto simp: reviewMatrixMatches_def)
qed

lemma strip_keeps [simp]:
  "cd_id (stripRecoveryAuditMarkers d items) = cd_id d"
  "cd_projection_commits (stripRecoveryAuditMarkers d items) = cd_projection_commits d"
  by (simp_all add: stripRecoveryAuditMarkers_def)

lemma pending_disposition:
  "PendingDisposition fam e \<in> set (collectPendingReconciliationItems d) \<longleftrightarrow>
     e \<in> set (dispositionsOf fam d) \<and> di_recovery_audit e \<noteq> None"
  by (cases fam) (auto simp: collectPendingReconciliationItems_def split: option.splits if_splits)

lemma pending_matrix:
  "PendingMatrix m \<in> set (collectPendingReconciliationItems d) \<longleftrightarrow>
     reviewMatrixOf d = Some m \<and> rm_recovery_audit m \<noteq> None"
  by (auto simp: collectPendingReconciliationItems_def split: option.splits if_splits)

lemma pendingMatrixOf_collect:
  "pendingMatrixOf (collectPendingReconciliationItems d) =
     (case reviewMatrixOf d of Some m \<Rightarrow> if rm_recovery_audit m \<noteq> None then Some m else None | None \<Rightarrow> None)"
proof -
  have m: "List.map_filter (\<lambda>it. case it of PendingMatrix m \<Rightarrow> Some m | _ \<Rightarrow> None) (map (PendingDisposition fam) xs) = []" for fam xs
    by (induction xs) (auto simp: List.map_filter_simps)
  have a: "List.map_filter f (xs @ ys) = List.map_filter f xs @ List.map_filter f ys" for f :: "pending_item \<Rightarrow> review_matrix option" and xs ys
    by (simp add: List.map_filter_def)
  show ?thesis
    by (auto simp: pendingMatrixOf_def collectPendingReconciliationItems_def m a List.map_filter_simps split: option.splits)
qed

text \<open>A document whose markers the reconciliation can clear.\<close>

definition reconcilable :: "change_doc \<Rightarrow> bool" where
  "reconcilable d \<longleftrightarrow> keysDistinct d \<and> (\<forall>m. reviewMatrixOf d = Some m \<longrightarrow> distinct (map rr_contractId (rm_rows m)))"

abbreviation pendingOf :: "change_doc \<Rightarrow> pending_item list" where
  "pendingOf \<equiv> collectPendingReconciliationItems"

lemma strip_matrix:
  assumes "reviewMatrixOf d = Some m" "rm_recovery_audit m \<noteq> None" "distinct (map rr_contractId (rm_rows m))"
  shows "reviewMatrixOf (stripRecoveryAuditMarkers d (pendingOf d)) = Some (m\<lparr>rm_recovery_audit := None\<rparr>)"
proof -
  obtain k where k: "cd_contract d = Some k" "cc_reviewMatrix k = Some m"
    using assms(1) by (auto simp: reviewMatrixOf_def bind_eq_Some_conv)
  have "matchesPendingRecoveredMatrix m m True"
    using matrix_matches_self [OF assms(3)] by (simp add: matchesPendingRecoveredMatrix_def)
  then show ?thesis
    using assms(1,2) by (simp add: reviewMatrixOf_def stripRecoveryAuditMarkers_def stripMatrix_def pendingMatrixOf_collect k)
qed

lemma strip_clears_item:
  assumes "reconcilable d" "it \<in> set (pendingOf d)"
  shows "itemCleared (stripRecoveryAuditMarkers d (pendingOf d)) it"
proof (cases it)
  case (PendingDisposition fam e)
  let ?ds = "stripDispositions fam (pendingOf d) (dispositionsOf fam d)" and ?e = "e\<lparr>di_recovery_audit := None\<rparr>"
  have e: "e \<in> set (dispositionsOf fam d)" using assms(2) PendingDisposition by (simp add: pending_disposition)
  have "\<exists>it \<in> set (pendingOf d). case it of PendingDisposition f x \<Rightarrow> f = fam \<and> matchesPendingRecoveredDisposition e x True
      | PendingMatrix _ \<Rightarrow> False"
    using assms(2) PendingDisposition by (auto intro!: bexI [of _ it])
  then have "?e \<in> set ?ds" using e by (force simp: stripDispositions_def image_iff)
  moreover have "distinct (map dispositionKey ?ds)" using assms(1) by (simp add: reconcilable_def keysDistinct_def)
  ultimately have "List.find (\<lambda>y. dispositionKey y = dispositionKey ?e) ?ds = Some ?e" by (rule find_key [rotated])
  then show ?thesis
    by (simp add: PendingDisposition dispositionKey_def matchesPendingRecoveredDisposition_def sameDisposition_def)
next
  case (PendingMatrix m)
  then have m: "reviewMatrixOf d = Some m" "rm_recovery_audit m \<noteq> None" using assms(2) by (simp_all add: pending_matrix)
  then have "distinct (map rr_contractId (rm_rows m))" using assms(1) by (simp add: reconcilable_def)
  then show ?thesis
    using strip_matrix [OF m] matrix_matches_self [of m]
    by (simp add: PendingMatrix matchesPendingRecoveredMatrix_def reviewMatrixMatches_def)
qed

lemma strip_does_not_raise: "\<not> stripRaises (pendingOf d) d"
  by (auto simp: stripRaises_def pendingMatrixOf_collect split: option.splits if_splits)

interpretation clear: tool_mutation
  "\<lambda>latest. if stripRaises (pendingOf d) latest then Inl ''Cannot read properties of undefined''
     else Inr (stripRecoveryAuditMarkers latest (pendingOf d))"
  "\<lambda>rb. list_all (itemCleared rb) (pendingOf d)" "\<lambda>x. x = d \<and> reconcilable d" for d
proof (unfold_locales, goal_cases)
  case (6 a b)
  have "itemCleared a it = itemCleared b it" for it
    using dispositions_payload [OF 6] matrix_payload [OF 6] by (cases it) simp_all
  then show ?case by (simp add: list_all_iff)
qed (auto simp: strip_does_not_raise strip_clears_item list_all_iff split: if_splits)

subsection \<open>Properties\<close>

lemma dispositionIntent_fields [simp]:
  "mi_mutate (dispositionIntent cfg c e x) =
     (\<lambda>latest. Inr (setDispositions (dc_field cfg) (upsertDisposition (dispositionsOf (dc_field cfg) latest) x) latest))"
  "mi_verify (dispositionIntent cfg c e x) = (\<lambda>rb. dispositionPostcondition (dispositionsOf (dc_field cfg) rb) x)"
  "mi_changeId (dispositionIntent cfg c e x) = c"
  by (simp_all add: dispositionIntent_def)

lemma clearIntent_fields [simp]:
  "mi_mutate (clearIntent c items) = (\<lambda>latest. if stripRaises items latest
     then Inl ''Cannot read properties of undefined'' else Inr (stripRecoveryAuditMarkers latest items))"
  "mi_verify (clearIntent c items) = (\<lambda>rb. list_all (itemCleared rb) items)"
  "mi_changeId (clearIntent c items) = c"
  by (simp_all add: clearIntent_def)

text \<open>
  A valid disposition of an existing task, committed on a working store, is recorded: the
  stored list holds it once under its key in place of an earlier one, the other family is untouched,
  and the keys stay distinct.
\<close>

theorem disposition_is_recorded:
  assumes "workingEnv env" "dg_taskId args \<in> tk_id ` set (orEmpty (cd_tasks change))"
    and "parseDisposition args now = Some x" "\<not> dg_dryRun args" "keysDistinct d"
    and "freshOperation (dispositionIntent cfg changeId (dg_evidence args) x) env d"
    and "\<not> isSyntheticValidationDraftPattern changeId" "\<not> isSyntheticValidationDraftPattern (cd_id d)"
  shows "\<exists>v. runDisposition cfg changeId args now (GetOk change) env (Valid d) = (DispRecorded x, Valid v) \<and>
    dispositionsOf (dc_field cfg) v = upsertDisposition (dispositionsOf (dc_field cfg) d) x \<and>
    (\<forall>fam. fam = dc_field cfg \<or> dispositionsOf fam v = dispositionsOf fam d) \<and> keysDistinct v"
proof -
  let ?mi = "dispositionIntent cfg changeId (dg_evidence args) x"
  obtain d' v a where m: "mi_mutate ?mi d = Inr d'" "payloadOf v = payloadOf d'"
    "coordinateChangeMutation ?mi None True env (Valid d) = (Verified v (revisionOf d + 1) a, Valid v)"
    by (rule disp.commits_verified [where mi = ?mi and fam = "dc_field cfg" and x = x and d = d and env = env])
      (use assms in \<open>simp_all\<close>)
  have v: "dispositionsOf fam v = dispositionsOf fam d'" for fam by (rule dispositions_payload) (fact m(2))
  have k: "keysDistinct v" using upsert_keys_distinct [OF assms(5)] m(1) by (auto simp: keysDistinct_def v)
  have "runDisposition cfg changeId args now (GetOk change) env (Valid d) = (DispRecorded x, Valid v)"
    using assms(2-4) m(3) by (simp add: runDisposition_def)
  moreover have "dispositionsOf fam v = dispositionsOf fam d" if "fam \<noteq> dc_field cfg" for fam
    using that m(1) by (auto simp: v)
  ultimately show ?thesis using k m(1) by (auto simp: v)
qed

lemma strip_leaves_no_marker:
  assumes "reconcilable d"
  shows "pendingOf (stripRecoveryAuditMarkers d (pendingOf d)) = []"
proof -
  let ?s = "stripRecoveryAuditMarkers d (pendingOf d)"
  have "it \<notin> set (pendingOf ?s)" for it
  proof (cases it)
    case (PendingDisposition fam e)
    show ?thesis
    proof
      assume "it \<in> set (pendingOf ?s)"
      then have e: "e \<in> set (stripDispositions fam (pendingOf d) (dispositionsOf fam d))" "di_recovery_audit e \<noteq> None"
        by (simp_all add: PendingDisposition pending_disposition)
      then obtain x where x: "x \<in> set (dispositionsOf fam d)" "e = x"
          "\<not> (\<exists>it \<in> set (pendingOf d). case it of PendingDisposition f y \<Rightarrow> f = fam \<and> matchesPendingRecoveredDisposition x y True
             | PendingMatrix _ \<Rightarrow> False)"
        by (auto simp: stripDispositions_def split: if_splits)
      then have "PendingDisposition fam x \<in> set (pendingOf d)" using e(2) by (simp add: pending_disposition)
      with x(3) show False by force
    qed
  next
    case (PendingMatrix m)
    show ?thesis
    proof (cases "reviewMatrixOf d")
      case None
      then have "reviewMatrixOf ?s = None"
        by (simp add: reviewMatrixOf_def stripRecoveryAuditMarkers_def stripMatrix_def split: option.splits)
      then show ?thesis by (simp add: PendingMatrix pending_matrix)
    next
      case (Some m0)
      show ?thesis
      proof (cases "rm_recovery_audit m0 = None")
        case True
        then have "reviewMatrixOf ?s = Some m0"
          using Some by (simp add: reviewMatrixOf_def stripRecoveryAuditMarkers_def stripMatrix_def pendingMatrixOf_collect)
        then show ?thesis using True by (auto simp: PendingMatrix pending_matrix)
      next
        case False
        then show ?thesis
          using strip_matrix [OF Some False] assms Some by (auto simp: PendingMatrix pending_matrix reconcilable_def)
      qed
    qed
  qed
  then show ?thesis by (meson last_in_set)
qed

lemma pending_payload: "payloadOf d = payloadOf e \<Longrightarrow> pendingOf d = pendingOf e"
  using dispositions_payload [of d e] matrix_payload [of d e] by (simp add: collectPendingReconciliationItems_def)

text \<open>
  On a working store, reconciling a change whose dispositions and review rows have distinct
  keys succeeds and clears every recovery marker: the stored document has none left and is otherwise
  the loaded one.
\<close>

theorem reconciliation_clears_markers:
  assumes "workingEnv env" "reconcilable d" "freshOperation (clearIntent changeId (pendingOf d)) env d"
    and "\<not> isSyntheticValidationDraftPattern changeId" "\<not> isSyntheticValidationDraftPattern (cd_id d)"
  shows "\<exists>c v. reconcileRecoveredAcceptanceRemediation changeId env (Valid d) (Valid d) =
      (Reconciled (length (pendingOf d)) c, Valid v) \<and>
    payloadOf v = payloadOf c \<and> pendingOf v = [] \<and>
    c = (if pendingOf d = [] then d else stripRecoveryAuditMarkers d (pendingOf d))"
proof (cases "pendingOf d = []")
  case True
  then show ?thesis by (simp add: reconcileRecoveredAcceptanceRemediation_def)
next
  case False
  let ?mi = "clearIntent changeId (pendingOf d)" and ?s = "stripRecoveryAuditMarkers d (pendingOf d)"
  obtain d' v a where m: "mi_mutate ?mi d = Inr d'" "payloadOf v = payloadOf d'"
    "coordinateChangeMutation ?mi None True env (Valid d) = (Verified v (revisionOf d + 1) a, Valid v)"
    by (rule clear.commits_verified [of ?mi d d env]) (use assms in \<open>simp_all\<close>)
  have d': "d' = ?s" using m(1) strip_does_not_raise by simp
  have "pendingOf v = []" using pending_payload [OF m(2)] strip_leaves_no_marker [OF assms(2)] by (simp add: d')
  then show ?thesis using False m(2,3) by (simp add: reconcileRecoveredAcceptanceRemediation_def d' Let_def)
qed

lemma matches_eq: "matchesPendingRecoveredDisposition x e True \<longleftrightarrow> x = e"
  by (cases x; cases e) (auto simp: matchesPendingRecoveredDisposition_def sameDisposition_def)

text \<open>
  A recovered disposition that another writer committed after the reconciliation had loaded
  the change keeps its marker: whatever document the reconciliation leaves on disk still holds every
  marked disposition that was not among the loaded ones.
\<close>

theorem newer_marker_survives:
  assumes "faithful (me_commit env)" "x \<in> set (dispositionsOf fam d1)" "di_recovery_audit x \<noteq> None"
    and "PendingDisposition fam x \<notin> set (pendingOf d)"
    and "reconcileRecoveredAcceptanceRemediation changeId env (Valid d) (Valid d1) = (res, file')"
  shows "\<exists>v. file' = Valid v \<and> x \<in> set (dispositionsOf fam v)"
proof (cases "pendingOf d = []")
  case True
  then show ?thesis using assms by (auto simp: reconcileRecoveredAcceptanceRemediation_def)
next
  case False
  let ?mi = "clearIntent changeId (pendingOf d)" and ?o = "summaryOptions (clearIntent changeId (pendingOf d)) None env"
  have f: "file' = snd (commitChangeProjection ?o (me_commit env) (Valid d1))"
    using assms(5) False
    by (auto simp: reconcileRecoveredAcceptanceRemediation_def coordinate_eq Let_def split: prod.splits)
  show ?thesis
  proof (cases "writtenValue (fst (commitChangeProjection ?o (me_commit env) (Valid d1)))")
    case None
    then show ?thesis using f assms(2) commit_file [OF assms(1), of ?o "Valid d1"] by simp
  next
    case (Some v)
    then have "prepareCommit ?o (ce_now (me_commit env)) d1 = Inr v"
      using commit_written_iff [OF assms(1), of ?o "Valid d1" v] by simp
    then have "payloadOf v = payloadOf (stripRecoveryAuditMarkers d1 (pendingOf d))"
      by (auto simp: prepareCommit_Inr summaryOptions_def split: if_splits)
    then have v: "dispositionsOf fam v = stripDispositions fam (pendingOf d) (dispositionsOf fam d1)"
      by (simp add: dispositions_payload [of v])
    have "x \<in> set (stripDispositions fam (pendingOf d) (dispositionsOf fam d1))"
    proof -
      have "\<not> (\<exists>it \<in> set (pendingOf d). case it of
          PendingDisposition f e \<Rightarrow> f = fam \<and> matchesPendingRecoveredDisposition x e True | PendingMatrix _ \<Rightarrow> False)"
        using assms(4) by (auto simp: matches_eq split: pending_item.splits)
      then show ?thesis
        using assms(2) unfolding stripDispositions_def set_map by (intro image_eqI [of _ _ x]) simp_all
    qed
    then show ?thesis using f Some v commit_file [OF assms(1), of ?o "Valid d1"] by simp
  qed
qed

subsection \<open>Concrete documents\<close>

definition ex_concern :: "recovery_audit option \<Rightarrow> disposition" where
  "ex_concern audit = \<lparr>di_taskId = ''t1'', di_concernKey = ''neighbor:0'', di_disposition = DvFixed, di_evidence = ''PR 7'',
     di_dispositionedAt = ''t'', di_recovery_audit = audit\<rparr>"

definition ex_audit :: "string \<Rightarrow> recovery_audit" where
  "ex_audit at = \<lparr>ra_reason = ''r'', ra_evidence = ''e'', ra_recovered_at = at\<rparr>"

definition ex_marked :: "string \<Rightarrow> change_doc" where
  "ex_marked at = ex_doc\<lparr>cd_design_dispositions := Some [ex_concern (Some (ex_audit at))]\<rparr>"

lemma ex_marked_facts:
  "dispositionsOf DesignConcern (ex_marked at) = [ex_concern (Some (ex_audit at))]"
  "dispositionsOf VerificationGap (ex_marked at) = []" "reviewMatrixOf (ex_marked at) = None"
  "commitsOf (ex_marked at) = []" "cd_id (ex_marked at) = ''demo''"
  by (simp_all add: ex_marked_def ex_doc_def reviewMatrixOf_def commitsOf_def)

lemma ex_marked_pending: "pendingOf (ex_marked at) = [PendingDisposition DesignConcern (ex_concern (Some (ex_audit at)))]"
  by (simp add: collectPendingReconciliationItems_def ex_marked_facts del: dispositionsOf.simps) (simp add: ex_concern_def)

lemma ex_marked_distinct: "keysDistinct (ex_marked at)" "reconcilable (ex_marked at)"
proof -
  have "distinct (map dispositionKey (dispositionsOf fam (ex_marked at)))" for fam
    by (cases fam) (simp_all only: ex_marked_facts, simp_all)
  then show "keysDistinct (ex_marked at)" by (simp add: keysDistinct_def)
  then show "reconcilable (ex_marked at)" by (simp add: reconcilable_def ex_marked_facts)
qed

lemma ex_marked_fresh: "freshOperation mi ex_menv (ex_marked at)"
  by (simp add: freshOperation_def ex_marked_facts)

definition ex_args :: disposition_args where
  "ex_args = \<lparr>dg_taskId = ''t1'', dg_concernKey = ''neighbor:0'', dg_disposition = DvSplit, dg_evidence = ''split out'', dg_dryRun = False\<rparr>"

theorem disposition_is_recorded_witness:
  "\<exists>v x. runDisposition designConcernConfig ''demo'' ex_args ''now'' (GetOk (ex_doc\<lparr>cd_tasks := Some [newTask ''t1'' ''T'']\<rparr>))
      ex_menv (Valid (ex_marked ''t'')) = (DispRecorded x, Valid v) \<and>
    dispositionsOf DesignConcern v = [x] \<and> di_disposition x = DvSplit"
proof -
  obtain x where x: "parseDisposition ex_args ''now'' = Some x" "dispositionKey x = (''t1'', ''neighbor:0'')" "di_disposition x = DvSplit"
    by (simp add: parseDisposition_def ex_args_def trim_def isWs_def dispositionKey_def)
  have t: "dg_taskId ex_args \<in> tk_id ` set (orEmpty (cd_tasks (ex_doc\<lparr>cd_tasks := Some [newTask ''t1'' ''T'']\<rparr>)))" "\<not> dg_dryRun ex_args"
    by (simp_all add: ex_args_def newTask_def)
  have f: "dc_field designConcernConfig = DesignConcern" by (simp add: designConcernConfig_def)
  have "upsertDisposition (dispositionsOf DesignConcern (ex_marked ''t'')) x = [x]"
    by (simp only: ex_marked_facts) (simp add: upsertDisposition_def x(2), simp add: dispositionKey_def ex_concern_def)
  moreover have "\<not> isSyntheticValidationDraftPattern (cd_id (ex_marked ''t''))"
    using ex_not_synthetic by (simp add: ex_marked_facts)
  ultimately show ?thesis
    using disposition_is_recorded [OF ex_working t(1) x(1) t(2) ex_marked_distinct(1), of designConcernConfig "''demo''" "''t''"]
      ex_not_synthetic x(3) ex_marked_fresh unfolding f by metis
qed

theorem reconciliation_clears_markers_witness:
  "\<exists>c v. reconcileRecoveredAcceptanceRemediation ''demo'' ex_menv (Valid (ex_marked ''t'')) (Valid (ex_marked ''t'')) =
     (Reconciled 1 c, Valid v) \<and> pendingOf v = []"
  using reconciliation_clears_markers [OF ex_working ex_marked_distinct(2), of "''demo''" "''t''"] ex_marked_fresh ex_not_synthetic
  by (auto simp: ex_marked_pending ex_marked_facts)

theorem newer_marker_survives_witness:
  "\<exists>res v. reconcileRecoveredAcceptanceRemediation ''demo'' ex_menv (Valid (ex_marked ''t1'')) (Valid (ex_marked ''t2'')) =
     (res, Valid v) \<and> ex_concern (Some (ex_audit ''t2'')) \<in> set (dispositionsOf DesignConcern v)"
proof -
  obtain res file' where r: "reconcileRecoveredAcceptanceRemediation ''demo'' ex_menv (Valid (ex_marked ''t1'')) (Valid (ex_marked ''t2'')) = (res, file')"
    by fastforce
  have "faithful (me_commit ex_menv)" using ex_working by (simp add: workingEnv_def)
  moreover have "ex_concern (Some (ex_audit ''t2'')) \<in> set (dispositionsOf DesignConcern (ex_marked ''t2''))"
    by (simp only: ex_marked_facts) simp
  moreover have "di_recovery_audit (ex_concern (Some (ex_audit ''t2''))) \<noteq> None" by (simp add: ex_concern_def)
  moreover have "PendingDisposition DesignConcern (ex_concern (Some (ex_audit ''t2''))) \<notin> set (pendingOf (ex_marked ''t1''))"
    by (simp add: ex_marked_pending) (simp add: ex_concern_def ex_audit_def)
  ultimately show ?thesis using newer_marker_survives [OF _ _ _ _ r] r by metis
qed

end
