(* ===== verification/Regex.thy ===== *)
theory Regex
  imports Evidence_Plan
begin

text \<open>
  The regular expressions the validators test texts with: a matcher that tries alternatives in the
  order of the JavaScript backtracking semantics, and the relation it decides.
\<close>

subsection \<open>Expressions\<close>

text \<open>\<open>RRun p\<close> is the greedy repetition of a character class; \<open>RBound\<close> is \<^verbatim>\<open>\b\<close>.\<close>

datatype rx =
    REmpty
  | RClass "char \<Rightarrow> bool"
  | RRun "char \<Rightarrow> bool"
  | RBound
  | RSeq rx rx
  | RAlt rx rx

text \<open>The positions at which a match from \<open>i\<close> may end, in the order they are tried.\<close>

fun rxEnds :: "rx \<Rightarrow> string \<Rightarrow> nat \<Rightarrow> nat list" where
  "rxEnds REmpty s i = [i]"
| "rxEnds (RClass p) s i = (if i < length s \<and> p (s ! i) then [Suc i] else [])"
| "rxEnds (RRun p) s i = map (\<lambda>k. i + k) (rev [0..<Suc (length (takeWhile p (drop i s)))])"
| "rxEnds RBound s i = (if wordBoundary s i then [i] else [])"
| "rxEnds (RSeq a b) s i = concat (map (rxEnds b s) (rxEnds a s i))"
| "rxEnds (RAlt a b) s i = rxEnds a s i @ rxEnds b s i"

definition rxTest :: "rx \<Rightarrow> string \<Rightarrow> bool" where
  "rxTest r s \<longleftrightarrow> (\<exists>i \<in> set [0..<Suc (length s)]. rxEnds r s i \<noteq> [])"

text \<open>\<^verbatim>\<open>exec\<close>: the leftmost match, its start and the end tried first.\<close>

definition rxExec :: "rx \<Rightarrow> string \<Rightarrow> (nat \<times> nat) option" where
  "rxExec r s = map_option (\<lambda>i. (i, hd (rxEnds r s i))) (List.find (\<lambda>i. rxEnds r s i \<noteq> []) [0..<Suc (length s)])"

definition rxMatched :: "rx \<Rightarrow> string \<Rightarrow> string option" where
  "rxMatched r s = map_option (\<lambda>(i, j). take (j - i) (drop i s)) (rxExec r s)"

subsection \<open>Abbreviations for patterns\<close>

text \<open>With the flag \<^verbatim>\<open>i\<close>, a letter of the pattern matches either case.\<close>

fun rxWord :: "string \<Rightarrow> rx" where
  "rxWord [] = REmpty"
| "rxWord [c] = RClass (\<lambda>x. lowerChar x = c)"
| "rxWord (c # cs) = RSeq (RClass (\<lambda>x. lowerChar x = c)) (rxWord cs)"

fun rxOneOf :: "rx list \<Rightarrow> rx" where
  "rxOneOf [] = RAlt (RClass (\<lambda>_. False)) (RClass (\<lambda>_. False))"
| "rxOneOf [r] = r"
| "rxOneOf (r # rs) = RAlt r (rxOneOf rs)"

fun rxSeqs :: "rx list \<Rightarrow> rx" where
  "rxSeqs [] = REmpty"
| "rxSeqs [r] = r"
| "rxSeqs (r # rs) = RSeq r (rxSeqs rs)"

definition rxOpt :: "rx \<Rightarrow> rx" where
  "rxOpt r = RAlt r REmpty"

definition rxPlus :: "(char \<Rightarrow> bool) \<Rightarrow> rx" where
  "rxPlus p = RSeq (RClass p) (RRun p)"

definition rxSpaces :: rx where
  "rxSpaces = rxPlus isWs"

text \<open>\<^verbatim>\<open>\b(a|b|...)\b\<close>.\<close>

definition rxWholeWords :: "rx list \<Rightarrow> rx" where
  "rxWholeWords rs = RSeq RBound (RSeq (rxOneOf rs) RBound)"

subsection \<open>What the matcher decides\<close>

inductive rx_matches :: "string \<Rightarrow> rx \<Rightarrow> nat \<Rightarrow> nat \<Rightarrow> bool" for s where
  m_empty: "rx_matches s REmpty i i"
| m_class: "i < length s \<Longrightarrow> p (s ! i) \<Longrightarrow> rx_matches s (RClass p) i (Suc i)"
| m_run_stop: "rx_matches s (RRun p) i i"
| m_run_step: "i < length s \<Longrightarrow> p (s ! i) \<Longrightarrow> rx_matches s (RRun p) (Suc i) j \<Longrightarrow> rx_matches s (RRun p) i j"
| m_bound: "wordBoundary s i \<Longrightarrow> rx_matches s RBound i i"
| m_seq: "rx_matches s a i k \<Longrightarrow> rx_matches s b k j \<Longrightarrow> rx_matches s (RSeq a b) i j"
| m_left: "rx_matches s a i j \<Longrightarrow> rx_matches s (RAlt a b) i j"
| m_right: "rx_matches s b i j \<Longrightarrow> rx_matches s (RAlt a b) i j"

inductive_simps rx_matches_simps:
  "rx_matches s REmpty i j" "rx_matches s (RClass p) i j" "rx_matches s RBound i j"
  "rx_matches s (RSeq a b) i j" "rx_matches s (RAlt a b) i j"

lemma run_of_prefix:
  "k \<le> length (takeWhile p (drop i s)) \<Longrightarrow> rx_matches s (RRun p) i (i + k)"
proof (induction k arbitrary: i)
  case 0
  then show ?case by (simp add: m_run_stop)
next
  case (Suc k)
  then have i: "i < length s" by (cases "i < length s") auto
  then have "drop i s = s ! i # drop (Suc i) s" by (rule Cons_nth_drop_Suc [symmetric])
  with Suc.prems have "p (s ! i)" "k \<le> length (takeWhile p (drop (Suc i) s))"
    by (auto split: if_splits)
  with i Suc.IH [of "Suc i"] show ?case by (auto intro: m_run_step)
qed

lemma prefix_of_run:
  assumes "rx_matches s r i j" "r = RRun p"
  shows "\<exists>k \<le> length (takeWhile p (drop i s)). j = i + k"
  using assms
proof (induction rule: rx_matches.induct)
  case (m_run_step i q j)
  then obtain k where k: "k \<le> length (takeWhile p (drop (Suc i) s))" "j = Suc i + k" by auto
  have "drop i s = s ! i # drop (Suc i) s" using m_run_step.hyps(1) by (rule Cons_nth_drop_Suc [symmetric])
  with k m_run_step.hyps(2) m_run_step.prems show ?case by (auto intro!: exI [of _ "Suc k"])
qed auto

lemma rxEnds_iff: "j \<in> set (rxEnds r s i) \<longleftrightarrow> rx_matches s r i j"
proof (induction r arbitrary: i j)
  case (RRun p)
  have "j \<in> set (rxEnds (RRun p) s i) \<longleftrightarrow> (\<exists>k \<le> length (takeWhile p (drop i s)). j = i + k)"
    by (auto simp: image_iff less_Suc_eq_le simp del: upt_Suc intro!: exI [of _ "j - i"])
  also have "\<dots> \<longleftrightarrow> rx_matches s (RRun p) i j" using run_of_prefix prefix_of_run by blast
  finally show ?case .
qed (auto simp: rx_matches_simps)

lemma rxTest_iff: "rxTest r s \<longleftrightarrow> (\<exists>i \<le> length s. \<exists>j. rx_matches s r i j)"
proof -
  have "rxEnds r s i \<noteq> [] \<longleftrightarrow> (\<exists>j. rx_matches s r i j)" for i
    unfolding rxEnds_iff [symmetric] by (cases "rxEnds r s i") auto
  then show ?thesis by (auto simp: rxTest_def less_Suc_eq_le simp del: upt_Suc)
qed

lemma rxExec_sound:
  assumes "rxExec r s = Some (i, j)"
  shows "rx_matches s r i j" and "\<And>i'. i' < i \<Longrightarrow> \<not> rx_matches s r i' j'"
proof -
  from assms obtain k where k: "k < Suc (length s)" "[0..<Suc (length s)] ! k = i" "rxEnds r s i \<noteq> []"
      "\<forall>m < k. rxEnds r s ([0..<Suc (length s)] ! m) = []" "j = hd (rxEnds r s i)"
    by (auto simp: rxExec_def find_Some_iff simp del: upt_Suc)
  then have "k = i" by (simp del: upt_Suc)
  from k(3,5) show "rx_matches s r i j" by (simp flip: rxEnds_iff)
  fix i' assume "i' < i"
  with k \<open>k = i\<close> have "rxEnds r s i' = []" by (auto simp del: upt_Suc)
  then show "\<not> rx_matches s r i' j'" by (simp flip: rxEnds_iff)
qed

lemma all_less_Suc: "(\<forall>k < Suc n. P k) \<longleftrightarrow> P 0 \<and> (\<forall>k < n. P (Suc k))"
  by (auto simp: less_Suc_eq_0_disj)

lemma word_matches:
  "rx_matches s (rxWord w) i j \<longleftrightarrow>
     j = i + length w \<and> (w = [] \<or> j \<le> length s) \<and> (\<forall>k < length w. lowerChar (s ! (i + k)) = w ! k)"
proof (induction w arbitrary: i rule: rxWord.induct)
  case (3 c d cs)
  have "rx_matches s (rxWord (c # d # cs)) i j \<longleftrightarrow>
      i < length s \<and> lowerChar (s ! i) = c \<and> rx_matches s (rxWord (d # cs)) (Suc i) j"
    by (auto simp: rx_matches_simps)
  also have "\<dots> \<longleftrightarrow> j = i + length (c # d # cs) \<and> j \<le> length s \<and> lowerChar (s ! i) = c \<and>
      (\<forall>k < length (d # cs). lowerChar (s ! (Suc i + k)) = (d # cs) ! k)"
    unfolding 3 by auto
  finally show ?case by (simp only: all_less_Suc list.size(4) One_nat_def add_Suc_right add_0_right)
      (auto simp: all_less_Suc)
qed (auto simp: rx_matches_simps)

end
