(* ===== verification/Prep_Readiness.thy ===== *)
theory Prep_Readiness
  imports Projection_Commit Regex
begin

text \<open>
  The checks of the planning gate (\<^verbatim>\<open>plugin/src/validator/prep-readiness.ts\<close>): language smells of new
  requirements, scenarios, the task graph, cross-repository routing, frontend applicability, TDD
  intent, evidence policies and plans, coverage of critical contract items.  An issue keeps its
  code, severity and path; messages are left out.
\<close>

subsection \<open>Issues\<close>

datatype severity = SevError | SevWarning

record validation_issue =
  vi_code :: string
  vi_severity :: severity
  vi_path :: string

definition issueAt :: "string \<Rightarrow> severity \<Rightarrow> string \<Rightarrow> validation_issue" where
  "issueAt code sev path = \<lparr>vi_code = code, vi_severity = sev, vi_path = path\<rparr>"

subsection \<open>Smell patterns\<close>

definition smellSubjective :: rx where
  "smellSubjective = rxWholeWords (map rxWord [''easy'', ''simple'', ''nice'', ''intuitive'']
     @ [rxSeqs [rxWord ''user'', RClass (\<lambda>c. c = CHR ''-'' \<or> c = CHR '' ''), rxWord ''friendly'']]
     @ map rxWord [''natural'', ''obvious'', ''trivial''])"

definition smellAmbiguous :: rx where
  "smellAmbiguous = rxWholeWords ([RSeq (rxWord ''etc'') (rxOpt (RClass (\<lambda>c. c = CHR ''.'')))]
     @ map rxWord [''and/or'', ''various'', ''several'', ''some'', ''appropriate'', ''relevant'', ''suitable''])"

definition smellSuperlative :: rx where
  "smellSuperlative = rxWholeWords (map rxWord [''best'', ''fastest'', ''slowest'', ''most'', ''least'', ''optimal'',
     ''perfect'', ''always'', ''never'', ''maximum'', ''minimum''])"

definition smellNegative :: rx where
  "smellNegative = rxWholeWords (map rxWord [''not'', ''never'', ''without'']
     @ [rxSeqs [rxWord ''no'', rxSpaces, rxPlus isWordChar]]
     @ map rxWord [''avoid'', ''prevent'', ''disallow'', ''block''])"

definition smellTotality :: rx where
  "smellTotality = rxWholeWords (map rxWord [''all'', ''every'', ''any'', ''none'', ''everything'', ''everyone'',
     ''nobody'', ''everywhere''])"

definition smellPatterns :: "(string \<times> rx) list" where
  "smellPatterns = [(''SMELL_SUBJECTIVE'', smellSubjective), (''SMELL_AMBIGUOUS'', smellAmbiguous),
     (''SMELL_SUPERLATIVE'', smellSuperlative), (''SMELL_NEGATIVE'', smellNegative),
     (''SMELL_TOTALITY'', smellTotality)]"

subsection \<open>Requirements\<close>

text \<open>The requirements that the deltas of a change add, with the path of their delta.\<close>

definition deltasOf :: "change_doc \<Rightarrow> (string \<times> delta list) list" where
  "deltasOf d = (case cd_deltas d of Some ds \<Rightarrow> ds | None \<Rightarrow> [])"

fun addedRequirement :: "string \<Rightarrow> delta \<Rightarrow> (string \<times> requirement) list" where
  "addedRequirement cap (DeltaAdd i req) = [(''deltas.'' @ cap @ ''.'' @ i @ ''.requirement'', req)]"
| "addedRequirement cap _ = []"

definition addedRequirements :: "change_doc \<Rightarrow> (string \<times> requirement) list" where
  "addedRequirements d = concat (map (\<lambda>(cap, ds). concat (map (addedRequirement cap) ds)) (deltasOf d))"

definition checkRequirementSmells :: "change_doc \<Rightarrow> validation_issue list" where
  "checkRequirementSmells d = concat (map (\<lambda>(path, req).
     map (\<lambda>(code, r). issueAt code SevWarning (path @ ''.title''))
       (filter (\<lambda>(code, r). rxTest r (rq_title req)) smellPatterns)) (addedRequirements d))"

definition checkScenarioAdequacy :: "change_doc \<Rightarrow> validation_issue list" where
  "checkScenarioAdequacy d = map (\<lambda>(path, req). issueAt ''SCENARIO_MISSING'' SevError (path @ ''.scenarios''))
     (filter (\<lambda>(path, req). orEmpty (rq_scenarios req) = []) (addedRequirements d))"

subsection \<open>The task graph\<close>

definition tasksOf :: "change_doc \<Rightarrow> task list" where
  "tasksOf d = (case cd_tasks d of Some ts \<Rightarrow> ts | None \<Rightarrow> [])"

definition activeTasks :: "change_doc \<Rightarrow> task list" where
  "activeTasks d = filter (\<lambda>t. tk_status t \<noteq> TCancelled) (tasksOf d)"

definition blockingTargets :: "task \<Rightarrow> string list" where
  "blockingTargets t = map dp_target (filter (\<lambda>x. dp_type x = BlockedBy) (orEmpty (tk_deps t)))"

text \<open>\<open>new Map\<close> keeps the last task of an identifier.\<close>

definition taskById :: "task list \<Rightarrow> string \<Rightarrow> task option" where
  "taskById ts i = List.find (\<lambda>t. tk_id t = i) (rev ts)"

definition taskPath :: "task \<Rightarrow> string \<Rightarrow> string" where
  "taskPath t suffix = ''tasks.'' @ tk_id t @ suffix"

definition inversions :: "task list \<Rightarrow> task \<Rightarrow> validation_issue list" where
  "inversions ts t =
     (if Option.bind (metadataGet t ''tdd_intent'') parseTddIntent = None \<and> isTestTask (tk_title t)
      then concat (map (\<lambda>i. case taskById ts i of
          Some dep \<Rightarrow> if isImplTask (tk_title dep) then [issueAt ''TASK_TDD_INVERSION'' SevWarning (taskPath t [])] else []
        | None \<Rightarrow> []) (blockingTargets t))
      else [])"

definition orphans :: "task list \<Rightarrow> task \<Rightarrow> validation_issue list" where
  "orphans ts t =
     (if blockingTargets t = [] \<and> tk_id t \<notin> set (concat (map blockingTargets ts)) \<and> 1 < length ts
      then [issueAt ''TASK_ORPHAN'' SevWarning (taskPath t [])] else [])"

definition checkTaskGraphIntegrity :: "change_doc \<Rightarrow> validation_issue list" where
  "checkTaskGraphIntegrity d =
     (let ts = activeTasks d in concat (map (\<lambda>t. inversions ts t @ orphans ts t) ts))"

subsection \<open>Cross-repository routing\<close>

definition crossRepoHints :: rx where
  "crossRepoHints = rxOneOf
     [rxSeqs [rxWord ''['', rxPlus (\<lambda>c. isWordChar c \<or> c = CHR ''-''), rxWord '']''],
      rxWord ''~/dev/'', rxWord ''~/repos/'',
      rxSeqs [rxWord ''/home/'', rxPlus isWordChar, rxWord ''/dev/'']]"

definition crossRepoIssues :: "task \<Rightarrow> validation_issue list" where
  "crossRepoIssues t =
     (let hasRepo = truthy (tk_target_repo t); hasPath = truthy (tk_target_path t)
      in if hasRepo \<and> \<not> hasPath then [issueAt ''CROSS_REPO_MISSING_METADATA'' SevError (taskPath t ''.target_path'')]
         else if \<not> hasRepo \<and> hasPath then [issueAt ''CROSS_REPO_MISSING_METADATA'' SevError (taskPath t ''.target_repo'')]
         else if \<not> hasRepo \<and> \<not> hasPath \<and> rxTest crossRepoHints (tk_title t)
         then [issueAt ''CROSS_REPO_HINT_UNROUTED'' SevWarning (taskPath t [])]
         else [])"

definition checkCrossRepoRouting :: "change_doc \<Rightarrow> validation_issue list" where
  "checkCrossRepoRouting d = concat (map crossRepoIssues (tasksOf d))"

subsection \<open>Frontend applicability\<close>

definition frontendHint :: rx where
  "frontendHint = rxWholeWords (map rxWord [''frontend'', ''ui'', ''component'', ''view'', ''page'', ''tsx'', ''jsx'',
     ''css'', ''html'', ''layout'', ''responsive'', ''accessibility'', ''a11y'', ''visual'', ''button'', ''form'', ''dashboard''])"

definition isStructuredFrontendScope :: "task \<Rightarrow> bool" where
  "isStructuredFrontendScope t \<longleftrightarrow> metadataGet t ''frontend_required'' = Some ''true''
     \<or> metadataGet t ''frontend_scope'' = Some ''true'' \<or> metadataGet t ''visual_surface'' = Some ''true''"

definition frontendIssues :: "task \<Rightarrow> validation_issue list" where
  "frontendIssues t =
     (let value = metadataGet t ''frontend''
      in if isStructuredFrontendScope t then
           (if value \<noteq> Some ''true'' \<and> value \<noteq> Some ''false''
            then [issueAt ''FRONTEND_APPLICABILITY_MISSING'' SevError (taskPath t ''.metadata.frontend'')]
            else if value = Some ''false'' \<and> \<not> truthy (map_option trim (metadataGet t ''frontend_rationale''))
            then [issueAt ''FRONTEND_RATIONALE_MISSING'' SevError (taskPath t ''.metadata.frontend_rationale'')]
            else [])
         else if value = None \<and>
           rxTest frontendHint (tk_title t @ '' '' @ (case tk_section t of Some s \<Rightarrow> s | None \<Rightarrow> []))
         then [issueAt ''FRONTEND_APPLICABILITY_HINT'' SevWarning (taskPath t ''.metadata.frontend'')]
         else [])"

definition checkFrontendApplicability :: "change_doc \<Rightarrow> validation_issue list" where
  "checkFrontendApplicability d = concat (map frontendIssues (activeTasks d))"

subsection \<open>TDD intent and evidence\<close>

definition checkTddIntentAssigned :: "change_doc \<Rightarrow> severity \<Rightarrow> validation_issue list" where
  "checkTddIntentAssigned d sev =
     map (\<lambda>t. issueAt ''TASK_TDD_INTENT_MISSING'' sev (taskPath t ''.metadata.tdd_intent''))
       (filter (\<lambda>t. Option.bind (metadataGet t ''tdd_intent'') parseTddIntent = None) (activeTasks d))"

definition nonCodeDeliverableTypes :: "task_type list" where
  "nonCodeDeliverableTypes = [TyDocs, TyResearch, TyApproval, TyOps, TyVerification]"

definition nonCodeIssues :: "task \<Rightarrow> validation_issue list" where
  "nonCodeIssues t =
     (case tk_type t of
        None \<Rightarrow> []
      | Some ty \<Rightarrow>
          (if ty = TyCode \<or> ty \<notin> set nonCodeDeliverableTypes then []
           else (case Option.bind (tk_evidence_policy t) parsePolicy of
               None \<Rightarrow> [issueAt ''NON_CODE_EVIDENCE_POLICY_MISSING'' SevError (taskPath t ''.evidence_policy'')]
             | Some p \<Rightarrow>
                 (if p = PNotApplicable \<and> \<not> truthy (Option.bind (tk_contract_refs t) cr_not_applicable_reason)
                  then [issueAt ''NON_CODE_EVIDENCE_POLICY_MISSING'' SevError (taskPath t ''.evidence_policy'')]
                  else []))))"

definition checkNonCodeEvidencePolicy :: "change_doc \<Rightarrow> validation_issue list" where
  "checkNonCodeEvidencePolicy d = concat (map nonCodeIssues (activeTasks d))"

definition evidencePlanIssues :: "task \<Rightarrow> validation_issue list" where
  "evidencePlanIssues t =
     (let errors = validateTaskEvidenceForStage t Prep [];
          issue = issueAt ''EVIDENCE_PLAN_INVALID'' SevError (taskPath t ''.evidence_plan'')
      in if errors \<noteq> [] then map (\<lambda>_. issue) errors
         else if isBehaviorCritical (effectiveType t) \<and> es_policy (resolveTaskEvidence t) = PNotApplicable then [issue]
         else [])"

definition checkTaskEvidencePlan :: "change_doc \<Rightarrow> validation_issue list" where
  "checkTaskEvidencePlan d = concat (map evidencePlanIssues (activeTasks d))"

subsection \<open>Critical contract items\<close>

definition coveredItems :: "change_doc \<Rightarrow> string list" where
  "coveredItems d = concat (map (\<lambda>t. case tk_contract_refs t of
       None \<Rightarrow> []
     | Some refs \<Rightarrow> orEmpty (cr_implements refs) @ orEmpty (cr_verifies refs)) (activeTasks d))"

definition checkCriticalOpsCoverage :: "change_doc \<Rightarrow> validation_issue list" where
  "checkCriticalOpsCoverage d =
     (case cd_contract d of
        None \<Rightarrow> []
      | Some c \<Rightarrow> map (\<lambda>it. issueAt ''CRITICAL_OPS_UNCOVERED'' SevError (''contract.items.'' @ ci_id it))
          (filter (\<lambda>it. ci_requiredCritical it = Some True \<and> \<not> truthy (ci_notRequiredReason it)
             \<and> ci_id it \<notin> set (coveredItems d)) (cc_items c)))"

definition checkTaskOrderingProvisional :: "change_doc \<Rightarrow> validation_issue list" where
  "checkTaskOrderingProvisional d =
     map (\<lambda>t. issueAt ''TASK_ORDERING_PROVISIONAL'' SevWarning (taskPath t []))
       (filter (\<lambda>t. metadataGet t ''tdd_intent'' = Some ''inline'' \<or> metadataGet t ''tdd_intent'' = None) (activeTasks d))"

subsection \<open>All checks\<close>

datatype tdd_enforcement = TddStrict | TddAdvisory | TddOff

record prep_result =
  pr_passed :: bool
  pr_mustFailures :: "validation_issue list"
  pr_warnings :: "validation_issue list"

definition prepIssues :: "change_doc \<Rightarrow> tdd_enforcement \<Rightarrow> validation_issue list" where
  "prepIssues d mode =
     checkRequirementSmells d @ checkScenarioAdequacy d @ checkTaskGraphIntegrity d @ checkCrossRepoRouting d
     @ checkFrontendApplicability d @ checkCriticalOpsCoverage d @ checkNonCodeEvidencePolicy d
     @ checkTaskEvidencePlan d @ checkTaskOrderingProvisional d
     @ (if mode = TddOff then [] else checkTddIntentAssigned d (if mode = TddAdvisory then SevWarning else SevError))"

definition runPrepReadinessChecks :: "change_doc \<Rightarrow> tdd_enforcement \<Rightarrow> prep_result" where
  "runPrepReadinessChecks d mode =
     (let must = filter (\<lambda>i. vi_severity i = SevError) (prepIssues d mode)
      in \<lparr>pr_passed = (must = []), pr_mustFailures = must,
          pr_warnings = filter (\<lambda>i. vi_severity i = SevWarning) (prepIssues d mode)\<rparr>)"

subsection \<open>What blocks the gate\<close>

definition clean :: "validation_issue list \<Rightarrow> bool" where
  "clean is \<longleftrightarrow> (\<forall>i \<in> set is. vi_severity i \<noteq> SevError)"

lemma clean_simps [simp]:
  "clean []" "clean (xs @ ys) \<longleftrightarrow> clean xs \<and> clean ys"
  "clean (i # is) \<longleftrightarrow> vi_severity i \<noteq> SevError \<and> clean is"
  "clean (concat xss) \<longleftrightarrow> (\<forall>xs \<in> set xss. clean xs)"
  by (auto simp: clean_def)

lemma clean_map [simp]: "clean (map f xs) \<longleftrightarrow> (\<forall>x \<in> set xs. vi_severity (f x) \<noteq> SevError)"
  by (simp add: clean_def)

lemma issueAt_severity [simp]: "vi_severity (issueAt code sev path) = sev"
  by (simp add: issueAt_def)

lemma passed_clean: "pr_passed (runPrepReadinessChecks d mode) \<longleftrightarrow> clean (prepIssues d mode)"
  by (simp add: runPrepReadinessChecks_def clean_def filter_empty_conv)

lemma clean_smells [simp]: "clean (checkRequirementSmells d)"
  by (auto simp: checkRequirementSmells_def)

lemma clean_graph [simp]: "clean (checkTaskGraphIntegrity d)"
  by (auto simp: checkTaskGraphIntegrity_def inversions_def orphans_def Let_def split: option.splits)

lemma clean_ordering [simp]: "clean (checkTaskOrderingProvisional d)"
  by (simp add: checkTaskOrderingProvisional_def)

lemma clean_scenarios:
  "clean (checkScenarioAdequacy d) \<longleftrightarrow> (\<forall>(path, req) \<in> set (addedRequirements d). orEmpty (rq_scenarios req) \<noteq> [])"
  by (auto simp: checkScenarioAdequacy_def)

definition routed :: "task \<Rightarrow> bool" where
  "routed t \<longleftrightarrow> (truthy (tk_target_repo t) \<longleftrightarrow> truthy (tk_target_path t))"

definition frontendDecided :: "task \<Rightarrow> bool" where
  "frontendDecided t \<longleftrightarrow> (isStructuredFrontendScope t \<longrightarrow>
     metadataGet t ''frontend'' = Some ''true'' \<or>
     metadataGet t ''frontend'' = Some ''false'' \<and> truthy (map_option trim (metadataGet t ''frontend_rationale'')))"

definition deliverableEvidenced :: "task \<Rightarrow> bool" where
  "deliverableEvidenced t \<longleftrightarrow> (tk_type t \<noteq> None \<and> tk_type t \<noteq> Some TyCode \<longrightarrow>
     (\<exists>p. Option.bind (tk_evidence_policy t) parsePolicy = Some p \<and>
        (p = PNotApplicable \<longrightarrow> truthy (Option.bind (tk_contract_refs t) cr_not_applicable_reason))))"

definition intentAssigned :: "task \<Rightarrow> bool" where
  "intentAssigned t \<longleftrightarrow> Option.bind (metadataGet t ''tdd_intent'') parseTddIntent \<noteq> None"

lemma clean_routing: "clean (crossRepoIssues t) \<longleftrightarrow> routed t"
  by (auto simp: crossRepoIssues_def routed_def Let_def)

lemma clean_frontend: "clean (frontendIssues t) \<longleftrightarrow> frontendDecided t"
  by (auto simp: frontendIssues_def frontendDecided_def Let_def)

lemma nonCode_types [simp]: "ty \<in> set nonCodeDeliverableTypes \<longleftrightarrow> ty \<noteq> TyCode"
  by (cases ty) (simp_all add: nonCodeDeliverableTypes_def)

lemma clean_nonCode: "clean (nonCodeIssues t) \<longleftrightarrow> deliverableEvidenced t"
  by (auto simp: nonCodeIssues_def deliverableEvidenced_def split: option.splits)

text \<open>An evidence plan without errors never makes behavior-critical work not applicable.\<close>

lemma resolved_not_na:
  assumes "es_errors (resolveTaskEvidence t) = []" "isBehaviorCritical (effectiveType t)"
  shows "es_policy (resolveTaskEvidence t) \<noteq> PNotApplicable"
  using assms by (auto simp: resolveTaskEvidence_def Let_def issueIf_def split: prod.splits if_splits)

lemma clean_plan: "clean (evidencePlanIssues t) \<longleftrightarrow> es_errors (resolveTaskEvidence t) = []"
  using resolved_not_na
  by (auto simp: evidencePlanIssues_def validateTaskEvidenceForStage_def Let_def)

lemma clean_intents:
  "clean (checkTddIntentAssigned d sev) \<longleftrightarrow> sev = SevWarning \<or> (\<forall>t \<in> set (activeTasks d). intentAssigned t)"
  by (cases sev) (auto simp: checkTddIntentAssigned_def intentAssigned_def)

definition criticalCovered :: "change_doc \<Rightarrow> bool" where
  "criticalCovered d \<longleftrightarrow> (\<forall>c it. cd_contract d = Some c \<longrightarrow> it \<in> set (cc_items c) \<longrightarrow>
     ci_requiredCritical it = Some True \<longrightarrow> truthy (ci_notRequiredReason it) \<or>
     (\<exists>t refs. t \<in> set (activeTasks d) \<and> tk_contract_refs t = Some refs \<and>
        (ci_id it \<in> set (orEmpty (cr_implements refs)) \<or> ci_id it \<in> set (orEmpty (cr_verifies refs)))))"

lemma coveredItems_iff:
  "i \<in> set (coveredItems d) \<longleftrightarrow> (\<exists>t refs. t \<in> set (activeTasks d) \<and> tk_contract_refs t = Some refs \<and>
     (i \<in> set (orEmpty (cr_implements refs)) \<or> i \<in> set (orEmpty (cr_verifies refs))))"
  by (force simp: coveredItems_def split: option.splits)

lemma clean_critical: "clean (checkCriticalOpsCoverage d) \<longleftrightarrow> criticalCovered d"
  by (auto simp: checkCriticalOpsCoverage_def criticalCovered_def coveredItems_iff split: option.splits)

lemma clean_prepIssues:
  "clean (prepIssues d mode) \<longleftrightarrow>
     (\<forall>(path, req) \<in> set (addedRequirements d). orEmpty (rq_scenarios req) \<noteq> []) \<and>
     (\<forall>t \<in> set (tasksOf d). routed t) \<and> (\<forall>t \<in> set (activeTasks d). frontendDecided t) \<and>
     (\<forall>t \<in> set (activeTasks d). deliverableEvidenced t) \<and>
     (\<forall>t \<in> set (activeTasks d). es_errors (resolveTaskEvidence t) = []) \<and>
     (mode = TddStrict \<longrightarrow> (\<forall>t \<in> set (activeTasks d). intentAssigned t)) \<and> criticalCovered d"
  by (cases mode) (auto simp: prepIssues_def clean_scenarios checkCrossRepoRouting_def clean_routing
      checkFrontendApplicability_def clean_frontend checkNonCodeEvidencePolicy_def clean_nonCode
      checkTaskEvidencePlan_def clean_plan clean_intents clean_critical)

text \<open>
  Claim C10. The planning checks pass exactly when every new requirement has a scenario, every task
  names a target repository and a target path together or neither, every task that is not cancelled
  has decided its frontend scope, declared how its deliverable is evidenced and has an evidence plan
  without errors, every critical contract item is covered by such a task or exempted with a reason,
  and, in strict mode, every such task has an assigned TDD intent.
\<close>

theorem prep_passes_iff:
  "pr_passed (runPrepReadinessChecks d mode) \<longleftrightarrow>
     (\<forall>(path, req) \<in> set (addedRequirements d). orEmpty (rq_scenarios req) \<noteq> []) \<and>
     (\<forall>t \<in> set (tasksOf d). routed t) \<and>
     (\<forall>t \<in> set (activeTasks d). frontendDecided t \<and> deliverableEvidenced t \<and>
        es_errors (resolveTaskEvidence t) = [] \<and> (mode = TddStrict \<longrightarrow> intentAssigned t)) \<and>
     criticalCovered d"
  unfolding passed_clean clean_prepIssues by blast

text \<open>Other titles, sections and requirement titles for the same change.\<close>

definition retitled ::
  "(task \<Rightarrow> string) \<Rightarrow> (task \<Rightarrow> string option) \<Rightarrow> (requirement \<Rightarrow> string) \<Rightarrow> change_doc \<Rightarrow> change_doc" where
  "retitled f g h d = d\<lparr>
     cd_tasks := map_option (map (\<lambda>t. t\<lparr>tk_title := f t, tk_section := g t\<rparr>)) (cd_tasks d),
     cd_deltas := map_option (map (\<lambda>(cap, ds). (cap, map (\<lambda>x. case x of
         DeltaAdd i r \<Rightarrow> DeltaAdd i (r\<lparr>rq_title := h r\<rparr>) | _ \<Rightarrow> x) ds))) (cd_deltas d)\<rparr>"

lemma retitled_tasks: "tasksOf (retitled f g h d) = map (\<lambda>t. t\<lparr>tk_title := f t, tk_section := g t\<rparr>) (tasksOf d)"
  by (simp add: retitled_def tasksOf_def split: option.splits)

lemma retitled_active: "activeTasks (retitled f g h d) = map (\<lambda>t. t\<lparr>tk_title := f t, tk_section := g t\<rparr>) (activeTasks d)"
  by (simp add: activeTasks_def retitled_tasks filter_map o_def)

lemma retitled_requirements:
  "addedRequirements (retitled f g h d) = map (\<lambda>(path, r). (path, r\<lparr>rq_title := h r\<rparr>)) (addedRequirements d)"
proof -
  have 1: "addedRequirement cap (case x of DeltaAdd i r \<Rightarrow> DeltaAdd i (r\<lparr>rq_title := h r\<rparr>) | _ \<Rightarrow> x)
      = map (\<lambda>(path, r). (path, r\<lparr>rq_title := h r\<rparr>)) (addedRequirement cap x)" for cap x
    by (cases x) simp_all
  show ?thesis
    by (simp add: addedRequirements_def retitled_def deltasOf_def map_concat o_def 1 case_prod_beta split: option.splits)
qed

lemma retitled_task:
  "routed (t\<lparr>tk_title := x, tk_section := y\<rparr>) = routed t"
  "frontendDecided (t\<lparr>tk_title := x, tk_section := y\<rparr>) = frontendDecided t"
  "deliverableEvidenced (t\<lparr>tk_title := x, tk_section := y\<rparr>) = deliverableEvidenced t"
  "intentAssigned (t\<lparr>tk_title := x, tk_section := y\<rparr>) = intentAssigned t"
  by (simp_all add: routed_def frontendDecided_def isStructuredFrontendScope_def metadataGet_def
      deliverableEvidenced_def intentAssigned_def)

lemma retitled_evidence: "resolveTaskEvidence (t\<lparr>tk_title := x, tk_section := y\<rparr>) = resolveTaskEvidence t"
proof -
  let ?t = "t\<lparr>tk_title := x, tk_section := y\<rparr>"
  have f: "tk_evidence_plan ?t = tk_evidence_plan t" "tk_tdd_reclassification ?t = tk_tdd_reclassification t"
    "tk_type ?t = tk_type t" "tk_evidence_policy ?t = tk_evidence_policy t" by simp_all
  show ?thesis
    by (simp only: resolveTaskEvidence_def resolveCompatibility_def effectivePolicy_def declaredPolicy_def
        effectiveType_def f)
qed

lemma retitled_critical: "criticalCovered (retitled f g h d) = criticalCovered d"
proof -
  have "coveredItems (retitled f g h d) = coveredItems d"
    by (simp add: coveredItems_def retitled_active o_def)
  then show ?thesis
    unfolding criticalCovered_def coveredItems_iff [symmetric] by (simp add: retitled_def)
qed

text \<open>
  Titles and section labels never decide whether the planning gate passes: the heuristics
  that read them (smells, TDD inversion, repository and frontend hints) only warn.
\<close>

theorem titles_never_block_planning:
  "pr_passed (runPrepReadinessChecks (retitled f g h d) mode) = pr_passed (runPrepReadinessChecks d mode)"
  unfolding passed_clean clean_prepIssues
  by (simp add: retitled_critical retitled_tasks retitled_active retitled_requirements retitled_task retitled_evidence case_prod_beta)

text \<open>The change without its cancelled tasks.\<close>

definition withoutCancelled :: "change_doc \<Rightarrow> change_doc" where
  "withoutCancelled d = d\<lparr>cd_tasks := map_option (filter (\<lambda>t. tk_status t \<noteq> TCancelled)) (cd_tasks d)\<rparr>"

lemma withoutCancelled_simps [simp]:
  "tasksOf (withoutCancelled d) = activeTasks d"
  "activeTasks (withoutCancelled d) = activeTasks d"
  "addedRequirements (withoutCancelled d) = addedRequirements d"
  by (simp_all add: withoutCancelled_def activeTasks_def tasksOf_def addedRequirements_def deltasOf_def split: option.splits)

lemma withoutCancelled_critical [simp]: "criticalCovered (withoutCancelled d) = criticalCovered d"
proof -
  have "cd_contract (withoutCancelled d) = cd_contract d" by (simp add: withoutCancelled_def)
  then show ?thesis by (simp add: criticalCovered_def)
qed

text \<open>
  A cancelled task counts for one check only: the routing check does not skip it, so a
  cancelled task that names a target repository without a path, or a path without a repository,
  still blocks the gate; otherwise the gate passes with the cancelled tasks exactly when it passes
  without them.
\<close>

theorem cancelled_tasks_block_by_routing_only:
  "pr_passed (runPrepReadinessChecks d mode) \<longleftrightarrow>
     pr_passed (runPrepReadinessChecks (withoutCancelled d) mode) \<and>
     filter (\<lambda>t. tk_status t = TCancelled \<and> \<not> routed t) (tasksOf d) = []"
proof -
  have "set (activeTasks d) = {t \<in> set (tasksOf d). tk_status t \<noteq> TCancelled}" by (auto simp: activeTasks_def)
  then have "(\<forall>t \<in> set (tasksOf d). routed t) \<longleftrightarrow>
      (\<forall>t \<in> set (activeTasks d). routed t) \<and> filter (\<lambda>t. tk_status t = TCancelled \<and> \<not> routed t) (tasksOf d) = []"
    by (auto simp: filter_empty_conv)
  then show ?thesis unfolding passed_clean clean_prepIssues withoutCancelled_simps withoutCancelled_critical by blast
qed

subsection \<open>Concrete changes\<close>

definition prep_doc :: "task list \<Rightarrow> change_doc" where
  "prep_doc ts = \<lparr>cd_id = ''demo'', cd_title = ''Demo'', cd_status = Draft, cd_tasks = Some ts, cd_deltas = Some [],
     cd_gates = None, cd_documents = None, cd_contract = None, cd_acceptanceCriteria = None, cd_design_dispositions = None, cd_verification_dispositions = None, cd_reentry_history = None, cd_ops_links = None, cd_ops_followup = None,
     cd_projection_revision = None, cd_projection_commits = None, cd_state_revision = None, cd_rest = JNull\<rparr>"

definition prep_task :: task where
  "prep_task = (newTask ''t1'' ''Fix all the tests'')\<lparr>tk_type := Some TyCode, tk_metadata := Some [(''tdd_intent'', ''inline'')]\<rparr>"

theorem prep_passes_iff_witness:
  "pr_passed (runPrepReadinessChecks (prep_doc [prep_task]) TddStrict) \<and>
   \<not> pr_passed (runPrepReadinessChecks (prep_doc [prep_task\<lparr>tk_metadata := None\<rparr>]) TddStrict)"
proof -
  have "routed t" "frontendDecided t" "deliverableEvidenced t"
    if "t \<in> {prep_task, prep_task\<lparr>tk_metadata := None\<rparr>}" for t
    using that by (auto simp: prep_task_def newTask_def routed_def frontendDecided_def isStructuredFrontendScope_def
        metadataGet_def deliverableEvidenced_def)
  moreover have "es_errors (resolveTaskEvidence prep_task) = []" by code_simp
  moreover have "intentAssigned prep_task" "\<not> intentAssigned (prep_task\<lparr>tk_metadata := None\<rparr>)"
    by (simp_all add: intentAssigned_def prep_task_def newTask_def metadataGet_def parseTddIntent_def)
  ultimately show ?thesis
    unfolding prep_passes_iff
    by (simp add: prep_doc_def addedRequirements_def deltasOf_def tasksOf_def activeTasks_def criticalCovered_def
        prep_task_def newTask_def)
qed

end
