(* ===== verification/Clarify_Readiness.thy ===== *)
theory Clarify_Readiness
  imports Prep_Readiness
begin

text \<open>
  The ambiguity checks of the planning gate (\<^verbatim>\<open>plugin/src/validator/clarify-readiness.ts\<close>) on the title
  of a change, its deltas and the text of its proposal, with their regular expressions.
\<close>

subsection \<open>Patterns\<close>

definition rxWords :: "string list \<Rightarrow> rx" where
  "rxWords ws = rxWholeWords (map rxWord ws)"

text \<open>A hyphen or a blank, as \<^verbatim>\<open>[- ]\<close>.\<close>

definition rxDash :: rx where
  "rxDash = RClass (\<lambda>c. c = CHR ''-'' \<or> c = CHR '' '')"

definition subjectivePattern :: rx where
  "subjectivePattern = rxWholeWords (map rxWord [''fast'', ''slow'', ''simple'', ''easy'', ''nice'', ''intuitive'']
     @ [rxSeqs [rxWord ''user'', rxDash, rxWord ''friendly'']]
     @ map rxWord [''natural'', ''obvious'', ''trivial'', ''robust'', ''scalable'', ''elegant'', ''clean'', ''modern'',
         ''powerful'', ''flexible'', ''seamless'', ''smooth''])"

definition authTermsPattern :: rx where
  "authTermsPattern = rxWholeWords
     [RSeq (rxWord ''auth'') (rxOpt (RAlt (rxWord ''entication'') (rxWord ''orization''))),
      RSeq (rxWord ''permission'') (rxOpt (rxWord ''s'')),
      rxSeqs [rxWord ''access'', rxSpaces, rxWord ''control''], rxWord ''rbac'', rxWord ''acl'']"

definition authModelSpecifiedPattern :: rx where
  "authModelSpecifiedPattern = rxWholeWords (map rxWord [''jwt'', ''oauth'', ''saml'']
     @ [rxSeqs [rxWord ''api'', rxOpt rxDash, rxWord ''key''], rxWord ''bearer'',
        rxSeqs [rxWord ''session'', rxOpt rxDash, rxWord ''cookie'']]
     @ map rxWord [''rs256'', ''hs256'', ''openid'', ''oidc'', ''ldap'', ''sso'', ''mfa'', ''2fa'', ''totp'', ''passkey'', ''webauthn''])"

definition errorHandlingPattern :: rx where
  "errorHandlingPattern = rxWholeWords ([rxSeqs [rxWord ''error'', rxSpaces, rxWord ''handl'']]
     @ map rxWord [''failure'', ''rollback'', ''retry'', ''fallback'']
     @ [rxSeqs [rxWord ''circuit'', rxOpt rxDash, rxWord ''breaker'']]
     @ map rxWord [''timeout'', ''catch'', ''exception'', ''recover'', ''graceful'', ''degrad'', ''compensat''])"

definition riskyBehaviorWords :: "string list" where
  "riskyBehaviorWords = [''process'', ''send'', ''receive'', ''charge'', ''payment'', ''upload'', ''download'',
     ''connect'', ''request'', ''query'', ''mutation'', ''transaction'', ''migrate'', ''deploy'', ''sync'']"

definition behaviorPattern :: rx where
  "behaviorPattern = rxWords (''endpoint'' # ''api'' # riskyBehaviorWords)"

definition riskyBehaviorPattern :: rx where
  "riskyBehaviorPattern = rxWords (''endpoint'' # riskyBehaviorWords)"

definition trivialChangePattern :: rx where
  "trivialChangePattern = rxWholeWords
     [rxWord ''readme'', RSeq (rxWord ''doc'') (rxOpt (rxWord ''s'')), rxWord ''documentation'', rxWord ''changelog'',
      rxWord ''comment'', rxWord ''typo'', rxWord ''config'', rxWord ''lint'', rxWord ''format'', rxWord ''style'']"

subsection \<open>Findings\<close>

datatype question_category = CatClarification | CatImplications | CatAssumptions

record clarify_finding =
  cf_code :: string
  cf_path :: string
  cf_category :: question_category
  cf_matchedTerm :: "string option"

definition finding :: "string \<Rightarrow> string \<Rightarrow> question_category \<Rightarrow> clarify_finding" where
  "finding code path cat = \<lparr>cf_code = code, cf_path = path, cf_category = cat, cf_matchedTerm = None\<rparr>"

definition checkSubjectiveLanguage :: "change_doc \<Rightarrow> clarify_finding list" where
  "checkSubjectiveLanguage d =
     (case rxMatched subjectivePattern (cd_title d) of
        None \<Rightarrow> []
      | Some m \<Rightarrow> [(finding ''CLARIFY_SUBJECTIVE_LANGUAGE'' ''title'' CatClarification)\<lparr>cf_matchedTerm := Some m\<rparr>])"

definition checkMissingScenarios :: "change_doc \<Rightarrow> clarify_finding list" where
  "checkMissingScenarios d =
     map (\<lambda>(path, req). finding ''CLARIFY_MISSING_SCENARIOS'' (path @ ''.scenarios'') CatImplications)
       (filter (\<lambda>(path, req). orEmpty (rq_scenarios req) = []) (addedRequirements d))"

subsection \<open>The scope section\<close>

definition newline :: rx where
  "newline = RClass (\<lambda>c. c = CHR 0x0A)"

definition scopeHeader :: rx where
  "scopeHeader = rxSeqs [rxWord ''##'', RRun isWs,
     RAlt (rxWord ''scope'') (rxSeqs [rxWord ''what'', rxSpaces, rxWord ''changes'']), RRun isWs, newline]"

text \<open>The lookahead \<^verbatim>\<open>(?=\n##\s|\n---)\<close>.\<close>

definition sectionEnds :: "string \<Rightarrow> nat \<Rightarrow> bool" where
  "sectionEnds s j \<longleftrightarrow>
     rxEnds (RAlt (rxSeqs [newline, rxWord ''##'', RClass isWs]) (RSeq newline (rxWord ''---''))) s j \<noteq> []"

text \<open>The lazy \<^verbatim>\<open>([\s\S]*?)\<close>: for a header that ends at \<open>e\<close>, the first place where a section ends.\<close>

definition lazyBody :: "string \<Rightarrow> nat \<Rightarrow> (nat \<times> nat) option" where
  "lazyBody s e = map_option (\<lambda>j. (e, j)) (List.find (sectionEnds s) [e..<Suc (length s)])"

definition boundedScope :: "string \<Rightarrow> (nat \<times> nat) option" where
  "boundedScope s =
     (case List.map_filter (lazyBody s) (concat (map (rxEnds scopeHeader s) [0..<Suc (length s)])) of
        [] \<Rightarrow> None | x # _ \<Rightarrow> Some x)"

definition scopeBody :: "string \<Rightarrow> string option" where
  "scopeBody s =
     (case boundedScope s of
        Some (e, j) \<Rightarrow> Some (take (j - e) (drop e s))
      | None \<Rightarrow> map_option (\<lambda>(i, e). drop e s) (rxExec scopeHeader s))"

text \<open>\<^verbatim>\<open>/^\s*-?\s*\(unknown/i\<close>, tested at the start of the text.\<close>

definition unknownMarker :: rx where
  "unknownMarker = rxSeqs [RRun isWs, rxOpt (RClass (\<lambda>c. c = CHR ''-'')), RRun isWs, rxWord ''(unknown'']"

definition checkUnclearScope :: "string \<Rightarrow> clarify_finding list" where
  "checkUnclearScope proposal =
     (case scopeBody proposal of
        None \<Rightarrow> [finding ''CLARIFY_UNCLEAR_SCOPE'' ''proposal.scope'' CatClarification]
      | Some body \<Rightarrow>
          (if trim body = [] \<or> rxEnds unknownMarker (trim body) 0 \<noteq> []
           then [finding ''CLARIFY_UNCLEAR_SCOPE'' ''proposal.scope'' CatClarification] else []))"

definition checkAssumptionHeavy :: "string \<Rightarrow> clarify_finding list" where
  "checkAssumptionHeavy proposal =
     (if \<not> rxTest authTermsPattern proposal then []
      else if rxTest authModelSpecifiedPattern proposal then []
      else [finding ''CLARIFY_ASSUMPTION_HEAVY'' ''proposal.assumptions'' CatAssumptions])"

definition checkMissingErrorHandling :: "string \<Rightarrow> clarify_finding list" where
  "checkMissingErrorHandling proposal =
     (if \<not> rxTest behaviorPattern proposal then []
      else if rxTest trivialChangePattern proposal \<and> \<not> rxTest riskyBehaviorPattern proposal then []
      else if rxTest errorHandlingPattern proposal then []
      else [finding ''CLARIFY_MISSING_ERROR_HANDLING'' ''proposal.error_handling'' CatImplications])"

record clarify_result =
  cl_passed :: bool
  cl_findings :: "clarify_finding list"

definition runClarifyReadinessChecks :: "change_doc \<Rightarrow> string \<Rightarrow> clarify_result" where
  "runClarifyReadinessChecks d proposal =
     (let fs = checkSubjectiveLanguage d @ checkMissingScenarios d @ checkUnclearScope proposal
        @ checkAssumptionHeavy proposal @ checkMissingErrorHandling proposal
      in \<lparr>cl_passed = (fs = []), cl_findings = fs\<rparr>)"

subsection \<open>Properties\<close>

lemma finding_fields [simp]:
  "cf_code (finding c p k) = c" "cf_path (finding c p k) = p" "cf_category (finding c p k) = k"
  by (simp_all add: finding_def)

lemma missing_scenarios_clean: "checkMissingScenarios d = [] \<longleftrightarrow> clean (checkScenarioAdequacy d)"
  by (auto simp: checkMissingScenarios_def clean_scenarios filter_empty_conv)

text \<open>
  Once the prep checks of the planning gate pass, the ambiguity checks can only object to
  the title and to the text of the proposal: they pass exactly when the title has no subjective
  term, the proposal has a scope section with a body that is not blank and not marked unknown, and
  its mentions of access control and of behavior that may fail are specified.
\<close>

theorem clarify_adds_title_and_proposal:
  assumes "pr_passed (runPrepReadinessChecks d mode)"
  shows "cl_passed (runClarifyReadinessChecks d proposal) \<longleftrightarrow>
    \<not> rxTest subjectivePattern (cd_title d) \<and>
    (\<exists>body. scopeBody proposal = Some body \<and> trim body \<noteq> [] \<and> rxEnds unknownMarker (trim body) 0 = []) \<and>
    (rxTest authModelSpecifiedPattern proposal \<or> \<not> rxTest authTermsPattern proposal) \<and>
    (rxTest errorHandlingPattern proposal \<or> \<not> rxTest behaviorPattern proposal \<or>
      rxTest trivialChangePattern proposal \<and> \<not> rxTest riskyBehaviorPattern proposal)"
proof -
  have "checkMissingScenarios d = []"
    using assms by (simp add: missing_scenarios_clean passed_clean prepIssues_def)
  moreover have "checkSubjectiveLanguage d = [] \<longleftrightarrow> \<not> rxTest subjectivePattern (cd_title d)"
    by (auto simp: checkSubjectiveLanguage_def rxMatched_def rxExec_def rxTest_def find_None_iff find_Some_iff
        split: option.splits simp del: upt_Suc)
  moreover have "checkUnclearScope proposal = [] \<longleftrightarrow>
      (\<exists>body. scopeBody proposal = Some body \<and> trim body \<noteq> [] \<and> rxEnds unknownMarker (trim body) 0 = [])"
    by (auto simp: checkUnclearScope_def split: option.splits)
  ultimately show ?thesis
    by (auto simp: runClarifyReadinessChecks_def checkAssumptionHeavy_def checkMissingErrorHandling_def)
qed

subsection \<open>Concrete proposals\<close>

lemma plural_model_not_specified: "checkAssumptionHeavy ''acl API keys'' \<noteq> []"
  by code_simp

lemma recovery_not_recognised: "checkMissingErrorHandling ''api recovery'' \<noteq> []"
  by code_simp

lemma empty_scope_flagged: "checkUnclearScope (''##scope'' @ [CHR 0x0A, CHR 0x0A] @ ''## a'') \<noteq> []"
  by code_simp

lemma empty_scope_hidden:
  "checkUnclearScope (''##scope'' @ [CHR 0x0A, CHR 0x0A] @ ''## a'' @ CHR 0x0A # ''## b'') = []"
  by code_simp

text \<open>
  Three texts the proposal checks misread: the plural that the remediation itself proposes
  (API keys) does not specify an access model, a word that extends an error-handling stem (recovery)
  is not error handling, and an empty scope section is accepted as soon as two headings follow it,
  although it is reported when one does.
\<close>

theorem clarify_misreads_proposals:
  "checkAssumptionHeavy ''acl API keys'' \<noteq> [] \<and> checkMissingErrorHandling ''api recovery'' \<noteq> [] \<and>
   checkUnclearScope (''##scope'' @ [CHR 0x0A, CHR 0x0A] @ ''## a'') \<noteq> [] \<and>
   checkUnclearScope (''##scope'' @ [CHR 0x0A, CHR 0x0A] @ ''## a'' @ CHR 0x0A # ''## b'') = []"
  by (intro conjI plural_model_not_specified recovery_not_recognised empty_scope_flagged empty_scope_hidden)

text \<open>A change that passes both groups of checks, and the same change with a subjective title.\<close>

lemma subjective_title: "rxTest subjectivePattern ''fast'' \<and> \<not> rxTest subjectivePattern ''Demo''"
  by code_simp

lemma plain_proposal:
  "scopeBody (''##scope'' @ CHR 0x0A # ''a'') = Some ''a'' \<and> rxEnds unknownMarker ''a'' 0 = []"
  "\<not> rxTest authTermsPattern (''##scope'' @ CHR 0x0A # ''a'') \<and> \<not> rxTest behaviorPattern (''##scope'' @ CHR 0x0A # ''a'')"
  by code_simp+

theorem clarify_adds_title_and_proposal_witness:
  "cl_passed (runClarifyReadinessChecks (prep_doc []) (''##scope'' @ CHR 0x0A # ''a'')) \<and>
   \<not> cl_passed (runClarifyReadinessChecks ((prep_doc [])\<lparr>cd_title := ''fast''\<rparr>) (''##scope'' @ CHR 0x0A # ''a''))"
proof -
  let ?d = "(prep_doc [])\<lparr>cd_title := ''fast''\<rparr>" and ?p = "''##scope'' @ CHR 0x0A # ''a''"
  have "clean (prepIssues d TddStrict)" if "d = prep_doc [] \<or> d = ?d" for d
    using that by (auto simp: clean_prepIssues prep_doc_def addedRequirements_def deltasOf_def tasksOf_def
        activeTasks_def criticalCovered_def)
  then have p: "pr_passed (runPrepReadinessChecks (prep_doc []) TddStrict)" "pr_passed (runPrepReadinessChecks ?d TddStrict)"
    by (simp_all add: passed_clean)
  have "trim ''a'' = ''a''" by (simp add: trim_def isWs_def)
  then show ?thesis
    using clarify_adds_title_and_proposal [OF p(1), of ?p] clarify_adds_title_and_proposal [OF p(2), of ?p]
      subjective_title plain_proposal by (simp add: prep_doc_def)
qed

end
