(* ===== verification/Command_Manifest.thy ===== *)
theory Command_Manifest
  imports Change_Model
begin

text \<open>
  The command manifest (\<^verbatim>\<open>plugin/src/manifest.ts\<close>): the commands with their phase, gate, prerequisites,
  successors and scope, and the boundary check of the gate tool that reads it
  (\<^verbatim>\<open>validateGateBoundary\<close> of \<^verbatim>\<open>tools/gate.ts\<close>).  The goal texts shown to agents are left out.
\<close>

subsection \<open>Commands\<close>

datatype phase = PhCore | PhPreImplementation | PhImplementation | PhPostImplementation | PhAdvanced | PhUtility

record command_scope =
  sp_creates :: "string list"
  sp_reads :: "string list"
  sp_modifies :: "string list"
  sp_gates :: "gate_id list"

record command_def =
  cm_name :: string
  cm_description :: string
  cm_phase :: phase
  cm_gate :: "gate_id option"
  cm_requiresChangeId :: bool
  cm_prerequisites :: "string list"
  cm_successors :: "string list"
  cm_args_hint :: "string option"
  cm_scope :: "command_scope option"

definition commandScope :: "string list \<Rightarrow> string list \<Rightarrow> string list \<Rightarrow> gate_id list \<Rightarrow> command_scope" where
  "commandScope creates reads modifies gs = \<lparr>sp_creates = creates, sp_reads = reads, sp_modifies = modifies, sp_gates = gs\<rparr>"

definition commandDef ::
  "string \<Rightarrow> string \<Rightarrow> phase \<Rightarrow> gate_id option \<Rightarrow> bool \<Rightarrow> string list \<Rightarrow> string list \<Rightarrow> string option
    \<Rightarrow> command_scope option \<Rightarrow> command_def" where
  "commandDef n d p g req pre suc hint sc = \<lparr>cm_name = n, cm_description = d, cm_phase = p, cm_gate = g,
     cm_requiresChangeId = req, cm_prerequisites = pre, cm_successors = suc, cm_args_hint = hint, cm_scope = sc\<rparr>"

definition coreCommands :: "command_def list" where
  "coreCommands = [
      commandDef ''adv-status'' ''Show fast ADV status table''
        PhCore None False [] [''adv-proposal'', ''adv-apply'', ''adv-triage''] None
        None,
      commandDef ''adv-proposal'' ''Extract problem statement, user outcomes, and constraints without creating tasks''
        PhCore (Some Proposal) False [] [''adv-clarify'', ''adv-research''] None
        (Some (commandScope [''change'', ''proposal''] [''specs''] [] [Proposal])),
      commandDef ''adv-validate'' ''Validate change compliance against specs; block archive on failure''
        PhCore None True [''adv-proposal''] [''adv-archive''] (Some ''<change-id> [--strict]'')
        None,
      commandDef ''adv-archive'' ''Archive completed change: apply spec deltas and finalize git''
        PhCore (Some Release) True [''adv-harden''] [] (Some ''<change-id>'')
        (Some (commandScope [''archive''] [''specs'', ''proposal'', ''tasks'', ''codebase''] [''specs''] [Release]))]"

definition preImplementationCommands :: "command_def list" where
  "preImplementationCommands = [
      commandDef ''adv-idea'' ''Explore rough ideas before drafting a proposal''
        PhPreImplementation None False [] [''adv-proposal'', ''adv-epic''] None
        (Some (commandScope [] [''specs'', ''codebase''] [] [])),
      commandDef ''adv-problem'' ''Triage defects and unintended behavior before fixing or drafting a proposal''
        PhPreImplementation None False [] [''adv-proposal'', ''adv-epic''] None
        (Some (commandScope [] [''specs'', ''codebase''] [] [])),
      commandDef ''adv-epic'' ''Gather Epic goals before typed creation''
        PhPreImplementation None False [] [''adv-proposal''] None
        (Some (commandScope [''epic''] [''specs'', ''epics'', ''changes'', ''backlog''] [''epic''] [])),
      commandDef ''adv-backlog'' ''Capture future work as backlog-status changes before proposal''
        PhPreImplementation None False [] [''adv-epic'', ''adv-proposal''] None
        (Some (commandScope [''backlog_item''] [''backlog'', ''epics''] [''backlog_item''] [])),
      commandDef ''adv-clarify'' ''Ask clarifying questions to resolve ambiguous requirements''
        PhPreImplementation None False [''adv-proposal''] [''adv-research'', ''adv-discover''] None
        None,
      commandDef ''adv-research'' ''Produce a defined, fully-researched proposed plan ready for user approval''
        PhPreImplementation None False [''adv-proposal''] [''adv-discover'', ''adv-prep''] None
        (Some (commandScope [] [''specs'', ''proposal'', ''codebase''] [''proposal''] [])),
      commandDef ''adv-discover'' ''Gather context, analyze current state, identify objectives, and obtain user agreement''
        PhPreImplementation (Some Discovery) True [''adv-proposal''] [''adv-design''] (Some ''<change-id>'')
        (Some (commandScope [] [''specs'', ''proposal'', ''codebase''] [''proposal''] [Discovery])),
      commandDef ''adv-design'' ''Validate architecture decisions, produce implementation strategy, and present design for user review''
        PhPreImplementation (Some Design) True [''adv-discover''] [''adv-prep''] (Some ''<change-id>'')
        (Some (commandScope [] [''specs'', ''proposal'', ''codebase''] [''proposal''] [Design])),
      commandDef ''adv-prep'' ''Analyze gaps and synthesize tasks from approved agreement plus validated design''
        PhPreImplementation (Some Planning) True [''adv-design''] [''adv-apply''] (Some ''<change-id>'')
        (Some (commandScope [''tasks''] [''specs'', ''proposal'', ''codebase''] [''tasks'', ''proposal''] [Planning])),
      commandDef ''adv-reflect'' ''Produce a structured two-plane reflection report for an archived change''
        PhPostImplementation None True [''adv-archive''] [] (Some ''<change-id>'')
        (Some (commandScope [''reflection''] [''specs'', ''proposal'', ''tasks''] [] []))]"

definition implementationCommands :: "command_def list" where
  "implementationCommands = [
      commandDef ''adv-apply'' ''Implement change with TDD, retry on failure, and final verification''
        PhImplementation (Some Execution) True [''adv-prep''] [''adv-apply''] (Some ''<change-id>'')
        (Some (commandScope [] [''specs'', ''proposal'', ''tasks'', ''codebase''] [''tasks'', ''codebase''] [Execution])),
      commandDef ''adv-task'' ''Fast-track small changes: assess spec-law impact, prep, and hand off''
        PhImplementation None False [] [''adv-apply''] None
        (Some (commandScope [''change'', ''proposal'', ''tasks''] [''specs'', ''codebase''] [''proposal'', ''design''] [Proposal, Discovery, Design, Planning]))]"

definition postImplementationCommands :: "command_def list" where
  "postImplementationCommands = [
      commandDef ''adv-review'' ''Review code for correctness, security, and architecture; emit REVIEW_FINDINGS''
        PhPostImplementation (Some Acceptance) True [''adv-apply''] [''adv-harden''] (Some ''<change-id>'')
        (Some (commandScope [] [''specs'', ''proposal'', ''tasks'', ''codebase''] [''proposal''] [Acceptance])),
      commandDef ''adv-harden'' ''Detect low-quality code, verify test coverage, clean up; block archive on open findings''
        PhPostImplementation None True [''adv-review''] [''adv-validate'', ''adv-archive''] (Some ''<change-id>'')
        (Some (commandScope [] [''specs'', ''proposal'', ''tasks'', ''codebase''] [''codebase''] [])),
      commandDef ''adv-audit'' ''Detect drift between specs and current implementation''
        PhPostImplementation None False [] [''adv-proposal''] None
        None,
      commandDef ''adv-slop-scan'' ''Scan slop, deletion safety, and detector coverage''
        PhPostImplementation None False [] [''adv-harden''] None
        None]"

definition advancedCommands :: "command_def list" where
  "advancedCommands = [
      commandDef ''adv-refactor'' ''Refresh a stale proposal or batch-refresh the oldest 30% of active changes''
        PhAdvanced None False [''adv-proposal''] [''adv-prep''] (Some ''[change-id]'')
        None,
      commandDef ''adv-cleanup'' ''Triage stale changes, drifted worktrees, merged branches, and state leaks; delete approved candidates''
        PhAdvanced None False [] [] (Some ''[--execute] [--bucket <name>] [--age-threshold <duration>]'')
        None,
      commandDef ''adv-coordinate'' ''Audit project changes, Epic alignment, sequencing, and membership health; includes Epic-unlinked in-flight changes''
        PhAdvanced None False [] [] None
        (Some (commandScope [] [''specs'', ''epics'', ''changes''] [] []))]"

definition utilityCommands :: "command_def list" where
  "utilityCommands = [
      commandDef ''adv-improve'' ''Analyze improvements across existing specs, implementation, and external landscape''
        PhUtility None False [] [''adv-proposal'', ''adv-task'', ''adv-audit''] None
        None,
      commandDef ''adv-arch-scan'' ''Scan architecture stack packs, coverage, and heuristic fallbacks''
        PhUtility None False [] [''adv-proposal''] None
        None,
      commandDef ''adv-comp-scan'' ''Scan competitor capabilities against this project for competitive intelligence''
        PhUtility None False [] [''adv-proposal''] None
        None,
      commandDef ''adv-tron'' ''Investigate codebase structure, hotspots, risks, and suggest follow-up candidates''
        PhUtility None False [] [''adv-proposal'', ''adv-task''] None
        None,
      commandDef ''adv-optimizer'' ''Analyze code simplification opportunities and propose optimizer changes''
        PhUtility None False [] [''adv-proposal'', ''adv-task''] None
        None,
      commandDef ''adv-triage'' ''Triage sources, coalesce issue links, assign bug priority, and balance portfolio''
        PhUtility None False [] [''adv-proposal'', ''adv-task''] (Some ''[--execute] [--no-commit] [--source <name>]'')
        None]"

text \<open>\<^verbatim>\<open>COMMAND_MANIFEST\<close>, in the order of its entries; the key of an entry is its name.\<close>

definition commandManifest :: "command_def list" where
  "commandManifest = coreCommands @ preImplementationCommands @ implementationCommands
     @ postImplementationCommands @ advancedCommands @ utilityCommands"

subsection \<open>Lookups\<close>

text \<open>An object lookup also finds what every object inherits.\<close>

datatype command_lookup = NoCommand | InheritedValue | CommandFound command_def

definition getCommandDef :: "string \<Rightarrow> command_lookup" where
  "getCommandDef name =
     (case List.find (\<lambda>c. cm_name c = name) commandManifest of
        Some c \<Rightarrow> CommandFound c
      | None \<Rightarrow> if name \<in> set objectPrototypeKeys then InheritedValue else NoCommand)"

definition getCommandsByGate :: "gate_id \<Rightarrow> command_def list" where
  "getCommandsByGate g = filter (\<lambda>c. cm_gate c = Some g) commandManifest"

text \<open>\<open>None\<close> is the type error of reading the successors of an inherited value.\<close>

definition getSuccessors :: "string \<Rightarrow> command_def list option" where
  "getSuccessors name =
     (case getCommandDef name of
        NoCommand \<Rightarrow> Some []
      | InheritedValue \<Rightarrow> None
      | CommandFound c \<Rightarrow> Some (List.map_filter (\<lambda>s. case getCommandDef s of CommandFound x \<Rightarrow> Some x | _ \<Rightarrow> None) (cm_successors c)))"

subsection \<open>Boundary check\<close>

definition authorizedCommands :: "gate_id \<Rightarrow> string list" where
  "authorizedCommands g =
     map cm_name (filter (\<lambda>c. case cm_scope c of Some sc \<Rightarrow> g \<in> set (sp_gates sc) | None \<Rightarrow> False) commandManifest)"

definition commandNameOf :: "string \<Rightarrow> string" where
  "commandNameOf completedBy = takeWhile (\<lambda>c. \<not> isWs c) completedBy"

definition validateGateBoundary :: "gate_id \<Rightarrow> string \<Rightarrow> string option" where
  "validateGateBoundary g completedBy =
     (let cmds = authorizedCommands g; name = commandNameOf completedBy
      in if completedBy = ''user'' \<or> startsWith completedBy ''user:'' then None
         else if cmds = [] then None
         else if name = ''agent'' then None
         else if name \<notin> set (map cm_name commandManifest) then None
         else if \<exists>cmd \<in> set cmds. name = cmd \<or> startsWith name (cmd @ '' '') then None
         else Some (''Gate '' @ [CHR 0x27] @ gateName g @ [CHR 0x27] @ '' is owned by ['' @ joinWith '', '' cmds
           @ ''] but was completed by '' @ [CHR 0x27] @ completedBy @ [CHR 0x27]
           @ ''. This may indicate a command boundary violation. See specs adv-proposal, adv-discover, adv-prep for gate ownership rules.''))"

subsection \<open>Properties\<close>

lemma commandDef_fields [simp]:
  "cm_name (commandDef n d p g req pre suc hint sc) = n" "cm_gate (commandDef n d p g req pre suc hint sc) = g"
  "cm_prerequisites (commandDef n d p g req pre suc hint sc) = pre" "cm_successors (commandDef n d p g req pre suc hint sc) = suc"
  "cm_scope (commandDef n d p g req pre suc hint sc) = sc"
  by (simp_all add: commandDef_def)

lemma commandScope_gates [simp]: "sp_gates (commandScope c r m gs) = gs"
  by (simp add: commandScope_def)

definition scopeGates :: "command_def \<Rightarrow> gate_id list" where
  "scopeGates c = (case cm_scope c of Some sc \<Rightarrow> sp_gates sc | None \<Rightarrow> [])"

lemma scopeGates_simps [simp]:
  "scopeGates (commandDef n d p g req pre suc hint None) = []"
  "scopeGates (commandDef n d p g req pre suc hint (Some (commandScope c r m gs))) = gs"
  by (simp_all add: scopeGates_def)

text \<open>What the checks read of the manifest.\<close>

definition gateTable :: "command_def list \<Rightarrow> (string \<times> gate_id option \<times> gate_id list) list" where
  "gateTable cs = map (\<lambda>c. (cm_name c, cm_gate c, scopeGates c)) cs"

lemma gateTable_simps:
  "gateTable [] = []" "gateTable (c # cs) = (cm_name c, cm_gate c, scopeGates c) # gateTable cs"
  "gateTable (xs @ ys) = gateTable xs @ gateTable ys"
  by (simp_all add: gateTable_def)

lemma manifest_table:
  "gateTable commandManifest =
     [(''adv-status'', None, []),
      (''adv-proposal'', Some Proposal, [Proposal]),
      (''adv-validate'', None, []),
      (''adv-archive'', Some Release, [Release]),
      (''adv-idea'', None, []),
      (''adv-problem'', None, []),
      (''adv-epic'', None, []),
      (''adv-backlog'', None, []),
      (''adv-clarify'', None, []),
      (''adv-research'', None, []),
      (''adv-discover'', Some Discovery, [Discovery]),
      (''adv-design'', Some Design, [Design]),
      (''adv-prep'', Some Planning, [Planning]),
      (''adv-reflect'', None, []),
      (''adv-apply'', Some Execution, [Execution]),
      (''adv-task'', None, [Proposal, Discovery, Design, Planning]),
      (''adv-review'', Some Acceptance, [Acceptance]),
      (''adv-harden'', None, []),
      (''adv-audit'', None, []),
      (''adv-slop-scan'', None, []),
      (''adv-refactor'', None, []),
      (''adv-cleanup'', None, []),
      (''adv-coordinate'', None, []),
      (''adv-improve'', None, []),
      (''adv-arch-scan'', None, []),
      (''adv-comp-scan'', None, []),
      (''adv-tron'', None, []),
      (''adv-optimizer'', None, []),
      (''adv-triage'', None, [])]"
  by (simp only: commandManifest_def coreCommands_def preImplementationCommands_def implementationCommands_def
      postImplementationCommands_def advancedCommands_def utilityCommands_def gateTable_simps commandDef_fields
      scopeGates_simps append.simps)

lemma manifest_names: "map cm_name commandManifest = map fst (gateTable commandManifest)"
  by (simp add: gateTable_def)

lemma authorized_names:
  "authorizedCommands g = map fst (filter (\<lambda>(n, x, gs). g \<in> set gs) (gateTable commandManifest))"
proof -
  have "(case cm_scope c of Some sc \<Rightarrow> g \<in> set (sp_gates sc) | None \<Rightarrow> False) \<longleftrightarrow> g \<in> set (scopeGates c)" for c :: command_def
    by (simp add: scopeGates_def split: option.splits)
  then show ?thesis by (simp add: authorizedCommands_def gateTable_def filter_map o_def)
qed

lemma authorized_eq:
  "authorizedCommands Proposal = [''adv-proposal'', ''adv-task'']"
  "authorizedCommands Discovery = [''adv-discover'', ''adv-task'']"
  "authorizedCommands Design = [''adv-design'', ''adv-task'']"
  "authorizedCommands Planning = [''adv-prep'', ''adv-task'']"
  "authorizedCommands Execution = [''adv-apply'']"
  "authorizedCommands Acceptance = [''adv-review'']"
  "authorizedCommands Release = [''adv-archive'']"
  by (simp_all add: authorized_names manifest_table)

lemma authorized_nonempty: "authorizedCommands g \<noteq> []"
  by (cases g) (simp_all add: authorized_eq)

lemma commandNameOf_no_space: "c \<in> set (commandNameOf s) \<Longrightarrow> \<not> isWs c"
  by (auto simp: commandNameOf_def dest: set_takeWhileD)

lemma name_not_spaced: "\<not> startsWith (commandNameOf s) (cmd @ '' '')"
proof
  assume "startsWith (commandNameOf s) (cmd @ '' '')"
  then have "CHR '' '' \<in> set (commandNameOf s)" by (auto simp: startsWith_iff)
  then show False using commandNameOf_no_space by (force simp: isWs_def)
qed

lemma user_is_no_command:
  assumes "s = ''user'' \<or> startsWith s ''user:''"
  shows "commandNameOf s \<notin> set (map cm_name commandManifest)"
proof -
  obtain r where "commandNameOf s = CHR ''u'' # r"
    using assms by (auto simp: startsWith_iff commandNameOf_def isWs_def)
  then show ?thesis by (simp add: manifest_names manifest_table)
qed

lemma agent_is_no_command: "''agent'' \<notin> set (map cm_name commandManifest)"
  by (simp add: manifest_names manifest_table)

text \<open>
  The boundary check warns exactly when the first word of the completing actor is a command
  of the manifest that does not own the gate; users, agents and unknown actors are never warned, and
  every gate has an owner.
\<close>

theorem boundary_warns_iff:
  "validateGateBoundary g by \<noteq> None \<longleftrightarrow>
     commandNameOf by \<in> set (map cm_name commandManifest) - set (authorizedCommands g)"
proof (cases "by = ''user'' \<or> startsWith by ''user:''")
  case True
  then show ?thesis using user_is_no_command [OF True] by (auto simp: validateGateBoundary_def)
next
  case False
  then have "validateGateBoundary g by \<noteq> None \<longleftrightarrow> commandNameOf by \<noteq> ''agent'' \<and>
      commandNameOf by \<in> set (map cm_name commandManifest) \<and> commandNameOf by \<notin> set (authorizedCommands g)"
    using authorized_nonempty [of g] name_not_spaced [of "by"]
    by (simp add: validateGateBoundary_def Let_def del: set_map)
  then show ?thesis using agent_is_no_command by (cases "commandNameOf by = ''agent''") (simp_all del: set_map)
qed

definition commandClosed :: "command_def \<Rightarrow> bool" where
  "commandClosed c \<longleftrightarrow> map_option (map cm_name) (getSuccessors (cm_name c)) = Some (cm_successors c) \<and>
     set (cm_prerequisites c) \<subseteq> set (map cm_name commandManifest)"

definition isKnown :: "string \<Rightarrow> bool" where
  "isKnown s \<longleftrightarrow> s \<in> set (map cm_name commandManifest)"

lemma getCommandDef_known:
  assumes "isKnown s"
  shows "\<exists>c. getCommandDef s = CommandFound c \<and> cm_name c = s"
proof -
  from assms obtain c where "c \<in> set commandManifest" "cm_name c = s" by (auto simp: isKnown_def)
  then have "List.find (\<lambda>c. cm_name c = s) commandManifest \<noteq> None" by (auto simp: find_None_iff)
  then obtain c' where "List.find (\<lambda>c. cm_name c = s) commandManifest = Some c'" by blast
  moreover from this have "cm_name c' = s" by (auto simp: find_Some_iff)
  ultimately show ?thesis by (simp add: getCommandDef_def)
qed

lemma successors_known:
  "list_all isKnown ss \<Longrightarrow>
    map cm_name (List.map_filter (\<lambda>s. case getCommandDef s of CommandFound x \<Rightarrow> Some x | _ \<Rightarrow> None) ss) = ss"
  by (induction ss) (auto simp: List.map_filter_simps dest: getCommandDef_known)

lemma manifest_distinct: "distinct (map cm_name commandManifest)"
  by (simp add: manifest_names manifest_table)

lemma getCommandDef_own: "c \<in> set commandManifest \<Longrightarrow> getCommandDef (cm_name c) = CommandFound c"
proof -
  assume c: "c \<in> set commandManifest"
  obtain c' where c': "List.find (\<lambda>x. cm_name x = cm_name c) commandManifest = Some c'"
    using c by (cases "List.find (\<lambda>x. cm_name x = cm_name c) commandManifest") (auto simp: find_None_iff)
  then have "c' \<in> set commandManifest" "cm_name c' = cm_name c" by (auto simp: find_Some_iff)
  with c manifest_distinct have "c' = c" by (auto simp: distinct_map inj_on_def)
  with c' show ?thesis by (simp add: getCommandDef_def)
qed

lemma commandClosed_known:
  assumes "c \<in> set commandManifest" "list_all isKnown (cm_successors c)" "list_all isKnown (cm_prerequisites c)"
  shows "commandClosed c"
  using assms by (auto simp: commandClosed_def getSuccessors_def getCommandDef_own successors_known list_all_iff isKnown_def)

lemma references_known:
  "list_all (\<lambda>c. list_all isKnown (cm_successors c) \<and> list_all isKnown (cm_prerequisites c)) coreCommands"
  "list_all (\<lambda>c. list_all isKnown (cm_successors c) \<and> list_all isKnown (cm_prerequisites c)) preImplementationCommands"
  "list_all (\<lambda>c. list_all isKnown (cm_successors c) \<and> list_all isKnown (cm_prerequisites c)) implementationCommands"
  "list_all (\<lambda>c. list_all isKnown (cm_successors c) \<and> list_all isKnown (cm_prerequisites c)) postImplementationCommands"
  "list_all (\<lambda>c. list_all isKnown (cm_successors c) \<and> list_all isKnown (cm_prerequisites c)) advancedCommands"
  "list_all (\<lambda>c. list_all isKnown (cm_successors c) \<and> list_all isKnown (cm_prerequisites c)) utilityCommands"
  by (simp_all add: coreCommands_def preImplementationCommands_def implementationCommands_def postImplementationCommands_def
      advancedCommands_def utilityCommands_def isKnown_def manifest_names manifest_table)

lemma gate_owner_names:
  "map cm_name (getCommandsByGate g) = map fst (filter (\<lambda>(n, x, gs). x = Some g) (gateTable commandManifest))"
  by (simp add: getCommandsByGate_def gateTable_def filter_map o_def)

lemma gate_owners:
  "map (\<lambda>g. map cm_name (getCommandsByGate g)) gateOrder =
     [[''adv-proposal''], [''adv-discover''], [''adv-design''], [''adv-prep''], [''adv-apply''], [''adv-review''], [''adv-archive'']]"
  by (simp add: gate_owner_names manifest_table)

lemma owners_authorized: "list_all (\<lambda>g. set (map cm_name (getCommandsByGate g)) \<subseteq> set (authorizedCommands g)) gateOrder"
  using gate_owners by (simp add: authorized_eq del: set_map)

text \<open>
  The manifest is closed: its names are distinct, every successor resolves, every
  prerequisite is a command, each gate is affected by exactly one command, in the order of the
  gates, and that command owns the gate.
\<close>

theorem manifest_is_closed:
  "distinct (map cm_name commandManifest) \<and> list_all commandClosed commandManifest \<and>
   map (\<lambda>g. map cm_name (getCommandsByGate g)) gateOrder =
     [[''adv-proposal''], [''adv-discover''], [''adv-design''], [''adv-prep''], [''adv-apply''], [''adv-review''], [''adv-archive'']] \<and>
   list_all (\<lambda>g. set (map cm_name (getCommandsByGate g)) \<subseteq> set (authorizedCommands g)) gateOrder"
proof (intro conjI manifest_distinct gate_owners owners_authorized)
  have "list_all (\<lambda>c. list_all isKnown (cm_successors c) \<and> list_all isKnown (cm_prerequisites c)) commandManifest"
    unfolding commandManifest_def list_all_append by (intro conjI references_known)
  then show "list_all commandClosed commandManifest"
    by (auto simp: list_all_iff intro!: commandClosed_known)
qed

end
