(* ===== verification/Gate_Tool.thy ===== *)
theory Gate_Tool
  imports Dispositions Prep_Readiness Clarify_Readiness Command_Manifest
begin

text \<open>
  The gate tools (\<^verbatim>\<open>plugin/src/tools/gate.ts\<close>: gate completion with its planning branch, release
  finalization and boundary check; \<^verbatim>\<open>tools/change/handlers-misc.ts\<close>: re-entry).  The answers of the
  components not modelled here (worktree isolation, git probes, operations reconciliation) are
  inputs of a run; a run is a function of them and of the stored file.
\<close>

subsection \<open>Committing a gate\<close>

definition gatesOf :: "change_doc \<Rightarrow> gates" where
  "gatesOf d = (case cd_gates d of Some gs \<Rightarrow> gs | None \<Rightarrow> createDefaultGates)"

definition setGate :: "gate_id \<Rightarrow> gate_completion \<Rightarrow> change_doc \<Rightarrow> change_doc" where
  "setGate g c d = d\<lparr>cd_gates := Some ((gatesOf d)(g := c))\<rparr>"

definition gateIntent :: "string \<Rightarrow> gate_id \<Rightarrow> gate_completion \<Rightarrow> string \<Rightarrow> mutation_intent" where
  "gateIntent changeId g c evidence =
     \<lparr>mi_changeId = changeId, mi_mutationKind = ''gate_completion'',
      mi_mutate = (\<lambda>latest. Inr (setGate g c latest)),
      mi_verify = (\<lambda>rb. case cd_gates rb of
          Some gs \<Rightarrow> gt_status (gs g) = GDone \<and> gt_completed_at (gs g) = gt_completed_at c | None \<Rightarrow> False),
      mi_normalize = None, mi_reason = ''complete gate'', mi_evidence = evidence, mi_authority_kind = AkMutation\<rparr>"

text \<open>\<open>Inl\<close> is the error it throws.  No expected revision is passed.\<close>

definition commitGateCompletion ::
  "string \<Rightarrow> gate_id \<Rightarrow> gate_completion \<Rightarrow> string \<Rightarrow> mutation_env \<Rightarrow> projection_file
    \<Rightarrow> (string + gate_completion) \<times> projection_file" where
  "commitGateCompletion changeId g c evidence env file =
     (let (out, file') = coordinateChangeMutation (gateIntent changeId g c evidence) None True env file
      in ((case out of
             Verified v r a \<Rightarrow> Inr (case cd_gates v of Some gs \<Rightarrow> gs g | None \<Rightarrow> c)
           | Unverified reason a \<Rightarrow> Inl reason
           | MutationRefused reason \<Rightarrow> Inl reason
           | StaleMutation e a \<Rightarrow> Inl (''Projection revision conflict: expected '' @ showNat e @ '', actual '' @ showNat a)), file'))"

subsection \<open>Re-entry\<close>

definition reopenedGates :: "gate_id \<Rightarrow> gates \<Rightarrow> gates" where
  "reopenedGates fromGate gs = (\<lambda>g. if gateIndex g \<ge> gateIndex fromGate then pendingGate else gs g)"

record reenter_input =
  rn_fromGate :: gate_id
  rn_reason :: string
  rn_scopeDelta :: "string option"
  rn_approvalEvidence :: "string option"
  rn_dryRun :: bool
  rn_now :: string

definition reentryEntry :: "reenter_input \<Rightarrow> reentry_entry" where
  "reentryEntry inp =
     \<lparr>re_from_gate = rn_fromGate inp, re_reason = rn_reason inp, re_scope_delta = rn_scopeDelta inp,
      re_reopened_by = ''agent'', re_approval_evidence = rn_approvalEvidence inp,
      re_reopened_at = rn_now inp, re_gates_reset = drop (gateIndex (rn_fromGate inp)) gateOrder\<rparr>"

definition historyOf :: "change_doc \<Rightarrow> reentry_entry list" where
  "historyOf d = (case cd_reentry_history d of Some h \<Rightarrow> h | None \<Rightarrow> [])"

definition applyReentry :: "reenter_input \<Rightarrow> change_doc \<Rightarrow> change_doc" where
  "applyReentry inp d = d\<lparr>cd_gates := Some (reopenedGates (rn_fromGate inp) (gatesOf d)),
     cd_reentry_history := Some (historyOf d @ [reentryEntry inp])\<rparr>"

definition reentryIntent :: "string \<Rightarrow> reenter_input \<Rightarrow> mutation_intent" where
  "reentryIntent changeId inp =
     \<lparr>mi_changeId = changeId, mi_mutationKind = ''gate_reentry'',
      mi_mutate = (\<lambda>latest. Inr (applyReentry inp latest)),
      mi_verify = (\<lambda>rb. (case cd_gates rb of Some gs \<Rightarrow> gt_status (gs (rn_fromGate inp)) = GPending | None \<Rightarrow> False)
         \<and> (\<exists>e \<in> set (historyOf rb). re_reopened_at e = rn_now inp)),
      mi_normalize = None, mi_reason = ''reenter change from '' @ gateName (rn_fromGate inp),
      mi_evidence = (case rn_approvalEvidence inp of Some e \<Rightarrow> e | None \<Rightarrow> rn_reason inp),
      mi_authority_kind = AkMutation\<rparr>"

datatype reenter_response =
    ReenterError string
  | ReenterNotFound
  | ReenterTerminal change_status
  | ReenterDryRun gate_id
  | Reentered gate_id

definition runReenter ::
  "reenter_input \<Rightarrow> string \<Rightarrow> get_result \<Rightarrow> mutation_env \<Rightarrow> projection_file \<Rightarrow> reenter_response \<times> projection_file" where
  "runReenter inp changeId got env file =
     (case got of
        GetError e \<Rightarrow> (ReenterError e, file)
      | GetContextMismatch e \<Rightarrow> (ReenterError e, file)
      | GetMissing \<Rightarrow> (ReenterNotFound, file)
      | GetOk change \<Rightarrow>
          (if cd_status change = Archived \<or> cd_status change = Closed then (ReenterTerminal (cd_status change), file)
           else if rn_dryRun inp then (ReenterDryRun (rn_fromGate inp), file)
           else
             (let (out, file') = coordinateChangeMutation (reentryIntent changeId inp) None True env file
              in ((case out of
                     Verified v r a \<Rightarrow> Reentered (rn_fromGate inp)
                   | Unverified reason a \<Rightarrow> ReenterError reason
                   | _ \<Rightarrow> ReenterError ''Gate re-entry mutation was not verified.''), file'))))"

subsection \<open>Release finalization\<close>

record reach_proof =
  rp_proof :: string
  rp_releasedCommitSha :: "string option"
  rp_prNumber :: "nat option"
  rp_prHeadSha :: "string option"
  rp_mergeCommitOid :: "string option"
  rp_defaultBranchSha :: "string option"

datatype unreachable_proof = OriginPushUnverified | PrUnmerged | OtherProof string

text \<open>The answer of the reachability probe: a proof, or a reason with optional details.\<close>

datatype reachability = Reachable reach_proof | Unreachable unreachable_proof "string list option" bool

record release_probe =
  rl_prMode :: bool
  rl_repoRoot :: string
  rl_defaultBranch :: string
  rl_route :: string
  rl_reachability :: "change_doc \<Rightarrow> reachability"
  rl_pushed :: "bool \<times> string option"

datatype release_blocker =
    RequiresDurableProof
  | RequiresPrHandoff string
  | RequiresDefaultBranchPush string
  | RequiresTrunkMerge "string list"

definition field :: "string \<Rightarrow> string option \<Rightarrow> string list" where
  "field key v = (if truthy v then [key @ the v] else [])"

definition durableReleaseProofEvidence :: "release_probe \<Rightarrow> reach_proof \<Rightarrow> release_blocker + string" where
  "durableReleaseProofEvidence probe p =
     (case map_option trim (rp_releasedCommitSha p) of
        None \<Rightarrow> Inl RequiresDurableProof
      | Some sha \<Rightarrow>
          (if sha = [] then Inl RequiresDurableProof
           else Inr (joinWith ''; ''
             ([''Phase 9 finalization shipped'', ''defaultBranch='' @ rl_defaultBranch probe, ''repoRoot='' @ rl_repoRoot probe,
               ''pushStatus=verified'', ''proof='' @ rp_proof p, ''releasedCommitSha='' @ sha, ''route='' @ rl_route probe]
              @ (case rp_prNumber p of Some n \<Rightarrow> if n \<noteq> 0 then [''prNumber='' @ showNat n] else [] | None \<Rightarrow> [])
              @ field ''prHeadSha='' (rp_prHeadSha p)
              @ field ''mergeCommitOid='' (rp_mergeCommitOid p)
              @ (if truthy (rp_defaultBranchSha p)
                 then [''defaultBranchReachability=origin/'' @ rl_defaultBranch probe @ ''@'' @ the (rp_defaultBranchSha p)] else [])))))"

definition orList :: "string list option \<Rightarrow> string list" where
  "orList ds = (case ds of Some xs \<Rightarrow> xs | None \<Rightarrow> [])"

definition getReleaseFinalizationBlocker :: "release_probe \<Rightarrow> change_doc \<Rightarrow> release_blocker + string" where
  "getReleaseFinalizationBlocker probe change =
     (case rl_reachability probe change of
        Reachable p \<Rightarrow> durableReleaseProofEvidence probe p
      | Unreachable proof details armed \<Rightarrow>
          (if rl_prMode probe then
             (let (pushed, reason) = rl_pushed probe;
                  ds = (if \<not> pushed \<and> truthy reason then (''change branch not pushed: '' @ the reason) # orList details else orList details)
              in Inl (RequiresPrHandoff (if ds \<noteq> [] then joinWith ''; '' ds
                   else ''merged PR proof not found and change branch not pushed to origin'')))
           else (case proof of
               OriginPushUnverified \<Rightarrow> Inl (RequiresDefaultBranchPush (case details of
                   Some ds \<Rightarrow> joinWith ''; '' ds | None \<Rightarrow> rl_defaultBranch probe @ '' not pushed to origin''))
             | PrUnmerged \<Rightarrow> Inl (RequiresPrHandoff (joinWith ''; ''
                   ((if armed then ''pending auto-merge'' else ''PR is not merged'') # orList details)))
             | OtherProof _ \<Rightarrow> Inl (RequiresTrunkMerge (orList details)))))"

subsection \<open>Completing a gate\<close>

record gate_input =
  gi_changeId :: string
  gi_gateId :: gate_id
  gi_completedBy :: string
  gi_userApproved :: "bool option"
  gi_notes :: "string option"
  gi_compatibilityReason :: "string option"
  gi_priorApprovalEvidence :: "string option"

datatype clarify_mode = ClarifyOff | ClarifyAdvisory | ClarifyStrict

text \<open>
  The answers of the components a run consults: the store, the worktree isolation check (an error
  when it blocks), the clarify mode of the project and the stored proposal text, the reconciliation
  of operations follow-ups (which may throw, and may write), and the release probe.
\<close>

record gate_answers =
  an_got :: get_result
  an_isolation :: "gate_id \<Rightarrow> change_doc \<Rightarrow> string option"
  an_clarifyMode :: "clarify_mode option"
  an_proposal :: "string option"
  an_ops :: "change_doc \<Rightarrow> projection_file \<Rightarrow> (string + change_doc) \<times> projection_file"
  an_release :: release_probe
  an_reconcileEnv :: mutation_env
  an_now :: string

datatype gate_response =
    GrError string
  | GrContextMismatch string
  | GrCompatibilityUnsupported
  | GrLoadFailed load_failure string
  | GrBlockedBy "gate_id list"
  | GrIsolation string
  | GrNeedsUserApproval
  | GrPrepBlocked "validation_issue list"
  | GrClarifyBlocked "clarify_finding list"
  | GrIncompleteTasks "(string \<times> string \<times> task_status) list"
  | GrOpsUnavailable
  | GrReleaseBlocked release_blocker
  | GrReconcileBlocked string "pending_item list"
  | GrThrown string
  | GrCompleted gate_id gate_completion "string option" "validation_issue list" "clarify_finding list"

text \<open>What the checks hand to the commit: the completion, its evidence and what the answer carries.\<close>

record gate_plan =
  gp_completion :: gate_completion
  gp_evidence :: string
  gp_warning :: "string option"
  gp_prepWarnings :: "validation_issue list"
  gp_clarifyWarnings :: "clarify_finding list"

definition doneGate :: "string \<Rightarrow> string \<Rightarrow> string option \<Rightarrow> gate_completion" where
  "doneGate now by evidence = pendingGate\<lparr>gt_status := GDone, gt_completed_at := Some now,
     gt_completed_by := Some by, gt_approval_evidence := evidence\<rparr>"

text \<open>\<^verbatim>\<open>[a, b].filter(Boolean).join("; ") || undefined\<close>.\<close>

definition joinEvidence :: "string option \<Rightarrow> string option \<Rightarrow> string option" where
  "joinEvidence a b = (let xs = field [] a @ field [] b in if xs = [] then None else Some (joinWith ''; '' xs))"

definition handlePlanningGateCompletion ::
  "gate_input \<Rightarrow> gate_answers \<Rightarrow> change_doc \<Rightarrow> string option \<Rightarrow> gate_response + gate_plan" where
  "handlePlanningGateCompletion inp ans change warning =
     (if gi_userApproved inp \<noteq> Some True then Inl GrNeedsUserApproval
      else
        (let readiness = runPrepReadinessChecks change TddStrict;
             mode = (case an_clarifyMode ans of Some m \<Rightarrow> m | None \<Rightarrow> ClarifyAdvisory);
             proposal = (case an_proposal ans of Some p \<Rightarrow> p | None \<Rightarrow> []);
             findings = (if mode = ClarifyOff then [] else cl_findings (runClarifyReadinessChecks change proposal))
         in if \<not> pr_passed readiness then Inl (GrPrepBlocked (pr_mustFailures readiness))
            else if mode = ClarifyStrict \<and> findings \<noteq> [] then Inl (GrClarifyBlocked findings)
            else Inr \<lparr>gp_completion = doneGate (an_now ans) (gi_completedBy inp) (gi_notes inp),
              gp_evidence = (case gi_notes inp of Some n \<Rightarrow> n
                | None \<Rightarrow> ''gate '' @ gateName (gi_gateId inp) @ '' completed by '' @ gi_completedBy inp),
              gp_warning = warning, gp_prepWarnings = pr_warnings readiness, gp_clarifyWarnings = findings\<rparr>))"

definition incompleteTasks :: "task list \<Rightarrow> (string \<times> string \<times> task_status) list" where
  "incompleteTasks ts = map (\<lambda>t. (tk_id t, tk_title t, tk_status t))
     (filter (\<lambda>t. tk_status t \<noteq> TDone \<and> tk_status t \<noteq> TCancelled) ts)"

definition executionCheck :: "change_doc \<Rightarrow> projection_file \<Rightarrow> gate_response option" where
  "executionCheck change file =
     (case loadChange file of
        Inl (f, e) \<Rightarrow> Some (GrLoadFailed f e)
      | Inr projected \<Rightarrow>
          (let tasks = (case Option.bind projected cd_tasks of Some ts \<Rightarrow> ts | None \<Rightarrow> tasksOf change);
               incomplete = incompleteTasks tasks
           in if incomplete \<noteq> [] then Some (GrIncompleteTasks incomplete) else None))"

definition releaseCheck ::
  "gate_answers \<Rightarrow> change_doc \<Rightarrow> projection_file \<Rightarrow> (gate_response + string) \<times> projection_file" where
  "releaseCheck ans change file =
     (let (reconciled, file') = an_ops ans change file
      in case reconciled of
           Inl e \<Rightarrow>
             (if \<exists>l \<in> set (case cd_ops_links change of Some ls \<Rightarrow> ls | None \<Rightarrow> []). mustResolve l
              then (Inl GrOpsUnavailable, file')
              else (map_sum GrReleaseBlocked id (getReleaseFinalizationBlocker (an_release ans) change), file'))
         | Inr parent \<Rightarrow> (map_sum GrReleaseBlocked id (getReleaseFinalizationBlocker (an_release ans) parent), file'))"

definition planFor :: "gate_input \<Rightarrow> gate_answers \<Rightarrow> string option \<Rightarrow> string option \<Rightarrow> gate_plan" where
  "planFor inp ans evidence warning =
     \<lparr>gp_completion = doneGate (an_now ans) (gi_completedBy inp) evidence,
      gp_evidence = (case gi_priorApprovalEvidence inp of Some e \<Rightarrow> e
        | None \<Rightarrow> (case gi_notes inp of Some n \<Rightarrow> n | None \<Rightarrow> ''gate '' @ gateName (gi_gateId inp) @ '' completion'')),
      gp_warning = warning, gp_prepWarnings = [], gp_clarifyWarnings = []\<rparr>"

text \<open>The gate-specific part, after the checks every gate shares.\<close>

definition gateSpecificChecks ::
  "gate_input \<Rightarrow> gate_answers \<Rightarrow> change_doc \<Rightarrow> projection_file \<Rightarrow> (gate_response + gate_plan) \<times> projection_file" where
  "gateSpecificChecks inp ans change file =
     (let g = gi_gateId inp; warning = validateGateBoundary g (gi_completedBy inp)
      in if g = Planning then (handlePlanningGateCompletion inp ans change warning, file)
         else if g = Execution then
           (case executionCheck change file of
              Some r \<Rightarrow> (Inl r, file)
            | None \<Rightarrow> (Inr (planFor inp ans (gi_notes inp) warning), file))
         else if g = Release then
           (case releaseCheck ans change file of
              (Inl r, file') \<Rightarrow> (Inl r, file')
            | (Inr evidence, file') \<Rightarrow> (Inr (planFor inp ans (joinEvidence (gi_notes inp) (Some evidence)) warning), file'))
         else if g = Acceptance then
           (case reconcileRecoveredAcceptanceRemediation (gi_changeId inp) (an_reconcileEnv ans) file file of
              (ReconcileBlocked code items, file') \<Rightarrow> (Inl (GrReconcileBlocked code items), file')
            | (Reconciled n c, file') \<Rightarrow>
                (Inr (planFor inp ans (joinEvidence (gi_notes inp) (gi_priorApprovalEvidence inp)) warning), file'))
         else (Inr (planFor inp ans (gi_notes inp) warning), file))"

definition currentGates :: "change_doc \<Rightarrow> change_doc option \<Rightarrow> gates" where
  "currentGates change projected =
     (case Option.bind projected cd_gates of Some gs \<Rightarrow> gs | None \<Rightarrow> gatesOf change)"

definition gateChecks ::
  "gate_input \<Rightarrow> gate_answers \<Rightarrow> projection_file \<Rightarrow> (gate_response + gate_plan) \<times> projection_file" where
  "gateChecks inp ans file =
     (let g = gi_gateId inp
      in case an_got ans of
           GetError e \<Rightarrow> (Inl (GrError e), file)
         | GetMissing \<Rightarrow> (Inl (GrError (''Change not found: '' @ gi_changeId inp)), file)
         | GetContextMismatch e \<Rightarrow> (Inl (GrContextMismatch e), file)
         | GetOk change \<Rightarrow>
             (if truthy (map_option trim (gi_compatibilityReason inp)) \<and> g \<noteq> Acceptance \<and> g \<noteq> Release
              then (Inl GrCompatibilityUnsupported, file)
              else (case loadChange file of
                  Inl (f, e) \<Rightarrow> (Inl (GrLoadFailed f e), file)
                | Inr projected \<Rightarrow>
                    (let gs = currentGates change projected
                     in if \<not> canCompleteGate gs g
                        then (Inl (GrBlockedBy (filter (\<lambda>p. gt_status (gs p) \<noteq> GDone) (take (gateIndex g) gateOrder))), file)
                        else (case an_isolation ans g change of
                            Some reason \<Rightarrow> (Inl (GrIsolation reason), file)
                          | None \<Rightarrow> gateSpecificChecks inp ans change file)))))"

definition finishGate ::
  "gate_input \<Rightarrow> gate_plan \<Rightarrow> mutation_env \<Rightarrow> projection_file \<Rightarrow> gate_response \<times> projection_file" where
  "finishGate inp p env file =
     (let (r, file') = commitGateCompletion (gi_changeId inp) (gi_gateId inp) (gp_completion p) (gp_evidence p) env file
      in ((case r of
             Inl e \<Rightarrow> GrThrown e
           | Inr c \<Rightarrow> GrCompleted (gi_gateId inp) c (gp_warning p) (gp_prepWarnings p) (gp_clarifyWarnings p)), file'))"

definition runGateComplete ::
  "gate_input \<Rightarrow> gate_answers \<Rightarrow> mutation_env \<Rightarrow> projection_file \<Rightarrow> gate_response \<times> projection_file" where
  "runGateComplete inp ans env file =
     (case gateChecks inp ans file of
        (Inl r, file') \<Rightarrow> (r, file')
      | (Inr p, file') \<Rightarrow> finishGate inp p env file')"

end
