(* ===== verification/Gate_Flow.thy ===== *)
theory Gate_Flow
  imports Gate_Tool
begin

text \<open>
  What the gate tools guarantee: when a completion is accepted, what a completion and a re-entry
  write, and which runs of the tools keep the gates in order.
\<close>

subsection \<open>Gates of a document\<close>

lemma gates_payload: "payloadOf d = payloadOf e \<Longrightarrow> cd_gates d = cd_gates e"
  by (auto simp: payloadOf_def dest: arg_cong [of _ _ cd_gates])

lemma gatesOf_payload: "payloadOf d = payloadOf e \<Longrightarrow> gatesOf d = gatesOf e"
  using gates_payload [of d e] by (simp add: gatesOf_def)

lemma history_payload: "payloadOf d = payloadOf e \<Longrightarrow> historyOf d = historyOf e"
  by (auto simp: payloadOf_def historyOf_def dest: arg_cong [of _ _ cd_reentry_history])

lemma setGate_simps [simp]:
  "gatesOf (setGate g c d) = (gatesOf d)(g := c)" "cd_gates (setGate g c d) = Some ((gatesOf d)(g := c))"
  "cd_id (setGate g c d) = cd_id d" "cd_projection_commits (setGate g c d) = cd_projection_commits d"
  by (simp_all add: setGate_def gatesOf_def)

lemma populated_setGate: "populated f d \<Longrightarrow> populated f (setGate g c d)"
  by (cases f) (simp_all add: populated_def setGate_def del: gateOrder_eq, simp add: gateOrder_def gateDefs_def)

lemma applyReentry_simps [simp]:
  "gatesOf (applyReentry inp d) = reopenedGates (rn_fromGate inp) (gatesOf d)"
  "cd_gates (applyReentry inp d) = Some (reopenedGates (rn_fromGate inp) (gatesOf d))"
  "historyOf (applyReentry inp d) = historyOf d @ [reentryEntry inp]"
  "cd_id (applyReentry inp d) = cd_id d" "cd_projection_commits (applyReentry inp d) = cd_projection_commits d"
  by (simp_all add: applyReentry_def gatesOf_def historyOf_def)

lemma populated_reentry: "populated f d \<Longrightarrow> populated f (applyReentry inp d)"
  by (cases f) (simp_all add: populated_def applyReentry_def del: gateOrder_eq, simp add: gateOrder_def gateDefs_def)

definition gateVerified :: "gate_id \<Rightarrow> gate_completion \<Rightarrow> change_doc \<Rightarrow> bool" where
  "gateVerified g c rb = (case cd_gates rb of
     Some gs \<Rightarrow> gt_status (gs g) = GDone \<and> gt_completed_at (gs g) = gt_completed_at c | None \<Rightarrow> False)"

definition reentryVerified :: "reenter_input \<Rightarrow> change_doc \<Rightarrow> bool" where
  "reentryVerified inp rb \<longleftrightarrow>
     (case cd_gates rb of Some gs \<Rightarrow> gt_status (gs (rn_fromGate inp)) = GPending | None \<Rightarrow> False)
     \<and> (\<exists>e \<in> set (historyOf rb). re_reopened_at e = rn_now inp)"

lemma gateIntent_fields [simp]:
  "mi_mutate (gateIntent i g c e) = (\<lambda>latest. Inr (setGate g c latest))"
  "mi_verify (gateIntent i g c e) = gateVerified g c" "mi_changeId (gateIntent i g c e) = i"
  by (simp_all add: gateIntent_def gateVerified_def fun_eq_iff)

lemma reentryIntent_fields [simp]:
  "mi_mutate (reentryIntent i inp) = (\<lambda>latest. Inr (applyReentry inp latest))"
  "mi_verify (reentryIntent i inp) = reentryVerified inp" "mi_changeId (reentryIntent i inp) = i"
  by (simp_all add: reentryIntent_def reentryVerified_def fun_eq_iff)

interpretation gate_commit: tool_mutation "\<lambda>latest. Inr (setGate g c latest)" "gateVerified g c" "\<lambda>_. gt_status c = GDone"
  for g c
proof (unfold_locales, goal_cases)
  case (6 d e)
  then show ?case using gates_payload [OF 6] by (simp add: gateVerified_def)
qed (auto simp: gateVerified_def populated_setGate)

interpretation reentry: tool_mutation "\<lambda>latest. Inr (applyReentry inp latest)" "reentryVerified inp" "\<lambda>_. True"
  for inp
proof (unfold_locales, goal_cases)
  case (6 d e)
  then show ?case using gates_payload [OF 6] history_payload [OF 6] by (simp add: reentryVerified_def)
qed (auto simp: reentryVerified_def populated_reentry reopenedGates_def reentryEntry_def pendingGate_def)

subsection \<open>What the tools write\<close>

lemma commit_completes:
  assumes "workingEnv env" "freshOperation (gateIntent i g c e) env d" "gt_status c = GDone"
    and "\<not> isSyntheticValidationDraftPattern i" "\<not> isSyntheticValidationDraftPattern (cd_id d)"
  obtains v where "commitGateCompletion i g c e env (Valid d) = (Inr c, Valid v)"
    "cd_gates v = Some ((gatesOf d)(g := c))" "payloadOf v = payloadOf (setGate g c d)" "cd_id v = cd_id d"
proof -
  let ?mi = "gateIntent i g c e"
  obtain d' v a where m: "mi_mutate ?mi d = Inr d'" "payloadOf v = payloadOf d'" "cd_id v = cd_id d"
    "coordinateChangeMutation ?mi None True env (Valid d) = (Verified v (revisionOf d + 1) a, Valid v)"
    by (rule gate_commit.commits_verified [where mi = ?mi and g = g and c = c and d = d and env = env])
      (use assms in simp_all)
  from m(1) have d': "d' = setGate g c d" by simp
  then have "cd_gates v = Some ((gatesOf d)(g := c))" using gates_payload [OF m(2)] by simp
  with m(2-4) show ?thesis by (intro that [of v]) (simp_all add: commitGateCompletion_def d')
qed

lemma coordinate_gates:
  assumes "faithful (me_commit env)" "coordinateChangeMutation mi e True env (Valid d) = (out, file')"
  shows "file' = Valid d \<or> (\<exists>v d'. file' = Valid v \<and> mi_mutate mi d = Inr d' \<and> cd_gates v = cd_gates d')"
proof (cases "file' = Valid d")
  case False
  then obtain v d' where v: "file' = Valid v" "mi_mutate mi d = Inr d'" "payloadOf v = payloadOf d'"
    using coordinate_effect [OF assms] by blast
  from v(1,2) gates_payload [OF v(3)] show ?thesis by blast
qed simp

lemma commit_effect:
  assumes "faithful (me_commit env)" "commitGateCompletion i g c e env (Valid d) = (r, file')"
  shows "file' = Valid d \<or> (\<exists>v. file' = Valid v \<and> cd_gates v = Some ((gatesOf d)(g := c)))"
proof -
  obtain out where "coordinateChangeMutation (gateIntent i g c e) None True env (Valid d) = (out, file')"
    using assms(2) by (auto simp: commitGateCompletion_def Let_def split: prod.splits)
  from coordinate_gates [OF assms(1) this] show ?thesis by auto
qed

lemma reenter_effect:
  assumes "faithful (me_commit env)" "runReenter inp i got env (Valid d) = (r, file')"
  shows "file' = Valid d \<or> (\<exists>v. file' = Valid v \<and> cd_gates v = Some (reopenedGates (rn_fromGate inp) (gatesOf d)))"
proof (cases "file' = Valid d")
  case False
  then obtain out where "coordinateChangeMutation (reentryIntent i inp) None True env (Valid d) = (out, file')"
    using assms(2) by (auto simp: runReenter_def Let_def split: get_result.splits if_splits prod.splits)
  from coordinate_gates [OF assms(1) this] show ?thesis by auto
qed simp

lemma strip_gates [simp]: "cd_gates (stripRecoveryAuditMarkers d items) = cd_gates d"
  by (simp add: stripRecoveryAuditMarkers_def)

lemma reconcile_effect:
  assumes "faithful (me_commit env)" "reconcileRecoveredAcceptanceRemediation i env (Valid d) (Valid d) = (r, file')"
  shows "\<exists>d1. file' = Valid d1 \<and> cd_gates d1 = cd_gates d"
proof (cases "collectPendingReconciliationItems d = []")
  case True
  then show ?thesis using assms(2) by (auto simp: reconcileRecoveredAcceptanceRemediation_def)
next
  case False
  then obtain out where "coordinateChangeMutation (clearIntent i (collectPendingReconciliationItems d)) None True env (Valid d) = (out, file')"
    using assms(2) by (auto simp: reconcileRecoveredAcceptanceRemediation_def Let_def split: prod.splits)
  from coordinate_gates [OF assms(1) this] show ?thesis by (auto split: if_splits)
qed

text \<open>The operations reconciliation may write, but not to the gates.\<close>

definition opsKeepGates :: "gate_answers \<Rightarrow> bool" where
  "opsKeepGates ans \<longleftrightarrow> (\<forall>c d. \<exists>d1. snd (an_ops ans c (Valid d)) = Valid d1 \<and> cd_gates d1 = cd_gates d)"

lemma releaseCheck_effect:
  assumes "opsKeepGates ans" "releaseCheck ans c (Valid d) = (r, file')"
  shows "\<exists>d1. file' = Valid d1 \<and> cd_gates d1 = cd_gates d"
proof -
  have "file' = snd (an_ops ans c (Valid d))"
    using assms(2) by (auto simp: releaseCheck_def Let_def split: prod.splits sum.splits if_splits)
  then show ?thesis using assms(1) by (simp add: opsKeepGates_def)
qed

lemma specific_effect:
  assumes "faithful (me_commit (an_reconcileEnv ans))" "opsKeepGates ans"
    and "gateSpecificChecks inp ans c (Valid d) = (res, file')"
  shows "\<exists>d1. file' = Valid d1 \<and> cd_gates d1 = cd_gates d"
proof (cases "gi_gateId inp")
  case Acceptance
  then show ?thesis
    using assms(3) reconcile_effect [OF assms(1), of "gi_changeId inp" d]
    by (auto simp: gateSpecificChecks_def split: prod.splits reconcile_result.splits)
next
  case Release
  then show ?thesis
    using assms(3) releaseCheck_effect [OF assms(2), of c d]
    by (auto simp: gateSpecificChecks_def split: prod.splits sum.splits)
qed (use assms(3) in \<open>auto simp: gateSpecificChecks_def split: option.splits\<close>)

lemma gateChecks_effect:
  assumes "faithful (me_commit (an_reconcileEnv ans))" "opsKeepGates ans"
    and "gateChecks inp ans (Valid d) = (res, file')"
  shows "\<exists>d1. file' = Valid d1 \<and> cd_gates d1 = cd_gates d"
  using assms(3) specific_effect [OF assms(1,2)]
  by (auto simp: gateChecks_def Let_def split: get_result.splits if_splits option.splits)

lemma doneGate_status [simp]: "gt_status (doneGate n b e) = GDone"
  by (simp add: doneGate_def)

lemma specific_plan:
  assumes "gateSpecificChecks inp ans c file = (Inr p, file')"
  shows "gt_status (gp_completion p) = GDone"
  using assms
  by (auto simp: gateSpecificChecks_def handlePlanningGateCompletion_def planFor_def Let_def
      split: if_splits option.splits prod.splits sum.splits reconcile_result.splits)

lemma gateChecks_plan:
  assumes "gateChecks inp ans (Valid d) = (Inr p, file')"
  obtains change where "an_got ans = GetOk change" "canCompleteGate (currentGates change (Some d)) (gi_gateId inp)"
    "an_isolation ans (gi_gateId inp) change = None" "gt_status (gp_completion p) = GDone"
    "gateSpecificChecks inp ans change (Valid d) = (Inr p, file')"
  using assms specific_plan
  by (auto simp: gateChecks_def Let_def split: get_result.splits if_splits option.splits)

subsection \<open>Runs of the tools\<close>

text \<open>
  Completions and re-entries one after the other: each run of a tool reads and writes the file
  without another one in between.
\<close>

inductive gate_run :: "projection_file \<Rightarrow> projection_file \<Rightarrow> bool" where
  gate_start: "gate_run f f"
| gate_complete: "gate_run f g \<Longrightarrow> faithful (me_commit env) \<Longrightarrow> faithful (me_commit (an_reconcileEnv ans)) \<Longrightarrow>
    opsKeepGates ans \<Longrightarrow> runGateComplete inp ans env g = (r, h) \<Longrightarrow> gate_run f h"
| gate_reenter: "gate_run f g \<Longrightarrow> faithful (me_commit env) \<Longrightarrow> runReenter rinp i got env g = (s, h) \<Longrightarrow> gate_run f h"

lemma currentGates_recorded: "cd_gates d = Some gs \<Longrightarrow> currentGates c (Some d) = gs"
  by (simp add: currentGates_def)

lemma gatesOf_recorded: "cd_gates d = Some gs \<Longrightarrow> gatesOf d = gs"
  by (simp add: gatesOf_def)

lemma reopened_order: "gates_in_order gs \<Longrightarrow> gates_in_order (reopenedGates f gs)"
proof -
  assume o: "gates_in_order gs"
  have "isGateSatisfied (reopenedGates f gs p)" if "isGateSatisfied (reopenedGates f gs g)" "p < g" for g p
  proof -
    have g: "gateIndex g < gateIndex f" "isGateSatisfied (gs g)"
      using that(1) by (auto simp: reopenedGates_def isGateSatisfied_def pendingGate_def not_le split: if_splits)
    then have "gateIndex p < gateIndex f" using that(2) by (simp add: less_gate_id_def)
    moreover have "isGateSatisfied (gs p)" using o g(2) that(2) by (auto simp: gates_in_order_def)
    ultimately show ?thesis by (simp add: reopenedGates_def not_le)
  qed
  then show ?thesis unfolding gates_in_order_def by blast
qed

lemma complete_keeps_order:
  assumes "cd_gates d = Some gs" "gates_in_order gs" "faithful (me_commit env)"
    and "faithful (me_commit (an_reconcileEnv ans))" "opsKeepGates ans" "runGateComplete inp ans env (Valid d) = (r, h)"
  shows "\<exists>d1 gs1. h = Valid d1 \<and> cd_gates d1 = Some gs1 \<and> gates_in_order gs1"
proof (cases "gateChecks inp ans (Valid d)")
  case (Pair res f1)
  obtain d1 where d1: "f1 = Valid d1" "cd_gates d1 = Some gs"
    using gateChecks_effect [OF assms(4,5) Pair] assms(1) by auto
  show ?thesis
  proof (cases res)
    case (Inl x)
    then show ?thesis using assms(2,6) Pair d1 by (auto simp: runGateComplete_def)
  next
    case (Inr p)
    then obtain change where p: "canCompleteGate (currentGates change (Some d)) (gi_gateId inp)" "gt_status (gp_completion p) = GDone"
      using Pair gateChecks_plan by blast
    then have "gates_in_order (gs(gi_gateId inp := gp_completion p))"
      using gates_in_order_complete [OF assms(2)] by (simp add: currentGates_recorded [OF assms(1)] isGateSatisfied_def)
    moreover obtain c where "commitGateCompletion (gi_changeId inp) (gi_gateId inp) (gp_completion p) (gp_evidence p) env (Valid d1) = (c, h)"
      using assms(6) Pair Inr d1(1) by (auto simp: runGateComplete_def finishGate_def Let_def split: prod.splits)
    ultimately show ?thesis
      using commit_effect [OF assms(3)] assms(2) d1(2) gatesOf_recorded [OF d1(2)] by fastforce
  qed
qed

text \<open>
  Claim C22. Tools that run one after the other keep the gates in order: starting from a document with
  recorded gates of which a satisfied one has only satisfied predecessors, so is every later one.
\<close>

theorem serial_runs_keep_order:
  assumes "gate_run (Valid d) f" "cd_gates d = Some gs" "gates_in_order gs"
  shows "\<exists>d1 gs1. f = Valid d1 \<and> cd_gates d1 = Some gs1 \<and> gates_in_order gs1"
  using assms(1)
proof (induction "Valid d" f rule: gate_run.induct)
  case gate_start
  then show ?case using assms(2,3) by blast
next
  case (gate_complete g env ans inp r h)
  then show ?case using complete_keeps_order by blast
next
  case (gate_reenter g env rinp i got s h)
  then obtain d1 gs1 where g: "g = Valid d1" "cd_gates d1 = Some gs1" "gates_in_order gs1" by blast
  then show ?case
    using reenter_effect [of env rinp i got d1 s h] gate_reenter.hyps reopened_order [OF g(3)] gatesOf_recorded [OF g(2)]
    by auto
qed

text \<open>
  Claim C37. A re-entry on a working store reopens exactly the gates from the given one on, keeps the
  earlier ones as they are, appends one entry to the history, and reports the gate it reopened from.
\<close>

theorem reentry_reopens_exactly:
  assumes "workingEnv env" "cd_status change \<noteq> Archived" "cd_status change \<noteq> Closed" "\<not> rn_dryRun inp"
    and "freshOperation (reentryIntent i inp) env d"
    and "\<not> isSyntheticValidationDraftPattern i" "\<not> isSyntheticValidationDraftPattern (cd_id d)"
  shows "\<exists>v. runReenter inp i (GetOk change) env (Valid d) = (Reentered (rn_fromGate inp), Valid v) \<and>
    (\<forall>g. gatesOf v g = (if g < rn_fromGate inp then gatesOf d g else pendingGate)) \<and>
    historyOf v = historyOf d @ [reentryEntry inp] \<and>
    re_gates_reset (reentryEntry inp) = filter (\<lambda>g. rn_fromGate inp \<le> g) gateOrder"
proof -
  let ?mi = "reentryIntent i inp"
  obtain d' v a where m: "mi_mutate ?mi d = Inr d'" "payloadOf v = payloadOf d'"
    "coordinateChangeMutation ?mi None True env (Valid d) = (Verified v (revisionOf d + 1) a, Valid v)"
    by (rule reentry.commits_verified [where mi = ?mi and inp = inp and d = d and env = env]) (use assms in simp_all)
  from m(1) have d': "d' = applyReentry inp d" by simp
  have "gatesOf v = reopenedGates (rn_fromGate inp) (gatesOf d)" using gatesOf_payload [OF m(2)] d' by simp
  then have "\<forall>g. gatesOf v g = (if g < rn_fromGate inp then gatesOf d g else pendingGate)"
    by (auto simp: reopenedGates_def less_gate_id_def)
  moreover have "historyOf v = historyOf d @ [reentryEntry inp]" using history_payload [OF m(2)] d' by simp
  moreover have "re_gates_reset (reentryEntry inp) = filter (\<lambda>g. rn_fromGate inp \<le> g) gateOrder"
    by (cases "rn_fromGate inp") (simp_all add: reentryEntry_def less_eq_gate_id_def)
  moreover have "runReenter inp i (GetOk change) env (Valid d) = (Reentered (rn_fromGate inp), Valid v)"
    using assms(2-4) m(3) by (simp add: runReenter_def)
  ultimately show ?thesis by blast
qed

text \<open>
  A completion that was checked before a re-entry and written after it leaves the gates out
  of order: the commit carries no revision of the document that was checked, so it completes the
  gate although the re-entry has reopened an earlier one.
\<close>

theorem interleaved_completion_breaks_order:
  assumes "workingEnv env" "workingEnv renv"
    and "gateChecks inp ans (Valid d) = (Inr p, Valid d)"
    and "rn_fromGate rinp < gi_gateId inp" "\<not> rn_dryRun rinp"
    and "cd_status change \<noteq> Archived" "cd_status change \<noteq> Closed"
    and "freshOperation (reentryIntent (gi_changeId inp) rinp) renv d"
    and "runReenter rinp (gi_changeId inp) (GetOk change) renv (Valid d) = (s, Valid d1)"
    and "freshOperation (gateIntent (gi_changeId inp) (gi_gateId inp) (gp_completion p) (gp_evidence p)) env d1"
    and "\<not> isSyntheticValidationDraftPattern (gi_changeId inp)" "\<not> isSyntheticValidationDraftPattern (cd_id d)"
  shows "\<exists>v. finishGate inp p env (Valid d1) =
      (GrCompleted (gi_gateId inp) (gp_completion p) (gp_warning p) (gp_prepWarnings p) (gp_clarifyWarnings p), Valid v) \<and>
    \<not> gates_in_order (gatesOf v)"
proof -
  let ?r = "reentryIntent (gi_changeId inp) rinp" and ?g = "gi_gateId inp"
  obtain d' v1 a where m: "mi_mutate ?r d = Inr d'" "payloadOf v1 = payloadOf d'" "cd_id v1 = cd_id d"
    "coordinateChangeMutation ?r None True renv (Valid d) = (Verified v1 (revisionOf d + 1) a, Valid v1)"
    by (rule reentry.commits_verified [where mi = ?r and inp = rinp and d = d and env = renv]) (use assms in simp_all)
  have d1: "d1 = v1" using assms(5-7,9) m(4) by (simp add: runReenter_def)
  from m(1) have "d' = applyReentry rinp d" by simp
  then have gs: "gatesOf d1 = reopenedGates (rn_fromGate rinp) (gatesOf d)" using gatesOf_payload [OF m(2)] d1 by simp
  have st: "gt_status (gp_completion p) = GDone" using assms(3) gateChecks_plan by blast
  obtain v where v: "commitGateCompletion (gi_changeId inp) ?g (gp_completion p) (gp_evidence p) env (Valid d1) = (Inr (gp_completion p), Valid v)"
    "cd_gates v = Some ((gatesOf d1)(?g := gp_completion p))"
    by (rule commit_completes [OF assms(1,10) st assms(11)]) (use assms(12) m(3) d1 in simp_all)
  have "isGateSatisfied (gatesOf v ?g)" "\<not> isGateSatisfied (gatesOf v (rn_fromGate rinp))"
    using v(2) st assms(4) gs
    by (auto simp: gatesOf_recorded isGateSatisfied_def reopenedGates_def pendingGate_def)
  then have "\<not> gates_in_order (gatesOf v)" using assms(4) unfolding gates_in_order_def by blast
  then show ?thesis using v(1) by (auto simp: finishGate_def)
qed

subsection \<open>When a completion is accepted\<close>

definition settled :: "task \<Rightarrow> bool" where
  "settled t \<longleftrightarrow> tk_status t = TDone \<or> tk_status t = TCancelled"

text \<open>The gate-specific conditions, for the change from the store and the document on disk.\<close>

definition planningAllowed :: "gate_input \<Rightarrow> gate_answers \<Rightarrow> change_doc \<Rightarrow> bool" where
  "planningAllowed inp ans change \<longleftrightarrow> gi_userApproved inp = Some True \<and>
     pr_passed (runPrepReadinessChecks change TddStrict) \<and>
     (an_clarifyMode ans = Some ClarifyStrict \<longrightarrow>
       cl_passed (runClarifyReadinessChecks change (case an_proposal ans of Some p \<Rightarrow> p | None \<Rightarrow> [])))"

definition executionAllowed :: "change_doc \<Rightarrow> change_doc \<Rightarrow> bool" where
  "executionAllowed change d \<longleftrightarrow>
     list_all settled (case cd_tasks d of Some ts \<Rightarrow> ts | None \<Rightarrow> tasksOf change)"

definition releaseAllowed :: "gate_answers \<Rightarrow> change_doc \<Rightarrow> change_doc \<Rightarrow> bool" where
  "releaseAllowed ans change d \<longleftrightarrow>
     (case fst (an_ops ans change (Valid d)) of
        Inr parent \<Rightarrow> \<not> isl (getReleaseFinalizationBlocker (an_release ans) parent)
      | Inl _ \<Rightarrow> \<not> list_ex mustResolve (orEmpty (cd_ops_links change)) \<and>
          \<not> isl (getReleaseFinalizationBlocker (an_release ans) change))"

definition gateAllowed :: "gate_input \<Rightarrow> gate_answers \<Rightarrow> change_doc \<Rightarrow> change_doc \<Rightarrow> bool" where
  "gateAllowed inp ans change d \<longleftrightarrow>
     (truthy (map_option trim (gi_compatibilityReason inp)) \<longrightarrow> gi_gateId inp = Acceptance \<or> gi_gateId inp = Release) \<and>
     canCompleteGate (currentGates change (Some d)) (gi_gateId inp) \<and>
     an_isolation ans (gi_gateId inp) change = None \<and>
     (gi_gateId inp = Planning \<longrightarrow> planningAllowed inp ans change) \<and>
     (gi_gateId inp = Execution \<longrightarrow> executionAllowed change d) \<and>
     (gi_gateId inp = Release \<longrightarrow> releaseAllowed ans change d)"

lemma planning_iff:
  "\<not> isl (handlePlanningGateCompletion inp ans change w) \<longleftrightarrow> planningAllowed inp ans change"
  by (auto simp: handlePlanningGateCompletion_def planningAllowed_def Let_def runClarifyReadinessChecks_def
      split: option.splits)

lemma execution_iff: "executionCheck change (Valid d) = None \<longleftrightarrow> executionAllowed change d"
  by (auto simp: executionCheck_def executionAllowed_def incompleteTasks_def Let_def filter_empty_conv list_all_iff settled_def
      split: option.splits)

lemma isl_map_sum [simp]: "isl (map_sum f g x) = isl x"
  by (cases x) simp_all

lemma release_iff: "\<not> isl (fst (releaseCheck ans change (Valid d))) \<longleftrightarrow> releaseAllowed ans change d"
  by (auto simp: releaseCheck_def releaseAllowed_def Let_def list_ex_iff orEmpty_def split: prod.splits sum.splits option.splits)

lemma releaseCheck_file: "snd (releaseCheck ans change f) = snd (an_ops ans change f)"
  by (auto simp: releaseCheck_def Let_def split: prod.splits sum.splits)

text \<open>On a document without recovery markers, and when the operations reconciliation writes nothing.\<close>

lemma specific_iff:
  assumes "collectPendingReconciliationItems d = []" "snd (an_ops ans change (Valid d)) = Valid d"
  shows "snd (gateSpecificChecks inp ans change (Valid d)) = Valid d"
    and "\<not> isl (fst (gateSpecificChecks inp ans change (Valid d))) \<longleftrightarrow>
      (gi_gateId inp = Planning \<longrightarrow> planningAllowed inp ans change) \<and>
      (gi_gateId inp = Execution \<longrightarrow> executionAllowed change d) \<and>
      (gi_gateId inp = Release \<longrightarrow> releaseAllowed ans change d)"
proof -
  have rec: "reconcileRecoveredAcceptanceRemediation i e (Valid d) (Valid d) = (Reconciled 0 d, Valid d)" for i e
    by (simp add: reconcileRecoveredAcceptanceRemediation_def assms(1))
  obtain r where r: "releaseCheck ans change (Valid d) = (r, Valid d)"
    using releaseCheck_file [of ans change "Valid d"] assms(2) by (cases "releaseCheck ans change (Valid d)") simp
  have ri: "\<not> isl r \<longleftrightarrow> releaseAllowed ans change d" using release_iff [of ans change d] r by simp
  show "snd (gateSpecificChecks inp ans change (Valid d)) = Valid d"
    by (simp add: gateSpecificChecks_def rec r Let_def split: option.splits sum.splits)
  show "\<not> isl (fst (gateSpecificChecks inp ans change (Valid d))) \<longleftrightarrow>
      (gi_gateId inp = Planning \<longrightarrow> planningAllowed inp ans change) \<and>
      (gi_gateId inp = Execution \<longrightarrow> executionAllowed change d) \<and>
      (gi_gateId inp = Release \<longrightarrow> releaseAllowed ans change d)"
    using planning_iff [of inp ans change] ri
    by (cases "gi_gateId inp"; cases r) (auto simp: gateSpecificChecks_def rec r Let_def
        simp flip: execution_iff split: option.splits)
qed

lemma checks_iff:
  assumes "an_got ans = GetOk change" "collectPendingReconciliationItems d = []" "snd (an_ops ans change (Valid d)) = Valid d"
  shows "snd (gateChecks inp ans (Valid d)) = Valid d"
    and "\<not> isl (fst (gateChecks inp ans (Valid d))) \<longleftrightarrow> gateAllowed inp ans change d"
  using assms(1) specific_iff [OF assms(2,3), of inp]
  by (auto simp: gateChecks_def gateAllowed_def Let_def split: option.splits)

lemma map_sum_Inl: "map_sum f id x = Inl y \<longleftrightarrow> (\<exists>z. x = Inl z \<and> y = f z)"
  by (cases x) auto

lemma checks_never_complete: "gateChecks inp ans file = (Inl r, f) \<Longrightarrow> r \<noteq> GrCompleted g c w pw cw"
  by (auto simp: gateChecks_def gateSpecificChecks_def handlePlanningGateCompletion_def executionCheck_def releaseCheck_def
      Let_def map_sum_Inl split: if_splits option.splits prod.splits sum.splits reconcile_result.splits get_result.splits)


text \<open>
  Acceptance is completed without an acceptance contract: on a working store the tool
  completes it for every change whose earlier gates are done, whose worktree check passes and which
  has no recovery marker, while the readiness evaluator refuses every state without a contract.
\<close>

theorem acceptance_tool_skips_readiness:
  assumes "an_got ans = GetOk change" "workingEnv env" "collectPendingReconciliationItems d = []"
    and "gi_gateId inp = Acceptance" "canCompleteGate (currentGates change (Some d)) Acceptance"
    and "an_isolation ans Acceptance change = None"
    and "\<And>c e. freshOperation (gateIntent (gi_changeId inp) Acceptance c e) env d"
    and "\<not> isSyntheticValidationDraftPattern (gi_changeId inp)" "\<not> isSyntheticValidationDraftPattern (cd_id d)"
    and "cs_contract st = None" "\<not> truthy (ro_compatibilityReason opts)"
  shows "(\<exists>c w v. runGateComplete inp ans env (Valid d) = (GrCompleted Acceptance c w [] [], Valid v) \<and>
      cd_gates v = Some ((gatesOf d)(Acceptance := c))) \<and>
    \<not> re_ready (evaluateGateReadiness st Acceptance opts)"
proof
  obtain res f where c: "gateChecks inp ans (Valid d) = (Inr res, Valid d)" "gt_status (gp_completion res) = GDone"
    "gp_prepWarnings res = []" "gp_clarifyWarnings res = []"
    using assms(1,3-6)
    by (auto simp: gateChecks_def gateSpecificChecks_def reconcileRecoveredAcceptanceRemediation_def planFor_def)
  obtain v where v: "commitGateCompletion (gi_changeId inp) Acceptance (gp_completion res) (gp_evidence res) env (Valid d) = (Inr (gp_completion res), Valid v)"
    "cd_gates v = Some ((gatesOf d)(Acceptance := gp_completion res))"
    by (rule commit_completes [OF assms(2,7) c(2) assms(8,9)])
  show "\<exists>c w v. runGateComplete inp ans env (Valid d) = (GrCompleted Acceptance c w [] [], Valid v) \<and>
      cd_gates v = Some ((gatesOf d)(Acceptance := c))"
    using c v assms(4) by (simp add: runGateComplete_def finishGate_def)
next
  have "acceptanceContractBlockers st Acceptance (ro_strictUnknownRows opts) \<noteq> []"
    using assms(10) by (simp add: acceptanceContractBlockers_def)
  then show "\<not> re_ready (evaluateGateReadiness st Acceptance opts)"
    using assms(11) by (simp add: evaluateGateReadiness_def Let_def nonEmpty_def)
qed

end
