(* ===== verification/Gate_Examples.thy ===== *)
theory Gate_Examples
  imports Gate_Flow Gate_Decisions
begin

text \<open>
  Concrete runs of the gate tools, at which the properties of \<open>Gate_Flow\<close> and of the mutation
  coordinator apply.
\<close>

definition gatesUpTo :: "nat \<Rightarrow> gates" where
  "gatesUpTo n = (\<lambda>g. if gateIndex g < n then doneGate ''t'' ''agent'' None else pendingGate)"

definition ex_gdoc :: "nat \<Rightarrow> change_doc" where
  "ex_gdoc n = ex_doc\<lparr>cd_gates := Some (gatesUpTo n)\<rparr>"

definition ex_probe :: release_probe where
  "ex_probe = \<lparr>rl_prMode = False, rl_repoRoot = ''/repo'', rl_defaultBranch = ''main'', rl_route = ''direct'',
     rl_reachability = (\<lambda>_. Unreachable (OtherProof ''none'') None False), rl_pushed = (False, None)\<rparr>"

definition ex_answers :: "change_doc \<Rightarrow> gate_answers" where
  "ex_answers d = \<lparr>an_got = GetOk d, an_isolation = (\<lambda>_ _. None), an_clarifyMode = None, an_proposal = None,
     an_ops = (\<lambda>c f. (Inr c, f)), an_release = ex_probe, an_reconcileEnv = ex_menv, an_now = ''n''\<rparr>"

definition ex_input :: "gate_id \<Rightarrow> gate_input" where
  "ex_input g = \<lparr>gi_changeId = ''demo'', gi_gateId = g, gi_completedBy = ''agent'', gi_userApproved = None, gi_notes = None,
     gi_compatibilityReason = None, gi_priorApprovalEvidence = None\<rparr>"

definition ex_reenter :: "gate_id \<Rightarrow> reenter_input" where
  "ex_reenter g = \<lparr>rn_fromGate = g, rn_reason = ''scope grew'', rn_scopeDelta = None, rn_approvalEvidence = None,
     rn_dryRun = False, rn_now = ''n2''\<rparr>"

lemma ex_gdoc_facts:
  "cd_gates (ex_gdoc n) = Some (gatesUpTo n)" "gatesOf (ex_gdoc n) = gatesUpTo n" "cd_id (ex_gdoc n) = ''demo''"
  "commitsOf (ex_gdoc n) = []" "collectPendingReconciliationItems (ex_gdoc n) = []" "cd_tasks (ex_gdoc n) = Some []"
  "cd_status (ex_gdoc n) = Draft" "revisionOf (ex_gdoc n) = 0"
  by (simp_all add: ex_gdoc_def ex_doc_def gatesOf_def commitsOf_def collectPendingReconciliationItems_def reviewMatrixOf_def
      revisionOf_def)

lemma ex_gdoc_fresh: "freshOperation mi ex_menv (ex_gdoc n)"
  by (simp add: freshOperation_def ex_gdoc_facts)

lemma ex_gdoc_real: "\<not> isSyntheticValidationDraftPattern (cd_id (ex_gdoc n))"
  using ex_not_synthetic by (simp add: ex_gdoc_facts)

lemma ex_input_facts [simp]:
  "gi_changeId (ex_input g) = ''demo''" "gi_gateId (ex_input g) = g" "gi_compatibilityReason (ex_input g) = None"
  by (simp_all add: ex_input_def)

lemma ex_answers_facts [simp]:
  "an_got (ex_answers d) = GetOk d" "an_isolation (ex_answers d) g c = None" "an_ops (ex_answers d) c f = (Inr c, f)"
  "an_reconcileEnv (ex_answers d) = ex_menv"
  by (simp_all add: ex_answers_def)

lemma ex_canComplete: "canCompleteGate (gatesUpTo n) g \<longleftrightarrow> gateIndex g \<le> n"
proof -
  have "isGateSatisfied (gatesUpTo n p) \<longleftrightarrow> gateIndex p < n" for p
    by (simp add: gatesUpTo_def isGateSatisfied_def pendingGate_def)
  then have "canCompleteGate (gatesUpTo n) g \<longleftrightarrow> (\<forall>p < g. gateIndex p < n)" by (simp add: canCompleteGate_iff)
  also have "\<dots> \<longleftrightarrow> gateIndex g \<le> n"
  proof
    assume a: "\<forall>p < g. gateIndex p < n"
    show "gateIndex g \<le> n"
    proof (cases "gateIndex g = 0")
      case False
      define p where "p = gateOrder ! (gateIndex g - 1)"
      have "gateIndex p = gateIndex g - 1" using False by (cases g) (simp_all add: p_def)
      then have "p < g" using False by (simp add: less_gate_id_def)
      with a have "gateIndex g - 1 < n" using \<open>gateIndex p = gateIndex g - 1\<close> by force
      then show ?thesis by simp
    qed simp
  qed (auto simp: less_gate_id_def)
  finally show ?thesis .
qed

lemma ex_current: "currentGates c (Some (ex_gdoc n)) = gatesUpTo n"
  by (simp add: currentGates_def ex_gdoc_facts)

lemma ex_allowed: "gateAllowed (ex_input Execution) (ex_answers (ex_gdoc n)) (ex_gdoc n) (ex_gdoc n) \<longleftrightarrow> 4 \<le> n"
  by (simp add: gateAllowed_def ex_current ex_canComplete executionAllowed_def ex_gdoc_facts)


lemma ex_reenter_facts [simp]:
  "rn_fromGate (ex_reenter g) = g" "rn_dryRun (ex_reenter g) = False"
  by (simp_all add: ex_reenter_def)

theorem reentry_reopens_exactly_witness:
  "\<exists>v. runReenter (ex_reenter Design) ''demo'' (GetOk (ex_gdoc 4)) ex_menv (Valid (ex_gdoc 4)) = (Reentered Design, Valid v) \<and>
     gatesOf v Discovery = gatesUpTo 4 Discovery \<and> gatesOf v Planning = pendingGate"
proof -
  have "\<exists>v. runReenter (ex_reenter Design) ''demo'' (GetOk (ex_gdoc 4)) ex_menv (Valid (ex_gdoc 4)) = (Reentered (rn_fromGate (ex_reenter Design)), Valid v) \<and>
    (\<forall>g. gatesOf v g = (if g < rn_fromGate (ex_reenter Design) then gatesOf (ex_gdoc 4) g else pendingGate)) \<and>
    historyOf v = historyOf (ex_gdoc 4) @ [reentryEntry (ex_reenter Design)] \<and>
    re_gates_reset (reentryEntry (ex_reenter Design)) = filter (\<lambda>g. rn_fromGate (ex_reenter Design) \<le> g) gateOrder"
    by (rule reentry_reopens_exactly)
      (use ex_working ex_gdoc_facts ex_gdoc_fresh ex_not_synthetic ex_gdoc_real in simp_all)
  then show ?thesis by (auto simp: ex_gdoc_facts less_gate_id_def)
qed

lemma gatesUpTo_order: "gates_in_order (gatesUpTo n)"
  by (auto simp: gates_in_order_def gatesUpTo_def isGateSatisfied_def less_gate_id_def pendingGate_def split: if_splits)

lemma ex_ops: "opsKeepGates (ex_answers d)"
  by (simp add: opsKeepGates_def)

lemma ex_menv_faithful: "faithful (me_commit ex_menv)"
  using ex_working by (simp add: workingEnv_def)

theorem serial_runs_keep_order_witness:
  "\<exists>r h s f gs. runGateComplete (ex_input Execution) (ex_answers (ex_gdoc 4)) ex_menv (Valid (ex_gdoc 4)) = (r, h) \<and>
     runReenter (ex_reenter Design) ''demo'' (GetOk (ex_gdoc 4)) ex_menv h = (s, f) \<and>
     gate_run (Valid (ex_gdoc 4)) f \<and> (\<exists>v. f = Valid v \<and> cd_gates v = Some gs) \<and> gates_in_order gs"
proof -
  obtain r h where r: "runGateComplete (ex_input Execution) (ex_answers (ex_gdoc 4)) ex_menv (Valid (ex_gdoc 4)) = (r, h)" by fastforce
  obtain s f where s: "runReenter (ex_reenter Design) ''demo'' (GetOk (ex_gdoc 4)) ex_menv h = (s, f)" by fastforce
  have "gate_run (Valid (ex_gdoc 4)) h"
    by (rule gate_complete [OF gate_start ex_menv_faithful _ ex_ops r]) (simp add: ex_menv_faithful)
  then have g: "gate_run (Valid (ex_gdoc 4)) f" by (rule gate_reenter [OF _ ex_menv_faithful s])
  from serial_runs_keep_order [OF g ex_gdoc_facts(1) gatesUpTo_order] r s g show ?thesis by blast
qed

text \<open>The checks of the execution gate, taken before a re-entry from design.\<close>

lemma ex_checks:
  obtains p where "gateChecks (ex_input Execution) (ex_answers (ex_gdoc 4)) (Valid (ex_gdoc 4)) = (Inr p, Valid (ex_gdoc 4))"
proof -
  have "\<not> isl (fst (gateChecks (ex_input Execution) (ex_answers (ex_gdoc 4)) (Valid (ex_gdoc 4))))"
    "snd (gateChecks (ex_input Execution) (ex_answers (ex_gdoc 4)) (Valid (ex_gdoc 4))) = Valid (ex_gdoc 4)"
    using checks_iff [of "ex_answers (ex_gdoc 4)" "ex_gdoc 4" "ex_gdoc 4" "ex_input Execution"] ex_allowed [of 4]
    by (simp_all add: ex_gdoc_facts)
  then show ?thesis
    by (cases "fst (gateChecks (ex_input Execution) (ex_answers (ex_gdoc 4)) (Valid (ex_gdoc 4)))")
      (auto intro: that simp: prod_eq_iff)
qed

lemma ex_reentered:
  obtains v where "runReenter (ex_reenter Design) ''demo'' (GetOk (ex_gdoc 4)) ex_menv (Valid (ex_gdoc 4)) = (Reentered Design, Valid v)"
    "freshOperation (gateIntent ''demo'' g c e) ex_menv v"
proof -
  let ?mi = "reentryIntent ''demo'' (ex_reenter Design)"
  obtain d' v a where m: "mi_mutate ?mi (ex_gdoc 4) = Inr d'"
    "coordinateChangeMutation ?mi None True ex_menv (Valid (ex_gdoc 4)) = (Verified v (revisionOf (ex_gdoc 4) + 1) a, Valid v)"
    "commitsOf v = lastN maxAuditEntries (commitsOf (ex_gdoc 4) @ [a])" "au_operation_id a = Some (operationIdOf ?mi (me_uuid ex_menv))"
    by (rule reentry.commits_verified [where mi = ?mi and inp = "ex_reenter Design" and d = "ex_gdoc 4" and env = ex_menv])
      (use ex_working ex_gdoc_fresh ex_not_synthetic ex_gdoc_real in simp_all)
  have "commitsOf v = [a]" using m(3) by (simp add: ex_gdoc_facts lastN_def maxAuditEntries_def)
  then have "freshOperation (gateIntent ''demo'' g c e) ex_menv v"
    using m(4) by (simp add: freshOperation_def operationIdOf_def gateIntent_def reentryIntent_def)
  moreover have "runReenter (ex_reenter Design) ''demo'' (GetOk (ex_gdoc 4)) ex_menv (Valid (ex_gdoc 4)) = (Reentered Design, Valid v)"
    using m(2) by (simp add: runReenter_def ex_gdoc_facts)
  ultimately show ?thesis using that by blast
qed

theorem interleaved_completion_breaks_order_witness:
  "\<exists>p d1 v r. gateChecks (ex_input Execution) (ex_answers (ex_gdoc 4)) (Valid (ex_gdoc 4)) = (Inr p, Valid (ex_gdoc 4)) \<and>
     runReenter (ex_reenter Design) ''demo'' (GetOk (ex_gdoc 4)) ex_menv (Valid (ex_gdoc 4)) = (Reentered Design, Valid d1) \<and>
     finishGate (ex_input Execution) p ex_menv (Valid d1) = (r, Valid v) \<and> \<not> gates_in_order (gatesOf v)"
proof -
  obtain p where p: "gateChecks (ex_input Execution) (ex_answers (ex_gdoc 4)) (Valid (ex_gdoc 4)) = (Inr p, Valid (ex_gdoc 4))"
    by (rule ex_checks)
  obtain d1 where d1: "runReenter (ex_reenter Design) ''demo'' (GetOk (ex_gdoc 4)) ex_menv (Valid (ex_gdoc 4)) = (Reentered Design, Valid d1)"
    "freshOperation (gateIntent ''demo'' Execution (gp_completion p) (gp_evidence p)) ex_menv d1"
    by (rule ex_reentered)
  have "\<exists>v. finishGate (ex_input Execution) p ex_menv (Valid d1) =
      (GrCompleted (gi_gateId (ex_input Execution)) (gp_completion p) (gp_warning p) (gp_prepWarnings p) (gp_clarifyWarnings p), Valid v) \<and>
    \<not> gates_in_order (gatesOf v)"
    by (rule interleaved_completion_breaks_order [where rinp = "ex_reenter Design" and change = "ex_gdoc 4" and renv = ex_menv
        and d = "ex_gdoc 4" and ans = "ex_answers (ex_gdoc 4)" and s = "Reentered Design"])
      (use ex_working p d1 ex_gdoc_fresh ex_not_synthetic ex_gdoc_real [of 4] in \<open>simp_all add: less_gate_id_def ex_gdoc_facts(7)\<close>)
  with p d1(1) show ?thesis by blast
qed

definition ex_state :: change_state where
  "ex_state = createChangeState ''demo'' ''Demo'' ''t0''"

theorem acceptance_tool_skips_readiness_witness:
  "(\<exists>c w v. runGateComplete (ex_input Acceptance) (ex_answers (ex_gdoc 5)) ex_menv (Valid (ex_gdoc 5)) =
      (GrCompleted Acceptance c w [] [], Valid v)) \<and>
   \<not> re_ready (evaluateGateReadiness ex_state Acceptance noOptions)"
proof -
  have s: "cs_contract ex_state = None" "\<not> truthy (ro_compatibilityReason noOptions)"
    by (simp_all add: ex_state_def createChangeState_def noOptions_def)
  have "(\<exists>c w v. runGateComplete (ex_input Acceptance) (ex_answers (ex_gdoc 5)) ex_menv (Valid (ex_gdoc 5)) = (GrCompleted Acceptance c w [] [], Valid v) \<and>
      cd_gates v = Some ((gatesOf (ex_gdoc 5))(Acceptance := c))) \<and>
    \<not> re_ready (evaluateGateReadiness ex_state Acceptance noOptions)"
    by (rule acceptance_tool_skips_readiness [OF _ ex_working ex_gdoc_facts(5) _ _ _ _ _ ex_gdoc_real s, of "ex_answers (ex_gdoc 5)" "ex_gdoc 5"])
      (use ex_gdoc_fresh ex_not_synthetic in \<open>simp_all add: ex_current ex_canComplete\<close>)
  then show ?thesis by blast
qed

theorem mutation_outcome_and_file_witness:
  "\<exists>v r a. coordinateChangeMutation (gateIntent ''demo'' Proposal (doneGate ''n'' ''agent'' None) ''e'') None True ex_menv (Valid (ex_gdoc 0)) =
      (Verified v r a, Valid v)"
proof -
  let ?mi = "gateIntent ''demo'' Proposal (doneGate ''n'' ''agent'' None) ''e''"
  obtain d' v a where m: "mi_mutate ?mi (ex_gdoc 0) = Inr d'" "payloadOf v = payloadOf d'"
    "coordinateChangeMutation ?mi None True ex_menv (Valid (ex_gdoc 0)) = (Verified v (revisionOf (ex_gdoc 0) + 1) a, Valid v)"
    by (rule gate_commit.commits_verified [where mi = ?mi and g = Proposal and c = "doneGate ''n'' ''agent'' None" and d = "ex_gdoc 0" and env = ex_menv])
      (use ex_working ex_gdoc_fresh ex_not_synthetic ex_gdoc_real in simp_all)
  have "gatesOf v Proposal = doneGate ''n'' ''agent'' None" using gatesOf_payload [OF m(2)] m(1) by auto
  with mutation_outcome_and_file [OF ex_menv_faithful m(3)] m(3) show ?thesis by auto
qed

end
