(* ===== verification/Change_Id.thy ===== *)
theory Change_Id
  imports Prelude
begin

text \<open>
  Names of changes (\<^verbatim>\<open>utils/change-id.ts\<close> and the creation of a change in
  \<^verbatim>\<open>storage/store-disk.ts\<close>): the camel-case identifier made of a summary, the search for an
  identifier that is not taken, and the canonical form other tools insist on.
\<close>

subsection \<open>Vocabulary\<close>

definition stopWords :: "string list" where
  "stopWords = [''a'', ''an'', ''the'',
     ''with'', ''for'', ''to'', ''in'', ''of'', ''from'', ''by'', ''on'', ''at'', ''into'', ''through'', ''during'',
     ''before'', ''after'', ''between'', ''about'',
     ''and'', ''or'', ''but'', ''so'', ''yet'',
     ''that'', ''this'', ''which'', ''some'', ''all'', ''also'', ''more'', ''very'', ''just'',
     ''comprehensive'', ''various'', ''properly'', ''correctly'', ''currently'', ''necessary'', ''appropriate'',
     ''relevant'', ''certain'', ''overall'']"

definition verbAliases :: "(string \<times> string) list" where
  "verbAliases = [(''implement'', ''add''), (''introduce'', ''add''), (''incorporate'', ''add''), (''establish'', ''add'')]"

definition actionVerbs :: "string list" where
  "actionVerbs = [''add'', ''fix'', ''update'', ''remove'', ''delete'', ''refactor'', ''move'', ''rename'', ''replace'',
     ''migrate'', ''upgrade'', ''downgrade'', ''revert'', ''extract'', ''inline'', ''split'', ''merge'', ''simplify'',
     ''optimize'', ''improve'', ''enable'', ''disable'', ''drop'', ''deprecate'', ''swap'', ''create'', ''integrate'']"

definition maxIdLength :: nat where "maxIdLength = 30"

definition maxChangeIdLength :: nat where "maxChangeIdLength = 64"

subsection \<open>Characters\<close>

definition isLower :: "char \<Rightarrow> bool" where
  "isLower c \<longleftrightarrow> (97::nat) \<le> of_char c \<and> (of_char c :: nat) \<le> 122"

definition isUpper :: "char \<Rightarrow> bool" where
  "isUpper c \<longleftrightarrow> (65::nat) \<le> of_char c \<and> (of_char c :: nat) \<le> 90"

definition isAlnum :: "char \<Rightarrow> bool" where
  "isAlnum c \<longleftrightarrow> isLower c \<or> isUpper c \<or> isDigit c"

definition upperChar :: "char \<Rightarrow> char" where
  "upperChar c = (if isLower c then char_of ((of_char c :: nat) - 32) else c)"

text \<open>\<^verbatim>\<open>split(/[^a-zA-Z0-9]+/).filter(Boolean)\<close>: the maximal alphanumeric runs.\<close>

fun wordsGo :: "string \<Rightarrow> string \<Rightarrow> string list" where
  "wordsGo acc [] = (if acc = [] then [] else [acc])"
| "wordsGo acc (c # cs) =
     (if isAlnum c then wordsGo (acc @ [c]) cs
      else if acc = [] then wordsGo [] cs else acc # wordsGo [] cs)"

definition splitWords :: "string \<Rightarrow> string list" where
  "splitWords s = wordsGo [] s"

subsection \<open>The identifier of a summary\<close>

definition camelWord :: "nat \<Rightarrow> string \<Rightarrow> string" where
  "camelWord i w =
     (if i = 0 then lowerStr w
      else (case w of c # cs \<Rightarrow> upperChar c # lowerStr cs | [] \<Rightarrow> []))"

text \<open>The words that fit, up to the first that does not.\<close>

fun camelGo :: "nat \<Rightarrow> string \<Rightarrow> string list \<Rightarrow> string" where
  "camelGo i result [] = result"
| "camelGo i result (w # ws) =
     (if length result + length (camelWord i w) > maxIdLength then result
      else camelGo (Suc i) (result @ camelWord i w) ws)"

definition keepWords :: "bool \<Rightarrow> string list \<Rightarrow> string list" where
  "keepWords keepFirst ws =
     (case ws of [] \<Rightarrow> []
      | w # rest \<Rightarrow>
          (if keepFirst \<or> lowerStr w \<notin> set stopWords then [w] else []) @ filter (\<lambda>x. lowerStr x \<notin> set stopWords) rest)"

text \<open>
  \<open>None\<close> is the type error of the alias lookup: it also finds what every object inherits, and a
  function has no \<^verbatim>\<open>toLowerCase\<close>.
\<close>

definition generateChangeId :: "string \<Rightarrow> string option" where
  "generateChangeId summary =
     (case splitWords summary of
        [] \<Rightarrow> Some ''change''
      | w # ws \<Rightarrow>
          (let first = lowerStr w; alias = map_of verbAliases first
           in if alias = None \<and> first \<in> set objectPrototypeKeys then None
              else (let lead = (case alias of Some a \<Rightarrow> a | None \<Rightarrow> w);
                        keepFirst = (lowerStr lead \<in> set actionVerbs \<or> alias \<noteq> None);
                        filtered = keepWords keepFirst (lead # ws);
                        effective = (if filtered \<noteq> [] then filtered else lead # ws);
                        result = camelGo 0 [] effective
                    in Some (if result = [] then take maxIdLength (lowerStr (hd effective)) else result))))"

text \<open>\<^verbatim>\<open>/^[a-z][a-zA-Z0-9]+$/\<close> with the length bound.\<close>

definition isValidChangeId :: "string \<Rightarrow> bool" where
  "isValidChangeId s \<longleftrightarrow>
     0 < length s \<and> length s \<le> maxChangeIdLength \<and>
     (case s of c # cs \<Rightarrow> isLower c \<and> cs \<noteq> [] \<and> list_all isAlnum cs | [] \<Rightarrow> False)"

subsection \<open>An identifier that is not taken\<close>

text \<open>The loop of \<^verbatim>\<open>changes.create\<close>.\<close>

partial_function (option) freshIdFrom :: "string list \<Rightarrow> string \<Rightarrow> nat \<Rightarrow> string \<Rightarrow> string option" where
  "freshIdFrom existing baseId counter changeId =
     (if changeId \<in> set existing then freshIdFrom existing baseId (counter + 1) (baseId @ showNat counter)
      else Some changeId)"

definition freshId :: "string list \<Rightarrow> string \<Rightarrow> string option" where
  "freshId existing baseId = freshIdFrom existing baseId 2 baseId"

definition createChangeId :: "string list \<Rightarrow> string \<Rightarrow> string option" where
  "createChangeId existing summary = Option.bind (generateChangeId summary) (freshId existing)"

subsection \<open>Shape\<close>

lemma of_char_of [simp]: "n < 256 \<Longrightarrow> (of_char (char_of n :: char) :: nat) = n"
  by simp

lemma alnum_lower [simp]: "isAlnum c \<Longrightarrow> isAlnum (lowerChar c)" "isAlnum c \<Longrightarrow> \<not> isUpper (lowerChar c)"
  by (auto simp: isAlnum_def lowerChar_def isLower_def isUpper_def isDigit_def)

lemma alnum_upper [simp]: "isAlnum c \<Longrightarrow> isAlnum (upperChar c)"
  by (auto simp: isAlnum_def upperChar_def isLower_def isUpper_def isDigit_def)

lemma wordsGo_words:
  "list_all isAlnum acc \<Longrightarrow> w \<in> set (wordsGo acc cs) \<Longrightarrow> w \<noteq> [] \<and> list_all isAlnum w"
  by (induction acc cs rule: wordsGo.induct) (auto split: if_splits)

lemma splitWords_words: "w \<in> set (splitWords s) \<Longrightarrow> w \<noteq> [] \<and> list_all isAlnum w"
  by (rule wordsGo_words [of "[]"]) (simp_all add: splitWords_def)

lemma lowerStr_words [simp]:
  "length (lowerStr w) = length w" "lowerStr w = [] \<longleftrightarrow> w = []"
  by (simp_all add: lowerStr_def)

lemma lowerStr_alnum [simp]: "list_all isAlnum w \<Longrightarrow> list_all isAlnum (lowerStr w)"
  by (simp add: lowerStr_def list_all_iff)

lemma lowerStr_hd: "list_all isAlnum w \<Longrightarrow> w \<noteq> [] \<Longrightarrow> \<not> isUpper (hd (lowerStr w))"
  by (cases w) (simp_all add: lowerStr_def)

lemma camelWord_alnum: "list_all isAlnum w \<Longrightarrow> list_all isAlnum (camelWord i w)"
  by (cases w) (simp_all add: camelWord_def)

lemma camelGo_extends: "\<exists>x. camelGo i result ws = result @ x"
proof (induction i result ws rule: camelGo.induct)
  case (2 i result w ws)
  show ?case
  proof (cases "length result + length (camelWord i w) > maxIdLength")
    case False
    with 2 obtain x where "camelGo (Suc i) (result @ camelWord i w) ws = (result @ camelWord i w) @ x" by blast
    with False show ?thesis by simp
  qed simp
qed simp

lemma camelGo_shape:
  "list_all (list_all isAlnum) ws \<Longrightarrow> list_all isAlnum result \<Longrightarrow> length result \<le> maxIdLength \<Longrightarrow>
    list_all isAlnum (camelGo i result ws) \<and> length (camelGo i result ws) \<le> maxIdLength"
  by (induction i result ws rule: camelGo.induct) (auto simp: camelWord_alnum)

lemma camelGo_first:
  assumes "w \<noteq> []"
  shows "camelGo 0 [] (w # ws) = [] \<longleftrightarrow> maxIdLength < length w"
    and "length w \<le> maxIdLength \<Longrightarrow> hd (camelGo 0 [] (w # ws)) = hd (lowerStr w)"
  using assms camelGo_extends [of 1 "lowerStr w" ws] by (auto simp: camelWord_def hd_append)

lemma keepWords_sub: "set (keepWords k ws) \<subseteq> set ws"
  by (cases ws) (auto simp: keepWords_def)

lemma constructor_only:
  assumes "list_all isAlnum w"
  shows "lowerStr w \<in> set objectPrototypeKeys \<longleftrightarrow> lowerStr w = ''constructor''"
proof -
  have "\<not> isUpper c \<and> isAlnum c" if "c \<in> set (lowerStr w)" for c
    using that assms by (auto simp: lowerStr_def list_all_iff)
  then have "lowerStr w \<noteq> k" if "\<exists>c \<in> set k. isUpper c \<or> \<not> isAlnum c" for k using that by blast
  then show ?thesis
    by (simp add: objectPrototypeKeys_def isUpper_def isAlnum_def isLower_def isDigit_def)
qed

lemma alias_alnum: "map_of verbAliases first = Some a \<Longrightarrow> list_all isAlnum a \<and> a \<noteq> []"
  by (auto simp: verbAliases_def isAlnum_def isLower_def split: if_splits)

lemma constructor_no_alias: "map_of verbAliases ''constructor'' = None"
  by (simp add: verbAliases_def)

lemma generated_words:
  assumes "generateChangeId s = Some r" "splitWords s \<noteq> []"
  obtains ws where "ws \<noteq> []" "list_all (\<lambda>w. w \<noteq> [] \<and> list_all isAlnum w) ws"
    "r = (if camelGo 0 [] ws = [] then take maxIdLength (lowerStr (hd ws)) else camelGo 0 [] ws)"
proof -
  obtain w ws where w: "splitWords s = w # ws" using assms(2) by (cases "splitWords s") auto
  define al where "al = map_of verbAliases (lowerStr w)"
  define lead where "lead = (case al of Some a \<Rightarrow> a | None \<Rightarrow> w)"
  have ok: "x \<noteq> [] \<and> list_all isAlnum x" if "x \<in> set (lead # ws)" for x
    using that splitWords_words [of x s] splitWords_words [of w s] alias_alnum [of "lowerStr w"] w
    by (auto simp: lead_def al_def split: option.splits)
  let ?k = "lowerStr lead \<in> set actionVerbs \<or> al \<noteq> None"
  define e where "e = (if keepWords ?k (lead # ws) \<noteq> [] then keepWords ?k (lead # ws) else lead # ws)"
  have "e \<noteq> []" "list_all (\<lambda>w. w \<noteq> [] \<and> list_all isAlnum w) e"
    using ok keepWords_sub [of ?k "lead # ws"] by (auto simp: e_def list_all_iff)
  moreover have "r = (if camelGo 0 [] e = [] then take maxIdLength (lowerStr (hd e)) else camelGo 0 [] e)"
    using assms(1) w by (simp add: generateChangeId_def Let_def e_def lead_def al_def split: if_splits)
  ultimately show ?thesis by (rule that)
qed

lemma effective_shape:
  assumes "ws \<noteq> []" "list_all (\<lambda>w. w \<noteq> [] \<and> list_all isAlnum w) ws"
  defines "r \<equiv> (if camelGo 0 [] ws = [] then take maxIdLength (lowerStr (hd ws)) else camelGo 0 [] ws)"
  shows "r \<noteq> [] \<and> length r \<le> maxIdLength \<and> list_all isAlnum r \<and> \<not> isUpper (hd r)"
proof -
  obtain w rest where w: "ws = w # rest" using assms(1) by (cases ws) auto
  have a: "w \<noteq> []" "list_all isAlnum w" "list_all (list_all isAlnum) ws" using assms(2) w by (auto simp: list_all_iff)
  show ?thesis
  proof (cases "maxIdLength < length w")
    case True
    then have "camelGo 0 [] ws = []" using camelGo_first(1) [OF a(1), of rest] w by blast
    then have r: "r = take maxIdLength (lowerStr w)" by (simp add: r_def w)
    have "hd r = hd (lowerStr w)" using a(1) by (simp add: r maxIdLength_def hd_take)
    moreover have "list_all isAlnum r" using lowerStr_alnum [OF a(2)] by (auto simp: r list_all_iff dest: in_set_takeD)
    ultimately show ?thesis using a(1) lowerStr_hd [OF a(2,1)] True by (simp add: r maxIdLength_def)
  next
    case False
    then have "camelGo 0 [] ws \<noteq> []" using camelGo_first(1) [OF a(1), of rest] w by blast
    then have r: "r = camelGo 0 [] ws" by (simp add: r_def)
    with \<open>camelGo 0 [] ws \<noteq> []\<close> show ?thesis
      using camelGo_first(2) [OF a(1), of rest] False w lowerStr_hd [OF a(2,1)] camelGo_shape [OF a(3), of "[]" 0] by simp
  qed
qed

text \<open>
  Claim C36. A generated identifier has between one and thirty characters, all alphanumeric, the first
  no capital; it is a canonical change identifier exactly when it starts with a letter and has a
  second character, which a summary such as \<^verbatim>\<open>2FA\<close> or \<^verbatim>\<open>x\<close> does not give.  The generation fails exactly
  for summaries whose first word is \<^verbatim>\<open>constructor\<close>.
\<close>

theorem change_id_shape:
  "(generateChangeId s = None \<longleftrightarrow> splitWords s \<noteq> [] \<and> lowerStr (hd (splitWords s)) = ''constructor'') \<and>
   (case generateChangeId s of None \<Rightarrow> True
    | Some r \<Rightarrow> r \<noteq> [] \<and> length r \<le> maxIdLength \<and> list_all isAlnum r \<and> \<not> isUpper (hd r) \<and>
        (isValidChangeId r \<longleftrightarrow> isLower (hd r) \<and> 2 \<le> length r))"
proof
  show "generateChangeId s = None \<longleftrightarrow> splitWords s \<noteq> [] \<and> lowerStr (hd (splitWords s)) = ''constructor''"
  proof (cases "splitWords s")
    case (Cons w ws)
    then have "list_all isAlnum w" using splitWords_words [of w s] by simp
    note c = constructor_only [OF this]
    have "generateChangeId s = None \<longleftrightarrow> map_of verbAliases (lowerStr w) = None \<and> lowerStr w \<in> set objectPrototypeKeys"
      by (simp add: generateChangeId_def Cons Let_def)
    also have "\<dots> \<longleftrightarrow> lowerStr w = ''constructor''" unfolding c using constructor_no_alias by metis
    finally show ?thesis by (simp only: Cons list.simps list.sel simp_thms not_False_eq_True)
  qed (simp add: generateChangeId_def)
  show "case generateChangeId s of None \<Rightarrow> True
    | Some r \<Rightarrow> r \<noteq> [] \<and> length r \<le> maxIdLength \<and> list_all isAlnum r \<and> \<not> isUpper (hd r) \<and>
        (isValidChangeId r \<longleftrightarrow> isLower (hd r) \<and> 2 \<le> length r)"
  proof (cases "generateChangeId s")
    case (Some r)
    have shape: "r \<noteq> [] \<and> length r \<le> maxIdLength \<and> list_all isAlnum r \<and> \<not> isUpper (hd r)"
    proof (cases "splitWords s = []")
      case True
      with Some show ?thesis
        by (auto simp: generateChangeId_def maxIdLength_def isAlnum_def isLower_def isUpper_def)
    next
      case False
      show ?thesis
      proof (rule generated_words [OF Some False])
        fix ws
        assume ws: "ws \<noteq> []" "list_all (\<lambda>w. w \<noteq> [] \<and> list_all isAlnum w) ws"
          "r = (if camelGo 0 [] ws = [] then take maxIdLength (lowerStr (hd ws)) else camelGo 0 [] ws)"
        show ?thesis unfolding ws(3) by (rule effective_shape [OF ws(1,2)])
      qed
    qed
    then have "isValidChangeId r \<longleftrightarrow> isLower (hd r) \<and> 2 \<le> length r"
      by (cases r; cases "tl r") (auto simp: isValidChangeId_def maxIdLength_def maxChangeIdLength_def)
    with shape Some show ?thesis by simp
  qed simp
qed

subsection \<open>The search for a free identifier\<close>

lemma freshIdFrom_free: "x \<notin> set ex \<Longrightarrow> freshIdFrom ex b k x = Some x"
  by (subst freshIdFrom.simps) simp

lemma freshIdFrom_steps:
  assumes "k \<le> n" "b @ showNat n \<notin> set ex" "\<And>m. k \<le> m \<Longrightarrow> m < n \<Longrightarrow> b @ showNat m \<in> set ex"
  shows "freshIdFrom ex b (Suc k) (b @ showNat k) = Some (b @ showNat n)"
  using assms
proof (induction "n - k" arbitrary: k)
  case 0
  then show ?case by (simp add: freshIdFrom_free)
next
  case (Suc d)
  then have "k < n" by simp
  with Suc.prems have "b @ showNat k \<in> set ex" by simp
  then have "freshIdFrom ex b (Suc k) (b @ showNat k) = freshIdFrom ex b (Suc (Suc k)) (b @ showNat (Suc k))"
    by (subst freshIdFrom.simps) simp
  also have "\<dots> = Some (b @ showNat n)" using Suc.prems \<open>k < n\<close> Suc.hyps(2) by (intro Suc.hyps(1)) auto
  finally show ?case .
qed

lemma free_number:
  obtains n where "2 \<le> n" "n \<le> length ex + 2" "b @ showNat n \<notin> set ex" "\<And>m. 2 \<le> m \<Longrightarrow> m < n \<Longrightarrow> b @ showNat m \<in> set ex"
proof -
  have inj: "inj (\<lambda>n. b @ showNat n)" by (rule inj_on_inverseI [of _ "\<lambda>x. digitsValue (drop (length b) x)"]) simp
  have "\<exists>n \<in> {2..length ex + 2}. b @ showNat n \<notin> set ex"
  proof (rule ccontr)
    assume "\<not> ?thesis"
    then have "(\<lambda>n. b @ showNat n) ` {2..length ex + 2} \<subseteq> set ex" by auto
    then have "card ((\<lambda>n. b @ showNat n) ` {2..length ex + 2}) \<le> card (set ex)" by (simp add: card_mono)
    then show False using card_length [of ex] card_image [OF inj_on_subset [OF inj], of "{2..length ex + 2}"] by simp
  qed
  then obtain k where k: "2 \<le> k" "k \<le> length ex + 2" "b @ showNat k \<notin> set ex" by auto
  define n where "n = (LEAST n. 2 \<le> n \<and> b @ showNat n \<notin> set ex)"
  have n: "2 \<le> n \<and> b @ showNat n \<notin> set ex" unfolding n_def by (rule LeastI [of _ k]) (use k in simp)
  moreover have "n \<le> k" unfolding n_def by (rule Least_le) (use k in simp)
  moreover have "b @ showNat m \<in> set ex" if "2 \<le> m" "m < n" for m
    using not_less_Least [of m "\<lambda>n. 2 \<le> n \<and> b @ showNat n \<notin> set ex"] that by (simp add: n_def)
  ultimately show ?thesis using k(2) that by (meson le_trans)
qed

text \<open>
  The search for a free identifier always ends: it returns the base when that is free and
  otherwise the base with the smallest free number from two on, after at most as many tries as there
  are changes plus two; what it returns is not taken.
\<close>

theorem fresh_id_search_ends:
  "\<exists>r. freshId existing baseId = Some r \<and> r \<notin> set existing \<and>
     (if baseId \<notin> set existing then r = baseId
      else \<exists>n. r = baseId @ showNat n \<and> 2 \<le> n \<and> n \<le> length existing + 2 \<and>
        list_all (\<lambda>m. baseId @ showNat m \<in> set existing) [2..<n])"
proof (cases "baseId \<in> set existing")
  case True
  obtain n where n: "2 \<le> n" "n \<le> length existing + 2" "baseId @ showNat n \<notin> set existing"
    "\<And>m. 2 \<le> m \<Longrightarrow> m < n \<Longrightarrow> baseId @ showNat m \<in> set existing" using free_number [of existing baseId] by blast
  have "freshId existing baseId = freshIdFrom existing baseId (Suc 2) (baseId @ showNat 2)"
    using True unfolding freshId_def by (subst freshIdFrom.simps) simp
  also have "\<dots> = Some (baseId @ showNat n)" by (rule freshIdFrom_steps) (use n in auto)
  finally show ?thesis using True n by (auto simp: list_all_iff)
next
  case False
  then show ?thesis by (simp add: freshId_def freshIdFrom_free)
qed

end
