(* ===== verification/Spec_Conflicts.thy ===== *)
theory Spec_Conflicts
  imports Prep_Readiness Spec_Delta Change_Id
begin

text \<open>
  The conflict checks of a change against the existing specifications
  (\<^verbatim>\<open>validator/conflicts.ts\<close>) with the context they read (\<^verbatim>\<open>buildValidationContext\<close> of
  \<^verbatim>\<open>validator/validator.ts\<close>).  An issue keeps its code, severity and path.
\<close>

subsection \<open>Context\<close>

record existing_requirement =
  er_id :: string
  er_title :: string
  er_priority :: priority

record existing_spec =
  es_name :: string
  es_requirements :: "existing_requirement list"

record active_change =
  ac_id :: string
  ac_title :: string
  ac_capabilities :: "string list"

datatype completeness = InvComplete | InvDegraded | InvBlocked | InvNonConclusive

record inventory_entry =
  ie_id :: string
  ie_title :: string
  ie_capabilities :: "string list option"
  ie_isArchived :: bool
  ie_isOwnChange :: bool

record conflict_inventory =
  iv_entries :: "inventory_entry list"
  iv_completeness :: completeness
  iv_warnings :: "string list"
  iv_canConcludeClean :: "bool option"

record validation_context =
  vc_existingSpecs :: "(string \<times> existing_spec) list"
  vc_existingRequirementIds :: "string list"
  vc_requirementReferences :: "(string \<times> string list) list"
  vc_activeChanges :: "active_change list option"
  vc_conflictInventory :: "conflict_inventory option"

text \<open>\<^verbatim>\<open>match(/rq-[a-zA-Z0-9]+/g)\<close>: the matches from the left, none overlapping another.\<close>

function (sequential) referenceMatches :: "string \<Rightarrow> string list" where
  "referenceMatches [] = []"
| "referenceMatches (c # cs) =
     (let run = takeWhile isAlnum (drop 2 cs)
      in if take 3 (c # cs) = ''rq-'' \<and> run \<noteq> [] then (''rq-'' @ run) # referenceMatches (drop (2 + length run) cs)
         else referenceMatches cs)"
  by pat_completeness auto

termination
  by (relation "measure length") auto

definition extractReferences :: "string \<Rightarrow> string list" where
  "extractReferences text = mk_set (referenceMatches text)"

definition existingSpecOf :: "spec \<Rightarrow> existing_spec" where
  "existingSpecOf s = \<lparr>es_name = sp_name s, es_requirements =
     map (\<lambda>r. \<lparr>er_id = rq_id r, er_title = rq_title r, er_priority = rq_priority r\<rparr>) (sp_requirements s)\<rparr>"

definition referencesOf :: "spec list \<Rightarrow> (string \<times> string list) list" where
  "referencesOf specs =
     foldl (\<lambda>m r. let refs = extractReferences (rq_body r) in if refs = [] then m else map_set (rq_id r) refs m) []
       (concat (map sp_requirements specs))"

definition buildValidationContext ::
  "spec list \<Rightarrow> active_change list option \<Rightarrow> conflict_inventory option \<Rightarrow> validation_context" where
  "buildValidationContext specs active inventory =
     \<lparr>vc_existingSpecs = foldl (\<lambda>m s. map_set (sp_name s) (existingSpecOf s) m) [] specs,
      vc_existingRequirementIds = mk_set (map rq_id (concat (map sp_requirements specs))),
      vc_requirementReferences = referencesOf specs,
      vc_activeChanges = active, vc_conflictInventory = inventory\<rparr>"

subsection \<open>Checks on deltas\<close>

fun deltaId :: "delta \<Rightarrow> string" where
  "deltaId (DeltaAdd i _) = i"
| "deltaId (DeltaModify i _ _) = i"
| "deltaId (DeltaRemove i _ _) = i"
| "deltaId (DeltaRename i _ _ _) = i"

text \<open>The requirement a delta targets, and the identifier it introduces.\<close>

fun targetOf :: "delta \<Rightarrow> string option" where
  "targetOf (DeltaAdd _ _) = None"
| "targetOf (DeltaModify _ t _) = Some t"
| "targetOf (DeltaRemove _ t _) = Some t"
| "targetOf (DeltaRename _ t _ _) = Some t"

fun newIdOf :: "delta \<Rightarrow> string option" where
  "newIdOf (DeltaAdd _ r) = Some (rq_id r)"
| "newIdOf (DeltaRename _ _ _ n) = (if truthy n then n else None)"
| "newIdOf _ = None"

definition deltaPath :: "string \<Rightarrow> delta \<Rightarrow> string" where
  "deltaPath cap d = ''deltas.'' @ cap @ ''.'' @ deltaId d"

text \<open>The deltas of a change in document order, with their capability.\<close>

definition flatDeltas :: "change_doc \<Rightarrow> (string \<times> delta) list" where
  "flatDeltas d = concat (map (\<lambda>(cap, ds). map (Pair cap) ds) (deltasOf d))"

definition findExistingRequirement :: "validation_context \<Rightarrow> string \<Rightarrow> existing_requirement option" where
  "findExistingRequirement ctx i =
     List.find (\<lambda>r. er_id r = i) (concat (map (\<lambda>(n, s). es_requirements s) (vc_existingSpecs ctx)))"

definition sameIdentity :: "validation_context \<Rightarrow> requirement \<Rightarrow> bool" where
  "sameIdentity ctx r =
     (case findExistingRequirement ctx (rq_id r) of
        Some e \<Rightarrow> er_title e = rq_title r \<and> er_priority e = rq_priority r
      | None \<Rightarrow> False)"

fun clashesWithExisting :: "validation_context \<Rightarrow> delta \<Rightarrow> bool" where
  "clashesWithExisting ctx (DeltaAdd _ r) \<longleftrightarrow>
     rq_id r \<in> set (vc_existingRequirementIds ctx) \<and> \<not> sameIdentity ctx r"
| "clashesWithExisting ctx (DeltaRename _ t _ n) \<longleftrightarrow>
     truthy n \<and> n \<noteq> Some t \<and> the n \<in> set (vc_existingRequirementIds ctx)"
| "clashesWithExisting ctx _ \<longleftrightarrow> False"

fun duplicateGo :: "validation_context \<Rightarrow> string list \<Rightarrow> (string \<times> delta) list \<Rightarrow> validation_issue list" where
  "duplicateGo ctx seen [] = []"
| "duplicateGo ctx seen ((cap, d) # rest) =
     (let issue = issueAt ''DUPLICATE_REQUIREMENT_ID'' SevError (deltaPath cap d)
      in (if clashesWithExisting ctx d then [issue] else []) @
         (case newIdOf d of
            Some n \<Rightarrow> (if n \<in> set seen then [issue] else []) @ duplicateGo ctx (n # seen) rest
          | None \<Rightarrow> duplicateGo ctx seen rest))"

definition checkDuplicateRequirementIds :: "change_doc \<Rightarrow> validation_context \<Rightarrow> validation_issue list" where
  "checkDuplicateRequirementIds d ctx = duplicateGo ctx [] (flatDeltas d)"

definition checkDeltaTargetsExist :: "change_doc \<Rightarrow> validation_context \<Rightarrow> validation_issue list" where
  "checkDeltaTargetsExist c ctx = concat (map (\<lambda>(cap, d).
     (case targetOf d of
        Some t \<Rightarrow>
          (if t \<in> set (vc_existingRequirementIds ctx) then []
           else [issueAt (if operationOf d = OpRename then ''RENAME_TARGET_NOT_FOUND'' else ''ORPHANED_DELTA_TARGET'')
             SevError (deltaPath cap d)])
      | None \<Rightarrow> [])) (flatDeltas c))"

fun priorityRank :: "priority \<Rightarrow> nat" where
  "priorityRank Must = 3"
| "priorityRank Should = 2"
| "priorityRank May = 1"

definition checkPriorityDowngrades :: "change_doc \<Rightarrow> validation_context \<Rightarrow> validation_issue list" where
  "checkPriorityDowngrades c ctx = concat (map (\<lambda>(cap, d).
     (case d of
        DeltaModify i t ch \<Rightarrow>
          (case (mc_priority ch, map_get (vc_existingSpecs ctx) cap) of
             (Some p, Some s) \<Rightarrow>
               (case List.find (\<lambda>r. er_id r = t) (es_requirements s) of
                  Some e \<Rightarrow> (if priorityRank p < priorityRank (er_priority e)
                    then [issueAt ''MODIFYING_MUST_TO_MAY'' SevWarning (deltaPath cap d)] else [])
                | None \<Rightarrow> [])
           | _ \<Rightarrow> [])
      | _ \<Rightarrow> [])) (flatDeltas c))"

definition checkRemovalReferences :: "change_doc \<Rightarrow> validation_context \<Rightarrow> validation_issue list" where
  "checkRemovalReferences c ctx = concat (map (\<lambda>(cap, d).
     (case d of
        DeltaRemove i t reason \<Rightarrow>
          map (\<lambda>_. issueAt ''REMOVING_REFERENCED_REQUIREMENT'' SevWarning (deltaPath cap d))
            (filter (\<lambda>(reqId, refs). t \<in> set refs) (vc_requirementReferences ctx))
      | _ \<Rightarrow> [])) (flatDeltas c))"

definition checkSpecsExist :: "change_doc \<Rightarrow> validation_context \<Rightarrow> validation_issue list" where
  "checkSpecsExist c ctx = concat (map (\<lambda>(cap, ds).
     (if \<not> list_all (\<lambda>d. operationOf d = OpAdd) ds \<and> map_get (vc_existingSpecs ctx) cap = None
      then [issueAt ''SPEC_NOT_FOUND'' SevError (''deltas.'' @ cap)] else [])) (deltasOf c))"

text \<open>The operations on one target, in document order.\<close>

definition opsOn :: "string \<Rightarrow> delta list \<Rightarrow> operation list" where
  "opsOn t ds = map operationOf (filter (\<lambda>d. targetOf d = Some t) ds)"

definition targetsOf :: "delta list \<Rightarrow> string list" where
  "targetsOf ds = List.map_filter targetOf ds"

definition renameNewIds :: "delta list \<Rightarrow> string list" where
  "renameNewIds ds = List.map_filter newIdOf (filter (\<lambda>d. operationOf d = OpRename) ds)"

definition addedIds :: "delta list \<Rightarrow> string list" where
  "addedIds ds = List.map_filter newIdOf (filter (\<lambda>d. operationOf d = OpAdd) ds)"

definition intraConflicts :: "string \<Rightarrow> delta list \<Rightarrow> validation_issue list" where
  "intraConflicts cap ds =
     (let issue = issueAt ''INTRA_DELTA_CONFLICT'' SevError (''deltas.'' @ cap)
      in concat (map (\<lambda>t. let ops = opsOn t ds in
             (if OpRename \<in> set ops \<and> list_ex (\<lambda>x. x \<noteq> OpRename) ops then [issue] else []) @
             (if 1 < length (filter (\<lambda>x. x = OpRename) ops) then [issue] else [])) (mk_set (targetsOf ds)))
         @ map (\<lambda>_. issue) (filter (\<lambda>n. n \<in> set (addedIds ds)) (mk_set (renameNewIds ds))))"

definition checkIntraDeltaConflicts :: "change_doc \<Rightarrow> validation_issue list" where
  "checkIntraDeltaConflicts c = concat (map (\<lambda>(cap, ds). intraConflicts cap ds) (deltasOf c))"

subsection \<open>Checks against other changes\<close>

definition touchedCapabilities :: "change_doc \<Rightarrow> string list" where
  "touchedCapabilities c = map fst (deltasOf c)"

definition checkChangeConflictsFromInventory :: "change_doc \<Rightarrow> conflict_inventory \<Rightarrow> validation_issue list" where
  "checkChangeConflictsFromInventory c iv =
     (let here = touchedCapabilities c in
      (case iv_completeness iv of
         InvBlocked \<Rightarrow> [issueAt ''CONFLICT_INVENTORY_BLOCKED'' SevError ''deltas'']
       | InvDegraded \<Rightarrow> [issueAt ''CONFLICT_INVENTORY_DEGRADED'' SevWarning ''deltas'']
       | InvNonConclusive \<Rightarrow> [issueAt ''CONFLICT_INVENTORY_DEGRADED'' SevWarning ''deltas'']
       | InvComplete \<Rightarrow> [])
      @ map (\<lambda>_. issueAt ''CONFLICT_INVENTORY_WARNING'' SevWarning ''deltas'') (iv_warnings iv)
      @ concat (map (\<lambda>e.
          if ie_isOwnChange e \<or> ie_id e = cd_id c \<or> ie_isArchived e then []
          else (case ie_capabilities e of
              None \<Rightarrow> []
            | Some caps \<Rightarrow> (if list_ex (\<lambda>k. k \<in> set here) caps
                then [issueAt ''OVERLAPPING_CAPABILITY'' SevWarning ''deltas''] else []))) (iv_entries iv)))"

definition checkChangeConflicts :: "change_doc \<Rightarrow> validation_context \<Rightarrow> validation_issue list" where
  "checkChangeConflicts c ctx =
     (case vc_conflictInventory ctx of
        Some iv \<Rightarrow> checkChangeConflictsFromInventory c iv
      | None \<Rightarrow> concat (map (\<lambda>a.
          if ac_id a = cd_id c then []
          else if list_ex (\<lambda>k. k \<in> set (touchedCapabilities c)) (ac_capabilities a)
               then [issueAt ''OVERLAPPING_CAPABILITY'' SevWarning ''deltas''] else []) (orEmpty (vc_activeChanges ctx))))"

definition runConflictChecks :: "change_doc \<Rightarrow> validation_context \<Rightarrow> validation_issue list" where
  "runConflictChecks c ctx =
     checkDuplicateRequirementIds c ctx @ checkDeltaTargetsExist c ctx @ checkIntraDeltaConflicts c @
     checkPriorityDowngrades c ctx @ checkRemovalReferences c ctx @ checkSpecsExist c ctx @ checkChangeConflicts c ctx"

end
