(* ===== verification/Conflict_Facts.thy ===== *)
theory Conflict_Facts
  imports Spec_Conflicts
begin

text \<open>
  What the conflict checks say about the application of the deltas at archive time: for a change
  they accept, exactly which batches the application still refuses.
\<close>

subsection \<open>Accepted changes\<close>

lemma clean_concat_map: "clean (concat (map f xs)) \<longleftrightarrow> (\<forall>x \<in> set xs. clean (f x))"
  by (induction xs) (auto simp: clean_def)

lemma clean_error: "clean (if b then [issueAt c SevError p] else []) \<longleftrightarrow> \<not> b"
  by (simp add: clean_def)

lemma map_filter_Cons: "List.map_filter f (x # xs) = (case f x of Some y \<Rightarrow> y # List.map_filter f xs | None \<Rightarrow> List.map_filter f xs)"
  by (simp add: List.map_filter_simps split: option.splits)

lemma map_filter_Nil [simp]: "List.map_filter f [] = []"
  by (simp add: List.map_filter_def)

lemma set_map_filter: "set (List.map_filter f xs) = {y. \<exists>x \<in> set xs. f x = Some y}"
  by (force simp: List.map_filter_def)

lemma clean_duplicateGo:
  "clean (duplicateGo ctx seen fs) \<longleftrightarrow>
     (\<forall>(cap, d) \<in> set fs. \<not> clashesWithExisting ctx d) \<and>
     distinct (List.map_filter newIdOf (map snd fs)) \<and> set (List.map_filter newIdOf (map snd fs)) \<inter> set seen = {}"
proof (induction ctx seen fs rule: duplicateGo.induct)
  case (2 ctx seen cap d rest)
  show ?case
  proof (cases "newIdOf d")
    case None
    have "clean (duplicateGo ctx seen ((cap, d) # rest)) \<longleftrightarrow>
        \<not> clashesWithExisting ctx d \<and> clean (duplicateGo ctx seen rest)"
      by (simp only: duplicateGo.simps Let_def None option.case clean_simps(2) clean_error)
    with 2(1) [OF refl None] None show ?thesis by (auto simp: map_filter_Cons)
  next
    case (Some n)
    have "clean (duplicateGo ctx seen ((cap, d) # rest)) \<longleftrightarrow>
        \<not> clashesWithExisting ctx d \<and> n \<notin> set seen \<and> clean (duplicateGo ctx (n # seen) rest)"
      by (simp only: duplicateGo.simps Let_def Some option.case clean_simps(2) clean_error)
    with 2(2) [OF refl Some] Some show ?thesis by (auto simp: map_filter_Cons)
  qed
qed (simp add: List.map_filter_def)

lemma clean_targets:
  "clean (checkDeltaTargetsExist c ctx) \<longleftrightarrow>
     (\<forall>(cap, d) \<in> set (flatDeltas c). \<forall>t. targetOf d = Some t \<longrightarrow> t \<in> set (vc_existingRequirementIds ctx))"
  by (fastforce simp: checkDeltaTargetsExist_def clean_concat_map clean_def split: option.splits)

lemma clean_intra:
  assumes "clean (intraConflicts cap ds)" "OpRename \<in> set (opsOn t ds)"
  shows "opsOn t ds = [OpRename]"
proof -
  have "t \<in> set (targetsOf ds)" using assms(2) by (auto simp: opsOn_def targetsOf_def set_map_filter)
  with assms(1) have c: "\<not> (OpRename \<in> set (opsOn t ds) \<and> list_ex (\<lambda>x. x \<noteq> OpRename) (opsOn t ds))"
    "\<not> 1 < length (filter (\<lambda>x. x = OpRename) (opsOn t ds))"
    by (simp_all only: intraConflicts_def Let_def clean_simps(2) clean_concat_map set_mk_set clean_error not_False_eq_True)
  then have "filter (\<lambda>x. x = OpRename) (opsOn t ds) = opsOn t ds"
    using assms(2) by (auto simp: list_ex_iff filter_id_conv)
  with c(2) assms(2) show ?thesis
    by (cases "opsOn t ds"; cases "tl (opsOn t ds)") auto
qed

subsection \<open>Groups of a batch\<close>

definition ofKind :: "operation \<Rightarrow> delta list \<Rightarrow> delta list" where
  "ofKind op ds = filter (\<lambda>d. operationOf d = op) ds"

lemma sorted_groups:
  assumes "sorted (map (\<lambda>d. deltaOrder (operationOf d)) ds)"
  shows "ds = ofKind OpRename ds @ ofKind OpRemove ds @ ofKind OpModify ds @ ofKind OpAdd ds"
  using assms
proof (induction ds)
  case (Cons d ds)
  have later: "\<forall>x \<in> set ds. deltaOrder (operationOf d) \<le> deltaOrder (operationOf x)" using Cons.prems by auto
  have none: "ofKind op ds = []" if "deltaOrder op < deltaOrder (operationOf d)" for op
    using later that by (auto simp: ofKind_def filter_empty_conv)
  show ?case
    using Cons none [of OpRename] none [of OpRemove] none [of OpModify]
    by (cases d) (auto simp: ofKind_def)
qed (simp add: ofKind_def)

lemma sortDeltas_groups:
  "sortDeltas ds = ofKind OpRename ds @ ofKind OpRemove ds @ ofKind OpModify ds @ ofKind OpAdd ds"
proof -
  have "ofKind op (sortDeltas ds) = ofKind op ds" for op
    unfolding ofKind_def sortDeltas_def by (rule by_number.js_sort_stable) (simp add: by_number_def)
  then show ?thesis using sorted_groups [of "sortDeltas ds"] by (simp add: sortDeltas_def sorted_by_number)
qed

lemma specDeltas_append: "specDeltas lc m (xs @ ys) = Option.bind (specDeltas lc m xs) (\<lambda>m'. specDeltas lc m' ys)"
  by (induction xs arbitrary: m) (auto split: bind_splits)

lemma targetsOf_simps [simp]:
  "targetsOf [] = []" "targetsOf (d # ds) = (case targetOf d of Some t \<Rightarrow> t # targetsOf ds | None \<Rightarrow> targetsOf ds)"
  by (simp add: targetsOf_def List.map_filter_def) (simp add: targetsOf_def map_filter_Cons split: option.splits)

abbreviation newIdsOf :: "delta list \<Rightarrow> string list" where
  "newIdsOf ds \<equiv> List.map_filter newIdOf ds"

lemma renames_apply:
  assumes "\<forall>d \<in> set ds. operationOf d = OpRename" "distinct (targetsOf ds)" "distinct (newIdsOf ds)"
    and "\<forall>d \<in> set ds. \<forall>n. newIdOf d = Some n \<longrightarrow> targetOf d = Some n \<or> n \<notin> dom m \<and> n \<notin> set (targetsOf ds)"
  shows "(case specDeltas lc m ds of
      None \<Rightarrow> \<not> set (targetsOf ds) \<subseteq> dom m
    | Some m' \<Rightarrow> set (targetsOf ds) \<subseteq> dom m \<and>
        (\<forall>k. k \<notin> set (targetsOf ds) \<union> set (newIdsOf ds) \<longrightarrow> m' k = m k) \<and> dom m' \<subseteq> dom m \<union> set (newIdsOf ds))"
  using assms
proof (induction ds arbitrary: m)
  case (Cons d ds)
  then obtain i t ti n where d: "d = DeltaRename i t ti n" by (cases d) auto
  show ?case
  proof (cases "m t")
    case None
    then show ?thesis by (auto simp: d)
  next
    case (Some r)
    define m1 where "m1 = (if truthy n then (m(t := None))(the n \<mapsto> r\<lparr>rq_title := ti, rq_id := the n\<rparr>) else m(t \<mapsto> r\<lparr>rq_title := ti\<rparr>))"
    have free: "truthy n \<Longrightarrow> the n = t \<or> m (the n) = None" "truthy n \<Longrightarrow> the n = t \<or> the n \<notin> set (targetsOf ds)"
      using Cons.prems(4) by (cases n; auto simp: d)+
    have step: "specDelta lc m d = Some m1"
    proof (cases "truthy n")
      case True
      then have "\<not> (n \<noteq> Some t \<and> m (the n) \<noteq> None)" using free(1) by (cases n) auto
      with Some True show ?thesis by (auto simp: d m1_def)
    qed (use Some in \<open>simp add: d m1_def\<close>)
    have new: "newIdsOf (d # ds) = (if truthy n then [the n] else []) @ newIdsOf ds"
      by (cases n) (auto simp: d map_filter_Cons)
    have dom1: "dom m1 \<subseteq> dom m \<union> set (if truthy n then [the n] else [])" using Some by (auto simp: m1_def)
    have keep: "m1 k = m k" if "k \<noteq> t" "truthy n \<Longrightarrow> k \<noteq> the n" for k using that by (auto simp: m1_def)
    have same: "m1 k = m k" if "k \<in> set (targetsOf ds)" for k
    proof (rule keep)
      show "k \<noteq> t" using that Cons.prems(2) by (auto simp: d)
      then show "k \<noteq> the n" if "truthy n" using free(2) [OF that] \<open>k \<in> set (targetsOf ds)\<close> by auto
    qed
    have hyps: "\<forall>x \<in> set ds. \<forall>n. newIdOf x = Some n \<longrightarrow> targetOf x = Some n \<or> n \<notin> dom m1 \<and> n \<notin> set (targetsOf ds)"
    proof (intro ballI allI impI)
      fix x k assume x: "x \<in> set ds" "newIdOf x = Some k"
      then have "k \<in> set (newIdsOf ds)" by (force simp: set_map_filter)
      with Cons.prems(3) new have "truthy n \<Longrightarrow> k \<noteq> the n" by auto
      with Cons.prems(4) x dom1 show "targetOf x = Some k \<or> k \<notin> dom m1 \<and> k \<notin> set (targetsOf ds)"
        by (fastforce simp: d split: if_splits)
    qed
    have IH: "(case specDeltas lc m1 ds of
      None \<Rightarrow> \<not> set (targetsOf ds) \<subseteq> dom m1
    | Some m' \<Rightarrow> set (targetsOf ds) \<subseteq> dom m1 \<and>
        (\<forall>k. k \<notin> set (targetsOf ds) \<union> set (newIdsOf ds) \<longrightarrow> m' k = m1 k) \<and> dom m' \<subseteq> dom m1 \<union> set (newIdsOf ds))"
      using Cons.prems hyps new by (intro Cons.IH) (auto simp: d)
    have sub: "set (targetsOf ds) \<subseteq> dom m1 \<longleftrightarrow> set (targetsOf (d # ds)) \<subseteq> dom m"
      using same Some by (auto simp: d dom_def)
    show ?thesis
    proof (cases "specDeltas lc m1 ds")
      case None
      with IH sub step show ?thesis by simp
    next
      case S: (Some m')
      have "m' k = m k" if "k \<notin> set (targetsOf (d # ds)) \<union> set (newIdsOf (d # ds))" for k
        using IH S keep [of k] that unfolding new by (auto simp: d)
      moreover have "dom m' \<subseteq> dom m1 \<union> set (newIdsOf ds)" using IH S by simp
      with dom1 have "dom m' \<subseteq> dom m \<union> set (newIdsOf (d # ds))" unfolding new set_append by blast
      moreover have "set (targetsOf (d # ds)) \<subseteq> dom m" using IH S sub by simp
      ultimately show ?thesis using S step by simp
    qed
  qed
qed (simp add: List.map_filter_def)

lemma removes_apply:
  assumes "\<forall>d \<in> set ds. operationOf d = OpRemove"
  shows "(case specDeltas lc m ds of
      None \<Rightarrow> \<not> (distinct (targetsOf ds) \<and> set (targetsOf ds) \<subseteq> dom m)
    | Some m' \<Rightarrow> distinct (targetsOf ds) \<and> set (targetsOf ds) \<subseteq> dom m \<and>
        m' = (\<lambda>k. if k \<in> set (targetsOf ds) then None else m k))"
  using assms
proof (induction ds arbitrary: m)
  case (Cons d ds)
  then obtain i t reason where d: "d = DeltaRemove i t reason" by (cases d) auto
  show ?case
  proof (cases "m t")
    case None
    then show ?thesis by (auto simp: d)
  next
    case (Some r)
    define m1 where "m1 = m(t := None)"
    have step: "specDeltas lc m (d # ds) = specDeltas lc m1 ds" using Some by (simp add: d m1_def)
    have sub: "distinct (targetsOf ds) \<and> set (targetsOf ds) \<subseteq> dom m1 \<longleftrightarrow>
        distinct (targetsOf (d # ds)) \<and> set (targetsOf (d # ds)) \<subseteq> dom m"
      using Some by (auto simp: d m1_def)
    have eq: "(\<lambda>k. if k \<in> set (targetsOf ds) then None else m1 k) = (\<lambda>k. if k \<in> set (targetsOf (d # ds)) then None else m k)"
      by (auto simp: d m1_def)
    have "\<forall>d \<in> set ds. operationOf d = OpRemove" using Cons.prems by simp
    from Cons.IH [OF this, of m1] show ?thesis unfolding step sub eq conj_assoc [symmetric] .
  qed
qed simp

lemma modifies_apply:
  assumes "\<forall>d \<in> set ds. operationOf d = OpModify"
  shows "(case specDeltas lc m ds of
      None \<Rightarrow> \<not> set (targetsOf ds) \<subseteq> dom m
    | Some m' \<Rightarrow> set (targetsOf ds) \<subseteq> dom m \<and> dom m' = dom m)"
  using assms
proof (induction ds arbitrary: m)
  case (Cons d ds)
  then obtain i t ch where d: "d = DeltaModify i t ch" by (cases d) auto
  show ?case
  proof (cases "m t")
    case (Some r)
    define m1 where "m1 = m(t \<mapsto> mergeChanges r ch)"
    have step: "specDeltas lc m (d # ds) = specDeltas lc m1 ds" using Some by (simp add: d m1_def)
    have dm: "dom m1 = dom m" using Some by (auto simp: m1_def)
    have sub: "set (targetsOf (d # ds)) \<subseteq> dom m \<longleftrightarrow> set (targetsOf ds) \<subseteq> dom m" using Some by (auto simp: d)
    have "\<forall>d \<in> set ds. operationOf d = OpModify" using Cons.prems by simp
    from Cons.IH [OF this, of m1] show ?thesis unfolding step sub dm .
  qed (auto simp: d)
qed simp

lemma adds_apply:
  assumes "\<forall>d \<in> set ds. operationOf d = OpAdd" "distinct (newIdsOf ds)" "set (newIdsOf ds) \<inter> dom m = {}"
  shows "specDeltas lc m ds \<noteq> None"
  using assms
proof (induction ds arbitrary: m)
  case (Cons d ds)
  then obtain i r where d: "d = DeltaAdd i r" by (cases d) auto
  then have "m (rq_id r) = None" using Cons.prems(3) by (auto simp: map_filter_Cons)
  define m1 where "m1 = m(rq_id r \<mapsto> r)"
  have "set (newIdsOf ds) \<inter> dom m1 = {}" "distinct (newIdsOf ds)" "\<forall>x \<in> set ds. operationOf x = OpAdd"
    using Cons.prems by (auto simp: d map_filter_Cons m1_def)
  then have "specDeltas lc m1 ds \<noteq> None" by (intro Cons.IH)
  moreover have "specDeltas lc m (d # ds) = specDeltas lc m1 ds" using \<open>m (rq_id r) = None\<close> by (simp add: d m1_def)
  ultimately show ?case by simp
qed simp

subsection \<open>Accepted batches\<close>

lemma ofKind_targets: "set (targetsOf (ofKind op ds)) = {t. \<exists>d \<in> set ds. operationOf d = op \<and> targetOf d = Some t}"
  by (auto simp: ofKind_def targetsOf_def set_map_filter)

lemma ofKind_new: "set (newIdsOf (ofKind op ds)) = {n. \<exists>d \<in> set ds. operationOf d = op \<and> newIdOf d = Some n}"
  by (auto simp: ofKind_def set_map_filter)

lemma ofKind_kind: "\<forall>d \<in> set (ofKind op ds). operationOf d = op"
  by (simp add: ofKind_def)

text \<open>The facts about one batch that the checks establish: \<open>E\<close> holds all existing identifiers.\<close>

definition accepted_batch :: "string set \<Rightarrow> delta list \<Rightarrow> bool" where
  "accepted_batch E ds \<longleftrightarrow>
     distinct (newIdsOf ds) \<and> set (targetsOf ds) \<subseteq> E \<and>
     (\<forall>d \<in> set ds. \<forall>n. operationOf d = OpRename \<longrightarrow> newIdOf d = Some n \<longrightarrow> targetOf d = Some n \<or> n \<notin> E) \<and>
     (\<forall>t. OpRename \<in> set (opsOn t ds) \<longrightarrow> opsOn t ds = [OpRename])"

lemma distinct_map_filter: "distinct (List.map_filter f xs) \<Longrightarrow> distinct (List.map_filter f (filter P xs))"
  by (induction xs) (auto simp: map_filter_Cons set_map_filter split: option.splits)

lemma rename_targets_distinct:
  assumes "\<forall>t. OpRename \<in> set (opsOn t ds) \<longrightarrow> opsOn t ds = [OpRename]"
  shows "distinct (targetsOf (ofKind OpRename ds))"
  using assms
proof (induction ds)
  case (Cons d ds)
  have rest: "OpRename \<in> set (opsOn t ds) \<Longrightarrow> opsOn t ds = [OpRename]" for t
  proof -
    assume r: "OpRename \<in> set (opsOn t ds)"
    have o: "opsOn t (d # ds) = (if targetOf d = Some t then operationOf d # opsOn t ds else opsOn t ds)" by (simp add: opsOn_def)
    with r have "OpRename \<in> set (opsOn t (d # ds))" by simp
    with Cons.prems have "opsOn t (d # ds) = [OpRename]" by blast
    with o r show ?thesis by (auto split: if_splits)
  qed
  then have IH: "distinct (targetsOf (ofKind OpRename ds))" using Cons.IH by blast
  show ?case
  proof (cases "operationOf d = OpRename")
    case True
    then obtain t where t: "targetOf d = Some t" by (cases d) auto
    have "OpRename \<in> set (opsOn t (d # ds))" using True t by (simp add: opsOn_def)
    with Cons.prems have "opsOn t (d # ds) = [OpRename]" by blast
    then have "filter (\<lambda>x. targetOf x = Some t) ds = []" using t by (simp add: opsOn_def)
    then have "\<forall>x \<in> set ds. targetOf x \<noteq> Some t" by (simp only: filter_empty_conv)
    then have "t \<notin> set (targetsOf (ofKind OpRename ds))" unfolding ofKind_targets by blast
    with IH True t show ?thesis by (simp add: ofKind_def)
  qed (use IH in \<open>simp add: ofKind_def\<close>)
qed (simp add: ofKind_def)

lemma rename_target_alone:
  assumes "\<forall>t. OpRename \<in> set (opsOn t ds) \<longrightarrow> opsOn t ds = [OpRename]" "op \<noteq> OpRename"
  shows "set (targetsOf (ofKind OpRename ds)) \<inter> set (targetsOf (ofKind op ds)) = {}"
proof -
  have "False" if "d \<in> set ds" "operationOf d = OpRename" "targetOf d = Some t" "e \<in> set ds" "operationOf e = op" "targetOf e = Some t"
    for d e t
  proof -
    have "OpRename \<in> set (opsOn t ds)" "op \<in> set (opsOn t ds)" using that by (force simp: opsOn_def)+
    with assms show False by auto
  qed
  then show ?thesis unfolding ofKind_targets by auto
qed

lemma new_ids_apart:
  assumes "distinct (newIdsOf ds)" "a \<noteq> b"
  shows "set (newIdsOf (ofKind a ds)) \<inter> set (newIdsOf (ofKind b ds)) = {}"
  using assms
proof (induction ds)
  case (Cons d ds)
  have "n \<notin> set (newIdsOf ds)" if "newIdOf d = Some n" for n using Cons.prems that by (simp add: map_filter_Cons)
  then have "n \<notin> set (newIdsOf (ofKind op ds))" if "newIdOf d = Some n" for n op using that by (auto simp: ofKind_def set_map_filter)
  with Cons show ?case
    by (cases "newIdOf d") (auto simp: ofKind_def map_filter_Cons)
qed (simp add: ofKind_def)

lemma targets_by_kind:
  "set (targetsOf ds) = set (targetsOf (ofKind OpRename ds)) \<union> set (targetsOf (ofKind OpRemove ds)) \<union>
     set (targetsOf (ofKind OpModify ds))"
proof (induction ds)
  case (Cons d ds)
  then show ?case by (cases d) (simp_all add: ofKind_def)
qed (simp add: ofKind_def)

lemma accepted_batch_applies:
  assumes "accepted_batch E ds" "dom m \<subseteq> E" "set (addedIds ds) \<inter> dom m = {}"
  shows "specDeltas lc m (sortDeltas ds) \<noteq> None \<longleftrightarrow>
    set (targetsOf ds) \<subseteq> dom m \<and> distinct (targetsOf (ofKind OpRemove ds)) \<and>
    set (targetsOf (ofKind OpRemove ds)) \<inter> set (targetsOf (ofKind OpModify ds)) = {}"
proof -
  let ?R = "ofKind OpRename ds" and ?X = "ofKind OpRemove ds" and ?M = "ofKind OpModify ds" and ?A = "ofKind OpAdd ds"
  note acc = assms(1) [unfolded accepted_batch_def]
  have targets: "set (targetsOf ds) = set (targetsOf ?R) \<union> set (targetsOf ?X) \<union> set (targetsOf ?M)"
    by (rule targets_by_kind)
  have newR: "n \<notin> set (targetsOf ?X) \<union> set (targetsOf ?M)" if "n \<in> set (newIdsOf ?R)" for n
  proof -
    from that obtain d where d: "d \<in> set ds" "operationOf d = OpRename" "newIdOf d = Some n" unfolding ofKind_new by blast
    with acc have "targetOf d = Some n \<or> n \<notin> E" by blast
    then show ?thesis
    proof
      assume "targetOf d = Some n"
      with d have "n \<in> set (targetsOf ?R)" unfolding ofKind_targets by blast
      then show ?thesis using acc rename_target_alone [of ds OpRemove] rename_target_alone [of ds OpModify] by blast
    next
      assume "n \<notin> E"
      then show ?thesis using acc targets by blast
    qed
  qed
  have "\<forall>d \<in> set ?R. \<forall>n. newIdOf d = Some n \<longrightarrow> targetOf d = Some n \<or> n \<notin> dom m \<and> n \<notin> set (targetsOf ?R)"
  proof (intro ballI allI impI)
    fix d n assume d: "d \<in> set ?R" "newIdOf d = Some n"
    then have "targetOf d = Some n \<or> n \<notin> E" using acc by (auto simp: ofKind_def)
    then show "targetOf d = Some n \<or> n \<notin> dom m \<and> n \<notin> set (targetsOf ?R)" using assms(2) acc targets by blast
  qed
  note R = renames_apply [OF ofKind_kind rename_targets_distinct _ this, where lc = lc]
  have R': "(case specDeltas lc m ?R of None \<Rightarrow> \<not> set (targetsOf ?R) \<subseteq> dom m
    | Some m' \<Rightarrow> set (targetsOf ?R) \<subseteq> dom m \<and>
        (\<forall>k. k \<notin> set (targetsOf ?R) \<union> set (newIdsOf ?R) \<longrightarrow> m' k = m k) \<and> dom m' \<subseteq> dom m \<union> set (newIdsOf ?R))"
    using acc by (intro R) (auto simp: ofKind_def intro: distinct_map_filter)
  show ?thesis
  proof (cases "specDeltas lc m ?R")
    case None
    with R' targets show ?thesis by (auto simp: sortDeltas_groups specDeltas_append)
  next
    case (Some m1)
    with R' have m1: "set (targetsOf ?R) \<subseteq> dom m" "dom m1 \<subseteq> dom m \<union> set (newIdsOf ?R)"
      "\<forall>k. k \<notin> set (targetsOf ?R) \<union> set (newIdsOf ?R) \<longrightarrow> m1 k = m k" by auto
    have kept: "m1 k = m k" if "k \<in> set (targetsOf ?X) \<union> set (targetsOf ?M)" for k
      using that newR [of k] m1(3) rename_target_alone [of ds OpRemove] rename_target_alone [of ds OpModify] acc by blast
    have subX: "set (targetsOf ?X) \<subseteq> dom m1 \<longleftrightarrow> set (targetsOf ?X) \<subseteq> dom m"
      and subM: "set (targetsOf ?M) \<subseteq> dom m1 \<longleftrightarrow> set (targetsOf ?M) \<subseteq> dom m" using kept by (auto simp: dom_def)
    show ?thesis
    proof (cases "specDeltas lc m1 ?X")
      case None
      with removes_apply [where lc = lc and m = m1, OF ofKind_kind, of ds] Some subX targets show ?thesis
        by (auto simp: sortDeltas_groups specDeltas_append)
    next
      case X: (Some m2)
      with removes_apply [where lc = lc and m = m1, OF ofKind_kind, of ds] have m2: "distinct (targetsOf ?X)" "set (targetsOf ?X) \<subseteq> dom m1"
        "m2 = (\<lambda>k. if k \<in> set (targetsOf ?X) then None else m1 k)" by auto
      have "set (targetsOf ?M) \<subseteq> dom m2 \<longleftrightarrow> set (targetsOf ?M) \<subseteq> dom m1 \<and> set (targetsOf ?X) \<inter> set (targetsOf ?M) = {}"
        by (auto simp: m2(3) dom_def)
      then have sub2: "set (targetsOf ?M) \<subseteq> dom m2 \<longleftrightarrow> set (targetsOf ?M) \<subseteq> dom m \<and> set (targetsOf ?X) \<inter> set (targetsOf ?M) = {}"
        using subM by blast
      show ?thesis
      proof (cases "specDeltas lc m2 ?M")
        case None
        with modifies_apply [where lc = lc and m = m2, OF ofKind_kind, of ds] sub2 Some X targets show ?thesis
          by (auto simp: sortDeltas_groups specDeltas_append)
      next
        case M: (Some m3)
        with modifies_apply [where lc = lc and m = m2, OF ofKind_kind, of ds] have m3: "set (targetsOf ?M) \<subseteq> dom m2" "dom m3 = dom m2" by auto
        have "dom m2 \<subseteq> dom m1" by (auto simp: m2(3) split: if_splits)
        with m1(2) m3(2) have "dom m3 \<subseteq> dom m \<union> set (newIdsOf ?R)" by blast
        moreover have "set (newIdsOf ?A) \<inter> set (newIdsOf ?R) = {}" using new_ids_apart [of ds OpAdd OpRename] acc by auto
        moreover have "set (newIdsOf ?A) = set (addedIds ds)" by (simp add: addedIds_def ofKind_def)
        ultimately have "set (newIdsOf ?A) \<inter> dom m3 = {}" using assms(3) by blast
        then have "specDeltas lc m3 ?A \<noteq> None"
          using acc by (intro adds_apply ofKind_kind) (auto simp: ofKind_def intro: distinct_map_filter)
        then have "specDeltas lc m (sortDeltas ds) \<noteq> None" using Some X M by (auto simp: sortDeltas_groups specDeltas_append)
        moreover have "set (targetsOf ds) \<subseteq> dom m" using m1(1) m2(2) subX m3(1) sub2 unfolding targets by blast
        ultimately show ?thesis using m2(1) sub2 m3(1) by blast
      qed
    qed
  qed
qed

lemma updated_iff:
  assumes "distinct (reqIds s)"
  shows "su_updatedSpec (fst (applyDeltasToSpec lc now s ds v)) \<noteq> None \<longleftrightarrow>
    specDeltas lc (findRequirement s) (sortDeltas ds) \<noteq> None"
  using applyGo_refines [OF assms, where rs = "[]" and lc = lc and ds = "sortDeltas ds"
      and f = "\<lparr>bf_add = False, bf_modify = False, bf_renameOrRemove = False\<rparr>"]
  by (auto simp: applyDeltas_split Let_def split: option.splits)

lemma context_ids:
  "set (vc_existingRequirementIds (buildValidationContext specs act iv)) = (\<Union>s \<in> set specs. set (reqIds s))"
  by (auto simp: buildValidationContext_def)

lemma newIds_flat:
  "(cap, ds) \<in> set (deltasOf c) \<Longrightarrow> distinct (newIdsOf (map snd (flatDeltas c))) \<Longrightarrow> distinct (newIdsOf ds)"
proof (unfold flatDeltas_def, induction "deltasOf c" arbitrary: c)
  case Nil
  then show ?case by simp
next
  case (Cons x xs)
  have app: "newIdsOf (as @ bs) = newIdsOf as @ newIdsOf bs" for as bs by (simp add: List.map_filter_def)
  have snds: "map snd (map (Pair k) es) = es" for k and es :: "delta list" by (simp add: o_def)
  obtain k es where x: "x = (k, es)" by (cases x)
  have d: "deltasOf c = (k, es) # xs" using Cons.hyps(2) x by simp
  have xs: "deltasOf (c\<lparr>cd_deltas := Some xs\<rparr>) = xs" by (simp add: deltasOf_def)
  have "distinct (newIdsOf es)" "distinct (newIdsOf (map snd (concat (map (\<lambda>(cap, ds). map (Pair cap) ds) xs))))"
    using Cons.prems(2) unfolding d by (simp_all add: app snds del: map_map)
  with Cons.hyps(1) [of "c\<lparr>cd_deltas := Some xs\<rparr>"] Cons.prems(1) show ?case unfolding d xs by auto
qed

lemma accepted_change_batches:
  assumes "clean (runConflictChecks c ctx)" "(cap, ds) \<in> set (deltasOf c)"
  shows "accepted_batch (set (vc_existingRequirementIds ctx)) ds"
proof -
  have dup: "clean (duplicateGo ctx [] (flatDeltas c))" and tgt: "clean (checkDeltaTargetsExist c ctx)"
    and intra: "clean (intraConflicts cap ds)"
    using assms by (auto simp: runConflictChecks_def checkDuplicateRequirementIds_def checkIntraDeltaConflicts_def clean_concat_map)
  have mem: "(cap, d) \<in> set (flatDeltas c)" if "d \<in> set ds" for d
    using assms(2) that by (auto simp: flatDeltas_def)
  have "distinct (newIdsOf ds)" using newIds_flat [OF assms(2)] dup by (simp add: clean_duplicateGo)
  moreover have "set (targetsOf ds) \<subseteq> set (vc_existingRequirementIds ctx)"
    using tgt mem by (fastforce simp: clean_targets targetsOf_def set_map_filter)
  moreover have "targetOf d = Some n \<or> n \<notin> set (vc_existingRequirementIds ctx)"
    if "d \<in> set ds" "operationOf d = OpRename" "newIdOf d = Some n" for d n
  proof -
    have "\<not> clashesWithExisting ctx d" using dup mem [OF that(1)] by (auto simp: clean_duplicateGo)
    then show ?thesis using that(2,3) by (cases d) (auto split: if_splits)
  qed
  moreover have "opsOn t ds = [OpRename]" if "OpRename \<in> set (opsOn t ds)" for t by (rule clean_intra [OF intra that])
  ultimately show ?thesis by (simp add: accepted_batch_def)
qed


subsection \<open>A concrete change\<close>

definition ex_batch :: "delta list" where
  "ex_batch = [DeltaRemove ''dl-1'' ''r1'' ''old'',
     DeltaModify ''dl-2'' ''r2'' \<lparr>mc_title = Some ''New'', mc_body = None, mc_priority = None, mc_tags = None, mc_scenarios = None\<rparr>]"

definition ex_clash :: "delta list" where
  "ex_clash = [DeltaRemove ''dl-1'' ''r1'' ''old'',
     DeltaModify ''dl-2'' ''r1'' \<lparr>mc_title = Some ''New'', mc_body = None, mc_priority = None, mc_tags = None, mc_scenarios = None\<rparr>]"

lemma ex_batches_accepted:
  assumes "ds = ex_batch \<or> ds = ex_clash"
  shows "clean (runConflictChecks ((prep_doc [])\<lparr>cd_deltas := Some [(''auth'', ds)]\<rparr>) (buildValidationContext [ex_spec] None None))"
proof -
  have "extractReferences ''b'' = []" by (simp add: extractReferences_def Let_def)
  then have ctx: "buildValidationContext [ex_spec] None None =
      \<lparr>vc_existingSpecs = [(''auth'', existingSpecOf ex_spec)], vc_existingRequirementIds = [''r1'', ''r2''],
       vc_requirementReferences = [], vc_activeChanges = None, vc_conflictInventory = None\<rparr>"
    by (simp add: buildValidationContext_def referencesOf_def ex_spec_def ex_req_def mk_set_def set_add_def)
  have deltas: "deltasOf ((prep_doc [])\<lparr>cd_deltas := Some [(''auth'', ds)]\<rparr>) = [(''auth'', ds)]"
    by (simp add: deltasOf_def)
  show ?thesis
    using assms
    by (auto simp: runConflictChecks_def ctx checkDuplicateRequirementIds_def clean_duplicateGo flatDeltas_def deltas
        clean_targets checkIntraDeltaConflicts_def intraConflicts_def checkPriorityDowngrades_def checkRemovalReferences_def
        checkSpecsExist_def checkChangeConflicts_def ex_batch_def ex_clash_def map_filter_Cons opsOn_def renameNewIds_def
        Let_def mk_set_def set_add_def)
qed


end
