(* ===== verification/Change_Validation.thy ===== *)
theory Change_Validation
  imports Conflict_Facts Gate_Decisions
begin

text \<open>
  The validation of a change (\<^verbatim>\<open>validator/validator.ts\<close>): the completeness checks
  (\<^verbatim>\<open>validator/completeness.ts\<close>), the traceability of the contract (\<^verbatim>\<open>validator/contract.ts\<close>), the
  conflict checks, divergence of the specifications and drift of the proposal, and the verdict.
\<close>

subsection \<open>Completeness\<close>

definition checkHasTasks :: "change_doc \<Rightarrow> validation_issue list" where
  "checkHasTasks c = (if tasksOf c = [] then [issueAt ''NO_TASKS'' SevWarning ''tasks''] else [])"

definition checkHasDeltas :: "change_doc \<Rightarrow> validation_issue list" where
  "checkHasDeltas c = (if flatDeltas c = [] then [issueAt ''NO_DELTAS'' SevWarning ''deltas''] else [])"

definition checkRequirementScenarios :: "change_doc \<Rightarrow> validation_issue list" where
  "checkRequirementScenarios c = concat (map (\<lambda>(cap, d).
     (case d of
        DeltaAdd i r \<Rightarrow> (if orEmpty (rq_scenarios r) = [] then [issueAt ''MISSING_SCENARIO'' SevWarning (deltaPath cap d)] else [])
      | _ \<Rightarrow> [])) (flatDeltas c))"

definition scenarioIssues :: "string \<Rightarrow> scenario \<Rightarrow> validation_issue list" where
  "scenarioIssues path s =
     (let issue = issueAt ''INCOMPLETE_SCENARIO'' SevWarning (path @ ''.scenarios.'' @ sc_id s)
      in (if sc_given s = [] then [issue] else []) @ (if sc_when s = [] then [issue] else []) @
         (if sc_then s = [] then [issue] else []))"

definition checkScenarioCompleteness :: "change_doc \<Rightarrow> validation_issue list" where
  "checkScenarioCompleteness c = concat (map (\<lambda>(cap, d).
     (case d of
        DeltaAdd i r \<Rightarrow> concat (map (scenarioIssues (deltaPath cap d)) (orEmpty (rq_scenarios r)))
      | _ \<Rightarrow> [])) (flatDeltas c))"

text \<open>\<^verbatim>\<open>/^rq-[a-zA-Z0-9]+$/\<close>, \<^verbatim>\<open>/^dl-[a-zA-Z0-9]+$/\<close> and \<^verbatim>\<open>/^rq-[a-zA-Z0-9]+\.\d+$/\<close>.\<close>

definition taggedId :: "string \<Rightarrow> string \<Rightarrow> bool" where
  "taggedId tag s \<longleftrightarrow> (case afterPrefix tag s of Some x \<Rightarrow> x \<noteq> [] \<and> list_all isAlnum x | None \<Rightarrow> False)"

definition scenarioIdOk :: "string \<Rightarrow> bool" where
  "scenarioIdOk s \<longleftrightarrow>
     (case splitOn (CHR ''.'') s of
        [a, n] \<Rightarrow> taggedId ''rq-'' a \<and> n \<noteq> [] \<and> list_all isDigit n
      | _ \<Rightarrow> False)"

definition idIssue :: "bool \<Rightarrow> string \<Rightarrow> validation_issue list" where
  "idIssue ok path = (if ok then [] else [issueAt ''INVALID_ID_FORMAT'' SevError path])"

fun idIssues :: "string \<Rightarrow> delta \<Rightarrow> validation_issue list" where
  "idIssues path (DeltaAdd i r) = idIssue (taggedId ''rq-'' (rq_id r)) (path @ ''.requirement.id'') @
     concat (map (\<lambda>s. idIssue (scenarioIdOk (sc_id s)) (path @ ''.scenarios.'' @ sc_id s)) (orEmpty (rq_scenarios r)))"
| "idIssues path (DeltaRename i t ti n) = (if truthy n then idIssue (taggedId ''rq-'' (the n)) (path @ ''.new_id'') else [])"
| "idIssues path _ = []"

definition checkIdFormats :: "change_doc \<Rightarrow> validation_issue list" where
  "checkIdFormats c = concat (map (\<lambda>(cap, d).
     idIssue (taggedId ''dl-'' (deltaId d)) (deltaPath cap d) @ idIssues (deltaPath cap d) d) (flatDeltas c))"

definition checkTddCompliance :: "change_doc \<Rightarrow> validation_issue list" where
  "checkTddCompliance c = concat (map (\<lambda>t.
     (if tk_status t = TDone \<and> getTaskTddCompliance t = Missing
      then [issueAt ''MISSING_TDD_EVIDENCE'' SevError (''tasks.'' @ tk_id t)] else [])) (tasksOf c))"

subsection \<open>Contract traceability\<close>

definition allTaskRefs :: "contract_refs \<Rightarrow> string list" where
  "allTaskRefs r = orEmpty (cr_implements r) @ orEmpty (cr_verifies r) @ orEmpty (cr_respects r)"

definition hasAnyTaskRef :: "contract_refs option \<Rightarrow> bool" where
  "hasAnyTaskRef refs = (case refs of Some r \<Rightarrow> allTaskRefs r \<noteq> [] | None \<Rightarrow> False)"

definition coveringRefs :: "task \<Rightarrow> string list" where
  "coveringRefs t = (case tk_contract_refs t of Some r \<Rightarrow> orEmpty (cr_implements r) @ orEmpty (cr_verifies r) | None \<Rightarrow> [])"

record coverage =
  cv_coveredIds :: "string list"
  cv_uncovered :: "contract_item list"
  cv_taskCoverage :: "(string \<times> string list \<times> string list) list"
  cv_cancelledTaskIds :: "string list"

definition projectContractCoverage :: "change_doc \<Rightarrow> coverage" where
  "projectContractCoverage c =
     (let ts = filter (\<lambda>t. coveringRefs t \<noteq> []) (activeTasks c); covered = mk_set (concat (map coveringRefs ts))
      in \<lparr>cv_coveredIds = covered,
          cv_uncovered = (case cd_contract c of None \<Rightarrow> []
            | Some k \<Rightarrow> filter (\<lambda>i. ci_kind i = AcceptanceCriterion \<and> ci_verificationRequired i \<noteq> Some False \<and>
                ci_id i \<notin> set covered) (cc_items k)),
          cv_taskCoverage = map (\<lambda>t. (tk_id t, orEmpty (Option.bind (tk_contract_refs t) cr_implements),
            orEmpty (Option.bind (tk_contract_refs t) cr_verifies))) ts,
          cv_cancelledTaskIds = map tk_id (filter (\<lambda>t. tk_status t = TCancelled) (tasksOf c))\<rparr>)"

fun duplicateItems :: "string list \<Rightarrow> string list \<Rightarrow> validation_issue list" where
  "duplicateItems seen [] = []"
| "duplicateItems seen (i # is) =
     (if i \<in> set seen then [issueAt ''CONTRACT_DUPLICATE_ID'' SevError (''contract.items.'' @ i)] else []) @
     duplicateItems (i # seen) is"

definition taskRefIssues :: "contract \<Rightarrow> task \<Rightarrow> validation_issue list" where
  "taskRefIssues k t =
     (let path = ''tasks.'' @ tk_id t @ ''.contract_refs''; refs = tk_contract_refs t
      in (case refs of None \<Rightarrow> []
          | Some r \<Rightarrow> concat (map (\<lambda>x. if x \<in> set (map ci_id (cc_items k)) then []
              else [issueAt ''CONTRACT_UNKNOWN_REF'' SevError path]) (allTaskRefs r))) @
         (if cc_rigor k \<noteq> RigorMinimal \<and> tk_status t \<noteq> TCancelled \<and> \<not> hasAnyTaskRef refs \<and>
             \<not> truthy (Option.bind refs cr_not_applicable_reason)
          then [issueAt ''CONTRACT_TASK_REFS_MISSING'' SevError path] else []))"

definition matrixIssues :: "contract \<Rightarrow> review_matrix \<Rightarrow> validation_issue list" where
  "matrixIssues k m =
     (let path = (\<lambda>i. ''contract.reviewMatrix.'' @ i) in
      concat (map (\<lambda>r. if rr_contractId r \<in> set (map ci_id (cc_items k)) then []
        else [issueAt ''CONTRACT_UNKNOWN_REVIEW_REF'' SevError (path (rr_contractId r))]) (rm_rows m)) @
      concat (map (\<lambda>i. if ci_verificationRequired i = Some False then []
        else (case map_get (rowsById (rm_rows m)) (ci_id i) of
            None \<Rightarrow> [issueAt ''CONTRACT_PROOF_MISSING'' SevError (path (ci_id i))]
          | Some row \<Rightarrow> (if rr_status row \<in> set [EsFail, EsViolated, EsUnknown]
              then [issueAt ''CONTRACT_PROOF_FAILED'' SevError (path (ci_id i))] else []))) (cc_items k)))"

definition runContractChecks :: "change_doc \<Rightarrow> validation_issue list" where
  "runContractChecks c =
     (case cd_contract c of
        None \<Rightarrow> []
      | Some k \<Rightarrow>
          duplicateItems [] (map ci_id (cc_items k)) @
          concat (map (taskRefIssues k) (tasksOf c)) @
          (if cc_rigor k = RigorMinimal then []
           else map (\<lambda>i. issueAt ''CONTRACT_AC_UNCOVERED'' SevError (''contract.items.'' @ ci_id i))
             (cv_uncovered (projectContractCoverage c))) @
          (case cc_reviewMatrix k of None \<Rightarrow> [] | Some m \<Rightarrow> matrixIssues k m) @
          (case cd_acceptanceCriteria c of
             Some legacy \<Rightarrow> (if legacy = map ci_text (filter (\<lambda>i. ci_kind i = AcceptanceCriterion) (cc_items k)) then []
               else [issueAt ''CONTRACT_ACCEPTANCE_CRITERIA_DRIFT'' SevWarning ''acceptanceCriteria''])
           | None \<Rightarrow> []))"

definition runCompletenessChecks :: "change_doc \<Rightarrow> validation_issue list" where
  "runCompletenessChecks c =
     checkHasTasks c @ checkHasDeltas c @ checkRequirementScenarios c @ checkScenarioCompleteness c @
     checkIdFormats c @ checkTddCompliance c @ runContractChecks c"

subsection \<open>Proposal drift\<close>

text \<open>
  \<^verbatim>\<open>match(/^#{2,3}\s+(.+)$/gm)\<close>, each match without its marker and trimmed.  The white space may
  run over line ends; a match ends at the end of its last line.
\<close>

function (sequential) sectionHeaders :: "bool \<Rightarrow> string \<Rightarrow> string list" where
  "sectionHeaders lineStart [] = []"
| "sectionHeaders lineStart (c # cs) =
     (let s = c # cs; hashes = length (takeWhile (\<lambda>x. x = CHR ''#'') s);
          ws = length (takeWhile isWs (drop hashes s)); body = drop (hashes + ws) s
      in if lineStart \<and> hashes \<in> {2, 3} \<and> 0 < ws \<and> body \<noteq> []
         then trim (takeWhile (\<lambda>x. \<not> isLineEnd x) body) # sectionHeaders False (dropWhile (\<lambda>x. \<not> isLineEnd x) body)
         else sectionHeaders (isLineEnd c) cs)"
  by pat_completeness auto

termination
  by (relation "measure (\<lambda>(b, s). length s)")
    (auto intro: le_less_trans [OF length_dropWhile_le] simp: le_imp_less_Suc split: if_splits)

definition taskBearingHeaders :: "string list" where
  "taskBearingHeaders = [''task'', ''tasks'', ''planned task'', ''planned tasks'', ''implementation task'',
     ''implementation tasks'', ''work items'', ''work plan'']"

definition isKeywordBreak :: "char \<Rightarrow> bool" where
  "isKeywordBreak c \<longleftrightarrow> isWs c \<or> c \<in> set ''-_/,''"

fun piecesGo :: "string \<Rightarrow> string \<Rightarrow> string list" where
  "piecesGo acc [] = [acc]"
| "piecesGo acc (c # cs) = (if isKeywordBreak c then acc # piecesGo [] cs else piecesGo (acc @ [c]) cs)"

definition headerKeywords :: "string \<Rightarrow> string list" where
  "headerKeywords header = filter (\<lambda>w. 4 \<le> length w \<and>
     w \<notin> set [''with'', ''from'', ''into'', ''that'', ''this'', ''when'', ''then'', ''also'']) (piecesGo [] header)"

definition runProposalDriftCheck :: "change_doc \<Rightarrow> string \<Rightarrow> validation_issue list" where
  "runProposalDriftCheck c proposal =
     (let titles = map (\<lambda>t. lowerStr (tk_title t)) (activeTasks c) in
      concat (map (\<lambda>h.
        (let keywords = headerKeywords (lowerStr h)
         in if lowerStr h \<notin> set taskBearingHeaders \<or> keywords = [] \<or>
               list_ex (\<lambda>t. list_ex (includesStr t) keywords) titles then []
            else [issueAt ''PROPOSAL_TASK_DRIFT'' SevWarning (''proposal.sections.'' @ h)])) (sectionHeaders True proposal)))"

subsection \<open>The verdict\<close>

datatype skippable = SkipCompleteness | SkipConflicts | SkipProposalDrift

record validator_options =
  vo_specs :: "spec list"
  vo_activeChanges :: "active_change list option"
  vo_conflictInventory :: "conflict_inventory option"
  vo_skipChecks :: "skippable list"
  vo_changedSpecFiles :: "string list option option"
  vo_proposalText :: "string option"

record validation_result =
  vr_passed :: bool
  vr_errors :: "validation_issue list"
  vr_warnings :: "validation_issue list"
  vr_checksPerformed :: "string list"

definition divergenceWarnings :: "string list option option \<Rightarrow> validation_issue list" where
  "divergenceWarnings files =
     (case files of
        None \<Rightarrow> []
      | Some None \<Rightarrow> [issueAt ''SPEC_RESOLUTION_DEGRADED'' SevWarning ''worktree'']
      | Some (Some fs) \<Rightarrow> map (issueAt ''SPEC_DIVERGED'' SevWarning) fs)"

definition validateChange :: "change_doc \<Rightarrow> validator_options \<Rightarrow> validation_result" where
  "validateChange c opts =
     (let ctx = buildValidationContext (vo_specs opts) (vo_activeChanges opts) (vo_conflictInventory opts);
          skipped = set (vo_skipChecks opts);
          completeness = (if SkipCompleteness \<in> skipped then [] else runCompletenessChecks c);
          conflicts = (if SkipConflicts \<in> skipped then [] else runConflictChecks c ctx);
          found = completeness @ conflicts;
          drifts = (truthy (vo_proposalText opts) \<and> SkipProposalDrift \<notin> skipped);
          drift = (if drifts then runProposalDriftCheck c (the (vo_proposalText opts)) else []);
          errors = filter (\<lambda>i. vi_severity i = SevError) found;
          canConcludeClean = (case vo_conflictInventory opts of Some v \<Rightarrow> iv_canConcludeClean v \<noteq> Some False | None \<Rightarrow> True)
      in \<lparr>vr_passed = (errors = [] \<and> canConcludeClean), vr_errors = errors,
          vr_warnings = filter (\<lambda>i. vi_severity i \<noteq> SevError) found @ divergenceWarnings (vo_changedSpecFiles opts) @ drift,
          vr_checksPerformed =
            (if SkipCompleteness \<in> skipped then [] else [''completeness'']) @
            (if SkipConflicts \<in> skipped then [] else [''conflicts'']) @
            (if vo_changedSpecFiles opts = None then [] else [''spec-divergence'']) @
            (if drifts then [''proposal-drift''] else [])\<rparr>)"

subsection \<open>What a passed validation says\<close>

lemma clean_append: "clean (xs @ ys) \<longleftrightarrow> clean xs \<and> clean ys"
  by (auto simp: clean_def)

lemma clean_Nil: "clean []"
  by (simp add: clean_def)

lemma clean_error_iff: "clean (if b then [] else [issueAt c SevError p]) \<longleftrightarrow> b"
  by (simp add: clean_def)

lemma clean_warning: "clean (if b then [issueAt c SevWarning p] else [])"
  by (simp add: clean_def)

lemmas clean_rules = clean_append clean_Nil clean_error clean_error_iff clean_warning clean_concat_map

lemma clean_checks:
  "clean (checkHasTasks c)" "clean (checkHasDeltas c)" "clean (checkRequirementScenarios c)" "clean (checkScenarioCompleteness c)"
  by (auto simp: checkHasTasks_def checkHasDeltas_def checkRequirementScenarios_def checkScenarioCompleteness_def
      scenarioIssues_def Let_def clean_rules split: delta.splits)

definition deltaIdsOk :: "delta \<Rightarrow> bool" where
  "deltaIdsOk d \<longleftrightarrow> taggedId ''dl-'' (deltaId d) \<and>
     (case d of
        DeltaAdd i r \<Rightarrow> taggedId ''rq-'' (rq_id r) \<and> (\<forall>s \<in> set (orEmpty (rq_scenarios r)). scenarioIdOk (sc_id s))
      | DeltaRename i t ti n \<Rightarrow> \<not> truthy n \<or> taggedId ''rq-'' (the n)
      | _ \<Rightarrow> True)"

lemma clean_idIssue: "clean (idIssue ok p) \<longleftrightarrow> ok"
  by (simp add: idIssue_def clean_rules)

lemma clean_idFormats: "clean (checkIdFormats c) \<longleftrightarrow> (\<forall>(cap, d) \<in> set (flatDeltas c). deltaIdsOk d)"
proof -
  have "clean (idIssue (taggedId ''dl-'' (deltaId d)) p @ idIssues q d) \<longleftrightarrow> deltaIdsOk d" for d p q
    by (cases d) (auto simp: deltaIdsOk_def clean_idIssue clean_rules)
  then show ?thesis by (fastforce simp: checkIdFormats_def clean_concat_map)
qed

lemma clean_tdd: "clean (checkTddCompliance c) \<longleftrightarrow>
    (\<forall>t \<in> set (tasksOf c). tk_status t = TDone \<longrightarrow> getTaskTddCompliance t \<noteq> Missing)"
  unfolding checkTddCompliance_def clean_concat_map clean_error by auto

lemma clean_duplicateItems: "clean (duplicateItems seen is) \<longleftrightarrow> distinct is \<and> set is \<inter> set seen = {}"
  by (induction seen "is" rule: duplicateItems.induct) (auto simp: clean_rules)

definition taskTraceable :: "contract \<Rightarrow> task \<Rightarrow> bool" where
  "taskTraceable k t \<longleftrightarrow>
     (case tk_contract_refs t of
        Some r \<Rightarrow> set (allTaskRefs r) \<subseteq> ci_id ` set (cc_items k) \<and>
          (cc_rigor k = RigorMinimal \<or> tk_status t = TCancelled \<or> allTaskRefs r \<noteq> [] \<or> truthy (cr_not_applicable_reason r))
      | None \<Rightarrow> cc_rigor k = RigorMinimal \<or> tk_status t = TCancelled)"

lemma clean_taskRefs: "clean (taskRefIssues k t) \<longleftrightarrow> taskTraceable k t"
proof (cases "tk_contract_refs t")
  case None
  then show ?thesis by (auto simp: taskRefIssues_def taskTraceable_def hasAnyTaskRef_def clean_def)
next
  case (Some r)
  have "clean (taskRefIssues k t) \<longleftrightarrow> (\<forall>x \<in> set (allTaskRefs r). x \<in> set (map ci_id (cc_items k))) \<and>
      \<not> (cc_rigor k \<noteq> RigorMinimal \<and> tk_status t \<noteq> TCancelled \<and> \<not> hasAnyTaskRef (Some r) \<and>
        \<not> truthy (Option.bind (Some r) cr_not_applicable_reason))"
    unfolding taskRefIssues_def Let_def Some option.case clean_append clean_concat_map clean_error clean_error_iff ..
  then show ?thesis by (auto simp: taskTraceable_def hasAnyTaskRef_def Some)
qed

definition matrixSettled :: "contract \<Rightarrow> review_matrix \<Rightarrow> bool" where
  "matrixSettled k m \<longleftrightarrow> rr_contractId ` set (rm_rows m) \<subseteq> ci_id ` set (cc_items k) \<and>
     (\<forall>i \<in> set (expectedItems k). \<exists>r. map_get (rowsById (rm_rows m)) (ci_id i) = Some r \<and>
        \<not> isFailingContractReviewStatus (rr_status r))"

lemma clean_matrix: "clean (matrixIssues k m) \<longleftrightarrow> matrixSettled k m"
proof -
  have row: "clean (if ci_verificationRequired i = Some False then []
        else (case map_get (rowsById (rm_rows m)) (ci_id i) of
            None \<Rightarrow> [issueAt ''CONTRACT_PROOF_MISSING'' SevError p]
          | Some row \<Rightarrow> (if rr_status row \<in> set [EsFail, EsViolated, EsUnknown]
              then [issueAt ''CONTRACT_PROOF_FAILED'' SevError p] else []))) \<longleftrightarrow>
      (ci_verificationRequired i = Some False \<or> (\<exists>r. map_get (rowsById (rm_rows m)) (ci_id i) = Some r \<and>
        \<not> isFailingContractReviewStatus (rr_status r)))" for i p
    by (auto simp: isFailingContractReviewStatus_def clean_def split: option.splits)
  have "clean (matrixIssues k m) \<longleftrightarrow> (\<forall>r \<in> set (rm_rows m). rr_contractId r \<in> set (map ci_id (cc_items k))) \<and>
      (\<forall>i \<in> set (cc_items k). ci_verificationRequired i = Some False \<or>
        (\<exists>r. map_get (rowsById (rm_rows m)) (ci_id i) = Some r \<and> \<not> isFailingContractReviewStatus (rr_status r)))"
    unfolding matrixIssues_def Let_def clean_append clean_concat_map clean_error_iff row ..
  then show ?thesis by (auto simp: matrixSettled_def expectedItems_def)
qed

definition contractTraced :: "change_doc \<Rightarrow> contract \<Rightarrow> bool" where
  "contractTraced c k \<longleftrightarrow> distinct (map ci_id (cc_items k)) \<and> list_all (taskTraceable k) (tasksOf c) \<and>
     (cc_rigor k = RigorMinimal \<or> cv_uncovered (projectContractCoverage c) = []) \<and>
     (case cc_reviewMatrix k of Some m \<Rightarrow> matrixSettled k m | None \<Rightarrow> True)"

lemma clean_contract: "clean (runContractChecks c) \<longleftrightarrow> (case cd_contract c of Some k \<Rightarrow> contractTraced c k | None \<Rightarrow> True)"
proof (cases "cd_contract c")
  case None
  then show ?thesis by (simp add: runContractChecks_def clean_Nil)
next
  case (Some k)
  have u: "clean (if cc_rigor k = RigorMinimal then [] else map (\<lambda>i. issueAt e SevError (p i)) xs) \<longleftrightarrow>
      cc_rigor k = RigorMinimal \<or> xs = []" for e p and xs :: "contract_item list"
    by (cases xs) (auto simp: clean_def)
  have l: "clean (case cd_acceptanceCriteria c of Some legacy \<Rightarrow> (if f legacy then []
      else [issueAt e SevWarning p]) | None \<Rightarrow> [])" for f e p
    by (auto simp: clean_def split: option.splits)
  have m: "clean (case cc_reviewMatrix k of None \<Rightarrow> [] | Some m \<Rightarrow> matrixIssues k m) \<longleftrightarrow>
      (case cc_reviewMatrix k of Some m \<Rightarrow> matrixSettled k m | None \<Rightarrow> True)"
    by (auto simp: clean_matrix clean_Nil split: option.splits)
  show ?thesis
    unfolding runContractChecks_def Some option.case clean_append clean_concat_map clean_duplicateItems clean_taskRefs u m
      contractTraced_def list_all_iff
    by (simp add: l)
qed

text \<open>
  Claim C9. When a validation passes: the conflict inventory, if there is one, may conclude; unless
  the completeness checks are skipped, every identifier of the deltas is well formed, no finished
  task lacks its test evidence and the contract is traced; unless the conflict checks are skipped,
  they report no error.  Missing tasks, deltas or scenarios, spec divergence and drift never fail it.
\<close>

theorem validation_passes_iff:
  "vr_passed (validateChange c opts) \<longleftrightarrow>
     (case vo_conflictInventory opts of Some v \<Rightarrow> iv_canConcludeClean v \<noteq> Some False | None \<Rightarrow> True) \<and>
     (SkipCompleteness \<in> set (vo_skipChecks opts) \<or>
        list_all (\<lambda>(cap, d). deltaIdsOk d) (flatDeltas c) \<and>
        filter (\<lambda>t. tk_status t = TDone \<and> getTaskTddCompliance t = Missing) (tasksOf c) = [] \<and>
        (case cd_contract c of Some k \<Rightarrow> contractTraced c k | None \<Rightarrow> True)) \<and>
     (SkipConflicts \<in> set (vo_skipChecks opts) \<or>
        clean (runConflictChecks c (buildValidationContext (vo_specs opts) (vo_activeChanges opts) (vo_conflictInventory opts))))"
proof -
  have none: "filter (\<lambda>i. vi_severity i = SevError) xs = [] \<longleftrightarrow> clean xs" for xs
    by (auto simp: clean_def filter_empty_conv)
  have comp: "clean (runCompletenessChecks c) \<longleftrightarrow> list_all (\<lambda>(cap, d). deltaIdsOk d) (flatDeltas c) \<and>
      filter (\<lambda>t. tk_status t = TDone \<and> getTaskTddCompliance t = Missing) (tasksOf c) = [] \<and>
      (case cd_contract c of Some k \<Rightarrow> contractTraced c k | None \<Rightarrow> True)"
    by (auto simp: runCompletenessChecks_def clean_append clean_checks clean_idFormats clean_tdd clean_contract
        filter_empty_conv list_all_iff)
  show ?thesis
    by (auto simp only: validateChange_def Let_def validation_result.simps none clean_append comp clean_Nil split: if_splits)
qed

text \<open>
  Claim C35. The validator and the acceptance gate on one review matrix: the gate's contract checks
  pass exactly when the validator finds no error in the matrix, no contract identifier has two rows
  and the executive summary is recorded.  With two rows for an item the validator reads the last.
\<close>

theorem validator_and_gate_agree:
  "acceptanceContractBlockers (st\<lparr>cs_contract := Some (k\<lparr>cc_reviewMatrix := Some m\<rparr>)\<rparr>) Acceptance None = [] \<longleftrightarrow>
     clean (matrixIssues k m) \<and> distinct (map rr_contractId (rm_rows m)) \<and> summaryRecorded st"
proof -
  have "matrixSettled k m \<longleftrightarrow> reviewMatrixOk (k\<lparr>cc_reviewMatrix := Some m\<rparr>) m (cc_items k)"
    if "distinct (map rr_contractId (rm_rows m))"
    using that rowsById_distinct [OF that]
    by (auto simp: matrixSettled_def reviewMatrixOk_def expectedItems_def) (metis rowsById_SomeD)+
  then show ?thesis
    unfolding contractBlockers_Nil clean_matrix
    by (auto simp: contractAccepted_def summaryRecorded_def reviewMatrixOk_def)
qed

text \<open>Two rows for one item: the validator reads the last, the gate refuses the matrix.\<close>

lemma duplicate_rows_pass_validation_only:
  "matrixIssues (the (cs_contract (ex_reviewed []))) \<lparr>rm_reviewedAt = ''t1'',
      rm_rows = [passingRow ''AC1'' EsFail, passingRow ''AC1'' EsPass], rm_recovery_audit = None\<rparr> = [] \<and>
   acceptanceContractBlockers (ex_reviewed [passingRow ''AC1'' EsFail, passingRow ''AC1'' EsPass]) Acceptance None \<noteq> []"
  by code_simp

end
