(* ===== verification/Worktree_Lease.thy ===== *)
theory Worktree_Lease
  imports Prelude "HOL-Library.Word"
begin

text \<open>
  The lease protocol that keeps two sessions from writing one worktree (\<^verbatim>\<open>utils/worktree-lease.ts\<close>,
  \<^verbatim>\<open>utils/process-liveness.ts\<close>): the name of the lease file with its 32-bit path hash, the
  operations on the lease directory, and what a lease guarantees when operations do not overlap.
\<close>

subsection \<open>Lease file names\<close>

text \<open>\<^verbatim>\<open>path.basename\<close>: the last segment, trailing separators ignored.\<close>

definition baseName :: "string \<Rightarrow> string" where
  "baseName p = rev (takeWhile (\<lambda>c. c \<noteq> CHR ''/'') (dropWhile (\<lambda>c. c = CHR ''/'') (rev p)))"

text \<open>\<^verbatim>\<open>((hash << 5) - hash + c) | 0\<close> on 32-bit integers.\<close>

definition hashStep :: "32 word \<Rightarrow> char \<Rightarrow> 32 word" where
  "hashStep h c = push_bit 5 h - h + of_nat (of_char c)"

definition pathHash :: "string \<Rightarrow> 32 word" where
  "pathHash p = foldl hashStep 0 p"

text \<open>\<^verbatim>\<open>Number.prototype.toString(36)\<close> of a natural number.\<close>

definition digit36 :: "nat \<Rightarrow> char" where
  "digit36 d = char_of (if d < 10 then 48 + d else 87 + d)"

fun showBase36 :: "nat \<Rightarrow> string" where
  "showBase36 n = (if n < 36 then [digit36 n] else showBase36 (n div 36) @ [digit36 (n mod 36)])"

declare showBase36.simps [simp del]

definition leaseFileName :: "string \<Rightarrow> string" where
  "leaseFileName p = baseName p @ ''-'' @ take 8 (showBase36 (nat \<bar>sint (pathHash p)\<bar>)) @ ''.json''"

subsection \<open>The lease directory\<close>

record lease_record =
  lr_pid :: nat
  lr_sessionId :: string
  lr_acquiredAt :: int
  lr_heartbeatAt :: int

text \<open>A lease file holds a record or text that does not parse; the directory maps file names to files.\<close>

datatype lease_file = Garbled | LeaseFile lease_record

type_synonym lease_dir = "string \<Rightarrow> lease_file option"

definition readLeaseFile :: "lease_dir \<Rightarrow> string \<Rightarrow> lease_record option" where
  "readLeaseFile dir f = (case dir f of Some (LeaseFile r) \<Rightarrow> Some r | _ \<Rightarrow> None)"

definition writeLeaseFile :: "string \<Rightarrow> lease_record \<Rightarrow> lease_dir \<Rightarrow> lease_dir" where
  "writeLeaseFile f r dir = dir(f \<mapsto> LeaseFile r)"

definition deleteLeaseFile :: "string \<Rightarrow> lease_dir \<Rightarrow> lease_dir" where
  "deleteLeaseFile f dir = dir(f := None)"

subsection \<open>Process liveness\<close>

datatype probe = ProbeDelivered | ProbeError string

definition isProcessAlive :: "(nat \<Rightarrow> probe) \<Rightarrow> nat \<Rightarrow> bool" where
  "isProcessAlive kill pid = (case kill pid of ProbeDelivered \<Rightarrow> True | ProbeError e \<Rightarrow> e \<noteq> ''ESRCH'')"

subsection \<open>Operations\<close>

text \<open>
  Each operation reads the file, decides, and writes.  The successive readings of the clock are
  arguments: \<open>tn\<close> for the age check, \<open>ta\<close> and \<open>th\<close> for the record written.
\<close>

record lease_clock =
  lc_now :: int
  lc_acquired :: int
  lc_heartbeat :: int

datatype acquire_result = Acquired lease_record | Blocked lease_record

definition freshRecord :: "nat \<Rightarrow> string \<Rightarrow> lease_clock \<Rightarrow> lease_record" where
  "freshRecord pid session t =
     \<lparr>lr_pid = pid, lr_sessionId = session, lr_acquiredAt = lc_acquired t, lr_heartbeatAt = lc_heartbeat t\<rparr>"

text \<open>The decision of an acquisition on what it has read, with the record it will write.\<close>

definition decideAcquire :: "nat \<Rightarrow> string \<Rightarrow> int \<Rightarrow> lease_clock \<Rightarrow> lease_record option \<Rightarrow> acquire_result" where
  "decideAcquire pid session stale t existing =
     (case existing of
        Some l \<Rightarrow>
          (if lr_pid l = pid then Acquired (l\<lparr>lr_heartbeatAt := lc_heartbeat t, lr_sessionId := session\<rparr>)
           else if lc_now t - lr_heartbeatAt l < stale then Blocked l
           else Acquired (freshRecord pid session t))
      | None \<Rightarrow> Acquired (freshRecord pid session t))"

definition finishAcquire :: "string \<Rightarrow> acquire_result \<Rightarrow> lease_dir \<Rightarrow> lease_dir" where
  "finishAcquire f r dir = (case r of Acquired l \<Rightarrow> writeLeaseFile f l dir | Blocked l \<Rightarrow> dir)"

definition acquireLease ::
  "string \<Rightarrow> nat \<Rightarrow> string \<Rightarrow> int \<Rightarrow> lease_clock \<Rightarrow> lease_dir \<Rightarrow> acquire_result \<times> lease_dir" where
  "acquireLease path pid session stale t dir =
     (let f = leaseFileName path; r = decideAcquire pid session stale t (readLeaseFile dir f)
      in (r, finishAcquire f r dir))"

definition refreshHeartbeat :: "string \<Rightarrow> nat \<Rightarrow> int \<Rightarrow> lease_dir \<Rightarrow> bool \<times> lease_dir" where
  "refreshHeartbeat path pid now dir =
     (let f = leaseFileName path
      in case readLeaseFile dir f of
           Some l \<Rightarrow> (if lr_pid l = pid then (True, writeLeaseFile f (l\<lparr>lr_heartbeatAt := now\<rparr>) dir) else (False, dir))
         | None \<Rightarrow> (False, dir))"

datatype reclaim_result = Reclaimed "lease_record option" lease_record | ReclaimBlocked lease_record

definition reclaimStaleLease ::
  "(nat \<Rightarrow> probe) \<Rightarrow> string \<Rightarrow> nat \<Rightarrow> string \<Rightarrow> int \<Rightarrow> bool \<Rightarrow> lease_clock \<Rightarrow> lease_dir \<Rightarrow> reclaim_result \<times> lease_dir" where
  "reclaimStaleLease kill path pid session stale allowDead t dir =
     (let f = leaseFileName path; new = freshRecord pid session t
      in case readLeaseFile dir f of
           None \<Rightarrow> (Reclaimed None new, writeLeaseFile f new dir)
         | Some l \<Rightarrow>
             (if stale \<le> lc_now t - lr_heartbeatAt l then (Reclaimed (Some l) new, writeLeaseFile f new dir)
              else if allowDead \<and> \<not> isProcessAlive kill (lr_pid l)
                   then (Reclaimed (Some l) new, writeLeaseFile f new dir)
              else (ReclaimBlocked l, dir)))"

definition releaseLease :: "string \<Rightarrow> nat \<Rightarrow> lease_dir \<Rightarrow> bool \<times> lease_dir" where
  "releaseLease path pid dir =
     (let f = leaseFileName path
      in case readLeaseFile dir f of
           Some l \<Rightarrow> (if lr_pid l = pid then (True, deleteLeaseFile f dir) else (False, dir))
         | None \<Rightarrow> (False, dir))"

definition checkLease :: "string \<Rightarrow> lease_dir \<Rightarrow> lease_record option" where
  "checkLease path dir = readLeaseFile dir (leaseFileName path)"

subsection \<open>File names: bounds and collisions\<close>

lemma hashStep_eq: "hashStep h c = 31 * h + of_nat (of_char c)"
  by (simp add: hashStep_def push_bit_eq_mult algebra_simps)

text \<open>The hash is the base-31 polynomial of the character codes modulo \<open>2 ^ 32\<close>.\<close>

lemma pathHash_append: "foldl hashStep h (xs @ ys) = foldl hashStep (foldl hashStep h xs) ys"
  by simp

lemma pathHash_swap:
  assumes "(of_char d :: nat) = of_char c + 1" "(of_char b :: nat) + 31 = of_char a"
  shows "pathHash (u @ [c, a] @ v) = pathHash (u @ [d, b] @ v)"
proof -
  have "of_nat (of_char a) = (of_nat (of_char b) :: 32 word) + 31"
    using arg_cong [OF assms(2), of "of_nat :: nat \<Rightarrow> 32 word"] by simp
  moreover have "of_nat (of_char d) = (of_nat (of_char c) :: 32 word) + 1"
    using arg_cong [OF assms(1), of "of_nat :: nat \<Rightarrow> 32 word"] by (simp add: add.commute)
  ultimately have "hashStep (hashStep h c) a = hashStep (hashStep h d) b" for h
    by (simp add: hashStep_eq algebra_simps)
  then show ?thesis by (simp add: pathHash_def)
qed

lemma length_showBase36: "n < 36 ^ k \<Longrightarrow> 0 < k \<Longrightarrow> length (showBase36 n) \<le> k"
proof (induction k arbitrary: n)
  case (Suc k)
  show ?case
  proof (cases "n < 36")
    case True
    then show ?thesis by (simp add: showBase36.simps)
  next
    case False
    with Suc.prems have "n div 36 < 36 ^ k" "0 < k" by (auto simp: less_mult_imp_div_less mult.commute intro: Suc_pred gr0I)
    with Suc.IH False show ?thesis by (subst showBase36.simps) simp
  qed
qed simp

lemma pathHash_bound: "nat \<bar>sint (pathHash p)\<bar> \<le> 2 ^ 31"
  using sint_ge [of "pathHash p"] sint_lt [of "pathHash p"] by simp

lemma baseName_last: "CHR ''/'' \<notin> set w \<Longrightarrow> w \<noteq> [] \<Longrightarrow> baseName (u @ CHR ''/'' # w) = w"
proof -
  assume w: "CHR ''/'' \<notin> set w" "w \<noteq> []"
  then obtain c r where r: "rev w = c # r" "c \<noteq> CHR ''/''" by (cases "rev w") (auto dest: arg_cong [of _ _ set])
  then have "takeWhile (\<lambda>c. c \<noteq> CHR ''/'') (rev w @ CHR ''/'' # rev u) = rev w"
    using w by (subst takeWhile_append2) auto
  with r show ?thesis by (simp add: baseName_def)
qed

text \<open>
  The cut to eight characters never shortens the hash: in base 36 a 32-bit hash has at most
  six digits, so the file name is the base name, a dash, the whole hash and the suffix, eleven
  characters longer than the base name at most plus one.
\<close>

theorem lease_name_is_not_cut:
  "leaseFileName p = baseName p @ ''-'' @ showBase36 (nat \<bar>sint (pathHash p)\<bar>) @ ''.json'' \<and>
   length (leaseFileName p) \<le> length (baseName p) + 12"
proof -
  have "nat \<bar>sint (pathHash p)\<bar> < 36 ^ 6" using pathHash_bound [of p] by simp
  then have "length (showBase36 (nat \<bar>sint (pathHash p)\<bar>)) \<le> 6" by (rule length_showBase36) simp
  then show ?thesis by (simp add: leaseFileName_def)
qed

lemma leaseFileName_swap:
  assumes "(of_char d :: nat) = of_char c + 1" "(of_char b :: nat) + 31 = of_char a"
    and "CHR ''/'' \<notin> set w" "w \<noteq> []"
  shows "leaseFileName (u @ [c, a, CHR ''/''] @ w) = leaseFileName (u @ [d, b, CHR ''/''] @ w)"
proof -
  have "pathHash (u @ [c, a] @ (CHR ''/'' # w)) = pathHash (u @ [d, b] @ (CHR ''/'' # w))"
    by (rule pathHash_swap [OF assms(1,2)])
  moreover have "baseName (u @ [c, a, CHR ''/''] @ w) = w" "baseName (u @ [d, b, CHR ''/''] @ w) = w"
    using baseName_last [OF assms(3,4), of "u @ [c, a]"] baseName_last [OF assms(3,4), of "u @ [d, b]"] by simp_all
  ultimately show ?thesis by (simp add: leaseFileName_def)
qed

subsection \<open>The directory under the operations\<close>

lemma readLease_write [simp]:
  "readLeaseFile (writeLeaseFile f r dir) g = (if g = f then Some r else readLeaseFile dir g)"
  by (simp add: readLeaseFile_def writeLeaseFile_def)

lemma readLease_delete [simp]:
  "readLeaseFile (deleteLeaseFile f dir) g = (if g = f then None else readLeaseFile dir g)"
  by (simp add: readLeaseFile_def deleteLeaseFile_def)

lemma freshRecord_fields [simp]:
  "lr_pid (freshRecord pid session t) = pid" "lr_sessionId (freshRecord pid session t) = session"
  "lr_acquiredAt (freshRecord pid session t) = lc_acquired t" "lr_heartbeatAt (freshRecord pid session t) = lc_heartbeat t"
  by (simp_all add: freshRecord_def)

text \<open>An operation of some process on some worktree, with the clock it sees.\<close>

datatype lease_op =
    OpAcquire string nat string lease_clock
  | OpRefresh string nat lease_clock
  | OpReclaim string nat string bool lease_clock
  | OpRelease string nat lease_clock

fun opClock :: "lease_op \<Rightarrow> lease_clock" where
  "opClock (OpAcquire path pid s t) = t"
| "opClock (OpRefresh path pid t) = t"
| "opClock (OpReclaim path pid s d t) = t"
| "opClock (OpRelease path pid t) = t"

fun performOp :: "(nat \<Rightarrow> probe) \<Rightarrow> int \<Rightarrow> lease_op \<Rightarrow> lease_dir \<Rightarrow> lease_dir" where
  "performOp kill stale (OpAcquire path pid s t) dir = snd (acquireLease path pid s stale t dir)"
| "performOp kill stale (OpRefresh path pid t) dir = snd (refreshHeartbeat path pid (lc_heartbeat t) dir)"
| "performOp kill stale (OpReclaim path pid s d t) dir = snd (reclaimStaleLease kill path pid s stale d t dir)"
| "performOp kill stale (OpRelease path pid t) dir = snd (releaseLease path pid dir)"

definition clockFrom :: "int \<Rightarrow> lease_clock \<Rightarrow> bool" where
  "clockFrom n t \<longleftrightarrow> n \<le> lc_now t \<and> lc_now t \<le> lc_acquired t \<and> lc_acquired t \<le> lc_heartbeat t"

text \<open>Operations one after the other, on a clock that does not run backwards.\<close>

inductive lease_run :: "(nat \<Rightarrow> probe) \<Rightarrow> int \<Rightarrow> int \<Rightarrow> lease_dir \<Rightarrow> lease_op list \<Rightarrow> int \<Rightarrow> lease_dir \<Rightarrow> bool"
  for kill :: "nat \<Rightarrow> probe" and stale :: int and n :: int and dir :: lease_dir where
  run_begin: "lease_run kill stale n dir [] n dir"
| run_op: "lease_run kill stale n dir ops m e \<Longrightarrow> clockFrom m (opClock oper) \<Longrightarrow>
    lease_run kill stale n dir (ops @ [oper]) (lc_heartbeat (opClock oper)) (performOp kill stale oper e)"

fun releasesFile :: "string \<Rightarrow> nat \<Rightarrow> lease_op \<Rightarrow> bool" where
  "releasesFile f pid (OpRelease path q t) \<longleftrightarrow> leaseFileName path = f \<and> q = pid"
| "releasesFile f pid x \<longleftrightarrow> False"

text \<open>One operation keeps a lease that is not stale yet and whose holder is alive.\<close>

lemma step_keeps:
  assumes "readLeaseFile e f = Some k" "isProcessAlive kill (lr_pid k)" "\<not> releasesFile f (lr_pid k) oper"
    and "lr_heartbeatAt k \<le> m" "clockFrom m (opClock oper)" "lc_now (opClock oper) < lr_heartbeatAt k + stale"
  shows "\<exists>k'. readLeaseFile (performOp kill stale oper e) f = Some k' \<and> lr_pid k' = lr_pid k \<and>
    lr_acquiredAt k' = lr_acquiredAt k \<and> lr_heartbeatAt k \<le> lr_heartbeatAt k' \<and>
    lr_heartbeatAt k' \<le> lc_heartbeat (opClock oper)"
  using assms
  by (cases oper) (auto simp: acquireLease_def decideAcquire_def finishAcquire_def refreshHeartbeat_def
      reclaimStaleLease_def releaseLease_def clockFrom_def Let_def split: option.splits if_splits)

lemma run_time: "lease_run kill stale n dir ops m e \<Longrightarrow> n \<le> m"
  by (induction rule: lease_run.induct) (auto simp: clockFrom_def)

lemma run_keeps:
  assumes "lease_run kill stale n dir ops m e" "readLeaseFile dir f = Some l" "isProcessAlive kill (lr_pid l)"
    and "list_all (\<lambda>x. \<not> releasesFile f (lr_pid l) x) ops" "lr_heartbeatAt l \<le> n" "m < lr_heartbeatAt l + stale"
  shows "\<exists>k. readLeaseFile e f = Some k \<and> lr_pid k = lr_pid l \<and> lr_acquiredAt k = lr_acquiredAt l \<and>
    lr_heartbeatAt l \<le> lr_heartbeatAt k \<and> lr_heartbeatAt k \<le> m"
  using assms
proof (induction rule: lease_run.induct)
  case (run_op ops m e oper)
  have t: "lc_now (opClock oper) < lr_heartbeatAt l + stale" "m < lr_heartbeatAt l + stale"
    using run_op.hyps(2) run_op.prems(5) by (auto simp: clockFrom_def)
  from run_op.IH [OF run_op.prems(1,2) _ run_op.prems(4) t(2)] run_op.prems(3) obtain k where
    k: "readLeaseFile e f = Some k" "lr_pid k = lr_pid l" "lr_acquiredAt k = lr_acquiredAt l"
      "lr_heartbeatAt l \<le> lr_heartbeatAt k" "lr_heartbeatAt k \<le> m" by auto
  have "\<exists>k'. readLeaseFile (performOp kill stale oper e) f = Some k' \<and> lr_pid k' = lr_pid k \<and>
      lr_acquiredAt k' = lr_acquiredAt k \<and> lr_heartbeatAt k \<le> lr_heartbeatAt k' \<and>
      lr_heartbeatAt k' \<le> lc_heartbeat (opClock oper)"
    using run_op.prems(2,3) k(2,4) t(1) by (intro step_keeps [OF k(1) _ _ k(5) run_op.hyps(2)]) auto
  with k show ?case by auto
qed auto


text \<open>
  The protocol is exclusive only because operations do not overlap: two acquisitions of a
  free worktree that both read the file before either writes it are both told they acquired it, the
  second write wins, and the first holder finds out at its next heartbeat; one after the other, the
  second is refused.
\<close>

theorem overlapping_acquisitions_both_succeed:
  assumes "checkLease path dir = None" "p \<noteq> q" "lc_now t2 < lc_heartbeat t1 + stale"
  shows "\<exists>l1 l2. decideAcquire p s1 stale t1 (checkLease path dir) = Acquired l1 \<and>
      decideAcquire q s2 stale t2 (checkLease path dir) = Acquired l2 \<and>
      (case finishAcquire (leaseFileName path) (Acquired l2) (finishAcquire (leaseFileName path) (Acquired l1) dir) of e \<Rightarrow>
        checkLease path e = Some l2 \<and> lr_pid l2 = q \<and> refreshHeartbeat path p now e = (False, e)) \<and>
      fst (acquireLease path q s2 stale t2 (snd (acquireLease path p s1 stale t1 dir))) = Blocked l1"
  using assms
  by (auto simp: checkLease_def acquireLease_def decideAcquire_def finishAcquire_def refreshHeartbeat_def Let_def)

text \<open>
  The hash does not make lease files unique: two worktrees of the same base name whose
  parent directories end in two characters that differ by one and by thirty-one have the same lease
  file, so the holder of the one keeps every other process out of the other.
\<close>

theorem distinct_worktrees_share_a_lease:
  assumes "(of_char d :: nat) = of_char c + 1" "(of_char b :: nat) + 31 = of_char a"
    and "CHR ''/'' \<notin> set w" "w \<noteq> []" "checkLease (u @ [c, a, CHR ''/''] @ w) dir = Some l"
    and "q \<noteq> lr_pid l" "lc_now t < lr_heartbeatAt l + stale"
  shows "u @ [c, a, CHR ''/''] @ w \<noteq> u @ [d, b, CHR ''/''] @ w \<and>
    acquireLease (u @ [d, b, CHR ''/''] @ w) q s stale t dir = (Blocked l, dir)"
  using assms leaseFileName_swap [OF assms(1-4), of u]
  by (auto simp: checkLease_def acquireLease_def decideAcquire_def finishAcquire_def)

subsection \<open>Concrete runs\<close>

definition ex_clock :: "int \<Rightarrow> lease_clock" where
  "ex_clock n = \<lparr>lc_now = n, lc_acquired = n, lc_heartbeat = n\<rparr>"

definition ex_lease :: "string \<Rightarrow> lease_dir" where
  "ex_lease path = snd (acquireLease path 7 ''s'' 100 (ex_clock 0) (\<lambda>_. None))"

lemma ex_lease_held:
  "checkLease path (ex_lease path) = Some (freshRecord 7 ''s'' (ex_clock 0))"
  by (simp add: ex_lease_def checkLease_def acquireLease_def decideAcquire_def finishAcquire_def readLeaseFile_def
      writeLeaseFile_def)

lemma ex_clock_fields [simp]: "lc_now (ex_clock n) = n" "lc_acquired (ex_clock n) = n" "lc_heartbeat (ex_clock n) = n"
  by (simp_all add: ex_clock_def)


theorem overlapping_acquisitions_both_succeed_witness:
  "\<exists>l1 l2. decideAcquire 7 ''s'' 100 (ex_clock 0) None = Acquired l1 \<and> decideAcquire 8 ''z'' 100 (ex_clock 1) None = Acquired l2 \<and>
     checkLease ''/w/a'' (finishAcquire (leaseFileName ''/w/a'') (Acquired l2)
       (finishAcquire (leaseFileName ''/w/a'') (Acquired l1) (\<lambda>_. None))) = Some l2 \<and> lr_pid l2 = 8"
proof -
  have n: "checkLease ''/w/a'' (\<lambda>_. None) = None" by (simp add: checkLease_def readLeaseFile_def)
  show ?thesis
    using overlapping_acquisitions_both_succeed [where now = 0, OF n, of 7 8 "ex_clock 1" "ex_clock 0" 100 "''s''" "''z''"]
    unfolding n by auto
qed

theorem distinct_worktrees_share_a_lease_witness:
  "acquireLease ''/BB/w'' 8 ''z'' 100 (ex_clock 1) (ex_lease ''/Aa/w'') = (Blocked (freshRecord 7 ''s'' (ex_clock 0)), ex_lease ''/Aa/w'')"
  using distinct_worktrees_share_a_lease [of "CHR ''B''" "CHR ''A''" "CHR ''B''" "CHR ''a''" "''w''" "''/''" "ex_lease ''/Aa/w''"
      "freshRecord 7 ''s'' (ex_clock 0)" 8 "ex_clock 1" 100 "''z''"] ex_lease_held [of "''/Aa/w''"]
  by simp

end
