(* ===== verification/Mutex.thy ===== *)
theory Mutex
  imports Main
begin

text \<open>
  The promise-based mutex (\<^verbatim>\<open>utils/mutex.ts\<close>): its two operations on the flag and the queue of
  waiters, the steps of any number of clients that enter their critical section by acquiring it and
  leave it by releasing it (\<^verbatim>\<open>runExclusive\<close>), and what every reachable state satisfies.
\<close>

subsection \<open>The mutex\<close>

text \<open>A waiter is the promise its acquisition returned, named by the client that waits on it.\<close>

record 'c mutex =
  mx_locked :: bool
  mx_queue :: "'c list"

definition newMutex :: "'c mutex" where
  "newMutex = \<lparr>mx_locked = False, mx_queue = []\<rparr>"

text \<open>The answer tells whether the returned promise is already resolved.\<close>

definition acquire :: "'c \<Rightarrow> 'c mutex \<Rightarrow> bool \<times> 'c mutex" where
  "acquire c m =
     (if \<not> mx_locked m then (True, m\<lparr>mx_locked := True\<rparr>)
      else (False, m\<lparr>mx_queue := mx_queue m @ [c]\<rparr>))"

text \<open>The answer is the waiter whose promise is resolved.\<close>

definition release :: "'c mutex \<Rightarrow> 'c option \<times> 'c mutex" where
  "release m =
     (case mx_queue m of
        c # rest \<Rightarrow> (Some c, m\<lparr>mx_queue := rest\<rparr>)
      | [] \<Rightarrow> (None, m\<lparr>mx_locked := False\<rparr>))"

subsection \<open>Clients\<close>

text \<open>Where a client of \<^verbatim>\<open>runExclusive\<close> is; the trails record the order of requests and of entries.\<close>

datatype place = Outside | Waiting | Inside

record 'c system =
  sy_mutex :: "'c mutex"
  sy_place :: "'c \<Rightarrow> place"
  sy_requests :: "'c list"
  sy_entries :: "'c list"

definition newSystem :: "'c system" where
  "newSystem = \<lparr>sy_mutex = newMutex, sy_place = (\<lambda>_. Outside), sy_requests = [], sy_entries = []\<rparr>"

definition clientAcquires :: "'c \<Rightarrow> 'c system \<Rightarrow> 'c system" where
  "clientAcquires c s =
     (let (now, m) = acquire c (sy_mutex s)
      in s\<lparr>sy_mutex := m, sy_place := (sy_place s)(c := if now then Inside else Waiting),
           sy_requests := sy_requests s @ [c],
           sy_entries := (if now then sy_entries s @ [c] else sy_entries s)\<rparr>)"

text \<open>The \<^verbatim>\<open>finally\<close> block: it runs whether the critical section returned or threw.\<close>

definition clientReleases :: "'c \<Rightarrow> 'c system \<Rightarrow> 'c system" where
  "clientReleases c s =
     (let (woken, m) = release (sy_mutex s); left = (sy_place s)(c := Outside)
      in case woken of
           None \<Rightarrow> s\<lparr>sy_mutex := m, sy_place := left\<rparr>
         | Some w \<Rightarrow> s\<lparr>sy_mutex := m, sy_place := left(w := Inside), sy_entries := sy_entries s @ [w]\<rparr>)"

inductive runExclusive :: "'c system \<Rightarrow> 'c system \<Rightarrow> bool" where
  enter: "sy_place s c = Outside \<Longrightarrow> runExclusive s (clientAcquires c s)"
| leave: "sy_place s c = Inside \<Longrightarrow> runExclusive s (clientReleases c s)"

inductive_cases runExclusiveE: "runExclusive s t"

subsection \<open>Reachable states\<close>

definition mutex_inv :: "'c system \<Rightarrow> bool" where
  "mutex_inv s \<longleftrightarrow>
     sy_requests s = sy_entries s @ mx_queue (sy_mutex s) \<and>
     distinct (mx_queue (sy_mutex s)) \<and>
     (\<forall>c. sy_place s c = Waiting \<longleftrightarrow> c \<in> set (mx_queue (sy_mutex s))) \<and>
     (if mx_locked (sy_mutex s) then sy_entries s \<noteq> [] \<and> (\<forall>c. sy_place s c = Inside \<longleftrightarrow> c = last (sy_entries s))
      else mx_queue (sy_mutex s) = [] \<and> (\<forall>c. sy_place s c \<noteq> Inside))"

lemma mutex_inv_new: "mutex_inv newSystem"
  by (simp add: mutex_inv_def newSystem_def newMutex_def)

lemma mutex_inv_acquire:
  assumes "mutex_inv s" "sy_place s c = Outside"
  shows "mutex_inv (clientAcquires c s)"
proof -
  have "sy_place s c = Waiting \<longleftrightarrow> c \<in> set (mx_queue (sy_mutex s))" using assms(1) by (simp add: mutex_inv_def)
  with assms(2) have c: "c \<notin> set (mx_queue (sy_mutex s))" "sy_place s c \<noteq> Inside" "sy_place s c \<noteq> Waiting" by simp_all
  show ?thesis
  proof (cases "mx_locked (sy_mutex s)")
    case True
    then have "c \<noteq> last (sy_entries s)" using assms(1) c(2) by (auto simp: mutex_inv_def)
    with True assms(1) c show ?thesis by (auto simp: mutex_inv_def clientAcquires_def acquire_def)
  next
    case False
    with assms(1) c show ?thesis by (auto simp: mutex_inv_def clientAcquires_def acquire_def)
  qed
qed

lemma mutex_inv_release:
  assumes "mutex_inv s" "sy_place s c = Inside"
  shows "mutex_inv (clientReleases c s)"
proof (cases "mx_queue (sy_mutex s)")
  case Nil
  with assms show ?thesis by (auto simp: mutex_inv_def clientReleases_def release_def split: if_splits)
next
  case (Cons w rest)
  then have "w \<noteq> c" "c \<notin> set rest" using assms by (force simp: mutex_inv_def)+
  with assms Cons show ?thesis
    by (auto simp: mutex_inv_def clientReleases_def release_def split: if_splits)
qed

lemma reachable_inv: "runExclusive\<^sup>*\<^sup>* newSystem s \<Longrightarrow> mutex_inv s"
  by (induction rule: rtranclp_induct)
    (auto simp: mutex_inv_new elim!: runExclusiveE intro: mutex_inv_acquire mutex_inv_release)


subsection \<open>Progress\<close>

text \<open>The holder leaves, \<open>n\<close> times in a row.\<close>

fun holdersLeave :: "nat \<Rightarrow> 'c system \<Rightarrow> 'c system" where
  "holdersLeave 0 s = s"
| "holdersLeave (Suc n) s = holdersLeave n (clientReleases (last (sy_entries s)) s)"

lemma holder_leaves:
  assumes "mutex_inv s" "mx_locked (sy_mutex s)" "mx_queue (sy_mutex s) = w # rest"
  shows "mutex_inv (clientReleases (last (sy_entries s)) s)" "mx_locked (sy_mutex (clientReleases (last (sy_entries s)) s))"
    "mx_queue (sy_mutex (clientReleases (last (sy_entries s)) s)) = rest"
    "last (sy_entries (clientReleases (last (sy_entries s)) s)) = w"
  using assms mutex_inv_release [OF assms(1), of "last (sy_entries s)"]
  by (auto simp: mutex_inv_def clientReleases_def release_def)

text \<open>
  A waiter enters after as many departures as it has waiters before it, plus one: if every
  client that enters also leaves, nobody waits forever.
\<close>

theorem waiter_enters:
  assumes "runExclusive\<^sup>*\<^sup>* newSystem s" "k < length (mx_queue (sy_mutex s))"
  shows "sy_place (holdersLeave (Suc k) s) (mx_queue (sy_mutex s) ! k) = Inside"
proof -
  have "mutex_inv s" by (rule reachable_inv [OF assms(1)])
  moreover from this assms(2) have "mx_locked (sy_mutex s)" by (auto simp: mutex_inv_def split: if_splits)
  ultimately show ?thesis using assms(2)
  proof (induction k arbitrary: s)
    case 0
    then obtain w rest where q: "mx_queue (sy_mutex s) = w # rest" by (cases "mx_queue (sy_mutex s)") auto
    from holder_leaves [OF "0.prems"(1,2) q] q show ?case by (auto simp: mutex_inv_def)
  next
    case (Suc k)
    then obtain w rest where q: "mx_queue (sy_mutex s) = w # rest" by (cases "mx_queue (sy_mutex s)") auto
    note h = holder_leaves [OF Suc.prems(1,2) q]
    from Suc.IH [OF h(1,2)] h(3) Suc.prems(3) q show ?case by simp
  qed
qed

subsection \<open>Three clients\<close>

definition ex_busy :: "nat system" where
  "ex_busy = clientAcquires 3 (clientAcquires 2 (clientAcquires 1 newSystem))"

lemma ex_busy_facts:
  "mx_queue (sy_mutex ex_busy) = [2, 3]" "mx_locked (sy_mutex ex_busy)" "sy_entries ex_busy = [1]"
  by (simp_all add: ex_busy_def clientAcquires_def acquire_def newSystem_def newMutex_def)

lemma ex_busy_reached: "runExclusive\<^sup>*\<^sup>* newSystem ex_busy"
  unfolding ex_busy_def
  by (rule rtranclp.rtrancl_into_rtrancl, rule rtranclp.rtrancl_into_rtrancl, rule rtranclp.rtrancl_into_rtrancl,
      rule rtranclp.rtrancl_refl; rule enter)
    (simp_all add: newSystem_def clientAcquires_def acquire_def newMutex_def)


theorem waiter_enters_witness: "sy_place (holdersLeave 2 ex_busy) 3 = Inside"
  using waiter_enters [OF ex_busy_reached, of 1] by (simp add: ex_busy_facts numeral_2_eq_2)

end
