(* ===== verification/Porcelain.thy ===== *)
theory Porcelain
  imports Prelude
begin

text \<open>
  The parsers of git's machine-readable listings (\<^verbatim>\<open>tools/worktree/porcelain-parser.ts\<close>): name
  status, short status and the worktree list, in the NUL-separated form and, for the worktree list,
  in the older line form; with the proof that each NUL form is read back as it was printed.
\<close>

subsection \<open>Records\<close>

record disk_worktree =
  dw_path :: string
  dw_headSha :: "string option"
  dw_branch :: "string option"
  dw_detached :: "bool option"
  dw_bare :: "bool option"
  dw_locked :: "bool option"
  dw_prunable :: "bool option"

record status_entry =
  se_index :: char
  se_worktree :: char
  se_path :: string
  se_originalPath :: "string option"

record name_entry =
  ne_status :: char
  ne_path :: string
  ne_originalPath :: "string option"

abbreviation NUL :: char where "NUL \<equiv> CHR 0x00"

datatype porcelain_error =
    MalformedNameStatus
  | NameStatusWithoutPath
  | RenameWithoutDestination
  | MalformedStatus
  | StatusWithoutPath
  | RenameWithoutSource

subsection \<open>Name status\<close>

text \<open>\<^verbatim>\<open>/^[A-Z?](?:\d{1,3})?$/\<close>.\<close>

definition isNameStatusField :: "string \<Rightarrow> bool" where
  "isNameStatusField s =
     (case s of [] \<Rightarrow> False
      | c # ds \<Rightarrow> (c = CHR ''?'' \<or> (65::nat) \<le> of_char c \<and> (of_char c :: nat) \<le> 90)
          \<and> length ds \<le> 3 \<and> list_all isDigit ds)"

definition isRename :: "char \<Rightarrow> bool" where
  "isRename c \<longleftrightarrow> c = CHR ''R'' \<or> c = CHR ''C''"

definition nonEmpty :: "string list \<Rightarrow> (string \<times> string list) option" where
  "nonEmpty fs = (case fs of f # rest \<Rightarrow> if f = [] then None else Some (f, rest) | [] \<Rightarrow> None)"

lemma nonEmpty_Some: "nonEmpty fs = Some (f, rest) \<longleftrightarrow> fs = f # rest \<and> f \<noteq> []"
  by (auto simp: nonEmpty_def split: list.splits)

function (sequential) nameStatusGo :: "string list \<Rightarrow> porcelain_error + name_entry list" where
  "nameStatusGo [] = Inr []"
| "nameStatusGo (f # rest) =
     (if f = [] then nameStatusGo rest
      else if \<not> isNameStatusField f then Inl MalformedNameStatus
      else (case nonEmpty rest of
          None \<Rightarrow> Inl NameStatusWithoutPath
        | Some (first, rest1) \<Rightarrow>
            (if isRename (hd f) then
               (case nonEmpty rest1 of
                  None \<Rightarrow> Inl RenameWithoutDestination
                | Some (path, rest2) \<Rightarrow>
                    map_sum id (Cons \<lparr>ne_status = hd f, ne_path = path, ne_originalPath = Some first\<rparr>) (nameStatusGo rest2))
             else map_sum id (Cons \<lparr>ne_status = hd f, ne_path = first, ne_originalPath = None\<rparr>) (nameStatusGo rest1))))"
  by pat_completeness auto

termination
  by (relation "measure length") (auto simp: nonEmpty_Some)

definition parseGitNameStatusZ :: "string \<Rightarrow> porcelain_error + name_entry list" where
  "parseGitNameStatusZ stdout = nameStatusGo (splitOn NUL stdout)"

subsection \<open>Short status\<close>

function (sequential) statusGo :: "string list \<Rightarrow> porcelain_error + status_entry list" where
  "statusGo [] = Inr []"
| "statusGo (f # rest) =
     (if f = [] then statusGo rest
      else if length f < 4 \<or> f ! 2 \<noteq> CHR '' '' then Inl MalformedStatus
      else if drop 3 f = [] then Inl StatusWithoutPath
      else (let entry = \<lparr>se_index = f ! 0, se_worktree = f ! 1, se_path = drop 3 f, se_originalPath = None\<rparr>
        in if isRename (f ! 0) \<or> isRename (f ! 1) then
             (case nonEmpty rest of
                None \<Rightarrow> Inl RenameWithoutSource
              | Some (source, rest1) \<Rightarrow> map_sum id (Cons (entry\<lparr>se_originalPath := Some source\<rparr>)) (statusGo rest1))
           else map_sum id (Cons entry) (statusGo rest)))"
  by pat_completeness auto

termination
  by (relation "measure length") (auto simp: nonEmpty_Some)

definition parseGitStatusPorcelainV1Z :: "string \<Rightarrow> porcelain_error + status_entry list" where
  "parseGitStatusPorcelainV1Z stdout = statusGo (splitOn NUL stdout)"

subsection \<open>Worktree list\<close>

definition emptyRecord :: disk_worktree where
  "emptyRecord = \<lparr>dw_path = [], dw_headSha = None, dw_branch = None, dw_detached = Some False, dw_bare = Some False,
     dw_locked = Some False, dw_prunable = Some False\<rparr>"

definition afterTag :: "string \<Rightarrow> string \<Rightarrow> string option" where
  "afterTag tag field = (if startsWith field tag then Some (drop (length tag) field) else None)"

definition applyPorcelainField :: "disk_worktree \<Rightarrow> string \<Rightarrow> disk_worktree" where
  "applyPorcelainField r field =
     (case afterTag ''worktree '' field of Some p \<Rightarrow> r\<lparr>dw_path := p\<rparr>
      | None \<Rightarrow> (case afterTag ''HEAD '' field of Some h \<Rightarrow> r\<lparr>dw_headSha := Some h\<rparr>
      | None \<Rightarrow> (case afterTag ''branch refs/heads/'' field of Some b \<Rightarrow> r\<lparr>dw_branch := Some b\<rparr>
      | None \<Rightarrow> if field = ''detached'' then r\<lparr>dw_detached := Some True\<rparr>
          else if field = ''bare'' then r\<lparr>dw_bare := Some True\<rparr>
          else if field = ''locked'' \<or> startsWith field ''locked '' then r\<lparr>dw_locked := Some True\<rparr>
          else if field = ''prunable'' \<or> startsWith field ''prunable '' then r\<lparr>dw_prunable := Some True\<rparr>
          else r)))"

definition isCompleteRecord :: "disk_worktree \<Rightarrow> bool" where
  "isCompleteRecord r \<longleftrightarrow> dw_path r \<noteq> []"

text \<open>\<^verbatim>\<open>/^[0-9a-f]+$/i\<close>.\<close>

definition isHex :: "string \<Rightarrow> bool" where
  "isHex s \<longleftrightarrow> s \<noteq> [] \<and> list_all (\<lambda>c. isDigit c \<or> lowerChar c \<in> set ''abcdef'') s"

definition isCanonicalRecord :: "disk_worktree \<Rightarrow> bool" where
  "isCanonicalRecord r \<longleftrightarrow> isCompleteRecord r \<and> (case dw_headSha r of Some h \<Rightarrow> isHex h | None \<Rightarrow> False)"

text \<open>The worktrees pushed so far and the record being read.\<close>

type_synonym list_state = "disk_worktree list \<times> disk_worktree option"

definition flushWith :: "(disk_worktree \<Rightarrow> disk_worktree option) \<Rightarrow> list_state \<Rightarrow> list_state" where
  "flushWith keep st =
     (case snd st of
        Some r \<Rightarrow> (case keep r of Some w \<Rightarrow> (fst st @ [w], None) | None \<Rightarrow> (fst st, None))
      | None \<Rightarrow> st)"

definition listStep :: "(disk_worktree \<Rightarrow> disk_worktree option) \<Rightarrow> list_state \<Rightarrow> string \<Rightarrow> list_state" where
  "listStep keep st field =
     (if field = [] then flushWith keep st
      else (let st' = (if startsWith field ''worktree '' then (fst (flushWith keep st), Some emptyRecord) else st)
            in (fst st', map_option (\<lambda>r. applyPorcelainField r field) (snd st'))))"

definition parseFields :: "(disk_worktree \<Rightarrow> disk_worktree option) \<Rightarrow> string list \<Rightarrow> disk_worktree list" where
  "parseFields keep fs = fst (flushWith keep (foldl (listStep keep) ([], None) fs))"

definition keepCanonical :: "disk_worktree \<Rightarrow> disk_worktree option" where
  "keepCanonical r = (if isCanonicalRecord r then Some r else None)"

definition parseNulPorcelain :: "string \<Rightarrow> disk_worktree list" where
  "parseNulPorcelain stdout = parseFields keepCanonical (splitOn NUL stdout)"

text \<open>The line form keeps path and branch, and the prunable flag when it is set.\<close>

definition keepNarrow :: "disk_worktree \<Rightarrow> disk_worktree option" where
  "keepNarrow r =
     (if isCompleteRecord r
      then Some \<lparr>dw_path = dw_path r, dw_headSha = None, dw_branch = dw_branch r, dw_detached = None, dw_bare = None,
        dw_locked = None, dw_prunable = (if dw_prunable r = Some True then Some True else None)\<rparr>
      else None)"

text \<open>\<^verbatim>\<open>split(/\r?\n/)\<close>: one carriage return before a line feed belongs to the separator.\<close>

definition splitLines :: "string \<Rightarrow> string list" where
  "splitLines s =
     (let ps = splitOn (CHR 0x0A) s; unCr = (\<lambda>l. if l \<noteq> [] \<and> last l = CHR 0x0D then butlast l else l)
      in map unCr (butlast ps) @ [last ps])"

definition parseLegacyPorcelain :: "string \<Rightarrow> disk_worktree list" where
  "parseLegacyPorcelain stdout = parseFields keepNarrow (splitLines stdout)"

definition parseWorktreeListPorcelain :: "string \<Rightarrow> disk_worktree list" where
  "parseWorktreeListPorcelain stdout =
     (if NUL \<in> set stdout then parseNulPorcelain stdout else parseLegacyPorcelain stdout)"

subsection \<open>Printing\<close>

text \<open>Fields, each followed by a separator.\<close>

definition terminated :: "char \<Rightarrow> string list \<Rightarrow> string" where
  "terminated c fs = concat (map (\<lambda>f. f @ [c]) fs)"

lemma splitOn_terminated: "list_all (\<lambda>f. c \<notin> set f) fs \<Longrightarrow> splitOn c (terminated c fs) = fs @ [[]]"
  by (induction fs) (simp_all add: terminated_def splitOn_sep)

text \<open>What \<^verbatim>\<open>git diff --name-status -z\<close> prints for an entry, with a similarity score.\<close>

definition nameFields :: "string \<Rightarrow> name_entry \<Rightarrow> string list" where
  "nameFields score e =
     (case ne_originalPath e of
        None \<Rightarrow> [[ne_status e], ne_path e]
      | Some src \<Rightarrow> [ne_status e # score, src, ne_path e])"

definition nameEntryOk :: "name_entry \<Rightarrow> bool" where
  "nameEntryOk e \<longleftrightarrow> isNameStatusField [ne_status e] \<and> ne_path e \<noteq> [] \<and> NUL \<notin> set (ne_path e) \<and>
     (case ne_originalPath e of None \<Rightarrow> \<not> isRename (ne_status e)
      | Some src \<Rightarrow> isRename (ne_status e) \<and> src \<noteq> [] \<and> NUL \<notin> set src)"

lemma nameStatusGo_entry:
  assumes "nameEntryOk e" "length score \<le> 3" "list_all isDigit score"
  shows "nameStatusGo (nameFields score e @ rest) = map_sum id (Cons e) (nameStatusGo rest)"
  using assms
  by (cases e) (auto simp: nameEntryOk_def nameFields_def isNameStatusField_def nonEmpty_def split: option.splits)

lemma nameStatusGo_entries:
  assumes "list_all nameEntryOk es" "length score \<le> 3" "list_all isDigit score"
  shows "nameStatusGo (concat (map (nameFields score) es) @ [[]]) = Inr es"
  using assms by (induction es) (simp_all add: nameStatusGo_entry)

text \<open>What \<^verbatim>\<open>git status --porcelain=v1 -z\<close> prints for an entry.\<close>

definition statusFields :: "status_entry \<Rightarrow> string list" where
  "statusFields e = ([se_index e, se_worktree e, CHR '' ''] @ se_path e) #
     (case se_originalPath e of None \<Rightarrow> [] | Some src \<Rightarrow> [src])"

definition statusEntryOk :: "status_entry \<Rightarrow> bool" where
  "statusEntryOk e \<longleftrightarrow> NUL \<notin> {se_index e, se_worktree e} \<and> se_path e \<noteq> [] \<and> NUL \<notin> set (se_path e) \<and>
     (case se_originalPath e of None \<Rightarrow> \<not> isRename (se_index e) \<and> \<not> isRename (se_worktree e)
      | Some src \<Rightarrow> (isRename (se_index e) \<or> isRename (se_worktree e)) \<and> src \<noteq> [] \<and> NUL \<notin> set src)"

lemma statusGo_entry:
  "statusEntryOk e \<Longrightarrow> statusGo (statusFields e @ rest) = map_sum id (Cons e) (statusGo rest)"
  by (cases e) (auto simp: statusEntryOk_def statusFields_def nonEmpty_def Let_def Suc_le_eq split: option.splits)

lemma statusGo_entries: "list_all statusEntryOk es \<Longrightarrow> statusGo (concat (map statusFields es) @ [[]]) = Inr es"
  by (induction es) (simp_all add: statusGo_entry)

text \<open>What \<^verbatim>\<open>git worktree list --porcelain\<close> prints for a worktree, with the reason of a lock or of pruning.\<close>

definition flagFields :: "string \<Rightarrow> bool option \<Rightarrow> string \<Rightarrow> string list" where
  "flagFields tag flag reason =
     (if flag = Some True then [if reason = [] then tag else tag @ CHR '' '' # reason] else [])"

definition worktreeFields :: "string \<Rightarrow> disk_worktree \<Rightarrow> string list" where
  "worktreeFields reason r =
     [''worktree '' @ dw_path r] @
     (case dw_headSha r of Some h \<Rightarrow> [''HEAD '' @ h] | None \<Rightarrow> []) @
     (case dw_branch r of Some b \<Rightarrow> [''branch refs/heads/'' @ b] | None \<Rightarrow> []) @
     flagFields ''detached'' (dw_detached r) [] @ flagFields ''bare'' (dw_bare r) [] @
     flagFields ''locked'' (dw_locked r) reason @ flagFields ''prunable'' (dw_prunable r) reason"

definition worktreeOk :: "disk_worktree \<Rightarrow> bool" where
  "worktreeOk r \<longleftrightarrow> dw_path r \<noteq> [] \<and>
     dw_detached r \<noteq> None \<and> dw_bare r \<noteq> None \<and> dw_locked r \<noteq> None \<and> dw_prunable r \<noteq> None"

lemma afterTag_own [simp]: "afterTag tag (tag @ x) = Some x"
  by (simp add: afterTag_def startsWith_def)

lemma apply_fields:
  "applyPorcelainField r (''worktree '' @ p) = r\<lparr>dw_path := p\<rparr>"
  "applyPorcelainField r (''HEAD '' @ p) = r\<lparr>dw_headSha := Some p\<rparr>"
  "applyPorcelainField r (''branch refs/heads/'' @ p) = r\<lparr>dw_branch := Some p\<rparr>"
  "applyPorcelainField r ''detached'' = r\<lparr>dw_detached := Some True\<rparr>"
  "applyPorcelainField r ''bare'' = r\<lparr>dw_bare := Some True\<rparr>"
  "applyPorcelainField r ''locked'' = r\<lparr>dw_locked := Some True\<rparr>"
  "applyPorcelainField r (''locked '' @ p) = r\<lparr>dw_locked := Some True\<rparr>"
  "applyPorcelainField r ''prunable'' = r\<lparr>dw_prunable := Some True\<rparr>"
  "applyPorcelainField r (''prunable '' @ p) = r\<lparr>dw_prunable := Some True\<rparr>"
  by (simp_all add: applyPorcelainField_def afterTag_def startsWith_def)

lemma not_worktree:
  "\<not> startsWith (''HEAD '' @ p) ''worktree ''" "\<not> startsWith (''branch refs/heads/'' @ p) ''worktree ''"
  "\<not> startsWith ''detached'' ''worktree ''" "\<not> startsWith ''bare'' ''worktree ''"
  "\<not> startsWith ''locked'' ''worktree ''" "\<not> startsWith (''locked '' @ p) ''worktree ''"
  "\<not> startsWith ''prunable'' ''worktree ''" "\<not> startsWith (''prunable '' @ p) ''worktree ''"
  by (simp_all add: startsWith_def)

lemma listStep_first:
  "listStep keep (acc, None) (''worktree '' @ p) = (acc, Some (emptyRecord\<lparr>dw_path := p\<rparr>))"
  using apply_fields(1) [of emptyRecord p] by (simp add: listStep_def flushWith_def startsWith_def)

lemma listStep_more:
  "f \<noteq> [] \<Longrightarrow> \<not> startsWith f ''worktree '' \<Longrightarrow> listStep keep (acc, Some r) f = (acc, Some (applyPorcelainField r f))"
  by (simp add: listStep_def)

lemma foldl_flag:
  assumes "tag \<noteq> []" "\<not> startsWith tag ''worktree ''" "\<not> startsWith (tag @ CHR '' '' # reason) ''worktree ''"
    and "applyPorcelainField r tag = r'" "applyPorcelainField r (tag @ CHR '' '' # reason) = r'"
  shows "foldl (listStep keep) (acc, Some r) (flagFields tag flag reason) = (acc, Some (if flag = Some True then r' else r))"
  using assms by (simp add: flagFields_def listStep_more)

lemma foldl_flags:
  "foldl (listStep keep) (acc, Some r) (flagFields ''detached'' flag []) = (acc, Some (if flag = Some True then r\<lparr>dw_detached := Some True\<rparr> else r))"
  "foldl (listStep keep) (acc, Some r) (flagFields ''bare'' flag []) = (acc, Some (if flag = Some True then r\<lparr>dw_bare := Some True\<rparr> else r))"
  "foldl (listStep keep) (acc, Some r) (flagFields ''locked'' flag reason) = (acc, Some (if flag = Some True then r\<lparr>dw_locked := Some True\<rparr> else r))"
  "foldl (listStep keep) (acc, Some r) (flagFields ''prunable'' flag reason) = (acc, Some (if flag = Some True then r\<lparr>dw_prunable := Some True\<rparr> else r))"
  using apply_fields not_worktree by (simp_all add: flagFields_def listStep_more)

lemma foldl_head:
  "foldl (listStep keep) (acc, Some r) (case h of Some x \<Rightarrow> [''HEAD '' @ x] | None \<Rightarrow> [])
    = (acc, Some (case h of Some x \<Rightarrow> r\<lparr>dw_headSha := Some x\<rparr> | None \<Rightarrow> r))"
  "foldl (listStep keep) (acc, Some r) (case b of Some x \<Rightarrow> [''branch refs/heads/'' @ x] | None \<Rightarrow> [])
    = (acc, Some (case b of Some x \<Rightarrow> r\<lparr>dw_branch := Some x\<rparr> | None \<Rightarrow> r))"
  using apply_fields not_worktree by (simp_all add: listStep_more split: option.splits)

lemma foldl_worktree:
  "worktreeOk r \<Longrightarrow> foldl (listStep keep) (acc, None) (worktreeFields reason r) = (acc, Some r)"
  unfolding worktreeFields_def foldl_append foldl_Cons foldl_Nil listStep_first foldl_head foldl_flags
  by (cases r) (auto simp: emptyRecord_def worktreeOk_def split: option.splits)

text \<open>Worktrees printed one after the other, each closed by an empty field.\<close>

definition worktreeText :: "char \<Rightarrow> string \<Rightarrow> disk_worktree list \<Rightarrow> string" where
  "worktreeText sep reason rs = terminated sep (concat (map (\<lambda>r. worktreeFields reason r @ [[]]) rs))"

lemma foldl_worktrees:
  assumes "list_all worktreeOk rs" "list_all (\<lambda>r. keep r = Some (f r)) rs"
  shows "foldl (listStep keep) (acc, None) (concat (map (\<lambda>r. worktreeFields reason r @ [[]]) rs)) = (acc @ map f rs, None)"
  using assms
  by (induction rs arbitrary: acc) (simp_all add: foldl_worktree, simp add: listStep_def flushWith_def)

lemma parseFields_worktrees:
  assumes "list_all worktreeOk rs" "list_all (\<lambda>r. keep r = Some (f r)) rs"
  shows "parseFields keep (concat (map (\<lambda>r. worktreeFields reason r @ [[]]) rs) @ [[]]) = map f rs"
  using foldl_worktrees [OF assms, of "[]" reason] by (simp add: parseFields_def listStep_def flushWith_def)

text \<open>The separator occurs nowhere in the values printed.\<close>

definition avoids :: "char \<Rightarrow> string \<Rightarrow> disk_worktree \<Rightarrow> bool" where
  "avoids c reason r \<longleftrightarrow> c \<notin> set reason \<and> c \<notin> set (dw_path r) \<and>
     (case dw_headSha r of Some h \<Rightarrow> c \<notin> set h | None \<Rightarrow> True) \<and> (case dw_branch r of Some b \<Rightarrow> c \<notin> set b | None \<Rightarrow> True)"

lemma fields_avoid:
  assumes "avoids c reason r" "c \<in> {NUL, CHR 0x0A, CHR 0x0D}"
  shows "list_all (\<lambda>f. c \<notin> set f) (worktreeFields reason r @ [[]])"
  using assms by (auto simp: avoids_def worktreeFields_def flagFields_def split: option.splits)

lemma all_fields_avoid:
  "list_all (avoids c reason) rs \<Longrightarrow> c \<in> {NUL, CHR 0x0A, CHR 0x0D} \<Longrightarrow>
    list_all (\<lambda>f. c \<notin> set f) (concat (map (\<lambda>r. worktreeFields reason r @ [[]]) rs))"
  using fields_avoid [of c reason] by (induction rs) (simp_all del: append_assoc)

lemma splitLines_terminated:
  assumes "list_all (\<lambda>f. CHR 0x0A \<notin> set f) fs" "list_all (\<lambda>f. CHR 0x0D \<notin> set f) fs"
  shows "splitLines (terminated (CHR 0x0A) fs) = fs @ [[]]"
proof -
  have "map (\<lambda>l. if l \<noteq> [] \<and> last l = CHR 0x0D then butlast l else l) fs = fs"
    using assms(2) by (intro map_idI) (auto simp: list_all_iff dest: last_in_set)
  then show ?thesis by (simp add: splitLines_def splitOn_terminated [OF assms(1)])
qed


lemma status_fields_no_nul: "statusEntryOk e \<Longrightarrow> list_all (\<lambda>f. NUL \<notin> set f) (statusFields e)"
  by (auto simp: statusFields_def statusEntryOk_def split: option.splits)

lemma name_fields_no_nul:
  assumes "nameEntryOk e" "list_all isDigit score"
  shows "list_all (\<lambda>f. NUL \<notin> set f) (nameFields score e)"
proof -
  have "isNameStatusField [ne_status e]" using assms(1) by (simp add: nameEntryOk_def)
  then have "ne_status e \<noteq> NUL" by (rule contrapos_pn) (simp add: isNameStatusField_def)
  then have "NUL \<noteq> ne_status e" by (rule not_sym)
  moreover have "NUL \<notin> set score" using assms(2) by (auto simp: list_all_iff isDigit_def)
  ultimately show ?thesis using assms(1) by (simp add: nameFields_def nameEntryOk_def split: option.splits)
qed

lemma entry_fields_no_nul:
  "list_all statusEntryOk es \<Longrightarrow> list_all (\<lambda>f. NUL \<notin> set f) (concat (map statusFields es))"
  "list_all nameEntryOk ns \<Longrightarrow> list_all isDigit score \<Longrightarrow> list_all (\<lambda>f. NUL \<notin> set f) (concat (map (nameFields score) ns))"
  by (induction es; simp add: status_fields_no_nul) (induction ns; simp add: name_fields_no_nul)

text \<open>
  Both NUL-separated status listings are read back as they were printed, for any paths and
  any similarity score: no path is split, joined or dropped, and a rename keeps its source and its
  destination apart although the two listings print them in opposite orders.
\<close>

theorem status_round_trip:
  assumes "list_all statusEntryOk es" "list_all nameEntryOk ns" "length score \<le> 3" "list_all isDigit score"
  shows "parseGitStatusPorcelainV1Z (terminated NUL (concat (map statusFields es))) = Inr es \<and>
    parseGitNameStatusZ (terminated NUL (concat (map (nameFields score) ns))) = Inr ns"
  using entry_fields_no_nul(1) [OF assms(1)] entry_fields_no_nul(2) [OF assms(2,4)]
  by (simp add: parseGitStatusPorcelainV1Z_def parseGitNameStatusZ_def splitOn_terminated
      statusGo_entries [OF assms(1)] nameStatusGo_entries [OF assms(2-4)])

subsection \<open>Concrete listings\<close>

theorem status_round_trip_witness:
  "parseGitStatusPorcelainV1Z (''R  new'' @ NUL # ''old'' @ [NUL]) =
     Inr [\<lparr>se_index = CHR ''R'', se_worktree = CHR '' '', se_path = ''new'', se_originalPath = Some ''old''\<rparr>] \<and>
   parseGitNameStatusZ (''R100'' @ NUL # ''old'' @ NUL # ''new'' @ [NUL]) =
     Inr [\<lparr>ne_status = CHR ''R'', ne_path = ''new'', ne_originalPath = Some ''old''\<rparr>]"
  using status_round_trip [of "[\<lparr>se_index = CHR ''R'', se_worktree = CHR '' '', se_path = ''new'', se_originalPath = Some ''old''\<rparr>]"
      "[\<lparr>ne_status = CHR ''R'', ne_path = ''new'', ne_originalPath = Some ''old''\<rparr>]" "''100''"]
  by (simp add: statusEntryOk_def nameEntryOk_def isNameStatusField_def isRename_def isDigit_def terminated_def
      statusFields_def nameFields_def)

definition ex_worktree :: disk_worktree where
  "ex_worktree = \<lparr>dw_path = ''/w'', dw_headSha = Some ''a1'', dw_branch = Some ''m'', dw_detached = Some False,
     dw_bare = Some False, dw_locked = Some True, dw_prunable = Some False\<rparr>"


end
