(* ===== verification/Epic_Model.thy ===== *)
theory Epic_Model
  imports Work_Graph
begin

text \<open>
  Epics (\<^verbatim>\<open>types/epics.ts\<close>, \<^verbatim>\<open>types/future-work.ts\<close>) and the transitions of the disk store on the
  record it has loaded (\<^verbatim>\<open>storage/epics-disk.ts\<close>).  A transition returns a failure, or its value, a
  flag that tells whether the record is to be written, and the record.  The readings of the clock
  and the generated identifiers of one transition are its environment.
\<close>

subsection \<open>Records\<close>

datatype epic_status = EpicActive | EpicCompleted | EpicArchived | EpicMerged

datatype scope_kind = RepoScope | ProductScope

datatype repo_role = PrimaryRepo | SecondaryRepo

record scope_repo =
  rp_repo_id :: string
  rp_repo_project_id :: string
  rp_path :: "string option"
  rp_role :: repo_role
  rp_required :: bool

record epic_scope =
  xs_kind :: scope_kind
  xs_owner_project_id :: string
  xs_owner_repo_id :: "string option"
  xs_repos :: "scope_repo list"

datatype scope_label = LegacyUnscoped | LocalScope | ProductSpanning

definition deriveEpicScopeLabel :: "epic_scope option \<Rightarrow> scope_label" where
  "deriveEpicScopeLabel s =
     (case s of None \<Rightarrow> LegacyUnscoped
      | Some sc \<Rightarrow> if length (xs_repos sc) > 1 then ProductSpanning else LocalScope)"

record merged_into =
  mi_epic_id :: string
  mi_merged_at :: string
  mi_merged_by :: string
  mi_evidence :: string
  mi_moved_entry_count :: nat

record shell_promotion =
  pm_shell_entry_id :: string
  pm_shell_title :: string
  pm_shell_success_hint :: string
  pm_promoted_at :: string
  pm_promoted_by :: string
  pm_change_id :: string

record epic_progress =
  pg_status :: epic_status
  pg_total :: nat
  pg_completed :: nat
  pg_active :: nat
  pg_next :: "string option"
  pg_updated_at :: string

record change_ref =
  cr_change_id :: string
  cr_project_id :: string
  cr_repo_id :: "string option"
  cr_target_path :: "string option"

datatype membership_status = MsLinked | MsProjectionPending | MsProjectionStale | MsTargetUnreachable | MsUnlinked | MsTerminal

datatype terminal_status = TsArchived | TsClosed

record terminal_summary =
  ts_status :: terminal_status
  ts_completed_at :: string

record change_entry =
  he_entry_id :: string
  he_order :: int
  he_change_id :: "string option"
  he_change_ref :: "change_ref option"
  he_title :: "string option"
  he_membership :: "membership_status option"
  he_linked_at :: "string option"
  he_linked_by :: "string option"
  he_link_evidence :: "string option"
  he_promotion :: "shell_promotion option"
  he_terminal :: "terminal_summary option"
  he_retargeted_from :: "string option"
  he_retargeted_at :: "string option"
  he_retargeted_by :: "string option"
  he_retarget_evidence :: "string option"

record future_work =
  fw_background :: "string option"
  fw_references :: "(string \<times> string) list option"
  fw_constraints :: "string list option"
  fw_avoidances :: "string list option"
  fw_design_seed :: "string option"
  fw_target :: "(string option \<times> string option \<times> string option) option"

record shell_entry =
  sh_entry_id :: string
  sh_order :: int
  sh_title :: string
  sh_success_hint :: string
  sh_imported_from :: "(string \<times> string) option"
  sh_blocked_by :: "workNodeRef list"
  sh_context_packet :: "future_work option"

datatype epic_entry = Linked change_entry | Shell shell_entry

record epic =
  xe_id :: string
  xe_title :: string
  xe_narrative :: string
  xe_scope :: "epic_scope option"
  xe_merged_into :: "merged_into option"
  xe_entries :: "epic_entry list"
  xe_progress :: epic_progress
  xe_created_at :: string
  xe_updated_at :: string
  xe_version :: nat

subsection \<open>Schemas\<close>

definition within :: "nat \<Rightarrow> string option \<Rightarrow> bool" where
  "within n s \<longleftrightarrow> (case s of Some t \<Rightarrow> length t \<le> n | None \<Rightarrow> True)"

definition itemsOk :: "nat \<Rightarrow> nat \<Rightarrow> string list option \<Rightarrow> bool" where
  "itemsOk k n xs \<longleftrightarrow>
     (case xs of Some ys \<Rightarrow> length ys \<le> k \<and> list_all (\<lambda>y. y \<noteq> [] \<and> length y \<le> n) ys | None \<Rightarrow> True)"

definition validPacket :: "future_work \<Rightarrow> bool" where
  "validPacket p \<longleftrightarrow> within 4096 (fw_background p) \<and>
     (case fw_references p of
        Some rs \<Rightarrow> length rs \<le> 12 \<and>
          list_all (\<lambda>(l, u). l \<noteq> [] \<and> length l \<le> 200 \<and> u \<noteq> [] \<and> length u \<le> 2048) rs
      | None \<Rightarrow> True) \<and>
     itemsOk 12 512 (fw_constraints p) \<and> itemsOk 12 512 (fw_avoidances p) \<and> within 6144 (fw_design_seed p) \<and>
     (case fw_target p of Some (h, t, u) \<Rightarrow> within 200 h \<and> within 1024 t \<and> within 2048 u | None \<Rightarrow> True)"

definition isLowerHex :: "char \<Rightarrow> bool" where
  "isLowerHex c \<longleftrightarrow> isDigit c \<or> (97::nat) \<le> of_char c \<and> (of_char c :: nat) \<le> 102"

fun validNodeRef :: "workNodeRef \<Rightarrow> bool" where
  "validNodeRef (EpicEntry e n) \<longleftrightarrow> e \<noteq> [] \<and> n \<noteq> []"
| "validNodeRef (ChangeNode p c) \<longleftrightarrow> length p = 40 \<and> list_all isLowerHex p \<and> c \<noteq> []"

fun validEntry :: "epic_entry \<Rightarrow> bool" where
  "validEntry (Linked h) \<longleftrightarrow>
     0 \<le> he_order h \<and> (truthy (he_change_id h) \<or> he_change_ref h \<noteq> None) \<and>
     (he_change_ref h = None \<or>
        truthy (he_title h) \<and> he_membership h \<noteq> None \<and> truthy (he_linked_at h) \<and>
        truthy (he_linked_by h) \<and> truthy (he_link_evidence h))"
| "validEntry (Shell s) \<longleftrightarrow>
     0 \<le> sh_order s \<and> list_all validNodeRef (sh_blocked_by s) \<and>
     (case sh_context_packet s of Some p \<Rightarrow> validPacket p | None \<Rightarrow> True)"

definition validEpic :: "epic \<Rightarrow> bool" where
  "validEpic e \<longleftrightarrow> list_all validEntry (xe_entries e)"

subsection \<open>Entries\<close>

fun entryId :: "epic_entry \<Rightarrow> string" where
  "entryId (Linked h) = he_entry_id h"
| "entryId (Shell s) = sh_entry_id s"

fun entryOrder :: "epic_entry \<Rightarrow> int" where
  "entryOrder (Linked h) = he_order h"
| "entryOrder (Shell s) = sh_order s"

fun withOrder :: "int \<Rightarrow> epic_entry \<Rightarrow> epic_entry" where
  "withOrder n (Linked h) = Linked (h\<lparr>he_order := n\<rparr>)"
| "withOrder n (Shell s) = Shell (s\<lparr>sh_order := n\<rparr>)"

fun entryChangeId :: "epic_entry \<Rightarrow> string option" where
  "entryChangeId (Linked h) =
     (case he_change_id h of Some c \<Rightarrow> Some c | None \<Rightarrow> map_option cr_change_id (he_change_ref h))"
| "entryChangeId (Shell s) = None"

fun finished :: "epic_entry \<Rightarrow> bool" where
  "finished (Linked h) \<longleftrightarrow> he_terminal h \<noteq> None"
| "finished (Shell s) \<longleftrightarrow> False"

fun inFlight :: "epic_entry \<Rightarrow> bool" where
  "inFlight (Linked h) \<longleftrightarrow> he_terminal h = None"
| "inFlight (Shell s) \<longleftrightarrow> False"

definition nextAvailableOrder :: "epic_entry list \<Rightarrow> int" where
  "nextAvailableOrder es = (if es = [] then 0 else Max (set (map entryOrder es @ [-1])) + 1)"

text \<open>The map from identifiers to entries: of two entries with one identifier the last counts.\<close>

definition entriesById :: "epic_entry list \<Rightarrow> (string \<times> epic_entry) list" where
  "entriesById es = foldl (\<lambda>m x. map_set (entryId x) x m) [] es"

definition prereqOpen :: "(string \<times> epic_entry) list \<Rightarrow> workNodeRef \<Rightarrow> bool" where
  "prereqOpen byId p =
     (case p of
        EpicEntry e n \<Rightarrow> (case map_get byId n of Some x \<Rightarrow> \<not> finished x | None \<Rightarrow> True)
      | ChangeNode _ _ \<Rightarrow> True)"

fun workable :: "(string \<times> epic_entry) list \<Rightarrow> epic_entry \<Rightarrow> bool" where
  "workable byId (Linked h) \<longleftrightarrow> he_terminal h = None"
| "workable byId (Shell s) \<longleftrightarrow> \<not> list_ex (prereqOpen byId) (sh_blocked_by s)"

definition localNextEntryId :: "epic_entry list \<Rightarrow> string option" where
  "localNextEntryId es =
     map_option entryId (List.find (workable (entriesById es)) (js_sort (by_number entryOrder) es))"

subsection \<open>Progress and version\<close>

record epic_env =
  ee_activeDir :: bool
  ee_retiredDir :: bool
  ee_lock :: bool
  ee_write :: bool
  ee_remove :: bool
  ee_newId :: "string \<Rightarrow> string"
  ee_time :: string
  ee_updated :: string
  ee_progress :: string

definition recomputeProgress :: "epic_env \<Rightarrow> epic \<Rightarrow> epic" where
  "recomputeProgress env e =
     (let es = xe_entries e;
          completed = length (filter finished es);
          active = length (filter inFlight es);
          isMerged = (xe_merged_into e \<noteq> None \<or> pg_status (xe_progress e) = EpicMerged);
          isArchived = (pg_status (xe_progress e) = EpicArchived)
      in e\<lparr>xe_progress := \<lparr>
           pg_status = (if isMerged then EpicMerged else if isArchived then EpicArchived
             else if completed = length es \<and> length es > 0 then EpicCompleted else EpicActive),
           pg_total = length es, pg_completed = completed, pg_active = active,
           pg_next = (if isMerged \<or> isArchived then None else localNextEntryId es),
           pg_updated_at = ee_progress env\<rparr>\<rparr>)"

definition bumpVersion :: "epic_env \<Rightarrow> epic \<Rightarrow> epic" where
  "bumpVersion env e = recomputeProgress env (e\<lparr>xe_version := xe_version e + 1, xe_updated_at := ee_updated env\<rparr>)"

subsection \<open>Failures\<close>

datatype epic_code = EpicNotFound | StaleVersion | EntryNotFound | ShellNotFound | AlreadyPromoted
  | EntryAlreadyExists | EpicNotActive | EpicIncomplete | RetargetSourceMismatch | RetargetDuplicateTarget

text \<open>The typed errors, and the plain ones: an inaccessible directory, a lock not granted, a projection
  that does not load or does not match its schema, a failed write or removal, a wrong readback.\<close>

datatype epic_failure = EpicFailure epic_code | EpicExists | DirectoryFailure | LockFailure | LoadFailure
  | SchemaFailure | WriteFailure | ReadbackMismatch | RemoveFailure | ActiveRemained | EvidenceRequired

type_synonym 'a epic_step = "epic_failure + 'a \<times> bool \<times> epic"

definition epicOpen :: "epic \<Rightarrow> bool" where
  "epicOpen e \<longleftrightarrow> pg_status (xe_progress e) \<noteq> EpicArchived \<and> pg_status (xe_progress e) \<noteq> EpicMerged \<and> xe_merged_into e = None"

definition written :: "epic_env \<Rightarrow> (epic \<Rightarrow> 'a) \<Rightarrow> epic \<Rightarrow> 'a epic_step" where
  "written env value e = (let e' = bumpVersion env e in Inr (value e', True, e'))"

definition unchanged :: "'a \<Rightarrow> epic \<Rightarrow> 'a epic_step" where
  "unchanged v e = Inr (v, False, e)"

definition refused :: "epic_code \<Rightarrow> 'a epic_step" where
  "refused code = Inl (EpicFailure code)"

end
