(* ===== verification/Epic_Store.thy ===== *)
theory Epic_Store
  imports Epic_Model
begin

text \<open>
  The operations of the Epic store (\<^verbatim>\<open>storage/epics-disk.ts\<close>, \<^verbatim>\<open>storage/epic-projection.ts\<close>): the
  transition each one applies to the loaded record, and the lock, the load, the version check, the
  write and the readback around it.  The store is two maps from directory names to documents; a
  document is a record or unreadable.
\<close>

subsection \<open>Transitions\<close>

record update_input =
  ui_title :: "string option"
  ui_narrative :: "string option"

definition updateEpic :: "epic_env \<Rightarrow> update_input \<Rightarrow> epic \<Rightarrow> epic epic_step" where
  "updateEpic env i e =
     written env id (e\<lparr>xe_title := (case ui_title i of Some t \<Rightarrow> t | None \<Rightarrow> xe_title e),
       xe_narrative := (case ui_narrative i of Some n \<Rightarrow> n | None \<Rightarrow> xe_narrative e)\<rparr>)"

definition updateScope :: "epic_env \<Rightarrow> epic_scope option \<Rightarrow> epic \<Rightarrow> epic epic_step" where
  "updateScope env scope e = written env id (e\<lparr>xe_scope := scope\<rparr>)"

definition markMerged :: "epic_env \<Rightarrow> merged_into \<Rightarrow> epic \<Rightarrow> epic epic_step" where
  "markMerged env m e =
     (if pg_status (xe_progress e) = EpicCompleted then refused EpicNotActive
      else written env id (e\<lparr>xe_merged_into := Some m\<rparr>))"

record shell_input =
  si_entryId :: "string option"
  si_title :: string
  si_successHint :: string
  si_order :: "int option"
  si_importedFrom :: "(string \<times> string) option"
  si_blockedBy :: "workNodeRef list option"
  si_contextPacket :: "future_work option"

definition addShell :: "epic_env \<Rightarrow> shell_input \<Rightarrow> epic \<Rightarrow> epic_entry epic_step" where
  "addShell env i e =
     (let n = (case si_entryId i of Some n \<Rightarrow> n | None \<Rightarrow> ee_newId env ''shell'')
      in if n \<in> set (map entryId (xe_entries e)) then refused EntryAlreadyExists
         else let entry = Shell \<lparr>sh_entry_id = n,
                sh_order = (case si_order i of Some k \<Rightarrow> k | None \<Rightarrow> nextAvailableOrder (xe_entries e)),
                sh_title = si_title i, sh_success_hint = si_successHint i, sh_imported_from = si_importedFrom i,
                sh_blocked_by = (case si_blockedBy i of Some b \<Rightarrow> b | None \<Rightarrow> []), sh_context_packet = si_contextPacket i\<rparr>
              in written env (\<lambda>_. entry) (e\<lparr>xe_entries := xe_entries e @ [entry]\<rparr>))"

fun promotedFrom :: "string \<Rightarrow> string \<Rightarrow> epic_entry \<Rightarrow> bool" where
  "promotedFrom n c (Linked h) \<longleftrightarrow>
     map_option pm_shell_entry_id (he_promotion h) = Some n \<and> entryChangeId (Linked h) = Some c"
| "promotedFrom n c (Shell s) \<longleftrightarrow> False"

definition promotion :: "epic_env \<Rightarrow> string \<Rightarrow> string \<Rightarrow> shell_entry \<Rightarrow> epic_entry" where
  "promotion env c by s = Linked \<lparr>he_entry_id = sh_entry_id s, he_order = sh_order s, he_change_id = Some c,
     he_change_ref = None, he_title = None, he_membership = None, he_linked_at = None, he_linked_by = None,
     he_link_evidence = None,
     he_promotion = Some \<lparr>pm_shell_entry_id = sh_entry_id s, pm_shell_title = sh_title s,
       pm_shell_success_hint = sh_success_hint s, pm_promoted_at = ee_time env, pm_promoted_by = by, pm_change_id = c\<rparr>,
     he_terminal = None, he_retargeted_from = None, he_retargeted_at = None, he_retargeted_by = None,
     he_retarget_evidence = None\<rparr>"

definition promoteShell ::
  "epic_env \<Rightarrow> string \<Rightarrow> string \<Rightarrow> string \<Rightarrow> epic \<Rightarrow> (string \<times> string) epic_step" where
  "promoteShell env n c by e =
     (case findIndex (\<lambda>x. entryId x = n) (xe_entries e) of
        None \<Rightarrow> (if list_ex (promotedFrom n c) (xe_entries e) then unchanged (n, c) e else refused ShellNotFound)
      | Some k \<Rightarrow>
          (case xe_entries e ! k of
             Linked h \<Rightarrow> (if entryChangeId (Linked h) = Some c then unchanged (n, c) e else refused AlreadyPromoted)
           | Shell s \<Rightarrow> written env (\<lambda>_. (n, c)) (e\<lparr>xe_entries := (xe_entries e)[k := promotion env c by s]\<rparr>)))"

record link_input =
  li_entryId :: "string option"
  li_changeId :: string
  li_title :: string
  li_order :: "int option"
  li_linkedAt :: "string option"
  li_membership :: "membership_status option"
  li_terminal :: "terminal_summary option"
  li_linkedBy :: "string option"
  li_linkEvidence :: "string option"
  li_projectId :: "string option"
  li_repoId :: "string option"
  li_targetPath :: "string option"

definition nonEmptyText :: "string option \<Rightarrow> string option" where
  "nonEmptyText s = (if truthy s then s else None)"

definition linkedEntry :: "epic_env \<Rightarrow> link_input \<Rightarrow> string \<Rightarrow> int \<Rightarrow> epic_entry" where
  "linkedEntry env i n k = Linked \<lparr>he_entry_id = n, he_order = k,
     he_change_id = (if truthy (li_projectId i) then None else Some (li_changeId i)),
     he_change_ref = (if truthy (li_projectId i)
       then Some \<lparr>cr_change_id = li_changeId i, cr_project_id = the (li_projectId i),
         cr_repo_id = nonEmptyText (li_repoId i), cr_target_path = nonEmptyText (li_targetPath i)\<rparr>
       else None),
     he_title = Some (li_title i),
     he_membership = Some (case li_membership i of Some m \<Rightarrow> m
       | None \<Rightarrow> if li_terminal i \<noteq> None then MsTerminal else MsProjectionPending),
     he_linked_at = Some (case li_linkedAt i of Some t \<Rightarrow> t | None \<Rightarrow> ee_time env),
     he_linked_by = Some (case li_linkedBy i of Some b \<Rightarrow> b | None \<Rightarrow> ''agent''),
     he_link_evidence = nonEmptyText (li_linkEvidence i), he_promotion = None, he_terminal = li_terminal i,
     he_retargeted_from = None, he_retargeted_at = None, he_retargeted_by = None, he_retarget_evidence = None\<rparr>"

definition linkChange :: "epic_env \<Rightarrow> link_input \<Rightarrow> epic \<Rightarrow> epic_entry epic_step" where
  "linkChange env i e =
     (let n = (case li_entryId i of Some n \<Rightarrow> n | None \<Rightarrow> ee_newId env ''change'')
      in if list_ex (\<lambda>x. entryId x = n \<or> entryChangeId x = Some (li_changeId i)) (xe_entries e)
         then refused EntryAlreadyExists
         else let entry = linkedEntry env i n
                (case li_order i of Some k \<Rightarrow> k | None \<Rightarrow> nextAvailableOrder (xe_entries e))
              in written env (\<lambda>_. entry) (e\<lparr>xe_entries := xe_entries e @ [entry]\<rparr>))"

record retarget_input =
  ri_entryId :: string
  ri_from :: string
  ri_to :: string
  ri_title :: "string option"
  ri_changeRef :: "change_ref option"
  ri_membership :: "membership_status option"
  ri_by :: "string option"
  ri_evidence :: "string option"

text \<open>\<^verbatim>\<open>x ??= y\<close>.\<close>

definition orElse :: "'a option \<Rightarrow> 'a \<Rightarrow> 'a option" where
  "orElse x y = Some (case x of Some z \<Rightarrow> z | None \<Rightarrow> y)"

definition retargetRef :: "retarget_input \<Rightarrow> change_entry \<Rightarrow> change_entry" where
  "retargetRef i h =
     (case ri_changeRef i of
        Some r \<Rightarrow> h\<lparr>he_change_ref := Some (r\<lparr>cr_change_id := ri_to i\<rparr>), he_change_id := None\<rparr>
      | None \<Rightarrow>
          (case he_change_ref h of
             Some r \<Rightarrow> h\<lparr>he_change_ref := Some (r\<lparr>cr_change_id := ri_to i\<rparr>)\<rparr>
           | None \<Rightarrow> h\<lparr>he_change_id := Some (ri_to i)\<rparr>))"

definition retargetAudit :: "epic_env \<Rightarrow> retarget_input \<Rightarrow> change_entry \<Rightarrow> change_entry" where
  "retargetAudit env i h = h\<lparr>
     he_title := (if ri_title i = None then he_title h else ri_title i),
     he_membership := (if ri_membership i = None then he_membership h else ri_membership i),
     he_retargeted_from := Some (ri_from i), he_retargeted_at := Some (ee_time env),
     he_retargeted_by := orElse (ri_by i) ''agent'', he_retarget_evidence := orElse (ri_evidence i) []\<rparr>"

definition retargetDefaults :: "retarget_input \<Rightarrow> change_entry \<Rightarrow> change_entry" where
  "retargetDefaults i h =
     (if he_change_ref h = None then h
      else h\<lparr>he_linked_at := orElse (he_linked_at h) (the (he_retargeted_at h)),
        he_linked_by := orElse (he_linked_by h) (the (he_retargeted_by h)),
        he_link_evidence := orElse (he_link_evidence h) (the (he_retarget_evidence h)),
        he_title := orElse (he_title h) (case ri_title i of Some t \<Rightarrow> t | None \<Rightarrow> ri_to i),
        he_membership := orElse (he_membership h) MsProjectionPending\<rparr>)"

definition retargeted :: "epic_env \<Rightarrow> retarget_input \<Rightarrow> change_entry \<Rightarrow> epic_entry" where
  "retargeted env i h = Linked (retargetDefaults i (retargetAudit env i (retargetRef i h)))"

definition retargetChange :: "epic_env \<Rightarrow> retarget_input \<Rightarrow> epic \<Rightarrow> epic_entry epic_step" where
  "retargetChange env i e =
     (case findIndex (\<lambda>x. entryId x = ri_entryId i) (xe_entries e) of
        None \<Rightarrow> refused EntryNotFound
      | Some k \<Rightarrow>
          (case xe_entries e ! k of
             Shell s \<Rightarrow> refused EntryNotFound
           | Linked h \<Rightarrow>
               (let current = entryChangeId (Linked h)
                in if current = Some (ri_to i) then unchanged (Linked h) e
                   else if current \<noteq> Some (ri_from i) then refused RetargetSourceMismatch
                   else if list_ex (\<lambda>x. entryId x \<noteq> ri_entryId i \<and> entryChangeId x = Some (ri_to i)) (xe_entries e)
                   then refused RetargetDuplicateTarget
                   else written env (\<lambda>_. retargeted env i h) (e\<lparr>xe_entries := (xe_entries e)[k := retargeted env i h]\<rparr>))))"

definition unlinkChange :: "epic_env \<Rightarrow> string \<Rightarrow> epic \<Rightarrow> unit epic_step" where
  "unlinkChange env n e =
     (case findIndex (\<lambda>x. entryId x = n) (xe_entries e) of
        None \<Rightarrow> unchanged () e
      | Some k \<Rightarrow> written env (\<lambda>_. ()) (e\<lparr>xe_entries := take k (xe_entries e) @ drop (Suc k) (xe_entries e)\<rparr>))"

definition changeEntryAt ::
  "epic_env \<Rightarrow> string \<Rightarrow> (change_entry \<Rightarrow> change_entry) \<Rightarrow> epic \<Rightarrow> epic_entry epic_step" where
  "changeEntryAt env n f e =
     (case findIndex (\<lambda>x. entryId x = n) (xe_entries e) of
        None \<Rightarrow> refused EntryNotFound
      | Some k \<Rightarrow>
          (case xe_entries e ! k of
             Shell s \<Rightarrow> refused EntryNotFound
           | Linked h \<Rightarrow> written env (\<lambda>_. Linked (f h)) (e\<lparr>xe_entries := (xe_entries e)[k := Linked (f h)]\<rparr>)))"

definition setEntryMembershipStatus ::
  "epic_env \<Rightarrow> string \<Rightarrow> membership_status \<Rightarrow> epic \<Rightarrow> epic_entry epic_step" where
  "setEntryMembershipStatus env n m e = changeEntryAt env n (\<lambda>h. h\<lparr>he_membership := Some m\<rparr>) e"

definition setEntryTerminalSummary ::
  "epic_env \<Rightarrow> string \<Rightarrow> terminal_summary \<Rightarrow> epic \<Rightarrow> epic_entry epic_step" where
  "setEntryTerminalSummary env n t e =
     changeEntryAt env n (\<lambda>h. h\<lparr>he_membership := Some MsTerminal, he_terminal := Some t\<rparr>) e"

fun renumber :: "(string \<times> epic_entry) list \<Rightarrow> int \<Rightarrow> string list \<Rightarrow> epic_entry list" where
  "renumber byId k [] = []"
| "renumber byId k (n # ns) = withOrder k (the (map_get byId n)) # renumber byId (k + 1) ns"

definition reorder :: "epic_env \<Rightarrow> string list \<Rightarrow> epic \<Rightarrow> epic epic_step" where
  "reorder env ids e =
     (if length ids \<noteq> length (xe_entries e) then refused EntryNotFound
      else let current = set (map entryId (xe_entries e)); requested = set ids
           in if card current \<noteq> card requested \<or> \<not> list_all (\<lambda>n. n \<in> current) ids then refused EntryNotFound
              else written env id (e\<lparr>xe_entries := renumber (entriesById (xe_entries e)) 0 ids\<rparr>))"

subsection \<open>Documents\<close>

datatype 'a document = Unreadable | Document 'a

datatype retired_status = RetiredPrepared | RetiredDone

record retired_epic =
  rt_snapshot :: epic
  rt_retired_at :: string
  rt_retired_by :: string
  rt_evidence :: string
  rt_source_workflow_id :: string
  rt_source_version :: nat
  rt_status :: retired_status

record epic_store =
  ef_active :: "string \<Rightarrow> epic document option"
  ef_retired :: "string \<Rightarrow> retired_epic document option"

definition loadActive :: "epic_store \<Rightarrow> string \<Rightarrow> epic_failure + epic option" where
  "loadActive s n =
     (case ef_active s n of
        None \<Rightarrow> Inr None
      | Some Unreadable \<Rightarrow> Inl LoadFailure
      | Some (Document e) \<Rightarrow> if validEpic e then Inr (Some e) else Inl LoadFailure)"

definition loadRetired :: "epic_store \<Rightarrow> string \<Rightarrow> epic_failure + retired_epic option" where
  "loadRetired s n =
     (case ef_retired s n of
        None \<Rightarrow> Inr None
      | Some Unreadable \<Rightarrow> Inl LoadFailure
      | Some (Document r) \<Rightarrow> if validEpic (rt_snapshot r) then Inr (Some r) else Inl LoadFailure)"

definition loadActiveRequired :: "epic_env \<Rightarrow> epic_store \<Rightarrow> string \<Rightarrow> epic_failure + epic" where
  "loadActiveRequired env s n =
     (if \<not> ee_activeDir env then Inl DirectoryFailure
      else case loadActive s n of
        Inl f \<Rightarrow> Inl f
      | Inr None \<Rightarrow> Inl (EpicFailure EpicNotFound)
      | Inr (Some e) \<Rightarrow> Inr e)"

text \<open>The write goes to the directory named by the record, not to the one it was loaded from.\<close>

definition saveActive :: "epic_env \<Rightarrow> epic \<Rightarrow> epic_store \<Rightarrow> epic_failure + epic_store" where
  "saveActive env e s =
     (if \<not> validEpic e then Inl SchemaFailure
      else if \<not> ee_write env then Inl WriteFailure
      else Inr (s\<lparr>ef_active := (ef_active s)(xe_id e \<mapsto> Document e)\<rparr>))"

definition withEpicLock ::
  "epic_env \<Rightarrow> (epic_store \<Rightarrow> (epic_failure + 'a) \<times> epic_store) \<Rightarrow> epic_store \<Rightarrow> (epic_failure + 'a) \<times> epic_store" where
  "withEpicLock env operation s =
     (if \<not> ee_activeDir env then (Inl DirectoryFailure, s)
      else if \<not> ee_lock env then (Inl LockFailure, s)
      else operation s)"

definition mutateEpic ::
  "epic_env \<Rightarrow> string \<Rightarrow> nat option \<Rightarrow> (epic \<Rightarrow> 'a epic_step) \<Rightarrow> epic_store \<Rightarrow> (epic_failure + 'a) \<times> epic_store" where
  "mutateEpic env n expected mutation = withEpicLock env (\<lambda>s.
     (case loadActiveRequired env s n of
        Inl f \<Rightarrow> (Inl f, s)
      | Inr latest \<Rightarrow>
          (if expected \<noteq> None \<and> expected \<noteq> Some (xe_version latest) then (Inl (EpicFailure StaleVersion), s)
           else if \<not> epicOpen latest then (Inl (EpicFailure EpicNotActive), s)
           else case mutation latest of
             Inl f \<Rightarrow> (Inl f, s)
           | Inr (value, changed, candidate) \<Rightarrow>
               (if \<not> changed then (Inr value, s)
                else case saveActive env candidate s of
                  Inl f \<Rightarrow> (Inl f, s)
                | Inr s' \<Rightarrow>
                    (case loadActiveRequired env s' n of
                       Inl f \<Rightarrow> (Inl f, s')
                     | Inr readback \<Rightarrow>
                         (if xe_version readback \<noteq> xe_version candidate then (Inl ReadbackMismatch, s')
                          else (Inr value, s')))))))"

subsection \<open>Creation and retirement\<close>

definition newEpic :: "epic_env \<Rightarrow> string \<Rightarrow> string \<Rightarrow> string \<Rightarrow> epic_scope option \<Rightarrow> epic" where
  "newEpic env n title narrative scope = \<lparr>xe_id = n, xe_title = title, xe_narrative = narrative, xe_scope = scope,
     xe_merged_into = None, xe_entries = [],
     xe_progress = \<lparr>pg_status = EpicActive, pg_total = 0, pg_completed = 0, pg_active = 0, pg_next = None,
       pg_updated_at = ee_time env\<rparr>,
     xe_created_at = ee_time env, xe_updated_at = ee_time env, xe_version = 0\<rparr>"

definition createEpic ::
  "epic_env \<Rightarrow> string \<Rightarrow> string \<Rightarrow> string \<Rightarrow> epic_scope option \<Rightarrow> epic_store \<Rightarrow> (epic_failure + epic) \<times> epic_store" where
  "createEpic env n title narrative scope s0 =
     (if \<not> ee_activeDir env \<or> \<not> ee_retiredDir env then (Inl DirectoryFailure, s0)
      else withEpicLock env (\<lambda>s.
        (case loadActive s n of
           Inl f \<Rightarrow> (Inl f, s)
         | Inr (Some e) \<Rightarrow> (Inl EpicExists, s)
         | Inr None \<Rightarrow>
             (case loadRetired s n of
                Inl f \<Rightarrow> (Inl f, s)
              | Inr (Some r) \<Rightarrow> (Inl EpicExists, s)
              | Inr None \<Rightarrow>
                  (case saveActive env (newEpic env n title narrative scope) s of
                     Inl f \<Rightarrow> (Inl f, s)
                   | Inr s' \<Rightarrow> (loadActiveRequired env s' n, s'))))) s0)"

definition retirement :: "epic_env \<Rightarrow> string \<Rightarrow> string \<Rightarrow> string \<Rightarrow> bool \<Rightarrow> epic \<Rightarrow> retired_epic" where
  "retirement env n by evidence dryRun e = \<lparr>rt_snapshot = e, rt_retired_at = ee_time env, rt_retired_by = by,
     rt_evidence = evidence, rt_source_workflow_id = ''disk:'' @ n, rt_source_version = xe_version e,
     rt_status = (if dryRun then RetiredPrepared else RetiredDone)\<rparr>"

definition retireEpic ::
  "epic_env \<Rightarrow> string \<Rightarrow> nat \<Rightarrow> string \<Rightarrow> string \<Rightarrow> bool \<Rightarrow> epic_store \<Rightarrow> (epic_failure + retired_epic) \<times> epic_store" where
  "retireEpic env n expected evidence by dryRun = withEpicLock env (\<lambda>s.
     (if \<not> ee_retiredDir env then (Inl DirectoryFailure, s)
      else case loadActiveRequired env s n of
        Inl f \<Rightarrow> (Inl f, s)
      | Inr e \<Rightarrow>
          (if pg_status (xe_progress e) \<noteq> EpicCompleted \<or> \<not> list_all finished (xe_entries e)
           then (Inl (EpicFailure EpicIncomplete), s)
           else if xe_version e \<noteq> expected then (Inl (EpicFailure StaleVersion), s)
           else let r = retirement env n by evidence dryRun e
                in if dryRun then (Inr r, s)
                   else if \<not> ee_write env then (Inl WriteFailure, s)
                   else let s' = s\<lparr>ef_retired := (ef_retired s)(n \<mapsto> Document r)\<rparr>
                        in (case loadRetired s' n of
                              Inl f \<Rightarrow> (Inl f, s')
                            | Inr None \<Rightarrow> (Inl ReadbackMismatch, s')
                            | Inr (Some back) \<Rightarrow>
                                (if \<not> ee_remove env then (Inl RemoveFailure, s')
                                 else let s'' = s'\<lparr>ef_active := (ef_active s')(n := None)\<rparr>
                                      in (case loadActive s'' n of
                                            Inl f \<Rightarrow> (Inl f, s'')
                                          | Inr (Some a) \<Rightarrow> (Inl ActiveRemained, s'')
                                          | Inr None \<Rightarrow> (Inr back, s'')))))))"

end
