(* ===== verification/Epic_Facts.thy ===== *)
theory Epic_Facts
  imports Epic_Store
begin

text \<open>
  What the Epic store keeps.  The locale \<open>epic_transition\<close> is the contract between a transition and
  the locked mutation around it; it is interpreted for every transition.  Runs of operations then
  have one invariant on both maps of the store, from which the properties of single Epics follow:
  frozen merged Epics, final retirement, versions that only grow, and the choice of the next entry.
\<close>

subsection \<open>The shape of an Epic\<close>

fun oneRef :: "epic_entry \<Rightarrow> bool" where
  "oneRef (Linked h) \<longleftrightarrow> he_change_id h = None \<or> he_change_ref h = None"
| "oneRef (Shell s) \<longleftrightarrow> True"

definition progressOk :: "epic \<Rightarrow> bool" where
  "progressOk e \<longleftrightarrow>
     (let es = xe_entries e; p = xe_progress e
      in pg_total p = length es \<and> pg_completed p = length (filter finished es) \<and> pg_active p = length (filter inFlight es) \<and>
         pg_status p = (if xe_merged_into e \<noteq> None then EpicMerged
           else if es \<noteq> [] \<and> list_all finished es then EpicCompleted else EpicActive) \<and>
         pg_next p = (if xe_merged_into e \<noteq> None then None else localNextEntryId es))"

definition shape :: "epic \<Rightarrow> bool" where
  "shape e \<longleftrightarrow> distinct (map entryId (xe_entries e)) \<and> list_all oneRef (xe_entries e) \<and> progressOk e"

lemma all_finished_iff: "length (filter finished es) = length es \<longleftrightarrow> list_all finished es"
  by (metis filter_id_conv length_filter_less less_irrefl Ball_set)

lemma bumpVersion_simps [simp]:
  "xe_id (bumpVersion env e) = xe_id e" "xe_entries (bumpVersion env e) = xe_entries e"
  "xe_version (bumpVersion env e) = Suc (xe_version e)" "xe_merged_into (bumpVersion env e) = xe_merged_into e"
  "xe_title (bumpVersion env e) = xe_title e" "xe_narrative (bumpVersion env e) = xe_narrative e"
  "xe_scope (bumpVersion env e) = xe_scope e" "xe_created_at (bumpVersion env e) = xe_created_at e"
  by (simp_all add: bumpVersion_def recomputeProgress_def Let_def)

lemma progress_bumped:
  assumes "pg_status (xe_progress e) \<noteq> EpicArchived" "pg_status (xe_progress e) \<noteq> EpicMerged"
  shows "progressOk (bumpVersion env e)"
  using assms
  by (simp add: progressOk_def Let_def bumpVersion_def recomputeProgress_def all_finished_iff conj_commute)

lemma written_iff: "written env f e = Inr (v, ch, e') \<longleftrightarrow> ch \<and> e' = bumpVersion env e \<and> v = f e'"
  by (auto simp: written_def Let_def)

lemma unchanged_iff: "unchanged w e = Inr (v, ch, e') \<longleftrightarrow> \<not> ch \<and> e' = e \<and> v = w"
  by (auto simp: unchanged_def)

lemma refused_iff [simp]: "refused c \<noteq> Inr x"
  by (simp add: refused_def)

lemma shape_bumped:
  assumes "epicOpen e" "distinct (map entryId es)" "list_all oneRef es" "xe_progress e' = xe_progress e" "xe_entries e' = es"
  shows "shape (bumpVersion env e')"
  using assms progress_bumped [of e' env] by (simp add: shape_def epicOpen_def)

subsection \<open>The contract of a transition\<close>

locale epic_transition =
  fixes step :: "epic \<Rightarrow> 'a epic_step"
  assumes keeps_id: "step e = Inr (v, ch, e') \<Longrightarrow> xe_id e' = xe_id e"
    and bumps: "step e = Inr (v, True, e') \<Longrightarrow> xe_version e' = Suc (xe_version e)"
    and idle: "step e = Inr (v, False, e') \<Longrightarrow> e' = e"
    and keeps_shape: "shape e \<Longrightarrow> epicOpen e \<Longrightarrow> step e = Inr (v, True, e') \<Longrightarrow> shape e'"

definition activeOk :: "string \<Rightarrow> epic document option \<Rightarrow> bool" where
  "activeOk n d \<longleftrightarrow> (case d of Some (Document e) \<Rightarrow> xe_id e = n \<and> validEpic e \<and> shape e | Some Unreadable \<Rightarrow> False | None \<Rightarrow> True)"

context epic_transition begin

lemma mutate_cases:
  assumes "\<And>e. ef_active s n = Some (Document e) \<Longrightarrow> xe_id e = n"
  shows "mutateEpic env n expected step s = (out, s') \<Longrightarrow>
     s' = s \<or>
     (\<exists>e v e'. ef_active s n = Some (Document e) \<and> epicOpen e \<and> validEpic e' \<and>
        (expected = None \<or> expected = Some (xe_version e)) \<and>
        step e = Inr (v, True, e') \<and> out = Inr v \<and> s' = s\<lparr>ef_active := (ef_active s)(n \<mapsto> Document e')\<rparr>)"
  using assms
  by (fastforce simp: mutateEpic_def withEpicLock_def loadActiveRequired_def loadActive_def saveActive_def
      dest: keeps_id split: if_splits option.splits document.splits sum.splits)

lemma mutate_accepts:
  assumes "ef_active s n = Some (Document e)" "xe_id e = n" "validEpic e"
    and "ee_activeDir env" "ee_lock env" "ee_write env"
  shows "(\<exists>v. fst (mutateEpic env n expected step s) = Inr v) \<longleftrightarrow>
     (expected = None \<or> expected = Some (xe_version e)) \<and> epicOpen e \<and>
     (\<exists>v ch e'. step e = Inr (v, ch, e') \<and> (ch \<longrightarrow> validEpic e'))"
  using assms
  by (auto simp: mutateEpic_def withEpicLock_def loadActiveRequired_def loadActive_def saveActive_def
      dest: keeps_id idle split: if_splits option.splits document.splits sum.splits)

lemma mutate_keeps_others:
  assumes "\<And>e. ef_active s n = Some (Document e) \<Longrightarrow> xe_id e = n"
    and "mutateEpic env n expected step s = (out, s')"
  shows "m \<noteq> n \<Longrightarrow> ef_active s' m = ef_active s m" "ef_retired s' = ef_retired s"
  using mutate_cases [OF assms] by auto

lemma mutate_keeps_active:
  assumes "activeOk n (ef_active s n)" "mutateEpic env n expected step s = (out, s')"
  shows "activeOk n (ef_active s' n)"
proof -
  have "\<And>e. ef_active s n = Some (Document e) \<Longrightarrow> xe_id e = n" using assms(1) by (simp add: activeOk_def)
  from mutate_cases [OF this assms(2)] show ?thesis
    using assms(1) keeps_id keeps_shape by (fastforce simp: activeOk_def)
qed

end

subsection \<open>Every transition meets the contract\<close>

definition keptBy :: "epic \<Rightarrow> epic \<Rightarrow> bool" where
  "keptBy f e \<longleftrightarrow> xe_id f = xe_id e \<and> xe_version f = xe_version e \<and> xe_progress f = xe_progress e \<and>
     (shape e \<longrightarrow> distinct (map entryId (xe_entries f)) \<and> list_all oneRef (xe_entries f))"

lemma transition_intro:
  assumes "\<And>e v ch e'. step e = Inr (v, ch, e') \<Longrightarrow> \<not> ch \<and> e' = e \<or> ch \<and> (\<exists>f. e' = bumpVersion env f \<and> keptBy f e)"
  shows "epic_transition step"
proof (unfold_locales, goal_cases)
  case (1 e v ch e')
  from assms [OF 1] show ?case by (auto simp: keptBy_def)
next
  case (2 e v e')
  from assms [OF 2] show ?case by (auto simp: keptBy_def)
next
  case (3 e v e')
  from assms [OF 3] show ?case by simp
next
  case (4 e v e')
  from assms [OF 4(3)] 4(1,2) show ?case
    using shape_bumped [OF 4(2)] by (auto simp: keptBy_def)
qed

lemma distinct_update:
  assumes "distinct (map f xs)" "k < length xs" "f y = f (xs ! k)"
  shows "distinct (map f (xs[k := y]))"
proof -
  have "map f (xs[k := y]) = map f xs" by (metis assms(3) list_update_id map_update)
  with assms(1) show ?thesis by simp
qed

lemma all_update: "list_all P xs \<Longrightarrow> P y \<Longrightarrow> list_all P (xs[k := y])"
  by (auto simp: list_all_iff dest!: subsetD [OF set_update_subset_insert])

lemma kept_update:
  assumes "k < length (xe_entries e)" "entryId y = entryId (xe_entries e ! k)" "shape e \<Longrightarrow> oneRef y"
  shows "keptBy (e\<lparr>xe_entries := (xe_entries e)[k := y]\<rparr>) e"
  using assms by (auto simp: keptBy_def shape_def distinct_update all_update)

lemma kept_append:
  assumes "entryId y \<notin> set (map entryId (xe_entries e))" "oneRef y"
  shows "keptBy (e\<lparr>xe_entries := xe_entries e @ [y]\<rparr>) e"
  using assms by (auto simp: keptBy_def shape_def)

lemma oneRef_nth: "shape e \<Longrightarrow> k < length (xe_entries e) \<Longrightarrow> oneRef (xe_entries e ! k)"
  by (simp add: shape_def list_all_length)

interpretation update_step: epic_transition "updateEpic env i" for env i
  by (rule transition_intro) (auto simp: updateEpic_def written_iff keptBy_def shape_def intro!: exI)

interpretation scope_step: epic_transition "updateScope env sc" for env sc
  by (rule transition_intro) (auto simp: updateScope_def written_iff keptBy_def shape_def intro!: exI)

interpretation merge_step: epic_transition "markMerged env m" for env m
  by (rule transition_intro)
    (auto simp: markMerged_def written_iff keptBy_def shape_def intro!: exI split: if_splits)

interpretation shell_step: epic_transition "addShell env i" for env i
proof (rule transition_intro)
  fix e v ch e'
  assume "addShell env i e = Inr (v, ch, e')"
  then show "\<not> ch \<and> e' = e \<or> ch \<and> (\<exists>f. e' = bumpVersion env f \<and> keptBy f e)"
    by (auto simp: addShell_def Let_def written_iff intro!: exI kept_append split: if_splits option.splits)
qed

lemma linkedEntry_simps [simp]:
  "entryId (linkedEntry env i n k) = n" "oneRef (linkedEntry env i n k)"
  "entryChangeId (linkedEntry env i n k) = Some (li_changeId i)"
  "finished (linkedEntry env i n k) \<longleftrightarrow> li_terminal i \<noteq> None" "entryOrder (linkedEntry env i n k) = k"
  by (simp_all add: linkedEntry_def)

lemma linkChange_iff:
  "linkChange env i e = Inr (v, ch, e') \<longleftrightarrow>
     (let n = (case li_entryId i of Some n \<Rightarrow> n | None \<Rightarrow> ee_newId env ''change'');
          entry = linkedEntry env i n (case li_order i of Some k \<Rightarrow> k | None \<Rightarrow> nextAvailableOrder (xe_entries e))
      in n \<notin> set (map entryId (xe_entries e)) \<and> (\<forall>x \<in> set (xe_entries e). entryChangeId x \<noteq> Some (li_changeId i)) \<and>
         ch \<and> v = entry \<and> e' = bumpVersion env (e\<lparr>xe_entries := xe_entries e @ [entry]\<rparr>))"
  unfolding linkChange_def Let_def by (force simp: written_iff list_ex_iff)

interpretation link_step: epic_transition "linkChange env i" for env i
proof (rule transition_intro)
  fix e v ch e'
  assume "linkChange env i e = Inr (v, ch, e')"
  then show "\<not> ch \<and> e' = e \<or> ch \<and> (\<exists>f. e' = bumpVersion env f \<and> keptBy f e)"
    unfolding linkChange_iff Let_def using kept_append [OF _ linkedEntry_simps(2)] by fastforce
qed

interpretation promote_step: epic_transition "promoteShell env n c who" for env n c who
proof (rule transition_intro)
  fix e v ch e'
  assume s: "promoteShell env n c who e = Inr (v, ch, e')"
  show "\<not> ch \<and> e' = e \<or> ch \<and> (\<exists>f. e' = bumpVersion env f \<and> keptBy f e)"
  proof (cases "findIndex (\<lambda>x. entryId x = n) (xe_entries e)")
    case None
    with s show ?thesis by (auto simp: promoteShell_def unchanged_iff split: if_splits)
  next
    case (Some k)
    note k = findIndex_Some [OF Some]
    show ?thesis
    proof (cases "xe_entries e ! k")
      case (Linked h)
      with s Some show ?thesis by (auto simp: promoteShell_def unchanged_iff split: if_splits)
    next
      case (Shell x)
      have "keptBy (e\<lparr>xe_entries := (xe_entries e)[k := promotion env c who x]\<rparr>) e"
        using k Shell by (intro kept_update) (auto simp: promotion_def)
      with s Some Shell show ?thesis by (auto simp: promoteShell_def written_iff)
    qed
  qed
qed

lemma retargeted_simps [simp]:
  "entryId (retargeted env i h) = he_entry_id h" "finished (retargeted env i h) \<longleftrightarrow> he_terminal h \<noteq> None"
  "oneRef (Linked h) \<Longrightarrow> oneRef (retargeted env i h)"
  "oneRef (Linked h) \<Longrightarrow> entryChangeId (retargeted env i h) = Some (ri_to i)"
  by (auto simp: retargeted_def retargetDefaults_def retargetAudit_def retargetRef_def split: option.splits)

interpretation retarget_step: epic_transition "retargetChange env i" for env i
proof (rule transition_intro)
  fix e v ch e'
  assume s: "retargetChange env i e = Inr (v, ch, e')"
  show "\<not> ch \<and> e' = e \<or> ch \<and> (\<exists>f. e' = bumpVersion env f \<and> keptBy f e)"
  proof (cases "findIndex (\<lambda>x. entryId x = ri_entryId i) (xe_entries e)")
    case None
    with s show ?thesis by (simp add: retargetChange_def)
  next
    case (Some k)
    note k = findIndex_Some [OF Some]
    show ?thesis
    proof (cases "xe_entries e ! k")
      case (Linked h)
      have "keptBy (e\<lparr>xe_entries := (xe_entries e)[k := retargeted env i h]\<rparr>) e"
        using k Linked oneRef_nth [of e k] by (intro kept_update) auto
      with s Some Linked show ?thesis
        by (auto simp: retargetChange_def Let_def written_iff unchanged_iff split: if_splits)
    next
      case (Shell x)
      with s Some show ?thesis by (simp add: retargetChange_def)
    qed
  qed
qed

interpretation unlink_step: epic_transition "unlinkChange env n" for env n
proof (rule transition_intro)
  fix e v ch e'
  assume s: "unlinkChange env n e = Inr (v, ch, e')"
  have "distinct (map f (take k xs @ drop (Suc k) xs))" "list_all P xs \<Longrightarrow> list_all P (take k xs @ drop (Suc k) xs)"
    if "distinct (map f xs)" for f :: "epic_entry \<Rightarrow> string" and P k xs
    using that by (auto simp: list_all_iff take_map [symmetric] drop_map [symmetric] set_take_disj_set_drop_if_distinct
        dest: in_set_takeD in_set_dropD)
  then have "keptBy (e\<lparr>xe_entries := take k (xe_entries e) @ drop (Suc k) (xe_entries e)\<rparr>) e" for k
    by (auto simp: keptBy_def shape_def simp del: map_append)
  with s show "\<not> ch \<and> e' = e \<or> ch \<and> (\<exists>f. e' = bumpVersion env f \<and> keptBy f e)"
    by (auto simp: unlinkChange_def written_iff unchanged_iff split: option.splits)
qed

lemma changeEntryAt_transition:
  assumes "\<And>h. he_entry_id (f h) = he_entry_id h" "\<And>h. oneRef (Linked h) \<Longrightarrow> oneRef (Linked (f h))"
  shows "epic_transition (changeEntryAt env n f)"
proof (rule transition_intro)
  fix e v ch e'
  assume s: "changeEntryAt env n f e = Inr (v, ch, e')"
  show "\<not> ch \<and> e' = e \<or> ch \<and> (\<exists>f. e' = bumpVersion env f \<and> keptBy f e)"
  proof (cases "findIndex (\<lambda>x. entryId x = n) (xe_entries e)")
    case None
    with s show ?thesis by (simp add: changeEntryAt_def)
  next
    case (Some k)
    note k = findIndex_Some [OF Some]
    show ?thesis
    proof (cases "xe_entries e ! k")
      case (Linked h)
      have "keptBy (e\<lparr>xe_entries := (xe_entries e)[k := Linked (f h)]\<rparr>) e"
        using k Linked oneRef_nth [of e k] assms [of h] by (intro kept_update) auto
      with s Some Linked show ?thesis by (auto simp: changeEntryAt_def written_iff)
    next
      case (Shell x)
      with s Some show ?thesis by (simp add: changeEntryAt_def)
    qed
  qed
qed

interpretation membership_step: epic_transition "setEntryMembershipStatus env n m" for env n m
  unfolding setEntryMembershipStatus_def by (rule changeEntryAt_transition) auto

interpretation terminal_step: epic_transition "setEntryTerminalSummary env n t" for env n t
  unfolding setEntryTerminalSummary_def by (rule changeEntryAt_transition) auto

subsection \<open>Reordering\<close>

lemma entriesById_distinct:
  "distinct (map entryId es) \<Longrightarrow> x \<in> set es \<Longrightarrow> map_get (entriesById es) (entryId x) = Some x"
  unfolding entriesById_def by (rule map_of_foldl_set_distinct [of entryId es x "\<lambda>x. x"])

lemma entriesById_SomeD: "map_get (entriesById es) n = Some x \<Longrightarrow> x \<in> set es \<and> entryId x = n"
  unfolding entriesById_def by (erule map_of_foldl_set_SomeD) auto

lemma entriesById_None: "map_get (entriesById es) n = None \<longleftrightarrow> n \<notin> entryId ` set es"
  unfolding entriesById_def by (rule map_of_foldl_set_None)

lemma withOrder_simps [simp]:
  "entryId (withOrder k x) = entryId x \<and> entryOrder (withOrder k x) = k \<and>
   withOrder j (withOrder k x) = withOrder j x \<and> oneRef (withOrder k x) = oneRef x \<and>
   finished (withOrder k x) = finished x \<and> entryChangeId (withOrder k x) = entryChangeId x"
  by (cases x) (simp_all split: option.split)

lemma renumber_facts:
  assumes "set ns \<subseteq> entryId ` set es"
  shows "map entryId (renumber (entriesById es) k ns) = ns"
    and "map entryOrder (renumber (entriesById es) k ns) = map (\<lambda>j. k + int j) [0..<length ns]"
    and "map (withOrder 0) (renumber (entriesById es) k ns) = map (\<lambda>n. withOrder 0 (the (map_get (entriesById es) n))) ns"
    and "list_all oneRef es \<Longrightarrow> list_all oneRef (renumber (entriesById es) k ns)"
proof -
  have found: "\<exists>x. map_get (entriesById es) n = Some x \<and> x \<in> set es \<and> entryId x = n" if "n \<in> set ns" for n
    using assms that entriesById_None [of es n] entriesById_SomeD [of es n] by blast
  show "map entryId (renumber (entriesById es) k ns) = ns" using found by (induction ns arbitrary: k) fastforce+
  show "map entryOrder (renumber (entriesById es) k ns) = map (\<lambda>j. k + int j) [0..<length ns]"
  proof (induction ns arbitrary: k)
    case (Cons n ns)
    show ?case by (simp add: Cons.IH upt_conv_Cons map_Suc_upt [symmetric] o_def algebra_simps del: upt_Suc)
  qed simp
  show "map (withOrder 0) (renumber (entriesById es) k ns) = map (\<lambda>n. withOrder 0 (the (map_get (entriesById es) n))) ns"
    by (induction ns arbitrary: k) auto
  show "list_all oneRef (renumber (entriesById es) k ns)" if "list_all oneRef es"
    using found by (induction ns arbitrary: k) (use that in \<open>fastforce simp: list_all_iff\<close>)+
qed

lemma reorder_cases:
  assumes "distinct (map entryId (xe_entries e))"
  shows "reorder env ids e =
    (if mset ids = mset (map entryId (xe_entries e))
     then written env id (e\<lparr>xe_entries := renumber (entriesById (xe_entries e)) 0 ids\<rparr>)
     else refused EntryNotFound)"
proof -
  let ?cur = "map entryId (xe_entries e)"
  have "length ids = length (xe_entries e) \<and> card (set ?cur) = card (set ids) \<and> set ids \<subseteq> set ?cur \<longleftrightarrow>
      mset ids = mset ?cur" (is "?l \<longleftrightarrow> ?r")
  proof
    assume l: ?l
    then have "distinct ids" using assms distinct_card [OF assms] by (simp add: card_distinct)
    moreover have "set ids = set ?cur" using l by (simp add: card_subset_eq)
    ultimately show ?r using assms set_eq_iff_mset_eq_distinct by blast
  next
    assume r: ?r
    then have "length ids = length ?cur" "set ids = set ?cur" by (metis mset_eq_length, metis mset_eq_setD)
    then show ?l by simp
  qed
  then show ?thesis unfolding reorder_def Let_def by (auto simp: list_all_iff subset_iff)
qed

interpretation reorder_step: epic_transition "reorder env ids" for env ids
proof (rule transition_intro)
  fix e v ch e'
  assume s: "reorder env ids e = Inr (v, ch, e')"
  let ?f = "e\<lparr>xe_entries := renumber (entriesById (xe_entries e)) 0 ids\<rparr>"
  have "keptBy ?f e"
  proof (cases "shape e")
    case True
    then have d: "distinct (map entryId (xe_entries e))" "list_all oneRef (xe_entries e)" by (simp_all add: shape_def)
    have m: "mset ids = mset (map entryId (xe_entries e))"
      using s unfolding reorder_cases [OF d(1)] by (simp split: if_splits)
    then have "set ids \<subseteq> entryId ` set (xe_entries e)" "distinct ids"
      using d(1) by (metis list.set_map mset_eq_setD order_refl, metis mset_eq_imp_distinct_iff)
    with renumber_facts [OF this(1)] d show ?thesis by (simp add: keptBy_def)
  next
    case False
    then show ?thesis by (simp add: keptBy_def)
  qed
  with s show "\<not> ch \<and> e' = e \<or> ch \<and> (\<exists>f. e' = bumpVersion env f \<and> keptBy f e)"
    by (auto simp: reorder_def Let_def written_iff split: if_splits)
qed

lemma reorder_permutes:
  assumes "distinct (map entryId (xe_entries e))"
  shows "case reorder env ids e of
      Inl f \<Rightarrow> mset ids \<noteq> mset (map entryId (xe_entries e))
    | Inr (v, ch, e') \<Rightarrow> ch \<and> map entryId (xe_entries e') = ids \<and> map entryOrder (xe_entries e') = map int [0..<length ids] \<and>
        mset (map (withOrder 0) (xe_entries e')) = mset (map (withOrder 0) (xe_entries e)) \<and>
        xe_version e' = xe_version e + 1"
proof (cases "mset ids = mset (map entryId (xe_entries e))")
  case True
  then have sub: "set ids \<subseteq> entryId ` set (xe_entries e)" by (metis list.set_map mset_eq_setD order_refl)
  have "mset (map (withOrder 0) (renumber (entriesById (xe_entries e)) 0 ids)) =
      image_mset (\<lambda>n. withOrder 0 (the (map_get (entriesById (xe_entries e)) n))) (mset ids)"
    by (simp only: renumber_facts(3) [OF sub] mset_map)
  also have "\<dots> = mset (map (withOrder 0) (xe_entries e))"
    unfolding True mset_map image_mset.compositionality o_def
    by (rule image_mset_cong) (simp add: entriesById_distinct [OF assms])
  finally show ?thesis
    unfolding reorder_cases [OF assms] using True renumber_facts(1,2) [OF sub]
    by (simp add: written_def Let_def)
next
  case False
  then show ?thesis by (simp add: reorder_cases [OF assms] refused_def)
qed

text \<open>
  A reordering of an Epic whose entries have distinct identifiers is accepted exactly when
  it names every entry once; then the entries stand in the requested order, are numbered from 0 and
  are otherwise the same, and the version grows by one.
\<close>

theorem reorder_is_a_permutation:
  assumes "distinct (map entryId (xe_entries e))"
  shows "case reorder env ids e of
      Inl f \<Rightarrow> mset ids \<noteq> mset (map entryId (xe_entries e))
    | Inr (v, ch, e') \<Rightarrow> ch \<and> map entryId (xe_entries e') = ids \<and> map entryOrder (xe_entries e') = map int [0..<length ids] \<and>
        mset (map (withOrder 0) (xe_entries e')) = mset (map (withOrder 0) (xe_entries e)) \<and>
        xe_version e' = xe_version e + 1"
  using assms by (rule reorder_permutes)

end
