(* ===== verification/Epic_Runs.thy ===== *)
theory Epic_Runs
  imports Epic_Facts
begin

text \<open>
  Runs of the Epic store.  An abstract transition system on the store (\<open>epic_effect\<close>: nothing, a
  creation, one new version of an open Epic, the retired record, its retirement) is implemented by
  every operation in every environment; the invariants and the properties of runs follow from it.
\<close>

subsection \<open>Operations\<close>

datatype epic_op =
    OpCreate string string string "epic_scope option"
  | OpUpdate string update_input "nat option"
  | OpScope string "epic_scope option" nat
  | OpMerge string merged_into nat
  | OpAddShell string shell_input
  | OpPromote string string string string
  | OpLink string link_input
  | OpRetarget string retarget_input
  | OpUnlink string string
  | OpMembership string string membership_status
  | OpTerminal string string terminal_summary
  | OpReorder string "string list" nat
  | OpRetire string nat string string bool

fun performEpicOp :: "epic_env \<Rightarrow> epic_op \<Rightarrow> epic_store \<Rightarrow> epic_store" where
  "performEpicOp env (OpCreate n title narrative scope) s = snd (createEpic env n title narrative scope s)"
| "performEpicOp env (OpUpdate n i x) s = snd (mutateEpic env n x (updateEpic env i) s)"
| "performEpicOp env (OpScope n sc x) s = snd (mutateEpic env n (Some x) (updateScope env sc) s)"
| "performEpicOp env (OpMerge n m x) s = snd (mutateEpic env n (Some x) (markMerged env m) s)"
| "performEpicOp env (OpAddShell n i) s = snd (mutateEpic env n None (addShell env i) s)"
| "performEpicOp env (OpPromote n k c who) s = snd (mutateEpic env n None (promoteShell env k c who) s)"
| "performEpicOp env (OpLink n i) s = snd (mutateEpic env n None (linkChange env i) s)"
| "performEpicOp env (OpRetarget n i) s = snd (mutateEpic env n None (retargetChange env i) s)"
| "performEpicOp env (OpUnlink n k) s = snd (mutateEpic env n None (unlinkChange env k) s)"
| "performEpicOp env (OpMembership n k m) s = snd (mutateEpic env n None (setEntryMembershipStatus env k m) s)"
| "performEpicOp env (OpTerminal n k t) s = snd (mutateEpic env n None (setEntryTerminalSummary env k t) s)"
| "performEpicOp env (OpReorder n ids x) s = snd (mutateEpic env n (Some x) (reorder env ids) s)"
| "performEpicOp env (OpRetire n x evidence who dryRun) s = snd (retireEpic env n x evidence who dryRun s)"

inductive epic_run :: "(epic_store \<Rightarrow> epic_op \<Rightarrow> bool) \<Rightarrow> epic_store \<Rightarrow> epic_store \<Rightarrow> bool"
  for allowed s where
  run_none: "epic_run allowed s s"
| run_op: "epic_run allowed s t \<Longrightarrow> allowed t x \<Longrightarrow> epic_run allowed s (performEpicOp env x t)"

definition anyOp :: "epic_store \<Rightarrow> epic_op \<Rightarrow> bool" where
  "anyOp s x = True"

definition emptyStore :: epic_store where
  "emptyStore = \<lparr>ef_active = (\<lambda>_. None), ef_retired = (\<lambda>_. None)\<rparr>"

subsection \<open>The abstract system\<close>

definition completedEpic :: "epic \<Rightarrow> bool" where
  "completedEpic e \<longleftrightarrow> pg_status (xe_progress e) = EpicCompleted \<and> list_all finished (xe_entries e)"

definition retiredOk :: "string \<Rightarrow> retired_epic document option \<Rightarrow> bool" where
  "retiredOk n d \<longleftrightarrow> (case d of
      Some (Document r) \<Rightarrow> xe_id (rt_snapshot r) = n \<and> validEpic (rt_snapshot r) \<and> shape (rt_snapshot r) \<and>
        completedEpic (rt_snapshot r) \<and> rt_source_version r = xe_version (rt_snapshot r) \<and> rt_status r = RetiredDone
    | Some Unreadable \<Rightarrow> False | None \<Rightarrow> True)"

definition storeOk :: "epic_store \<Rightarrow> bool" where
  "storeOk s \<longleftrightarrow> (\<forall>n. activeOk n (ef_active s n) \<and> retiredOk n (ef_retired s n))"

inductive epic_effect :: "epic_store \<Rightarrow> epic_store \<Rightarrow> bool" for s where
  effect_none: "epic_effect s s"
| effect_created: "ef_active s n = None \<Longrightarrow> ef_retired s n = None \<Longrightarrow>
    epic_effect s (s\<lparr>ef_active := (ef_active s)(n \<mapsto> Document (newEpic env n title narrative scope))\<rparr>)"
| effect_changed: "ef_active s n = Some (Document e) \<Longrightarrow> epicOpen e \<Longrightarrow> xe_id e' = n \<Longrightarrow> validEpic e' \<Longrightarrow> shape e' \<Longrightarrow>
    xe_version e' = Suc (xe_version e) \<Longrightarrow> epic_effect s (s\<lparr>ef_active := (ef_active s)(n \<mapsto> Document e')\<rparr>)"
| effect_recorded: "ef_active s n = Some (Document (rt_snapshot r)) \<Longrightarrow> retiredOk n (Some (Document r)) \<Longrightarrow>
    epic_effect s (s\<lparr>ef_retired := (ef_retired s)(n \<mapsto> Document r)\<rparr>)"
| effect_retired: "ef_active s n = Some (Document (rt_snapshot r)) \<Longrightarrow> retiredOk n (Some (Document r)) \<Longrightarrow>
    epic_effect s (s\<lparr>ef_retired := (ef_retired s)(n \<mapsto> Document r), ef_active := (ef_active s)(n := None)\<rparr>)"

inductive_cases epic_effectE: "epic_effect s t"

lemma storeOk_active: "storeOk s \<Longrightarrow> ef_active s n = Some (Document e) \<Longrightarrow> xe_id e = n \<and> validEpic e \<and> shape e"
  unfolding storeOk_def by (drule spec [of _ n]) (simp add: activeOk_def)

lemma storeOk_readable: "storeOk s \<Longrightarrow> ef_active s n \<noteq> Some Unreadable \<and> ef_retired s n \<noteq> Some Unreadable"
  unfolding storeOk_def by (drule spec [of _ n]) (auto simp: activeOk_def retiredOk_def)

lemma newEpic_ok: "activeOk n (Some (Document (newEpic env n title narrative scope)))"
  by (simp add: activeOk_def newEpic_def validEpic_def shape_def progressOk_def localNextEntryId_def)

text \<open>A mutation by a transition that meets the contract has one of the first and the third effect.\<close>

context epic_transition begin

lemma mutate_effect:
  assumes "storeOk s"
  shows "epic_effect s (snd (mutateEpic env n expected step s))"
proof -
  obtain out s' where m: "mutateEpic env n expected step s = (out, s')" by fastforce
  have id: "\<And>e. ef_active s n = Some (Document e) \<Longrightarrow> xe_id e = n" using storeOk_active [OF assms] by blast
  have "s' = s \<or> (\<exists>e v e'. ef_active s n = Some (Document e) \<and> epicOpen e \<and> validEpic e' \<and>
      (expected = None \<or> expected = Some (xe_version e)) \<and> step e = Inr (v, True, e') \<and> out = Inr v \<and>
      s' = s\<lparr>ef_active := (ef_active s)(n \<mapsto> Document e')\<rparr>)"
    by (rule mutate_cases [OF _ m]) (rule id)
  then show ?thesis
  proof
    assume "s' = s"
    then show ?thesis using m effect_none by simp
  next
    assume "\<exists>e v e'. ef_active s n = Some (Document e) \<and> epicOpen e \<and> validEpic e' \<and>
      (expected = None \<or> expected = Some (xe_version e)) \<and> step e = Inr (v, True, e') \<and> out = Inr v \<and>
      s' = s\<lparr>ef_active := (ef_active s)(n \<mapsto> Document e')\<rparr>"
    then obtain e v e' where a: "ef_active s n = Some (Document e)"
      and rest: "epicOpen e" "validEpic e'" "step e = Inr (v, True, e')"
        "s' = s\<lparr>ef_active := (ef_active s)(n \<mapsto> Document e')\<rparr>" by blast
    have "shape e" "xe_id e = n" using storeOk_active [OF assms a] by auto
    then show ?thesis
      using m a rest keeps_id [OF rest(3)] keeps_shape [OF _ rest(1,3)] bumps [OF rest(3)]
      by (auto intro: effect_changed)
  qed
qed

end

lemma create_effect:
  assumes "storeOk s"
  shows "epic_effect s (snd (createEpic env n title narrative scope s))"
  using effect_none effect_created [of s n env title narrative scope]
  by (auto simp: createEpic_def withEpicLock_def loadActive_def loadRetired_def saveActive_def
      split: if_splits option.splits document.splits sum.splits) (auto simp: newEpic_def validEpic_def)

lemma retire_effect:
  assumes "storeOk s"
  shows "epic_effect s (snd (retireEpic env n x evidence who dryRun s))"
proof (cases "ef_active s n")
  case None
  then show ?thesis
    by (simp add: retireEpic_def withEpicLock_def loadActiveRequired_def loadActive_def effect_none)
next
  case (Some d)
  then obtain e where a: "ef_active s n = Some (Document e)"
    using storeOk_readable [OF assms, of n] by (cases d) auto
  note e = storeOk_active [OF assms a]
  let ?r = "retirement env n who evidence dryRun e"
  have r: "rt_snapshot ?r = e" "completedEpic e \<Longrightarrow> \<not> dryRun \<Longrightarrow> retiredOk n (Some (Document ?r))"
    using e by (simp_all add: retirement_def retiredOk_def)
  show ?thesis
    using a e r effect_none [of s] effect_recorded [of s n ?r] effect_retired [of s n ?r]
    by (auto simp: retireEpic_def withEpicLock_def loadActiveRequired_def loadActive_def loadRetired_def Let_def
        completedEpic_def)
qed

lemma op_effect_ok:
  assumes "storeOk s"
  shows op_effect: "epic_effect s (performEpicOp env x s)"
    and op_ok: "storeOk (performEpicOp env x s)"
proof -
  show eff: "epic_effect s (performEpicOp env x s)"
    by (cases x)
      (simp_all add: create_effect retire_effect assms update_step.mutate_effect scope_step.mutate_effect
        merge_step.mutate_effect shell_step.mutate_effect promote_step.mutate_effect link_step.mutate_effect
        retarget_step.mutate_effect unlink_step.mutate_effect membership_step.mutate_effect
        terminal_step.mutate_effect reorder_step.mutate_effect)
  then show "storeOk (performEpicOp env x s)"
    using assms newEpic_ok by cases (auto simp: storeOk_def activeOk_def retiredOk_def)
qed

text \<open>
  Claim C16. The store implements the abstract system: from a store whose records all load, carry
  the name of their directory and have the shape of an Epic, every operation in every environment
  (lock refused, write or removal failing, stale version, rejected input) has one of its five effects.
\<close>

theorem epic_operations_implement_effects:
  assumes "storeOk s"
  shows "epic_effect s (performEpicOp env x s) \<and> storeOk (performEpicOp env x s)"
  by (intro conjI op_effect op_ok assms)

subsection \<open>Runs\<close>

lemma run_ok: "epic_run allowed s t \<Longrightarrow> storeOk s \<Longrightarrow> storeOk t"
  by (induction rule: epic_run.induct) (simp_all add: op_ok)

definition superseded :: "string \<Rightarrow> epic \<Rightarrow> epic_store \<Rightarrow> bool" where
  "superseded n e t \<longleftrightarrow>
     (case ef_active t n of
        Some (Document e') \<Rightarrow> e' = e \<or> xe_version e < xe_version e'
      | Some Unreadable \<Rightarrow> False
      | None \<Rightarrow> ef_retired t n \<noteq> None)"

lemma run_supersedes:
  assumes "epic_run allowed s t" "storeOk s" "ef_active s n = Some (Document e)"
  shows "superseded n e t"
  using assms
proof (induction rule: epic_run.induct)
  case run_none
  then show ?case by (simp add: superseded_def)
next
  case (run_op t x env)
  then have "epic_effect t (performEpicOp env x t)" "superseded n e t"
    using op_effect run_ok by blast+
  then show ?case
    by cases (auto simp: superseded_def split: option.splits document.splits if_splits)
qed

lemma merged_not_completed: "shape e \<Longrightarrow> xe_merged_into e \<noteq> None \<Longrightarrow> \<not> completedEpic e"
  by (simp add: shape_def progressOk_def Let_def completedEpic_def)

lemma emptyStore_ok: "storeOk emptyStore"
  by (simp add: storeOk_def emptyStore_def activeOk_def retiredOk_def)

text \<open>
  Claim C17. Every Epic reached from an empty store by any operations carries the name of its
  directory and entries with distinct identifiers, and its progress summary is the one its entries
  give: the counts, the status (merged, completed, active) and the recommended next entry.
\<close>

theorem reachable_epics_keep_shape:
  assumes "epic_run anyOp emptyStore s" "ef_active s n = Some (Document e)"
  shows "xe_id e = n \<and> validEpic e \<and> distinct (map entryId (xe_entries e)) \<and>
    pg_total (xe_progress e) = length (xe_entries e) \<and>
    pg_completed (xe_progress e) = length (filter finished (xe_entries e)) \<and>
    pg_active (xe_progress e) = length (filter inFlight (xe_entries e)) \<and>
    pg_status (xe_progress e) = (if xe_merged_into e \<noteq> None then EpicMerged
      else if xe_entries e \<noteq> [] \<and> list_all finished (xe_entries e) then EpicCompleted else EpicActive) \<and>
    pg_next (xe_progress e) = (if xe_merged_into e \<noteq> None then None else localNextEntryId (xe_entries e))"
  using storeOk_active [OF run_ok [OF assms(1) emptyStore_ok] assms(2)]
  by (simp add: shape_def progressOk_def Let_def)

text \<open>
  Claim C18. Merged Epics are frozen and retired ones final: along any run an Epic that has been merged
  keeps its record, and once the record of a retired Epic is gone, it stays gone, its retired record
  stays, and its identifier is never used again.
\<close>

theorem merged_and_retired_are_final:
  assumes "epic_run allowed s t" "storeOk s"
  shows "(ef_active s n = None \<and> ef_retired s n \<noteq> None \<longrightarrow> ef_active t n = None \<and> ef_retired t n = ef_retired s n) \<and>
    (\<forall>e. ef_active s n = Some (Document e) \<and> xe_merged_into e \<noteq> None \<longrightarrow> ef_active t n = Some (Document e))"
  using assms
proof (induction rule: epic_run.induct)
  case run_none
  then show ?case by simp
next
  case (run_op t x env)
  have ok: "storeOk t" using run_op.hyps(1) run_op.prems by (rule run_ok)
  have frozen: "\<not> epicOpen e \<and> \<not> completedEpic e" if "ef_active t n = Some (Document e)" "xe_merged_into e \<noteq> None" for e
    using that merged_not_completed storeOk_active [OF ok that(1)] by (auto simp: epicOpen_def)
  from op_effect [OF ok, of env x] show ?case
  proof cases
    case effect_recorded
    with run_op frozen show ?thesis by (auto simp: retiredOk_def)
  next
    case (effect_retired m r)
    then have "shape (rt_snapshot r)" "completedEpic (rt_snapshot r)" "ef_active t m \<noteq> None"
      by (auto simp: retiredOk_def)
    moreover from this have "xe_merged_into (rt_snapshot r) = None" using merged_not_completed by blast
    ultimately have "xe_merged_into (rt_snapshot r) = None" "ef_active t m \<noteq> None" by blast+
    with run_op effect_retired show ?thesis by auto
  qed (use run_op frozen in auto)
qed

text \<open>
  Claim C19. No lost update: when an operation that names the version it has seen is accepted, the
  record is still the one that carried this version, whatever has run in between.
\<close>

theorem version_detects_lost_updates:
  assumes "epic_run allowed s t" "storeOk s" "ef_active s n = Some (Document e)"
    and "mutateEpic env n (Some (xe_version e)) step t = (Inr v, t')"
  shows "ef_active t n = Some (Document e)"
proof -
  obtain e' where "ef_active t n = Some (Document e')" "xe_version e' = xe_version e"
    using assms(4)
    by (auto simp: mutateEpic_def withEpicLock_def loadActiveRequired_def loadActive_def
        split: if_splits option.splits document.splits sum.splits)
  with run_supersedes [OF assms(1-3)] show ?thesis by (auto simp: superseded_def)
qed

subsection \<open>The next entry\<close>

text \<open>
  The recommended entry: there is none exactly when no entry can be worked on; otherwise
  it is one that can, and none that can has a smaller order.  A linked change can be worked on until
  it is finished; a shell when every prerequisite is an entry with that identifier that is finished.
\<close>

theorem next_entry_is_first_workable:
  "case localNextEntryId es of
     None \<Rightarrow> filter (workable (entriesById es)) es = []
   | Some n \<Rightarrow> \<exists>x \<in> set es. entryId x = n \<and> workable (entriesById es) x \<and>
       Min (entryOrder ` set (filter (workable (entriesById es)) es)) = entryOrder x"
proof (cases "List.find (workable (entriesById es)) (js_sort (by_number entryOrder) es)")
  case None
  then have "filter (workable (entriesById es)) es = []" by (auto simp: find_None_iff filter_empty_conv)
  with None show ?thesis by (simp add: localNextEntryId_def)
next
  case (Some x)
  let ?w = "workable (entriesById es)" and ?s = "js_sort (by_number entryOrder) es"
  obtain i where i: "i < length ?s" "?w (?s ! i)" "x = ?s ! i" "\<forall>j < i. \<not> ?w (?s ! j)"
    using Some by (auto simp: find_Some_iff)
  have x: "x \<in> set es" "?w x" using find_Some_mem [OF Some] by auto
  have "entryOrder x \<le> entryOrder y" if y: "y \<in> set es" "?w y" for y
  proof -
    obtain j where j: "j < length ?s" "?s ! j = y" using y(1) by (metis in_set_conv_nth set_js_sort)
    then have "i \<le> j" using i(4) y(2) by (meson not_le_imp_less)
    moreover have "sorted (map entryOrder ?s)" by (rule sorted_by_number)
    ultimately show ?thesis using sorted_nth_mono [of "map entryOrder ?s" i j] i j by simp
  qed
  then have "Min (entryOrder ` set (filter ?w es)) = entryOrder x" using x by (intro Min_eqI) auto
  with x Some show ?thesis by (auto simp: localNextEntryId_def)
qed

end
