(* ===== verification/Epic_Links.thy ===== *)
theory Epic_Links
  imports Epic_Runs
begin

text \<open>
  The changes an Epic links.  All transitions but the promotion of a shell check or keep that no
  change is linked by two entries; the locale \<open>link_keeping\<close> extends the contract of a transition by
  that law.  Concrete runs close the file.
\<close>

subsection \<open>Linked changes\<close>

definition linkOf :: "epic_entry \<Rightarrow> string list" where
  "linkOf x = (case entryChangeId x of Some c \<Rightarrow> [c] | None \<Rightarrow> [])"

definition linkedChanges :: "epic_entry list \<Rightarrow> string list" where
  "linkedChanges es = concat (map linkOf es)"

lemma set_linkedChanges: "c \<in> set (linkedChanges es) \<longleftrightarrow> (\<exists>x \<in> set es. entryChangeId x = Some c)"
  by (force simp: linkedChanges_def linkOf_def split: option.splits)

lemma linkedChanges_simps [simp]:
  "linkedChanges [] = []" "linkedChanges (x # xs) = linkOf x @ linkedChanges xs"
  "linkedChanges (xs @ ys) = linkedChanges xs @ linkedChanges ys"
  by (simp_all add: linkedChanges_def)

lemma distinct_linkOf [simp]: "distinct (linkOf x)"
  by (simp add: linkOf_def split: option.split)

lemma linkedChanges_update:
  assumes "distinct (linkedChanges es)" "k < length es"
    and "\<And>c x. entryChangeId y = Some c \<Longrightarrow> x \<in> set (take k es) \<union> set (drop (Suc k) es) \<Longrightarrow> entryChangeId x \<noteq> Some c"
  shows "distinct (linkedChanges (es[k := y]))"
proof -
  have split: "es = take k es @ es ! k # drop (Suc k) es" using assms(2) by (rule id_take_nth_drop)
  have "distinct (linkedChanges (take k es @ es ! k # drop (Suc k) es))" using assms(1) split by simp
  moreover have "set (linkOf y) \<inter> set (linkedChanges (take k es @ drop (Suc k) es)) = {}"
  proof (rule ccontr)
    assume "\<not> ?thesis"
    then obtain c where "c \<in> set (linkOf y)" "c \<in> set (linkedChanges (take k es @ drop (Suc k) es))" by blast
    then obtain x where "entryChangeId y = Some c" "x \<in> set (take k es) \<union> set (drop (Suc k) es)" "entryChangeId x = Some c"
      unfolding set_linkedChanges by (auto simp: linkOf_def split: option.splits)
    with assms(3) show False by blast
  qed
  ultimately show ?thesis unfolding upd_conv_take_nth_drop [OF assms(2)] by auto
qed

lemma others_differ:
  assumes "distinct (map entryId es)" "k < length es" "x \<in> set (take k es) \<union> set (drop (Suc k) es)"
  shows "x \<in> set es \<and> entryId x \<noteq> entryId (es ! k)"
proof -
  have "map entryId es = map entryId (take k es) @ entryId (es ! k) # map entryId (drop (Suc k) es)"
    by (subst id_take_nth_drop [OF assms(2)]) simp
  with assms(1) have "entryId (es ! k) \<notin> entryId ` (set (take k es) \<union> set (drop (Suc k) es))" by auto
  with assms(3) show ?thesis by (metis UnE image_eqI in_set_dropD in_set_takeD)
qed

locale link_keeping = epic_transition step for step :: "epic \<Rightarrow> 'a epic_step" +
  assumes keeps_links: "shape e \<Longrightarrow> epicOpen e \<Longrightarrow> distinct (linkedChanges (xe_entries e)) \<Longrightarrow>
    step e = Inr (v, True, e') \<Longrightarrow> distinct (linkedChanges (xe_entries e'))"

definition linksUnique :: "epic_store \<Rightarrow> bool" where
  "linksUnique s \<longleftrightarrow> (\<forall>n e. ef_active s n = Some (Document e) \<longrightarrow> distinct (linkedChanges (xe_entries e)))"

context link_keeping begin

lemma mutate_links:
  assumes "storeOk s" "linksUnique s"
  shows "linksUnique (snd (mutateEpic env n expected step s))"
proof -
  obtain out s' where m: "mutateEpic env n expected step s = (out, s')" by fastforce
  have "s' = s \<or> (\<exists>e v e'. ef_active s n = Some (Document e) \<and> epicOpen e \<and> validEpic e' \<and>
      (expected = None \<or> expected = Some (xe_version e)) \<and> step e = Inr (v, True, e') \<and> out = Inr v \<and>
      s' = s\<lparr>ef_active := (ef_active s)(n \<mapsto> Document e')\<rparr>)"
    by (rule mutate_cases [OF _ m]) (use storeOk_active [OF assms(1)] in blast)
  then show ?thesis
  proof
    assume "s' = s"
    with m assms(2) show ?thesis by simp
  next
    assume "\<exists>e v e'. ef_active s n = Some (Document e) \<and> epicOpen e \<and> validEpic e' \<and>
      (expected = None \<or> expected = Some (xe_version e)) \<and> step e = Inr (v, True, e') \<and> out = Inr v \<and>
      s' = s\<lparr>ef_active := (ef_active s)(n \<mapsto> Document e')\<rparr>"
    then obtain e v e' where e: "ef_active s n = Some (Document e)" "epicOpen e" "step e = Inr (v, True, e')"
      and s': "s' = s\<lparr>ef_active := (ef_active s)(n \<mapsto> Document e')\<rparr>" by blast
    have "distinct (linkedChanges (xe_entries e'))"
      using keeps_links [OF _ e(2) _ e(3)] storeOk_active [OF assms(1) e(1)] assms(2) e(1) by (simp add: linksUnique_def)
    with m s' assms(2) show ?thesis by (simp add: linksUnique_def)
  qed
qed

end

lemma link_keeping_intro:
  assumes "epic_transition step"
    and "\<And>e v e'. shape e \<Longrightarrow> distinct (linkedChanges (xe_entries e)) \<Longrightarrow> step e = Inr (v, True, e') \<Longrightarrow>
      distinct (linkedChanges (xe_entries e'))"
  shows "link_keeping step"
  using assms by (intro link_keeping.intro link_keeping_axioms.intro)

interpretation update_links: link_keeping "updateEpic env i" for env i
  by (intro link_keeping_intro update_step.epic_transition_axioms) (auto simp: updateEpic_def written_iff)

interpretation scope_links: link_keeping "updateScope env sc" for env sc
  by (intro link_keeping_intro scope_step.epic_transition_axioms) (auto simp: updateScope_def written_iff)

interpretation merge_links: link_keeping "markMerged env m" for env m
  by (intro link_keeping_intro merge_step.epic_transition_axioms) (auto simp: markMerged_def written_iff split: if_splits)

interpretation shell_links: link_keeping "addShell env i" for env i
  by (intro link_keeping_intro shell_step.epic_transition_axioms)
    (auto simp: addShell_def Let_def written_iff linkOf_def split: if_splits)

interpretation link_links: link_keeping "linkChange env i" for env i
proof (intro link_keeping_intro link_step.epic_transition_axioms)
  fix e v e'
  assume "distinct (linkedChanges (xe_entries e))" "linkChange env i e = Inr (v, True, e')"
  then show "distinct (linkedChanges (xe_entries e'))"
    unfolding linkChange_iff Let_def by (auto simp: linkOf_def set_linkedChanges)
qed

interpretation unlink_links: link_keeping "unlinkChange env k" for env k
proof (intro link_keeping_intro unlink_step.epic_transition_axioms)
  fix e v e'
  assume d: "distinct (linkedChanges (xe_entries e))" and s: "unlinkChange env k e = Inr (v, True, e')"
  obtain i where i: "findIndex (\<lambda>x. entryId x = k) (xe_entries e) = Some i"
    "xe_entries e' = take i (xe_entries e) @ drop (Suc i) (xe_entries e)"
    using s by (auto simp: unlinkChange_def unchanged_iff written_iff split: option.splits)
  have "linkedChanges (xe_entries e) = linkedChanges (take i (xe_entries e) @ xe_entries e ! i # drop (Suc i) (xe_entries e))"
    using findIndex_Some [OF i(1)] by (simp add: id_take_nth_drop [symmetric])
  with d show "distinct (linkedChanges (xe_entries e'))" unfolding i(2) by auto
qed

interpretation retarget_links: link_keeping "retargetChange env i" for env i
proof (intro link_keeping_intro retarget_step.epic_transition_axioms)
  fix e v e'
  assume sh: "shape e" and d: "distinct (linkedChanges (xe_entries e))" and s: "retargetChange env i e = Inr (v, True, e')"
  obtain k h where k: "findIndex (\<lambda>x. entryId x = ri_entryId i) (xe_entries e) = Some k" "xe_entries e ! k = Linked h"
    and free: "\<forall>x \<in> set (xe_entries e). entryId x \<noteq> ri_entryId i \<longrightarrow> entryChangeId x \<noteq> Some (ri_to i)"
    and e': "xe_entries e' = (xe_entries e)[k := retargeted env i h]"
    using s by (auto simp: retargetChange_def Let_def unchanged_iff written_iff list_ex_iff
        split: option.splits epic_entry.splits if_splits)
  note i = findIndex_Some [OF k(1)]
  have "entryChangeId (retargeted env i h) = Some (ri_to i)"
    using oneRef_nth [OF sh, of k] i k(2) by simp
  moreover have "entryChangeId x \<noteq> Some (ri_to i)"
    if "x \<in> set (take k (xe_entries e)) \<union> set (drop (Suc k) (xe_entries e))" for x
    using others_differ [OF _ _ that] sh i free by (auto simp: shape_def)
  ultimately show "distinct (linkedChanges (xe_entries e'))"
    unfolding e' using d i by (intro linkedChanges_update) auto
qed

lemma changeEntryAt_links:
  assumes "epic_transition (changeEntryAt env n f)" "\<And>h. entryChangeId (Linked (f h)) = entryChangeId (Linked h)"
  shows "link_keeping (changeEntryAt env n f)"
proof (intro link_keeping_intro assms(1))
  fix e v e'
  assume d: "distinct (linkedChanges (xe_entries e))" and s: "changeEntryAt env n f e = Inr (v, True, e')"
  obtain k h where k: "findIndex (\<lambda>x. entryId x = n) (xe_entries e) = Some k" "xe_entries e ! k = Linked h"
    and e': "xe_entries e' = (xe_entries e)[k := Linked (f h)]"
    using s by (auto simp: changeEntryAt_def written_iff split: option.splits epic_entry.splits)
  have "map linkOf (xe_entries e') = map linkOf (xe_entries e)"
    unfolding e' map_update
    using findIndex_Some [OF k(1)] k(2) assms(2) by (intro nth_equalityI) (auto simp: linkOf_def nth_list_update)
  with d show "distinct (linkedChanges (xe_entries e'))" by (simp add: linkedChanges_def)
qed

interpretation membership_links: link_keeping "setEntryMembershipStatus env n m" for env n m
  using membership_step.epic_transition_axioms [of env n m]
  unfolding setEntryMembershipStatus_def by (rule changeEntryAt_links) (simp split: option.split)

interpretation terminal_links: link_keeping "setEntryTerminalSummary env n t" for env n t
  using terminal_step.epic_transition_axioms [of env n t]
  unfolding setEntryTerminalSummary_def by (rule changeEntryAt_links) (simp split: option.split)

lemma mset_linkedChanges: "mset (linkedChanges es) = \<Sum>\<^sub># (image_mset (mset \<circ> linkOf) (mset es))"
  by (induction es) simp_all

interpretation reorder_links: link_keeping "reorder env ids" for env ids
proof (intro link_keeping_intro reorder_step.epic_transition_axioms)
  fix e v e'
  assume sh: "shape e" and d: "distinct (linkedChanges (xe_entries e))" and s: "reorder env ids e = Inr (v, True, e')"
  have "distinct (map entryId (xe_entries e))" using sh by (simp add: shape_def)
  from reorder_permutes [OF this, where env = env and ids = ids] s
  have p: "mset (map (withOrder 0) (xe_entries e')) = mset (map (withOrder 0) (xe_entries e))" by simp
  have l: "linkedChanges (map (withOrder 0) es) = linkedChanges es" for es
    by (induction es) (simp_all add: linkOf_def)
  have "mset (linkedChanges (xe_entries e')) = mset (linkedChanges (xe_entries e))"
    using p by (metis l mset_linkedChanges)
  with d show "distinct (linkedChanges (xe_entries e'))" by (metis mset_eq_imp_distinct_iff)
qed

subsection \<open>Runs\<close>

text \<open>A promotion names a change that the Epic does not link yet.\<close>

definition freshPromotion :: "epic_store \<Rightarrow> epic_op \<Rightarrow> bool" where
  "freshPromotion t x =
     (case x of
        OpPromote n k c who \<Rightarrow>
          (case ef_active t n of Some (Document e) \<Rightarrow> c \<notin> set (linkedChanges (xe_entries e)) | _ \<Rightarrow> True)
      | _ \<Rightarrow> True)"

lemma promotion_links:
  assumes "storeOk t" "linksUnique t" "freshPromotion t (OpPromote n k c who)"
  shows "linksUnique (snd (mutateEpic env n expected (promoteShell env k c who) t))"
proof -
  obtain out t' where m: "mutateEpic env n expected (promoteShell env k c who) t = (out, t')" by fastforce
  have "t' = t \<or> (\<exists>e v e'. ef_active t n = Some (Document e) \<and> epicOpen e \<and> validEpic e' \<and>
      (expected = None \<or> expected = Some (xe_version e)) \<and> promoteShell env k c who e = Inr (v, True, e') \<and> out = Inr v \<and>
      t' = t\<lparr>ef_active := (ef_active t)(n \<mapsto> Document e')\<rparr>)"
    by (rule promote_step.mutate_cases [OF _ m]) (use storeOk_active [OF assms(1)] in blast)
  then show ?thesis
  proof
    assume "t' = t"
    with m assms(2) show ?thesis by simp
  next
    assume "\<exists>e v e'. ef_active t n = Some (Document e) \<and> epicOpen e \<and> validEpic e' \<and>
      (expected = None \<or> expected = Some (xe_version e)) \<and> promoteShell env k c who e = Inr (v, True, e') \<and> out = Inr v \<and>
      t' = t\<lparr>ef_active := (ef_active t)(n \<mapsto> Document e')\<rparr>"
    then obtain e v e' where e: "ef_active t n = Some (Document e)" "promoteShell env k c who e = Inr (v, True, e')"
      and t': "t' = t\<lparr>ef_active := (ef_active t)(n \<mapsto> Document e')\<rparr>" by blast
    obtain j x where j: "findIndex (\<lambda>y. entryId y = k) (xe_entries e) = Some j"
      and e': "xe_entries e' = (xe_entries e)[j := promotion env c who x]"
      using e(2) by (auto simp: promoteShell_def unchanged_iff written_iff split: option.splits epic_entry.splits if_splits)
    have c: "c \<notin> set (linkedChanges (xe_entries e))" using assms(3) e(1) by (simp add: freshPromotion_def)
    have "distinct (linkedChanges (xe_entries e'))"
      unfolding e'
    proof (rule linkedChanges_update)
      show "distinct (linkedChanges (xe_entries e))" using assms(2) e(1) by (simp add: linksUnique_def)
      show "j < length (xe_entries e)" using findIndex_Some [OF j] by simp
    next
      fix c' y
      assume "entryChangeId (promotion env c who x) = Some c'"
        and y: "y \<in> set (take j (xe_entries e)) \<union> set (drop (Suc j) (xe_entries e))"
      then have "c' = c" "y \<in> set (xe_entries e)" by (auto simp: promotion_def dest: in_set_takeD in_set_dropD)
      with c show "entryChangeId y \<noteq> Some c'" by (auto simp: set_linkedChanges)
    qed
    with m t' assms(2) show ?thesis by (simp add: linksUnique_def)
  qed
qed

lemma op_keeps_links:
  assumes "storeOk t" "linksUnique t" "freshPromotion t x"
  shows "linksUnique (performEpicOp env x t)"
proof (cases x)
  case (OpCreate n title narrative scope)
  have "performEpicOp env x t = t \<or>
      performEpicOp env x t = t\<lparr>ef_active := (ef_active t)(n \<mapsto> Document (newEpic env n title narrative scope))\<rparr>"
    unfolding OpCreate
    by (auto simp: createEpic_def withEpicLock_def saveActive_def newEpic_def
        split: if_splits option.splits sum.splits)
  then show ?thesis using assms(2) by (auto simp: linksUnique_def newEpic_def split: if_splits)
next
  case (OpRetire n y evidence who dryRun)
  have "ef_active (performEpicOp env x t) m = ef_active t m \<or> ef_active (performEpicOp env x t) m = None" for m
    unfolding OpRetire
    by (auto simp: retireEpic_def withEpicLock_def Let_def split: if_splits option.splits sum.splits)
  then show ?thesis using assms(2) unfolding linksUnique_def by (metis option.distinct(1))
next
  case (OpPromote n k c who)
  then show ?thesis using promotion_links [OF assms(1,2)] assms(3) by simp
qed (simp_all add: assms update_links.mutate_links scope_links.mutate_links merge_links.mutate_links
    shell_links.mutate_links link_links.mutate_links retarget_links.mutate_links unlink_links.mutate_links
    membership_links.mutate_links terminal_links.mutate_links reorder_links.mutate_links)

text \<open>
  Claim C20. Along any run from an empty store in which every promotion names a change its Epic does not
  link yet, no Epic links a change twice.
\<close>

theorem links_stay_unique:
  assumes "epic_run freshPromotion emptyStore s" "ef_active s n = Some (Document e)"
  shows "distinct (linkedChanges (xe_entries e))"
proof -
  have "storeOk s \<and> linksUnique s"
    using assms(1)
  proof (induction rule: epic_run.induct)
    case run_none
    show ?case using emptyStore_ok by (simp add: linksUnique_def) (simp add: emptyStore_def)
  next
    case (run_op t x env)
    then show ?case using op_keeps_links op_ok by blast
  qed
  with assms(2) show ?thesis by (simp add: linksUnique_def)
qed

subsection \<open>Concrete runs\<close>

definition ex_epic_env :: epic_env where
  "ex_epic_env = \<lparr>ee_activeDir = True, ee_retiredDir = True, ee_lock = True, ee_write = True, ee_remove = True,
     ee_newId = (\<lambda>p. p @ ''-1''), ee_time = ''t1'', ee_updated = ''t1'', ee_progress = ''t1''\<rparr>"

definition ex_link :: "string \<Rightarrow> link_input" where
  "ex_link c = \<lparr>li_entryId = Some (''e-'' @ c), li_changeId = c, li_title = ''Change'', li_order = None, li_linkedAt = None,
     li_membership = None, li_terminal = None, li_linkedBy = None, li_linkEvidence = None, li_projectId = None,
     li_repoId = None, li_targetPath = None\<rparr>"

definition ex_shell :: shell_input where
  "ex_shell = \<lparr>si_entryId = Some ''s1'', si_title = ''Shell'', si_successHint = ''hint'', si_order = None,
     si_importedFrom = None, si_blockedBy = None, si_contextPacket = None\<rparr>"

fun performAll :: "epic_op list \<Rightarrow> epic_store \<Rightarrow> epic_store" where
  "performAll [] s = s"
| "performAll (x # xs) s = performAll xs (performEpicOp ex_epic_env x s)"

fun allAllowed :: "(epic_store \<Rightarrow> epic_op \<Rightarrow> bool) \<Rightarrow> epic_op list \<Rightarrow> epic_store \<Rightarrow> bool" where
  "allAllowed P [] s = True"
| "allAllowed P (x # xs) s = (P s x \<and> allAllowed P xs (performEpicOp ex_epic_env x s))"

lemma performAll_run: "epic_run P s t \<Longrightarrow> allAllowed P xs t \<Longrightarrow> epic_run P s (performAll xs t)"
  by (induction xs arbitrary: t) (auto intro: run_op)

definition ex_ops :: "epic_op list" where
  "ex_ops = [OpCreate ''E'' ''Epic'' ''why'' None, OpAddShell ''E'' ex_shell, OpLink ''E'' (ex_link ''c1'')]"

definition ex_store :: epic_store where
  "ex_store = performAll ex_ops emptyStore"

definition activeEpic :: "epic_store \<Rightarrow> string \<Rightarrow> epic option" where
  "activeEpic s n = (case ef_active s n of Some (Document e) \<Rightarrow> Some e | _ \<Rightarrow> None)"

lemma activeEpic_Some: "activeEpic s n = Some e \<Longrightarrow> ef_active s n = Some (Document e)"
  by (auto simp: activeEpic_def split: option.splits document.splits)

lemma ex_store_run: "allAllowed freshPromotion ex_ops emptyStore" "allAllowed anyOp ex_ops emptyStore"
  by code_simp+

text \<open>A promotion to a change that is linked already gives the Epic two entries for it.\<close>

lemma promotion_links_twice:
  "map_option (\<lambda>e. linkedChanges (xe_entries e)) (activeEpic (performEpicOp ex_epic_env (OpPromote ''E'' ''s1'' ''c1'' ''me'') ex_store) ''E'') =
     Some [''c1'', ''c1'']"
  by code_simp

lemma accepted_run: "allAllowed P xs emptyStore \<Longrightarrow> epic_run P emptyStore (performAll xs emptyStore)"
  by (rule performAll_run) (rule run_none)

lemma ex_active:
  obtains e where "ef_active ex_store ''E'' = Some (Document e)" "map entryId (xe_entries e) = [''s1'', ''e-c1'']"
    "xe_version e = 2" "linkedChanges (xe_entries e) = [''c1'']"
proof -
  have "map_option (\<lambda>e. (map entryId (xe_entries e), xe_version e, linkedChanges (xe_entries e))) (activeEpic ex_store ''E'') =
      Some ([''s1'', ''e-c1''], 2, [''c1''])" by code_simp
  then show thesis using that activeEpic_Some by (auto simp: map_option_case split: option.splits)
qed

theorem reorder_is_a_permutation_witness:
  "\<exists>e e'. map entryId (xe_entries e) = [''s1'', ''e-c1''] \<and> map entryId (xe_entries e') = [''e-c1'', ''s1''] \<and>
     map entryOrder (xe_entries e') = [0, 1] \<and> reorder ex_epic_env [''e-c1'', ''s1''] e = Inr (e', True, e')"
proof -
  obtain e :: epic where e: "map entryId (xe_entries e) = [''s1'', ''e-c1'']" by (rule ex_active) (rule that, assumption+)
  then have d: "distinct (map entryId (xe_entries e))" by simp
  have "mset [''e-c1'', ''s1''] = mset (map entryId (xe_entries e))" unfolding e by simp
  then obtain e' where r: "reorder ex_epic_env [''e-c1'', ''s1''] e = Inr (e', True, e')"
    unfolding reorder_cases [OF d] by (auto simp: written_def Let_def)
  have "map entryId (xe_entries e') = [''e-c1'', ''s1'']" "map entryOrder (xe_entries e') = map int [0..<2]"
    using reorder_is_a_permutation [OF d, where env = ex_epic_env and ids = "[''e-c1'', ''s1'']"]
    unfolding r by (simp_all del: map_eq_Cons_conv add: upt_rec)
  moreover have "map int [0..<2] = [0, 1]" by (simp add: upt_rec)
  ultimately have m: "map entryId (xe_entries e') = [''e-c1'', ''s1'']" "map entryOrder (xe_entries e') = [0, 1]" by metis+
  show ?thesis by (intro exI [of _ e] exI [of _ e'] conjI e m r)
qed

theorem epic_operations_implement_effects_witness:
  "epic_effect emptyStore (performEpicOp ex_epic_env (OpCreate ''E'' ''Epic'' ''why'' None) emptyStore) \<and>
   ef_active (performEpicOp ex_epic_env (OpCreate ''E'' ''Epic'' ''why'' None) emptyStore) ''E'' \<noteq> None"
proof -
  let ?s = "performEpicOp ex_epic_env (OpCreate ''E'' ''Epic'' ''why'' None) emptyStore"
  have "activeEpic ?s ''E'' \<noteq> None" by code_simp
  then have "ef_active ?s ''E'' \<noteq> None" unfolding activeEpic_def by (cases "ef_active ?s ''E''") simp_all
  moreover have "epic_effect emptyStore ?s" using epic_operations_implement_effects [OF emptyStore_ok] by (rule conjunct1)
  ultimately show ?thesis by (rule conjI [rotated])
qed

theorem reachable_epics_keep_shape_witness:
  "\<exists>e. ef_active ex_store ''E'' = Some (Document e) \<and> pg_total (xe_progress e) = 2 \<and> pg_active (xe_progress e) = 1"
proof -
  obtain e where e: "ef_active ex_store ''E'' = Some (Document e)" "map entryId (xe_entries e) = [''s1'', ''e-c1'']"
    by (rule ex_active) (rule that, assumption+)
  have run: "epic_run anyOp emptyStore ex_store" unfolding ex_store_def by (rule accepted_run) (rule ex_store_run)
  have "map_option (\<lambda>e. length (filter inFlight (xe_entries e))) (activeEpic ex_store ''E'') = Some 1" by code_simp
  moreover have "length (xe_entries e) = 2" using arg_cong [OF e(2), of length] by simp
  ultimately show ?thesis using reachable_epics_keep_shape [OF run e(1)] e(1) by (auto simp: activeEpic_def)
qed

theorem links_stay_unique_witness:
  "\<exists>e. ef_active ex_store ''E'' = Some (Document e) \<and> distinct (linkedChanges (xe_entries e)) \<and>
     linkedChanges (xe_entries e) \<noteq> []"
proof -
  obtain e where e: "ef_active ex_store ''E'' = Some (Document e)" "linkedChanges (xe_entries e) = [''c1'']"
    by (rule ex_active) (rule that, assumption+)
  have "epic_run freshPromotion emptyStore ex_store" unfolding ex_store_def by (rule accepted_run) (rule ex_store_run)
  from links_stay_unique [OF this e(1)] e show ?thesis by auto
qed

text \<open>The example Epic merged into another; then a rename of it is refused.\<close>

definition ex_merge :: merged_into where
  "ex_merge = \<lparr>mi_epic_id = ''F'', mi_merged_at = ''t2'', mi_merged_by = ''me'', mi_evidence = ''x'', mi_moved_entry_count = 2\<rparr>"

definition ex_rename :: "epic_op" where
  "ex_rename = OpUpdate ''E'' \<lparr>ui_title = Some ''New'', ui_narrative = None\<rparr> None"

theorem merged_and_retired_are_final_witness:
  "\<exists>e. ef_active (performEpicOp ex_epic_env (OpMerge ''E'' ex_merge 2) ex_store) ''E'' = Some (Document e) \<and>
     ef_active (performEpicOp ex_epic_env ex_rename (performEpicOp ex_epic_env (OpMerge ''E'' ex_merge 2) ex_store)) ''E'' =
       Some (Document e)"
proof -
  let ?s = "performEpicOp ex_epic_env (OpMerge ''E'' ex_merge 2) ex_store"
  have "map_option xe_merged_into (activeEpic ?s ''E'') = Some (Some ex_merge)" by code_simp
  then obtain e where e: "ef_active ?s ''E'' = Some (Document e)" "xe_merged_into e \<noteq> None"
    using activeEpic_Some by (auto simp: map_option_case split: option.splits)
  have "epic_run anyOp emptyStore ex_store" unfolding ex_store_def by (rule accepted_run) (rule ex_store_run)
  then have "storeOk ?s" using run_ok [OF _ emptyStore_ok] op_ok by blast
  moreover have "epic_run anyOp ?s (performEpicOp ex_epic_env ex_rename ?s)"
    by (intro run_op run_none) (simp add: anyOp_def)
  ultimately show ?thesis using merged_and_retired_are_final [where n = "''E''"] e by blast
qed

theorem version_detects_lost_updates_witness:
  "\<exists>e v t. ef_active ex_store ''E'' = Some (Document e) \<and>
     mutateEpic ex_epic_env ''E'' (Some 2) (reorder ex_epic_env [''e-c1'', ''s1'']) ex_store = (Inr v, t) \<and>
     (\<forall>w u. mutateEpic ex_epic_env ''E'' (Some 2) (reorder ex_epic_env [''e-c1'', ''s1'']) t \<noteq> (Inr w, u))"
proof -
  let ?m = "mutateEpic ex_epic_env ''E'' (Some 2) (reorder ex_epic_env [''e-c1'', ''s1''])"
  obtain e where e: "ef_active ex_store ''E'' = Some (Document e)" "xe_version e = 2" by (rule ex_active) (rule that, assumption+)
  have run: "epic_run anyOp emptyStore ex_store" unfolding ex_store_def by (rule accepted_run) (rule ex_store_run)
  have ok: "storeOk ex_store" using run_ok [OF run emptyStore_ok] .
  have "(case ?m ex_store of (Inr v, t) \<Rightarrow> map_option xe_version (activeEpic t ''E'') = Some 3 | _ \<Rightarrow> False)" by code_simp
  then obtain v t where t: "?m ex_store = (Inr v, t)" "map_option xe_version (activeEpic t ''E'') = Some 3"
    by (auto split: prod.splits sum.splits)
  have "epic_run anyOp ex_store (performEpicOp ex_epic_env (OpReorder ''E'' [''e-c1'', ''s1''] 2) ex_store)"
    by (intro run_op run_none) (simp add: anyOp_def)
  then have r: "epic_run anyOp ex_store t" using t(1) by simp
  have "?m t \<noteq> (Inr w, u)" for w u
  proof
    assume "?m t = (Inr w, u)"
    then have "ef_active t ''E'' = Some (Document e)"
      by (rule version_detects_lost_updates [OF r ok e(1), unfolded e(2)])
    with t(2) e(2) show False by (simp add: activeEpic_def)
  qed
  with e t show ?thesis by blast
qed

end
