(* ===== verification/File_Lock.thy ===== *)
theory File_Lock
  imports Complex_Main Worktree_Lease
begin

text \<open>
  The lock file of \<^verbatim>\<open>utils/fs.ts\<close>: \<^verbatim>\<open>boundedRetry\<close>, the retry loop with a time budget, over an
  arbitrary world, and the attempts of \<^verbatim>\<open>acquireFileLock\<close> as events of processes that share the file.
  Each access to the file system is one event, so that attempts of different processes interleave.
\<close>

subsection \<open>Bounded retry\<close>

record ('w, 'v) retry_options =
  ro_attempt :: "nat \<Rightarrow> 'w \<Rightarrow> 'v option \<times> 'w"
  ro_budget :: rat
  ro_base :: rat
  ro_cap :: rat
  ro_jitter :: rat
  ro_now :: "'w \<Rightarrow> rat"
  ro_sleep :: "rat \<Rightarrow> 'w \<Rightarrow> 'w"
  ro_random :: "'w \<Rightarrow> rat"

record 'v retry_result =
  rr_value :: "'v option"
  rr_attempts :: nat
  rr_elapsed :: rat

definition retryDelay :: "('w, 'v) retry_options \<Rightarrow> nat \<Rightarrow> rat \<Rightarrow> rat \<Rightarrow> rat" where
  "retryDelay opts attempts elapsed r =
     min (ro_budget opts - elapsed)
       (min (ro_cap opts) (ro_base opts * 2 ^ (attempts - 1)) * (1 / 2 + r * ro_jitter opts / 2))"

partial_function (option) retryGo ::
  "('w, 'v) retry_options \<Rightarrow> rat \<Rightarrow> nat \<Rightarrow> 'w \<Rightarrow> ('v retry_result \<times> 'w) option" where
  "retryGo opts start attempts w =
     (case ro_attempt opts (attempts + 1) w of
        (Some v, w1) \<Rightarrow> Some (\<lparr>rr_value = Some v, rr_attempts = attempts + 1, rr_elapsed = ro_now opts w1 - start\<rparr>, w1)
      | (None, w1) \<Rightarrow>
          (let elapsed = ro_now opts w1 - start
           in if ro_budget opts \<le> elapsed
              then Some (\<lparr>rr_value = None, rr_attempts = attempts + 1, rr_elapsed = elapsed\<rparr>, w1)
              else let delay = retryDelay opts (attempts + 1) elapsed (ro_random opts w1)
                   in if delay \<le> 0
                      then Some (\<lparr>rr_value = None, rr_attempts = attempts + 1, rr_elapsed = ro_now opts w1 - start\<rparr>, w1)
                      else retryGo opts start (attempts + 1) (ro_sleep opts delay w1)))"

definition boundedRetry :: "('w, 'v) retry_options \<Rightarrow> 'w \<Rightarrow> ('v retry_result \<times> 'w) option" where
  "boundedRetry opts w = retryGo opts (ro_now opts w) 0 w"

subsection \<open>The lock text\<close>

text \<open>\<^verbatim>\<open>parseInt\<close>, on decimal text: the number the text starts with, after white space and a sign.\<close>

definition parseInt :: "string \<Rightarrow> int option" where
  "parseInt s =
     (let t = dropWhile isWs s;
          signed = (t \<noteq> [] \<and> hd t \<in> set ''+-'');
          ds = takeWhile isDigit (if signed then tl t else t)
      in if ds = [] then None
         else Some (if signed \<and> hd t = CHR ''-'' then - int (digitsValue ds) else int (digitsValue ds)))"

definition lockText :: "nat \<Rightarrow> nat \<Rightarrow> string" where
  "lockText pid stamp = showNat pid @ CHR 0x0A # showNat stamp"

definition staleLockMs :: int where
  "staleLockMs = 30000"

definition partAt :: "nat \<Rightarrow> string list \<Rightarrow> string" where
  "partAt n parts = (if n < length parts then parts ! n else [])"

text \<open>The lock may be removed: old enough, and no signal reaches its process, for whatever reason.\<close>

definition removableLock :: "(nat \<Rightarrow> probe) \<Rightarrow> nat \<Rightarrow> string \<Rightarrow> bool" where
  "removableLock kill now content =
     (let parts = splitOn (CHR 0x0A) content; pid = parseInt (partAt 0 parts); stamp = parseInt (partAt 1 parts)
      in (case stamp of
            None \<Rightarrow> False
          | Some t \<Rightarrow> staleLockMs < int now - t \<and>
              \<not> (case pid of Some p \<Rightarrow> 0 < p \<and> kill (nat p) = ProbeDelivered | None \<Rightarrow> False)))"

subsection \<open>Processes\<close>

text \<open>
  A process is outside, about to create the file, writing its text, holding the lock, about to read
  the file it found, about to judge what it has read, about to unlink the file, or dead.
\<close>

datatype lock_place = LkAway | LkTrying | LkWriting nat | LkHolding | LkContending | LkChecking string | LkRemoving | LkDead

record lock_system =
  lk_now :: nat
  lk_file :: "(nat \<times> string) option"
  lk_place :: "nat \<Rightarrow> lock_place"

datatype lock_event =
    EvStart nat | EvCreate nat nat | EvWrite nat | EvExists nat | EvRead nat | EvDecide nat | EvRemove nat
  | EvTimeout nat | EvRelease nat | EvDie nat | EvTick nat

definition moves :: "nat \<Rightarrow> lock_place \<Rightarrow> lock_system \<Rightarrow> lock_system" where
  "moves p x s = s\<lparr>lk_place := (lk_place s)(p := x)\<rparr>"

text \<open>A signal to a living process of another user is refused: \<open>foreign p q\<close>.\<close>

definition probeOf :: "(nat \<Rightarrow> nat \<Rightarrow> bool) \<Rightarrow> lock_system \<Rightarrow> nat \<Rightarrow> nat \<Rightarrow> probe" where
  "probeOf foreign s p q =
     (if lk_place s q = LkDead then ProbeError ''ESRCH'' else if foreign p q then ProbeError ''EPERM'' else ProbeDelivered)"

fun lockStep :: "(nat \<Rightarrow> nat \<Rightarrow> bool) \<Rightarrow> lock_event \<Rightarrow> lock_system \<Rightarrow> lock_system option" where
  "lockStep foreign (EvStart p) s = (if lk_place s p = LkAway \<and> 0 < p then Some (moves p LkTrying s) else None)"
| "lockStep foreign (EvCreate p t) s =
     (if lk_place s p = LkTrying \<and> lk_file s = None \<and> t \<le> lk_now s
      then Some (moves p (LkWriting t) (s\<lparr>lk_file := Some (p, [])\<rparr>)) else None)"
| "lockStep foreign (EvWrite p) s =
     (case lk_place s p of
        LkWriting t \<Rightarrow> Some (moves p LkHolding (case lk_file s of
            Some (q, x) \<Rightarrow> if q = p then s\<lparr>lk_file := Some (p, lockText p t)\<rparr> else s
          | None \<Rightarrow> s))
      | _ \<Rightarrow> None)"
| "lockStep foreign (EvExists p) s =
     (if lk_place s p = LkTrying \<and> lk_file s \<noteq> None then Some (moves p LkContending s) else None)"
| "lockStep foreign (EvRead p) s =
     (if lk_place s p = LkContending
      then Some (case lk_file s of Some (q, x) \<Rightarrow> moves p (LkChecking x) s | None \<Rightarrow> moves p LkTrying s) else None)"
| "lockStep foreign (EvDecide p) s =
     (case lk_place s p of
        LkChecking x \<Rightarrow> Some (moves p (if removableLock (probeOf foreign s p) (lk_now s) x then LkRemoving else LkTrying) s)
      | _ \<Rightarrow> None)"
| "lockStep foreign (EvRemove p) s =
     (if lk_place s p = LkRemoving then Some (moves p LkTrying (s\<lparr>lk_file := None\<rparr>)) else None)"
| "lockStep foreign (EvTimeout p) s = (if lk_place s p = LkTrying then Some (moves p LkAway s) else None)"
| "lockStep foreign (EvRelease p) s =
     (if lk_place s p = LkHolding then Some (moves p LkAway (s\<lparr>lk_file := None\<rparr>)) else None)"
| "lockStep foreign (EvDie p) s = Some (moves p LkDead s)"
| "lockStep foreign (EvTick d) s = Some (s\<lparr>lk_now := lk_now s + d\<rparr>)"

definition lockStart :: lock_system where
  "lockStart = \<lparr>lk_now = 0, lk_file = None, lk_place = (\<lambda>_. LkAway)\<rparr>"

inductive lock_run :: "(nat \<Rightarrow> nat \<Rightarrow> bool) \<Rightarrow> lock_event list \<Rightarrow> lock_system \<Rightarrow> bool" for foreign where
  lock_begin: "lock_run foreign [] lockStart"
| lock_next: "lock_run foreign es s \<Longrightarrow> lockStep foreign e s = Some t \<Longrightarrow> lock_run foreign (es @ [e]) t"

definition isDeath :: "lock_event \<Rightarrow> bool" where
  "isDeath e = (case e of EvDie p \<Rightarrow> True | _ \<Rightarrow> False)"

subsection \<open>The retry loop ends\<close>

definition tickOf :: "('w, 'v) retry_options \<Rightarrow> rat" where
  "tickOf opts = min (ro_cap opts) (ro_base opts) / 2"

definition clockLaws :: "('w, 'v) retry_options \<Rightarrow> bool" where
  "clockLaws opts \<longleftrightarrow>
     (\<forall>n w. ro_now opts w \<le> ro_now opts (snd (ro_attempt opts n w))) \<and>
     (\<forall>d w. ro_now opts w + d \<le> ro_now opts (ro_sleep opts d w)) \<and>
     (\<forall>w. 0 \<le> ro_random opts w \<and> ro_random opts w \<le> 1) \<and>
     0 \<le> ro_jitter opts \<and> 0 < ro_base opts \<and> 0 < ro_cap opts"

lemma retryDelay_ge:
  assumes "clockLaws opts" "elapsed < ro_budget opts" "0 \<le> r"
  shows "min (ro_budget opts - elapsed) (tickOf opts) \<le> retryDelay opts (Suc k) elapsed r" "0 < tickOf opts"
    "0 < retryDelay opts (Suc k) elapsed r"
proof -
  have pos: "0 < ro_base opts" "0 < ro_cap opts" "0 \<le> ro_jitter opts" using assms(1) by (simp_all add: clockLaws_def)
  then show t: "0 < tickOf opts" by (simp add: tickOf_def)
  let ?b = "min (ro_cap opts) (ro_base opts * 2 ^ k)"
  have "ro_base opts * 1 \<le> ro_base opts * 2 ^ k" using pos by (intro mult_left_mono) simp_all
  then have "ro_base opts \<le> ro_base opts * 2 ^ k" by simp
  then have b: "min (ro_cap opts) (ro_base opts) \<le> ?b" "0 \<le> ?b" using pos by (auto simp: min_le_iff_disj)
  have "1 / 2 \<le> 1 / 2 + r * ro_jitter opts / 2" using assms(3) pos by simp
  with b(2) have "?b * (1 / 2) \<le> ?b * (1 / 2 + r * ro_jitter opts / 2)" by (intro mult_left_mono)
  with b(1) have "tickOf opts \<le> ?b * (1 / 2 + r * ro_jitter opts / 2)" by (simp add: tickOf_def)
  then show d: "min (ro_budget opts - elapsed) (tickOf opts) \<le> retryDelay opts (Suc k) elapsed r"
    by (simp add: retryDelay_def min_def)
  have "0 < min (ro_budget opts - elapsed) (tickOf opts)" using assms(2) t by simp
  with d show "0 < retryDelay opts (Suc k) elapsed r" by linarith
qed

lemma retryGo_returns:
  assumes "clockLaws opts" "ro_budget opts - (ro_now opts w - start) \<le> of_nat n * tickOf opts"
  shows "\<exists>r w'. retryGo opts start a w = Some (r, w') \<and> rr_attempts r \<le> a + n + 1 \<and>
    (rr_value r = None \<longrightarrow> ro_budget opts \<le> rr_elapsed r) \<and>
    (\<exists>u. ro_attempt opts (rr_attempts r) u = (rr_value r, w'))"
  using assms(2)
proof (induction n arbitrary: a w)
  case 0
  obtain v w1 where at: "ro_attempt opts (a + 1) w = (v, w1)" by fastforce
  then have "ro_now opts w \<le> ro_now opts w1" using assms(1) unfolding clockLaws_def by (metis snd_conv)
  with 0 have "ro_budget opts \<le> ro_now opts w1 - start" by simp
  with at show ?case by (subst retryGo.simps) (auto simp: Let_def split: option.splits)
next
  case (Suc n)
  obtain v w1 where at: "ro_attempt opts (a + 1) w = (v, w1)" by fastforce
  let ?e = "ro_now opts w1 - start"
  have mono: "ro_now opts w \<le> ro_now opts w1" using at assms(1) unfolding clockLaws_def by (metis snd_conv)
  show ?case
  proof (cases "v \<noteq> None \<or> ro_budget opts \<le> ?e")
    case True
    with at show ?thesis by (subst retryGo.simps) (auto simp: Let_def split: option.splits)
  next
    case False
    then have v: "v = None" and e: "?e < ro_budget opts" by auto
    have "0 \<le> ro_random opts w1" using assms(1) by (simp add: clockLaws_def)
    note d = retryDelay_ge(1) [OF assms(1) e this, where k = a] retryDelay_ge(2) [OF assms(1) e this]
      retryDelay_ge(3) [OF assms(1) e this, where k = a]
    let ?d = "retryDelay opts (Suc a) ?e (ro_random opts w1)"
    let ?w2 = "ro_sleep opts ?d w1"
    have "ro_now opts w1 + ?d \<le> ro_now opts ?w2" using assms(1) by (simp add: clockLaws_def)
    then have "ro_budget opts - (ro_now opts ?w2 - start) \<le> max 0 (ro_budget opts - ?e - tickOf opts)"
      using d(1) by (auto simp: min_def split: if_splits)
    also have "\<dots> \<le> of_nat n * tickOf opts"
      using Suc.prems mono d(2) by (auto simp: algebra_simps)
    finally have bound: "ro_budget opts - (ro_now opts ?w2 - start) \<le> of_nat n * tickOf opts" .
    obtain r w' where r: "retryGo opts start (a + 1) ?w2 = Some (r, w')" "rr_attempts r \<le> a + 1 + n + 1"
      "rr_value r = None \<longrightarrow> ro_budget opts \<le> rr_elapsed r" "\<exists>u. ro_attempt opts (rr_attempts r) u = (rr_value r, w')"
      using Suc.IH [OF bound, of "a + 1"] by (elim exE conjE) (rule that, assumption+, rule exI)
    have "retryGo opts start a w = retryGo opts start (a + 1) ?w2"
      using at v e d(3) by (subst retryGo.simps) (simp add: Let_def)
    with r show ?thesis by simp
  qed
qed


subsection \<open>Mutual exclusion\<close>

lemma takeWhile_digits [simp]: "takeWhile isDigit (showNat n) = showNat n"
  by (simp add: takeWhile_eq_all_conv isDigit_showNat)

lemma parseInt_showNat [simp]: "parseInt (showNat n) = Some (int n)"
proof -
  obtain c cs where c: "showNat n = c # cs" by (cases "showNat n") simp_all
  have d: "isDigit c" using isDigit_showNat [of c n] by (simp add: c)
  then have "c \<noteq> CHR ''+''" "c \<noteq> CHR ''-''" "\<not> isWs c" by (auto simp: isDigit_def digit_not_ws)
  then have "parseInt (showNat n) = Some (int (digitsValue (takeWhile isDigit (showNat n))))"
    unfolding parseInt_def Let_def c using d by simp
  then show ?thesis by simp
qed

lemma removable_lockText:
  "removableLock kill now (lockText p t) \<longleftrightarrow> staleLockMs < int now - int t \<and> \<not> (0 < p \<and> kill p = ProbeDelivered)"
proof -
  have "CHR 0x0A \<notin> set (showNat n)" for n using isDigit_showNat [of "CHR 0x0A" n] by (auto simp: isDigit_def)
  then have "splitOn (CHR 0x0A) (lockText p t) = [showNat p, showNat t]"
    by (simp add: lockText_def splitOn_sep splitOn_last)
  then show ?thesis by (simp add: removableLock_def partAt_def Let_def)
qed

lemma removable_empty [simp]: "\<not> removableLock kill now []"
  by (simp add: removableLock_def partAt_def parseInt_def Let_def)

definition lockTextOk :: "string \<Rightarrow> bool" where
  "lockTextOk x \<longleftrightarrow> x = [] \<or> (\<exists>q t. 0 < q \<and> x = lockText q t)"

definition placeOk :: "lock_system \<Rightarrow> nat \<Rightarrow> bool" where
  "placeOk s p \<longleftrightarrow>
     (case lk_place s p of
        LkAway \<Rightarrow> True
      | LkWriting t \<Rightarrow> 0 < p \<and> lk_file s = Some (p, [])
      | LkHolding \<Rightarrow> 0 < p \<and> (\<exists>t. lk_file s = Some (p, lockText p t))
      | LkChecking x \<Rightarrow> 0 < p \<and> lockTextOk x
      | LkRemoving \<Rightarrow> False
      | LkDead \<Rightarrow> False
      | _ \<Rightarrow> 0 < p)"

definition insideLock :: "lock_place \<Rightarrow> bool" where
  "insideLock x \<longleftrightarrow> x = LkHolding \<or> (\<exists>t. x = LkWriting t)"

definition lockInv :: "lock_system \<Rightarrow> bool" where
  "lockInv s \<longleftrightarrow> (\<forall>p. placeOk s p) \<and>
     (case lk_file s of Some (q, x) \<Rightarrow> lockTextOk x \<and> insideLock (lk_place s q) | None \<Rightarrow> True)"

lemma insideLock_simps [simp]:
  "insideLock LkHolding" "insideLock (LkWriting t)" "\<not> insideLock LkAway" "\<not> insideLock LkTrying"
  "\<not> insideLock LkContending" "\<not> insideLock (LkChecking x)" "\<not> insideLock LkRemoving" "\<not> insideLock LkDead"
  by (simp_all add: insideLock_def)

lemma moved_placeOk:
  assumes "placeOk s q" "p \<noteq> q" "lk_file s' = lk_file s \<or> \<not> insideLock (lk_place s q)" "lk_place s' = (lk_place s)(p := x)"
  shows "placeOk s' q"
  using assms by (auto simp: placeOk_def split: lock_place.splits)

lemma not_removable:
  assumes "lockTextOk x" "\<And>q. 0 < q \<Longrightarrow> kill q = ProbeDelivered"
  shows "\<not> removableLock kill now x"
  using assms by (auto simp: lockTextOk_def removable_lockText)

lemma lockInv_step:
  assumes "lockInv s" "lockStep foreign e s = Some t" "\<not> isDeath e" "\<And>p q. \<not> foreign p q"
  shows "lockInv t"
proof -
  have ok: "placeOk s p" for p using assms(1) by (simp add: lockInv_def)
  have alone: "p = q" if "insideLock (lk_place s p)" "insideLock (lk_place s q)" for p q
    using ok [of p] ok [of q] that by (auto simp: placeOk_def insideLock_def split: lock_place.splits)
  have alive: "probeOf foreign s p q = ProbeDelivered" for p q
    using ok [of q] assms(4) by (auto simp: probeOf_def placeOk_def)
  have intro: "lockInv t" if "lk_place t = (lk_place s)(p := x)" "placeOk t p"
    "lk_file t = lk_file s \<or> (\<forall>q. q \<noteq> p \<longrightarrow> \<not> insideLock (lk_place s q))"
    "case lk_file t of Some (q, y) \<Rightarrow> lockTextOk y \<and> insideLock (lk_place t q) | None \<Rightarrow> True" for p x
    unfolding lockInv_def using that moved_placeOk [OF ok, of p _ t x] by (metis (no_types, lifting))
  show ?thesis
  proof (cases e)
    case (EvStart p)
    with assms show ?thesis
      by (intro intro [of p LkTrying])
        (auto simp: moves_def placeOk_def lockInv_def split: if_splits option.splits)
  next
    case (EvCreate p c)
    then have *: "lk_place s p = LkTrying" "lk_file s = None" "t = moves p (LkWriting c) (s\<lparr>lk_file := Some (p, [])\<rparr>)"
      using assms(2) by (auto split: if_splits)
    have "\<not> insideLock (lk_place s q)" for q
      using ok [of q] *(2) by (auto simp: placeOk_def insideLock_def split: lock_place.splits)
    with * ok [of p] show ?thesis
      by (intro intro [of p "LkWriting c"]) (auto simp: moves_def placeOk_def lockTextOk_def)
  next
    case (EvWrite p)
    then obtain c where c: "lk_place s p = LkWriting c" using assms(2) by (auto split: lock_place.splits)
    then have f: "lk_file s = Some (p, [])" "0 < p" using ok [of p] by (simp_all add: placeOk_def)
    with EvWrite c assms(2) have t: "t = moves p LkHolding (s\<lparr>lk_file := Some (p, lockText p c)\<rparr>)" by simp
    have "\<forall>q. q \<noteq> p \<longrightarrow> \<not> insideLock (lk_place s q)" using alone [of p] c by auto
    with t f show ?thesis
      by (intro intro [of p LkHolding]) (auto simp: moves_def placeOk_def lockTextOk_def)
  next
    case (EvExists p)
    then have "0 < p" using assms(2) ok [of p] by (auto simp: placeOk_def split: if_splits)
    with EvExists assms show ?thesis
      by (intro intro [of p LkContending]) (auto simp: moves_def placeOk_def lockInv_def split: if_splits option.splits)
  next
    case (EvRead p)
    then have p: "lk_place s p = LkContending" "0 < p" using assms(2) ok [of p] by (auto simp: placeOk_def split: if_splits)
    show ?thesis
    proof (cases "lk_file s")
      case None
      with EvRead p assms(1,2) show ?thesis
        by (intro intro [of p LkTrying]) (auto simp: moves_def placeOk_def)
    next
      case (Some f)
      obtain q x where f: "lk_file s = Some (q, x)" using Some by (cases f) simp
      then have "lockTextOk x" "insideLock (lk_place s q)" "q \<noteq> p" using assms(1) p(1) by (auto simp: lockInv_def)
      with EvRead p f assms(2) show ?thesis
        by (intro intro [of p "LkChecking x"]) (auto simp: moves_def placeOk_def)
    qed
  next
    case (EvDecide p)
    then obtain x where x: "lk_place s p = LkChecking x" using assms(2) by (auto split: lock_place.splits)
    then have "lockTextOk x" "0 < p" using ok [of p] by (simp_all add: placeOk_def)
    with not_removable [OF this(1) alive] EvDecide x assms(1,2) show ?thesis
      by (intro intro [of p LkTrying]) (auto simp: moves_def placeOk_def lockInv_def split: option.splits)
  next
    case (EvRemove p)
    with assms(2) ok [of p] show ?thesis by (auto simp: placeOk_def split: if_splits)
  next
    case (EvTimeout p)
    with assms ok [of p] show ?thesis
      by (intro intro [of p LkAway]) (auto simp: moves_def placeOk_def lockInv_def split: if_splits option.splits)
  next
    case (EvRelease p)
    then have p: "lk_place s p = LkHolding" "t = moves p LkAway (s\<lparr>lk_file := None\<rparr>)"
      using assms(2) by (auto split: if_splits)
    then have "\<forall>q. q \<noteq> p \<longrightarrow> \<not> insideLock (lk_place s q)" using alone [of p] by auto
    with p show ?thesis by (intro intro [of p LkAway]) (auto simp: moves_def placeOk_def)
  next
    case (EvDie p)
    with assms(3) show ?thesis by (simp add: isDeath_def)
  next
    case (EvTick d)
    then have t: "lk_place t = lk_place s" "lk_file t = lk_file s" using assms(2) by auto
    then have "placeOk t p \<longleftrightarrow> placeOk s p" for p by (cases "lk_place s p") (simp_all add: placeOk_def)
    with t assms(1) show ?thesis by (cases "lk_file s") (auto simp: lockInv_def)
  qed
qed

lemma lock_run_inv:
  assumes "lock_run foreign es s" "filter isDeath es = []" "\<And>p q. \<not> foreign p q"
  shows "lockInv s"
  using assms(1,2)
proof (induction rule: lock_run.induct)
  case lock_begin
  show ?case by (simp add: lockInv_def lockStart_def placeOk_def)
next
  case (lock_next es s e t)
  then show ?case using lockInv_step [OF _ _ _ assms(3)] by (auto split: if_splits)
qed

text \<open>
  Claim C38. The lock file is exclusive while no process dies and every process may signal every other:
  in whatever order the file accesses of the processes interleave and however long a lock is held, at
  most one process is between the creation of the file and its release, and the file exists exactly then.
\<close>

theorem file_lock_is_exclusive:
  assumes "lock_run foreign es s" "filter isDeath es = []" "\<And>p q. \<not> foreign p q"
  shows "{p. insideLock (lk_place s p)} = (case lk_file s of Some (q, x) \<Rightarrow> {q} | None \<Rightarrow> {})"
proof -
  have inv: "lockInv s" by (rule lock_run_inv [OF assms])
  have "\<exists>x. lk_file s = Some (p, x)" if "insideLock (lk_place s p)" for p
    using inv that by (auto simp: lockInv_def placeOk_def insideLock_def dest!: spec [of _ p])
  with inv show ?thesis by (fastforce simp: lockInv_def split: option.splits)
qed

subsection \<open>Concrete runs\<close>

fun lockSteps :: "(nat \<Rightarrow> nat \<Rightarrow> bool) \<Rightarrow> lock_event list \<Rightarrow> lock_system \<Rightarrow> lock_system option" where
  "lockSteps foreign [] s = Some s"
| "lockSteps foreign (e # es) s = Option.bind (lockStep foreign e s) (lockSteps foreign es)"

lemma lockSteps_run: "lock_run foreign ds s \<Longrightarrow> lockSteps foreign es s = Some t \<Longrightarrow> lock_run foreign (ds @ es) t"
proof (induction es arbitrary: ds s)
  case (Cons e es)
  then obtain u where "lockStep foreign e s = Some u" "lockSteps foreign es u = Some t" by (auto split: bind_splits)
  with Cons.IH [of "ds @ [e]" u] lock_next [OF Cons.prems(1)] show ?case by simp
qed simp

lemma lock_runI: "lockSteps foreign es lockStart = Some t \<Longrightarrow> lock_run foreign es t"
  using lockSteps_run [OF lock_begin] by fastforce

lemmas run_simps = lockStart_def moves_def removable_lockText probeOf_def staleLockMs_def

text \<open>A dead holder, two contenders that both judge its file stale, and the second unlinks the first one's.\<close>

definition deadHolderRun :: "lock_event list" where
  "deadHolderRun = [EvStart 1, EvCreate 1 0, EvWrite 1, EvDie 1, EvTick 30001,
     EvStart 2, EvExists 2, EvRead 2, EvDecide 2, EvStart 3, EvExists 3, EvRead 3, EvDecide 3,
     EvRemove 2, EvCreate 2 30001, EvWrite 2, EvRemove 3, EvCreate 3 30001, EvWrite 3]"

text \<open>A holder that another user's process may not signal.\<close>

definition foreignHolderRun :: "lock_event list" where
  "foreignHolderRun = [EvStart 1, EvCreate 1 0, EvWrite 1, EvTick 30001,
     EvStart 2, EvExists 2, EvRead 2, EvDecide 2, EvRemove 2, EvCreate 2 30001, EvWrite 2]"


theorem file_lock_is_exclusive_witness:
  "\<exists>s. lock_run (\<lambda>p q. False) [EvStart 1, EvCreate 1 0, EvWrite 1, EvStart 2, EvExists 2, EvRead 2, EvTick 40000, EvDecide 2] s \<and>
     {p. insideLock (lk_place s p)} = {1}"
proof -
  let ?es = "[EvStart 1, EvCreate 1 0, EvWrite 1, EvStart 2, EvExists 2, EvRead 2, EvTick 40000, EvDecide 2]"
  have "map_option (\<lambda>s. map_option fst (lk_file s)) (lockSteps (\<lambda>p q. False) ?es lockStart) = Some (Some 1)"
    by (simp add: run_simps)
  then obtain s where "lockSteps (\<lambda>p q. False) ?es lockStart = Some s" "map_option fst (lk_file s) = Some 1"
    unfolding map_option_eq_Some by blast
  then obtain x where s: "lockSteps (\<lambda>p q. False) ?es lockStart = Some s" "lk_file s = Some (1, x)"
    by (cases "lk_file s") auto
  have "filter isDeath ?es = []" by (simp add: isDeath_def)
  then have "{p. insideLock (lk_place s p)} = {1}" using file_lock_is_exclusive [OF lock_runI [OF s(1)]] s(2) by simp
  with lock_runI [OF s(1)] show ?thesis by (intro exI conjI)
qed

definition ex_retry :: "(rat, unit) retry_options" where
  "ex_retry = \<lparr>ro_attempt = (\<lambda>n w. (None, w)), ro_budget = 100, ro_base = 25, ro_cap = 500, ro_jitter = 1,
     ro_now = (\<lambda>w. w), ro_sleep = (\<lambda>d w. w + d), ro_random = (\<lambda>w. 0)\<rparr>"


end
