(* ===== verification/Task_Store.thy ===== *)
theory Task_Store
  imports Gate_Tool
begin

text \<open>
  The task operations of the disk store (\<^verbatim>\<open>plugin/src/storage/store-disk.ts\<close>) over the directories of the
  active changes, in listing order, and the identifiers it generates.  These operations load, edit
  and save a change without the lock, the revision and the audit entry of the commit transaction.
\<close>

subsection \<open>Directories of changes\<close>

type_synonym change_store = "(string \<times> projection_file) list"

definition fileAt :: "change_store \<Rightarrow> string \<Rightarrow> projection_file" where
  "fileAt st c = (case map_get st c of Some f \<Rightarrow> f | None \<Rightarrow> Absent)"

definition putFile :: "string \<Rightarrow> projection_file \<Rightarrow> change_store \<Rightarrow> change_store" where
  "putFile c f st = map_set c f st"

definition docTasks :: "change_doc \<Rightarrow> task list" where
  "docTasks d = orEmpty (cd_tasks d)"

definition findTask :: "change_doc \<Rightarrow> string \<Rightarrow> task option" where
  "findTask d i = List.find (\<lambda>t. tk_id t = i) (docTasks d)"

text \<open>The first readable change, in listing order, that has a task with the identifier.\<close>

fun locateTask :: "change_store \<Rightarrow> string \<Rightarrow> (string \<times> change_doc \<times> task) option" where
  "locateTask [] i = None"
| "locateTask ((c, f) # st) i =
     (case loadChange f of
        Inr (Some d) \<Rightarrow> (case findTask d i of Some t \<Rightarrow> Some (c, d, t) | None \<Rightarrow> locateTask st i)
      | _ \<Rightarrow> locateTask st i)"

definition tasksGet :: "change_store \<Rightarrow> string \<Rightarrow> task option" where
  "tasksGet st i = map_option (\<lambda>(c, d, t). t) (locateTask st i)"

definition tasksShow :: "change_store \<Rightarrow> string \<Rightarrow> (task \<times> string) option" where
  "tasksShow st i = map_option (\<lambda>(c, d, t). (t, c)) (locateTask st i)"

definition gatesGet :: "change_store \<Rightarrow> string \<Rightarrow> gates option" where
  "gatesGet st c = (case loadChange (fileAt st c) of Inr (Some d) \<Rightarrow> cd_gates d | _ \<Rightarrow> None)"

subsection \<open>Listing and ready tasks\<close>

definition filterTasks :: "task list \<Rightarrow> task_status option \<Rightarrow> string option \<Rightarrow> task list" where
  "filterTasks ts status flt =
     (let tasks = (case status of Some s \<Rightarrow> filter (\<lambda>t. tk_status t = s) ts | None \<Rightarrow> ts)
      in if \<not> truthy flt then tasks
         else (case hasKeyMatch (the flt) of
            Some k \<Rightarrow> filter (\<lambda>t. case tk_metadata t of
                Some m \<Rightarrow> map_get m k \<noteq> None \<or> k \<in> set objectPrototypeKeys | None \<Rightarrow> False) tasks
          | None \<Rightarrow> (case kvMatch (the flt) of
              Some (k, v) \<Rightarrow> filter (\<lambda>t. case tk_metadata t of Some m \<Rightarrow> map_get m k = Some v | None \<Rightarrow> False) tasks
            | None \<Rightarrow> tasks)))"

definition tasksList :: "change_store \<Rightarrow> string \<Rightarrow> task_status option \<Rightarrow> string option \<Rightarrow> task list" where
  "tasksList st c status flt =
     (case loadChange (fileAt st c) of Inr (Some d) \<Rightarrow> filterTasks (docTasks d) status flt | _ \<Rightarrow> [])"

definition blockedByTargets :: "task \<Rightarrow> string list" where
  "blockedByTargets t = map dp_target (filter (\<lambda>d. dp_type d = BlockedBy) (orEmpty (tk_deps t)))"

text \<open>A map by identifier keeps the last task of an identifier.\<close>

definition lastTask :: "task list \<Rightarrow> string \<Rightarrow> task option" where
  "lastTask ts i = List.find (\<lambda>t. tk_id t = i) (rev ts)"

definition unmetDeps :: "task list \<Rightarrow> task \<Rightarrow> string list" where
  "unmetDeps ts t = filter (\<lambda>i. case lastTask ts i of None \<Rightarrow> True | Some b \<Rightarrow> \<not> isSettled b) (blockedByTargets t)"

record ready_report =
  rd_ready :: "task list"
  rd_blocked :: "(task \<times> string list) list"
  rd_cancelledContext :: "(string \<times> string \<times> string) list"

definition cancelledContext :: "task list \<Rightarrow> task \<Rightarrow> (string \<times> string \<times> string) list" where
  "cancelledContext ts t = List.map_filter (\<lambda>i. case lastTask ts i of
      Some b \<Rightarrow> if tk_status b = TCancelled
        then Some (tk_id t, tk_id b, case tk_cancellation b of Some c \<Rightarrow> ca_reason c | None \<Rightarrow> ''(no reason recorded)'')
        else None
    | None \<Rightarrow> None) (blockedByTargets t)"

definition readyOf :: "task list \<Rightarrow> ready_report" where
  "readyOf ts =
     (let pending = filter (\<lambda>t. tk_status t = TPending) ts; ready = filter (\<lambda>t. unmetDeps ts t = []) pending
      in \<lparr>rd_ready = ready,
          rd_blocked = map (\<lambda>t. (t, unmetDeps ts t)) (filter (\<lambda>t. unmetDeps ts t \<noteq> []) pending),
          rd_cancelledContext = concat (map (cancelledContext ts) ready)\<rparr>)"

definition tasksReady :: "change_store \<Rightarrow> string \<Rightarrow> ready_report" where
  "tasksReady st c = (case loadChange (fileAt st c) of Inr (Some d) \<Rightarrow> readyOf (docTasks d) | _ \<Rightarrow> readyOf [])"

subsection \<open>Saving\<close>

text \<open>Published summaries may fail, after the change has been written.\<close>

definition saveChange :: "change_doc \<Rightarrow> change_store \<Rightarrow> string + change_store" where
  "saveChange d st =
     (if isSyntheticValidationDraftPattern (cd_id d)
      then Inl (''Refusing to write change with synthetic-validation-draft ID '' @ cd_id d)
      else Inr (putFile (cd_id d) (Valid d) st))"

definition persistChangeProjection ::
  "(change_doc \<Rightarrow> string option) \<Rightarrow> change_doc \<Rightarrow> change_store \<Rightarrow> string option \<times> change_store" where
  "persistChangeProjection publish d st =
     (case saveChange d st of Inl e \<Rightarrow> (Some e, st) | Inr st' \<Rightarrow> (publish d, st'))"

text \<open>The edits change the first task of the identifier in place.\<close>

fun replaceFirst :: "string \<Rightarrow> task \<Rightarrow> task list \<Rightarrow> task list" where
  "replaceFirst i x [] = []"
| "replaceFirst i x (t # ts) = (if tk_id t = i then x # ts else t # replaceFirst i x ts)"

definition editTask ::
  "(change_doc \<Rightarrow> string option) \<Rightarrow> (task \<Rightarrow> task) \<Rightarrow> string \<Rightarrow> change_store \<Rightarrow> (string + task option) \<times> change_store" where
  "editTask publish f i st =
     (case locateTask st i of
        None \<Rightarrow> (Inr None, st)
      | Some (c, d, t) \<Rightarrow>
          (case persistChangeProjection publish (d\<lparr>cd_tasks := Some (replaceFirst i (f t) (docTasks d))\<rparr>) st of
             (Some e, st') \<Rightarrow> (Inl e, st')
           | (None, st') \<Rightarrow> (Inr (Some (f t)), st')))"

definition tasksUpdate where
  "tasksUpdate publish i inp st = editTask publish (applyTaskUpdate inp) i st"

definition tasksCancel where
  "tasksCancel publish i c now st = editTask publish (applyCancel c now) i st"

definition tasksReclassifyTdd where
  "tasksReclassifyTdd publish i r st = editTask publish (applyReclassify r) i st"

record add_options =
  ao_type :: "task_type option"
  ao_section :: "string option"
  ao_metadata :: "(string \<times> string) list option"
  ao_blockedBy :: "string list option"

definition tasksAdd ::
  "(change_doc \<Rightarrow> string option) \<Rightarrow> string \<Rightarrow> string \<Rightarrow> string \<Rightarrow> string \<Rightarrow> add_options \<Rightarrow> change_store
    \<Rightarrow> (string + task) \<times> change_store" where
  "tasksAdd publish fresh now c content opts st =
     (case loadChange (fileAt st c) of
        Inr (Some d) \<Rightarrow>
          (let t = (newTask fresh content)\<lparr>tk_type := Some (case ao_type opts of Some ty \<Rightarrow> ty | None \<Rightarrow> TyCode),
                 tk_created_at := now, tk_section := (if truthy (ao_section opts) then ao_section opts else None),
                 tk_metadata := ao_metadata opts,
                 tk_deps := map_option (map (\<lambda>x. \<lparr>dp_type = BlockedBy, dp_target = x\<rparr>)) (ao_blockedBy opts)\<rparr>
           in (case persistChangeProjection publish (d\<lparr>cd_tasks := Some (docTasks d @ [t])\<rparr>) st of
                 (Some e, st') \<Rightarrow> (Inl e, st')
               | (None, st') \<Rightarrow> (Inr t, st')))
      | _ \<Rightarrow> (Inl (''Change not found: '' @ c), st))"

subsection \<open>Generated identifiers\<close>

text \<open>The last clock reading and a sequence number within it.\<close>

definition monotonicId :: "string \<Rightarrow> nat \<Rightarrow> nat \<times> nat \<Rightarrow> string \<times> nat \<times> nat" where
  "monotonicId prefix now s =
     (let s' = (if now \<noteq> fst s then (now, 0) else (fst s, snd s + 1))
      in (prefix @ ''-'' @ showNat now @ ''-'' @ showNat (snd s'), s'))"

fun monotonicIds :: "string \<Rightarrow> nat list \<Rightarrow> nat \<times> nat \<Rightarrow> string list" where
  "monotonicIds prefix [] s = []"
| "monotonicIds prefix (now # nows) s =
     (case monotonicId prefix now s of (i, s') \<Rightarrow> i # monotonicIds prefix nows s')"

end
