(* ===== verification/Wisdom_Draft.thy ===== *)
theory Wisdom_Draft
  imports Task_Model
begin

text \<open>
  Wisdom drafts (\<^verbatim>\<open>plugin/src/utils/wisdom-draft.ts\<close>): the suggestion a semantic error recovery leaves on
  its task, and the transitions of its life.  Generated identifiers are arguments.  The arrow between a
  diagnosis and its fix is one code unit outside the 8-bit characters; \<open>arrowUnit\<close> stands for it.
\<close>

subsection \<open>Creation\<close>

definition arrowUnit :: char where
  "arrowUnit = CHR 0x1A"

definition hasSuggestedDraft :: "task option \<Rightarrow> bool" where
  "hasSuggestedDraft t =
     (case t of None \<Rightarrow> False
      | Some t \<Rightarrow> list_ex (\<lambda>d. wd_status d = DraftSuggested) (case tk_wisdom_drafts t of Some ds \<Rightarrow> ds | None \<Rightarrow> []))"

definition recoveryCounts :: "error_recovery \<Rightarrow> recovery_like" where
  "recoveryCounts r = \<lparr>ra_attempts = map_option (map (\<lambda>a. \<lparr>al_number = Some (at_number a)\<rparr>)) (er_attempts r),
     ra_total_attempts = er_total_attempts r, ra_retry_count = Some (er_retry_count r)\<rparr>"

definition attemptNarrative :: "attempt list \<Rightarrow> string" where
  "attemptNarrative as = joinWith ''; '' (map (\<lambda>a. at_diagnosis a @ '' '' @ [arrowUnit] @ '' '' @ at_fix_tried a) as)"

definition elidedNote :: "int \<Rightarrow> string" where
  "elidedNote n = (if 0 < n
     then '' ['' @ showInt n @ '' earlier attempt'' @ (if n = 1 then [] else ''s'') @ '' elided from the retained window]''
     else [])"

definition maxDraftContent :: nat where
  "maxDraftContent = 2000"

definition cappedContent :: "string \<Rightarrow> string" where
  "cappedContent s = (if maxDraftContent < length s then take 1997 s @ ''...'' else s)"

definition maybeCreateWisdomDraftFromErrorRecovery ::
  "string \<Rightarrow> task option \<Rightarrow> error_recovery option \<Rightarrow> string \<Rightarrow> wisdom_draft option" where
  "maybeCreateWisdomDraftFromErrorRecovery fresh t recovery now =
     (case recovery of
        None \<Rightarrow> None
      | Some r \<Rightarrow>
          (let attempts = (case er_attempts r of Some as \<Rightarrow> as | None \<Rightarrow> [])
           in if er_error_class r \<noteq> Semantic \<or> attempts = [] \<or> hasSuggestedDraft t then None
              else Some \<lparr>wd_id = fresh, wd_suggested_type = SugFailure,
                wd_suggested_content = cappedContent (attemptNarrative attempts
                  @ elidedNote (int (observedAttemptCount (Some (recoveryCounts r))) - int (length attempts))),
                wd_source_attempts = Some (map at_number attempts), wd_status = DraftSuggested, wd_created_at = now,
                wd_dismissed_at = None, wd_dismiss_reason = None, wd_promoted_wisdom_id = None\<rparr>))"

definition draftsOf :: "wisdom_draft list option \<Rightarrow> wisdom_draft list" where
  "draftsOf ds = (case ds of Some xs \<Rightarrow> xs | None \<Rightarrow> [])"

definition appendDraft :: "wisdom_draft list option \<Rightarrow> wisdom_draft \<Rightarrow> wisdom_draft list" where
  "appendDraft existing d = draftsOf existing @ [d]"

subsection \<open>Transitions\<close>

definition dismissed :: "dismiss_reason \<Rightarrow> string \<Rightarrow> wisdom_draft \<Rightarrow> wisdom_draft" where
  "dismissed reason now d =
     (if wd_status d \<noteq> DraftSuggested then d
      else d\<lparr>wd_status := DraftDismissed, wd_dismissed_at := Some now, wd_dismiss_reason := Some reason\<rparr>)"

definition dismissDraft ::
  "wisdom_draft list option \<Rightarrow> string \<Rightarrow> dismiss_reason \<Rightarrow> string \<Rightarrow> wisdom_draft list" where
  "dismissDraft ds i reason now = map (\<lambda>d. if wd_id d \<noteq> i then d else dismissed reason now d) (draftsOf ds)"

record dismiss_all_result =
  da_drafts :: "wisdom_draft list"
  da_dismissedCount :: nat
  da_pendingReviewCount :: nat

definition dismissAllSuggestedDrafts ::
  "wisdom_draft list option \<Rightarrow> dismiss_reason \<Rightarrow> string \<Rightarrow> dismiss_all_result" where
  "dismissAllSuggestedDrafts ds reason now =
     (let xs = draftsOf ds; pending = length (filter (\<lambda>d. wd_status d = DraftSuggested) xs)
      in if pending = 0 then \<lparr>da_drafts = xs, da_dismissedCount = 0, da_pendingReviewCount = 0\<rparr>
         else \<lparr>da_drafts = map (dismissed reason now) xs,
           da_dismissedCount = fold (\<lambda>d n. if wd_status d \<noteq> DraftSuggested then n else n + 1) xs 0,
           da_pendingReviewCount = pending\<rparr>)"

definition promoteDraft :: "wisdom_draft list option \<Rightarrow> string \<Rightarrow> string \<Rightarrow> wisdom_draft list option" where
  "promoteDraft ds i wisdomId =
     (if list_ex (\<lambda>d. wd_id d = i) (draftsOf ds)
      then Some (map (\<lambda>d. if wd_id d \<noteq> i \<or> wd_status d \<noteq> DraftSuggested then d
          else d\<lparr>wd_status := DraftPromoted, wd_promoted_wisdom_id := Some wisdomId\<rparr>) (draftsOf ds))
      else None)"

definition findDraft :: "wisdom_draft list option \<Rightarrow> string \<Rightarrow> wisdom_draft option" where
  "findDraft ds i = List.find (\<lambda>d. wd_id d = i) (draftsOf ds)"

definition draftsByStatus :: "wisdom_draft list option \<Rightarrow> draft_status \<Rightarrow> wisdom_draft list" where
  "draftsByStatus ds s = filter (\<lambda>d. wd_status d = s) (draftsOf ds)"

subsection \<open>The life of the drafts of a task\<close>

datatype draft_step =
    StCreate string "error_recovery option" string
  | StDismiss string dismiss_reason string
  | StDismissAll dismiss_reason string
  | StPromote string string

fun draftStep :: "draft_step \<Rightarrow> task \<Rightarrow> task" where
  "draftStep (StCreate fresh r now) t =
     (case maybeCreateWisdomDraftFromErrorRecovery fresh (Some t) r now of
        Some d \<Rightarrow> t\<lparr>tk_wisdom_drafts := Some (appendDraft (tk_wisdom_drafts t) d)\<rparr>
      | None \<Rightarrow> t)"
| "draftStep (StDismiss i reason now) t = t\<lparr>tk_wisdom_drafts := Some (dismissDraft (tk_wisdom_drafts t) i reason now)\<rparr>"
| "draftStep (StDismissAll reason now) t =
     t\<lparr>tk_wisdom_drafts := Some (da_drafts (dismissAllSuggestedDrafts (tk_wisdom_drafts t) reason now))\<rparr>"
| "draftStep (StPromote i w) t =
     (case promoteDraft (tk_wisdom_drafts t) i w of Some ds \<Rightarrow> t\<lparr>tk_wisdom_drafts := Some ds\<rparr> | None \<Rightarrow> t)"

definition draftOk :: "wisdom_draft \<Rightarrow> bool" where
  "draftOk d \<longleftrightarrow> length (wd_suggested_content d) \<le> maxDraftContent \<and>
     (wd_status d = DraftDismissed \<longleftrightarrow> wd_dismissed_at d \<noteq> None) \<and> (wd_dismissed_at d = None \<longleftrightarrow> wd_dismiss_reason d = None) \<and>
     (wd_status d = DraftPromoted \<longleftrightarrow> wd_promoted_wisdom_id d \<noteq> None)"

definition suggestedOf :: "task \<Rightarrow> wisdom_draft list" where
  "suggestedOf t = draftsByStatus (tk_wisdom_drafts t) DraftSuggested"

definition draftsInv :: "task \<Rightarrow> bool" where
  "draftsInv t \<longleftrightarrow> length (suggestedOf t) \<le> 1 \<and> list_all draftOk (draftsOf (tk_wisdom_drafts t))"

lemma cappedContent_length: "length (cappedContent s) \<le> maxDraftContent"
  by (simp add: cappedContent_def maxDraftContent_def)

lemma hasSuggested_iff: "hasSuggestedDraft (Some t) \<longleftrightarrow> suggestedOf t \<noteq> []"
  by (auto simp: hasSuggestedDraft_def suggestedOf_def draftsByStatus_def draftsOf_def list_ex_iff filter_empty_conv
      split: option.splits)

lemma filter_map_le:
  assumes "\<And>x. P (f x) \<Longrightarrow> P x"
  shows "length (filter P (map f xs)) \<le> length (filter P xs)"
  by (induction xs) (auto simp: assms le_SucI)

lemma map_keeps_drafts:
  assumes "draftsInv t" "\<And>d. draftOk d \<Longrightarrow> draftOk (f d)" "\<And>d. wd_status (f d) = DraftSuggested \<Longrightarrow> wd_status d = DraftSuggested"
  shows "draftsInv (t\<lparr>tk_wisdom_drafts := Some (map f (draftsOf (tk_wisdom_drafts t)))\<rparr>)"
proof -
  have "length (filter (\<lambda>d. wd_status d = DraftSuggested) (map f (draftsOf (tk_wisdom_drafts t))))
      \<le> length (filter (\<lambda>d. wd_status d = DraftSuggested) (draftsOf (tk_wisdom_drafts t)))"
    by (rule filter_map_le) (rule assms(3))
  moreover have "list_all draftOk (map f (draftsOf (tk_wisdom_drafts t)))"
    using assms(1,2) by (auto simp: draftsInv_def list_all_iff)
  ultimately show ?thesis
    using assms(1) by (simp add: draftsInv_def suggestedOf_def draftsByStatus_def draftsOf_def)
qed

lemma dismissed_ok: "draftOk d \<Longrightarrow> draftOk (dismissed reason now d)"
  by (auto simp: draftOk_def dismissed_def)

lemma dismissed_status: "wd_status (dismissed reason now d) = DraftSuggested \<Longrightarrow> False"
  by (simp add: dismissed_def split: if_splits)

lemma dismissAll_drafts:
  "da_drafts (dismissAllSuggestedDrafts ds reason now) = map (dismissed reason now) (draftsOf ds)"
proof -
  have "map (dismissed reason now) (draftsOf ds) = draftsOf ds"
    if "filter (\<lambda>d. wd_status d = DraftSuggested) (draftsOf ds) = []"
    using that by (intro map_idI) (auto simp: dismissed_def filter_empty_conv)
  then show ?thesis by (simp add: dismissAllSuggestedDrafts_def Let_def)
qed

lemma promote_drafts:
  "promoteDraft ds i w = Some xs \<Longrightarrow>
     xs = map (\<lambda>d. if wd_id d \<noteq> i \<or> wd_status d \<noteq> DraftSuggested then d
       else d\<lparr>wd_status := DraftPromoted, wd_promoted_wisdom_id := Some w\<rparr>) (draftsOf ds)"
  by (simp add: promoteDraft_def split: if_splits)

lemma created_draft:
  assumes "maybeCreateWisdomDraftFromErrorRecovery fresh (Some t) r now = Some d"
  shows "draftOk d" "wd_status d = DraftSuggested" "suggestedOf t = []" "wd_id d = fresh"
proof -
  obtain e where e: "r = Some e" using assms by (cases r) (simp_all add: maybeCreateWisdomDraftFromErrorRecovery_def)
  show "draftOk d" "wd_status d = DraftSuggested" "wd_id d = fresh"
    using assms unfolding e
    by (auto simp: maybeCreateWisdomDraftFromErrorRecovery_def draftOk_def cappedContent_length Let_def split: if_splits)
  show "suggestedOf t = []"
    using assms unfolding e
    by (auto simp: maybeCreateWisdomDraftFromErrorRecovery_def hasSuggested_iff Let_def split: if_splits)
qed

lemma draftStep_inv: "draftsInv t \<Longrightarrow> draftsInv (draftStep s t)"
proof (induction s t rule: draftStep.induct)
  case (1 fresh r now t)
  show ?case
  proof (cases "maybeCreateWisdomDraftFromErrorRecovery fresh (Some t) r now")
    case None
    with 1 show ?thesis by simp
  next
    case (Some d)
    from created_draft [OF Some] 1 Some show ?thesis
      by (simp add: draftsInv_def suggestedOf_def draftsByStatus_def appendDraft_def draftsOf_def)
  qed
next
  case (2 i reason now t)
  then show ?case unfolding draftStep.simps dismissDraft_def
    by (intro map_keeps_drafts) (auto simp: dismissed_ok dest: dismissed_status split: if_splits)
next
  case (3 reason now t)
  then show ?case unfolding draftStep.simps dismissAll_drafts
    by (intro map_keeps_drafts) (auto simp: dismissed_ok dest: dismissed_status)
next
  case (4 i w t)
  show ?case
  proof (cases "promoteDraft (tk_wisdom_drafts t) i w")
    case (Some xs)
    then show ?thesis unfolding draftStep.simps promote_drafts [OF Some] Some option.simps
      by (intro map_keeps_drafts [OF 4]) (auto simp: draftOk_def split: if_splits)
  qed (use 4 in simp)
qed

lemma fixed_mem: "d \<in> set xs \<Longrightarrow> f d = d \<Longrightarrow> d \<in> set (map f xs)"
  by (metis image_eqI set_map)

lemma draftsOf_Some [simp]: "draftsOf (Some xs) = xs"
  by (simp add: draftsOf_def)

lemma draftStep_final:
  assumes "d \<in> set (draftsOf (tk_wisdom_drafts t))" "wd_status d \<noteq> DraftSuggested"
  shows "d \<in> set (draftsOf (tk_wisdom_drafts (draftStep s t)))"
proof (cases s)
  case (StCreate fresh r now)
  with assms show ?thesis by (simp add: appendDraft_def split: option.split)
next
  case (StDismiss i reason now)
  have "d \<in> set (dismissDraft (tk_wisdom_drafts t) i reason now)"
    unfolding dismissDraft_def using assms by (intro fixed_mem) (simp_all add: dismissed_def)
  with StDismiss show ?thesis by simp
next
  case (StDismissAll reason now)
  have "d \<in> set (da_drafts (dismissAllSuggestedDrafts (tk_wisdom_drafts t) reason now))"
    unfolding dismissAll_drafts using assms by (intro fixed_mem) (simp_all add: dismissed_def)
  with StDismissAll show ?thesis by simp
next
  case (StPromote i w)
  show ?thesis
  proof (cases "promoteDraft (tk_wisdom_drafts t) i w")
    case (Some xs)
    then have "d \<in> set xs" unfolding promote_drafts [OF Some] using assms by (intro fixed_mem) simp_all
    with StPromote Some show ?thesis by simp
  qed (use StPromote assms in simp)
qed

text \<open>
  Claim C29. The life of wisdom drafts is one-way: from a task without drafts, whatever drafts are
  created, dismissed and promoted in whatever order, a task never has two suggested drafts, every
  content is within its bound, a dismissal time and reason go with dismissal and a wisdom identifier
  with promotion, and a draft that has left the suggested state is never changed again.
\<close>

theorem draft_lifecycle:
  assumes "tk_wisdom_drafts t = None"
  shows "length (suggestedOf (fold draftStep ss t)) \<le> 1 \<and>
    list_all draftOk (draftsOf (tk_wisdom_drafts (fold draftStep ss t))) \<and>
    (\<forall>d \<in> set (draftsOf (tk_wisdom_drafts (fold draftStep ss t))).
       wd_status d \<noteq> DraftSuggested \<longrightarrow> d \<in> set (draftsOf (tk_wisdom_drafts (fold draftStep (ss @ later) t))))"
proof -
  have inv: "draftsInv u \<Longrightarrow> draftsInv (fold draftStep ss u)" for ss u
    by (induction ss arbitrary: u) (simp_all add: draftStep_inv)
  have final: "d \<in> set (draftsOf (tk_wisdom_drafts u)) \<Longrightarrow> wd_status d \<noteq> DraftSuggested \<Longrightarrow>
      d \<in> set (draftsOf (tk_wisdom_drafts (fold draftStep xs u)))" for d u xs
    by (induction xs arbitrary: u) (simp_all add: draftStep_final)
  have "draftsInv t" using assms by (simp add: draftsInv_def suggestedOf_def draftsByStatus_def draftsOf_def)
  from inv [OF this, of ss] show ?thesis using final [of _ "fold draftStep ss t" later] by (auto simp: draftsInv_def)
qed

text \<open>The dismissal of all suggested drafts reports what it did: as many as were pending, and none is left.\<close>

lemma dismissAll_counts:
  "let r = dismissAllSuggestedDrafts ds reason now
   in da_dismissedCount r = da_pendingReviewCount r \<and> da_pendingReviewCount r = length (draftsByStatus ds DraftSuggested) \<and>
      draftsByStatus (Some (da_drafts r)) DraftSuggested = []"
proof -
  have c: "fold (\<lambda>d n. if wd_status d \<noteq> DraftSuggested then n else n + 1) xs n
      = n + length (filter (\<lambda>d. wd_status d = DraftSuggested) xs)" for xs and n :: nat
    by (induction xs arbitrary: n) simp_all
  have "draftsByStatus (Some (da_drafts (dismissAllSuggestedDrafts ds reason now))) DraftSuggested = []"
    by (auto simp: dismissAll_drafts draftsByStatus_def draftsOf_def [of "Some _"] filter_empty_conv dest: dismissed_status)
  then show ?thesis
    unfolding Let_def dismissAllSuggestedDrafts_def draftsByStatus_def by (auto simp: c Let_def)
qed

definition ex_semantic :: error_recovery where
  "ex_semantic = ex_recovery\<lparr>er_total_attempts := Some 3\<rparr>"

theorem draft_lifecycle_witness:
  "map wd_status (draftsOf (tk_wisdom_drafts (fold draftStep
      [StCreate ''d1'' (Some ex_semantic) ''t1'', StPromote ''d1'' ''w1'', StCreate ''d2'' (Some ex_semantic) ''t2'',
       StDismissAll AutoCheckpoint ''t3''] (newTask ''a'' ''A'')))) = [DraftPromoted, DraftDismissed] \<and>
   length (suggestedOf (fold draftStep [StCreate ''d1'' (Some ex_semantic) ''t1''] (newTask ''a'' ''A''))) \<le> 1 \<and>
   map wd_suggested_content (suggestedOf (fold draftStep [StCreate ''d1'' (Some ex_semantic) ''t1''] (newTask ''a'' ''A'')))
     = [''d '' @ [arrowUnit] @ '' f [6 earlier attempts elided from the retained window]'']"
proof (intro conjI)
  show "length (suggestedOf (fold draftStep [StCreate ''d1'' (Some ex_semantic) ''t1''] (newTask ''a'' ''A''))) \<le> 1"
    using draft_lifecycle [of "newTask ''a'' ''A''" "[StCreate ''d1'' (Some ex_semantic) ''t1'']"]
    by (simp add: newTask_def)
qed code_simp+

end
