(* ===== verification/Task_Tool.thy ===== *)
theory Task_Tool
  imports Task_Store Wisdom_Draft
begin

text \<open>
  The task tools (\<^verbatim>\<open>plugin/src/tools/task.ts\<close>): list, ready, update, add, cancel and reclassify, over the
  directories of the disk store and the commit transaction.  Worktree isolation and what the store
  returns for the change are inputs of a run; generated identifiers and clock readings are arguments.
\<close>

subsection \<open>Queries\<close>

definition listTasksFromProjection :: "change_doc \<Rightarrow> task_status option \<Rightarrow> string option \<Rightarrow> task list" where
  "listTasksFromProjection d status flt = filterTasks (docTasks d) status flt"

definition projectionBlockers :: "change_doc \<Rightarrow> task \<Rightarrow> string list" where
  "projectionBlockers d t = filter (\<lambda>i. case findTask d i of Some b \<Rightarrow> \<not> isSettled b | None \<Rightarrow> False) (blockedByTargets t)"

definition getReadyTasksFromProjection :: "change_doc \<Rightarrow> task list \<times> (task \<times> string list) list" where
  "getReadyTasksFromProjection d =
     (let pending = filter (\<lambda>t. tk_status t = TPending) (docTasks d)
      in (filter (\<lambda>t. projectionBlockers d t = []) pending,
          map (\<lambda>t. (t, projectionBlockers d t)) (filter (\<lambda>t. projectionBlockers d t \<noteq> []) pending)))"

text \<open>An unreadable projection has no tasks.\<close>

definition taskListTool :: "change_store \<Rightarrow> string \<Rightarrow> task_status option \<Rightarrow> string option \<Rightarrow> task list" where
  "taskListTool st c status flt =
     (case loadChange (fileAt st c) of Inr (Some d) \<Rightarrow> listTasksFromProjection d status flt | _ \<Rightarrow> [])"

definition taskReadyTool :: "change_store \<Rightarrow> string \<Rightarrow> task list \<times> (task \<times> string list) list" where
  "taskReadyTool st c =
     (case loadChange (fileAt st c) of Inr (Some d) \<Rightarrow> getReadyTasksFromProjection d | _ \<Rightarrow> ([], []))"

subsection \<open>Committing a change of one task\<close>

definition mapTask :: "string \<Rightarrow> (task \<Rightarrow> task) \<Rightarrow> change_doc \<Rightarrow> change_doc" where
  "mapTask i f d = d\<lparr>cd_tasks := map_option (map (\<lambda>t. if tk_id t = i then f t else t)) (cd_tasks d)\<rparr>"

text \<open>\<open>verify\<close> is the edit run again on the task read back.\<close>

definition taskIntent ::
  "string \<Rightarrow> string \<Rightarrow> (task \<Rightarrow> task) \<Rightarrow> (task \<Rightarrow> task) \<Rightarrow> string \<Rightarrow> string \<Rightarrow> mutation_intent" where
  "taskIntent c i edit again kind evidence =
     \<lparr>mi_changeId = c, mi_mutationKind = kind, mi_mutate = (\<lambda>latest. Inr (mapTask i edit latest)),
      mi_verify = (\<lambda>rb. case findTask rb i of Some t \<Rightarrow> t = again t | None \<Rightarrow> False),
      mi_normalize = None, mi_reason = kind, mi_evidence = evidence, mi_authority_kind = AkMutation\<rparr>"

definition revisionConflict :: "nat \<Rightarrow> nat \<Rightarrow> string" where
  "revisionConflict e a = ''Projection revision conflict: expected '' @ showNat e @ '', actual '' @ showNat a"

text \<open>\<open>Inl\<close> is the error thrown.\<close>

definition committed :: "mutation_outcome \<Rightarrow> string + change_doc" where
  "committed out = (case out of
      Verified v r a \<Rightarrow> Inr v
    | Unverified reason a \<Rightarrow> Inl reason
    | MutationRefused reason \<Rightarrow> Inl reason
    | StaleMutation e a \<Rightarrow> Inl (revisionConflict e a))"

definition runIntent :: "mutation_intent \<Rightarrow> mutation_env \<Rightarrow> change_store \<Rightarrow> (string + change_doc) \<times> change_store" where
  "runIntent mi env st =
     (let (out, f) = coordinateChangeMutation mi None True env (fileAt st (mi_changeId mi))
      in (committed out, putFile (mi_changeId mi) f st))"

definition mutateTaskProjection ::
  "string \<Rightarrow> string \<Rightarrow> (task \<Rightarrow> task) \<Rightarrow> (task \<Rightarrow> task) \<Rightarrow> string \<Rightarrow> string \<Rightarrow> mutation_env \<Rightarrow> change_store
    \<Rightarrow> (string + change_doc) \<times> change_store" where
  "mutateTaskProjection c i edit again kind evidence env st = runIntent (taskIntent c i edit again kind evidence) env st"

definition addIntent :: "string \<Rightarrow> task \<Rightarrow> mutation_intent" where
  "addIntent c t =
     \<lparr>mi_changeId = c, mi_mutationKind = ''task_add'',
      mi_mutate = (\<lambda>latest. Inr (latest\<lparr>cd_tasks := Some (docTasks latest @ [t])\<rparr>)),
      mi_verify = (\<lambda>rb. list_ex (\<lambda>x. tk_id x = tk_id t) (docTasks rb)),
      mi_normalize = None, mi_reason = ''add task'', mi_evidence = tk_id t, mi_authority_kind = AkMutation\<rparr>"

definition addTaskToProjection ::
  "string \<Rightarrow> task \<Rightarrow> mutation_env \<Rightarrow> change_store \<Rightarrow> (string + change_doc) \<times> change_store" where
  "addTaskToProjection c t env st = runIntent (addIntent c t) env st"

subsection \<open>Checks\<close>

definition isDelegationRecoveryBlocked :: "delegation_recovery option \<Rightarrow> bool" where
  "isDelegationRecoveryBlocked r =
     (case r of Some d \<Rightarrow> 0 < dg_narrower_retry_count d \<and> \<not> dg_inline_diagnosis_evidence d | None \<Rightarrow> False)"

definition isSemanticInlineDiagnosisEvidence :: "error_recovery option \<Rightarrow> bool" where
  "isSemanticInlineDiagnosisEvidence r =
     (case r of Some e \<Rightarrow> er_error_class e = Semantic \<and> orEmpty (er_attempts e) \<noteq> [] | None \<Rightarrow> False)"

text \<open>\<open>Inl\<close> is the schema's refusal, which is thrown.\<close>

definition maybeClearBlockedDelegationRecovery ::
  "task option \<Rightarrow> error_recovery option \<Rightarrow> string \<Rightarrow> issue list + delegation_recovery option" where
  "maybeClearBlockedDelegationRecovery t r now =
     (case Option.bind t tk_delegation_recovery of
        None \<Rightarrow> Inr None
      | Some d \<Rightarrow>
          (if \<not> isDelegationRecoveryBlocked (Some d) \<or> \<not> isSemanticInlineDiagnosisEvidence r then Inr None
           else (let d' = d\<lparr>dg_inline_diagnosis_evidence := True, dg_last_updated_at := now\<rparr>
                 in if delegationIssues d' = [] then Inr (Some d') else Inl (delegationIssues d'))))"

definition unknownContractRefs :: "change_doc option \<Rightarrow> contract_refs option \<Rightarrow> string list" where
  "unknownContractRefs change refs =
     (case (Option.bind change cd_contract, refs) of
        (Some k, Some r) \<Rightarrow> filter (\<lambda>i. i \<notin> ci_id ` set (cc_items k))
          (orEmpty (cr_implements r) @ orEmpty (cr_verifies r) @ orEmpty (cr_respects r))
      | _ \<Rightarrow> [])"

definition worktreeGuardedTaskUpdateStatuses :: "task_status list" where
  "worktreeGuardedTaskUpdateStatuses = [TInProgress, TDone, TCancelled]"

text \<open>\<open>isolation\<close> is the reason the worktree guard blocks for, if it does.\<close>

definition evaluateTaskUpdateWorktreeIsolation :: "task_status \<Rightarrow> string option \<Rightarrow> string option" where
  "evaluateTaskUpdateWorktreeIsolation status isolation =
     (if status \<notin> set worktreeGuardedTaskUpdateStatuses then None else isolation)"

fun loadedDocs :: "change_store \<Rightarrow> change_doc list" where
  "loadedDocs [] = []"
| "loadedDocs ((c, f) # st) = (case loadChange f of Inr (Some d) \<Rightarrow> d # loadedDocs st | _ \<Rightarrow> loadedDocs st)"

text \<open>The owner of a task: the store's answer, else a scan of the projections of the listed changes.\<close>

definition resolveChangeId :: "change_store \<Rightarrow> string \<Rightarrow> string option" where
  "resolveChangeId st i =
     (case tasksShow st i of
        Some (t, c) \<Rightarrow> Some c
      | None \<Rightarrow> map_option cd_id (List.find (\<lambda>d. cd_status d \<noteq> Archived \<and> cd_status d \<noteq> Closed \<and>
          (case loadChange (fileAt st (cd_id d)) of
             Inr (Some p) \<Rightarrow> list_ex (\<lambda>t. tk_id t = i) (docTasks p) | _ \<Rightarrow> False)) (loadedDocs st)))"

definition guardChange :: "get_result \<Rightarrow> change_doc option" where
  "guardChange got = (case got of GetOk d \<Rightarrow> Some d | _ \<Rightarrow> None)"

subsection \<open>Updating a task\<close>

record update_args =
  ua_taskId :: string
  ua_status :: task_status
  ua_notes :: "string option"
  ua_implementation_summary :: "string option"
  ua_error_recovery :: "error_recovery option"
  ua_tdd_intent :: "tdd_intent option"
  ua_tdd_reason :: "string option"
  ua_approvedByUser :: bool
  ua_approvalEvidence :: "string option"
  ua_contract_refs :: "contract_refs option"
  ua_evidence_policy :: "evidence_policy option"
  ua_proof_target :: "string option"
  ua_evidence_rationale :: "string option"

datatype update_response =
    UrNotFound
  | UrUnknownRefs "string list"
  | UrIsolation string
  | UrDirectCancel
  | UrApprovalMissing
  | UrReasonMissing
  | UrTaskMissing
  | UrSameIntent tdd_intent
  | UrRecoveryInvalid "issue list"
  | UrRepairNotPending
  | UrRepairAfterPlanning
  | UrRepairInvalid "string list"
  | UrDoneNeedsCheckpoint
  | UrThrown string
  | UrLoadFailed string
  | UrUpdated "task option"

definition orText :: "string option \<Rightarrow> string \<Rightarrow> string" where
  "orText a b = (case a of Some x \<Rightarrow> x | None \<Rightarrow> b)"

text \<open>The plan a repair writes: the review fields of the old plan stay when they are not empty.\<close>

definition repairPlan :: "update_args \<Rightarrow> task \<Rightarrow> string \<Rightarrow> string \<Rightarrow> evidence_plan" where
  "repairPlan args t policy target =
     \<lparr>pl_policy = Some policy, pl_proof_target = Some target, pl_rationale = ua_evidence_rationale args,
      pl_review_conclusion = nonEmpty (Option.bind (tk_evidence_plan t) pl_review_conclusion),
      pl_review_evidence_ref = Option.bind (tk_evidence_plan t) pl_review_evidence_ref,
      pl_provenance = Some CNew, pl_stage = Some StageV2\<rparr>"

definition repairCandidate :: "update_args \<Rightarrow> task \<Rightarrow> task" where
  "repairCandidate args t =
     (let existing = resolveTaskEvidence t;
          policy = (case ua_evidence_policy args of Some p \<Rightarrow> p | None \<Rightarrow> es_policy existing);
          t' = (case ua_evidence_policy args of Some p \<Rightarrow> t\<lparr>tk_evidence_policy := Some (policyName p)\<rparr> | None \<Rightarrow> t)
      in t'\<lparr>tk_evidence_plan := Some (repairPlan args t (policyName policy) (orText (ua_proof_target args) (es_proof_target existing)))\<rparr>)"

definition evidenceRepair :: "update_args \<Rightarrow> gates option \<Rightarrow> task option \<Rightarrow> update_response + evidence_plan option" where
  "evidenceRepair args gates t =
     (if ua_evidence_policy args = None \<and> ua_evidence_rationale args = None \<and> ua_proof_target args = None then Inr None
      else if ua_status args \<noteq> TPending then Inl UrRepairNotPending
      else if (case gates of Some gs \<Rightarrow> gt_status (gs Planning) = GDone | None \<Rightarrow> False) then Inl UrRepairAfterPlanning
      else (case t of
          None \<Rightarrow> Inl UrTaskMissing
        | Some t \<Rightarrow>
            (let candidate = repairCandidate args t; repaired = resolveTaskEvidence candidate;
                 errors = validateTaskEvidenceForStage candidate Prep []
             in if errors \<noteq> [] then Inl (UrRepairInvalid errors)
                else Inr (Some (repairPlan args t (policyName (es_policy repaired)) (es_proof_target repaired))))))"

definition reclassification :: "string \<Rightarrow> tdd_intent \<Rightarrow> string \<Rightarrow> string \<Rightarrow> string \<Rightarrow> tdd_reclassification" where
  "reclassification from to reason evidence now =
     \<lparr>tr_from_intent = from, tr_to_intent = to, tr_reason = reason, tr_approval_evidence = evidence, tr_approved_at = now\<rparr>"

definition intentChecks :: "update_args \<Rightarrow> task option \<Rightarrow> string \<Rightarrow> update_response + tdd_reclassification option" where
  "intentChecks args t now =
     (case ua_tdd_intent args of
        None \<Rightarrow> Inr None
      | Some i \<Rightarrow>
          (if \<not> ua_approvedByUser args then Inl UrApprovalMissing
           else if \<not> truthy (map_option trim (ua_tdd_reason args)) \<or> \<not> truthy (map_option trim (ua_approvalEvidence args))
           then Inl UrReasonMissing
           else (case t of
               None \<Rightarrow> Inl UrTaskMissing
             | Some t \<Rightarrow>
                 (if metadataGet t ''tdd_intent'' = Some (tddIntentName i) then Inl (UrSameIntent i)
                  else Inr (Some (reclassification (orText (metadataGet t ''tdd_intent'') ''none'') i
                    (the (ua_tdd_reason args)) (the (ua_approvalEvidence args)) now))))))"

definition truthyOr :: "string option \<Rightarrow> string option \<Rightarrow> string option" where
  "truthyOr a b = (if truthy a then a else b)"

text \<open>The edit, in the order the patch is assembled and spread over the task.\<close>

definition updateEdit ::
  "update_args \<Rightarrow> delegation_recovery option \<Rightarrow> evidence_plan option \<Rightarrow> tdd_reclassification option
    \<Rightarrow> string \<Rightarrow> string \<Rightarrow> task \<Rightarrow> task" where
  "updateEdit args cleared repair reclass fresh now t =
     (let t1 = t\<lparr>tk_status := ua_status args,
            tk_notes := truthyOr (ua_notes args) (tk_notes t),
            tk_implementation_summary := truthyOr (ua_implementation_summary args) (tk_implementation_summary t),
            tk_summary := truthyOr (ua_implementation_summary args) (tk_summary t),
            tk_error_recovery := orElse (ua_error_recovery args) (tk_error_recovery t),
            tk_delegation_recovery := orElse cleared (tk_delegation_recovery t),
            tk_contract_refs := orElse (ua_contract_refs args) (tk_contract_refs t)\<rparr>;
          t2 = (case repair of
              Some p \<Rightarrow> t1\<lparr>tk_evidence_policy := pl_policy p, tk_evidence_plan := Some p\<rparr> | None \<Rightarrow> t1);
          t3 = (case reclass of
              Some r \<Rightarrow> t2\<lparr>tk_metadata := Some (map_set ''tdd_intent'' (tddIntentName (tr_to_intent r)) (orEmpty (tk_metadata t))),
                tk_tdd_reclassification := Some r\<rparr>
            | None \<Rightarrow> t2);
          t4 = (case maybeCreateWisdomDraftFromErrorRecovery fresh (Some t) (ua_error_recovery args) now of
              Some d \<Rightarrow> t3\<lparr>tk_wisdom_drafts := Some (appendDraft (tk_wisdom_drafts t) d)\<rparr> | None \<Rightarrow> t3)
      in (if ua_status args = TInProgress
          then t4\<lparr>tk_assignedTo := Some ''agent'', tk_started_at := Some (orText (tk_started_at t) now)\<rparr>
          else if ua_status args = TDone
          then t4\<lparr>tk_completed_at := Some now, tk_completedAt := Some now,
            tk_verification := Some (orText (ua_notes args)
              (orText (ua_implementation_summary args) ''Task marked done via adv_task_update''))\<rparr>
          else t4))"

fun statusName :: "task_status \<Rightarrow> string" where
  "statusName TPending = ''pending''"
| "statusName TInProgress = ''in_progress''"
| "statusName TBlocked = ''blocked''"
| "statusName TDone = ''done''"
| "statusName TCancelled = ''cancelled''"

record update_env =
  ue_got :: get_result
  ue_isolation :: "string option"
  ue_fresh :: string
  ue_again :: string
  ue_now :: string
  ue_commit :: mutation_env

text \<open>The checks before the commit: the refusal, or the edit and the one run again on the readback.\<close>

definition updateChecks ::
  "update_args \<Rightarrow> update_env \<Rightarrow> change_store \<Rightarrow> string \<Rightarrow> update_response + (task \<Rightarrow> task) \<times> (task \<Rightarrow> task)" where
  "updateChecks args env st c =
     (let change = guardChange (ue_got env); i = ua_taskId args; shown = tasksShow st i;
          current = orElse (map_option fst shown) (Option.bind change (\<lambda>d. findTask d i)) in
      if unknownContractRefs change (ua_contract_refs args) \<noteq> []
      then Inl (UrUnknownRefs (unknownContractRefs change (ua_contract_refs args)))
      else (case evaluateTaskUpdateWorktreeIsolation (ua_status args) (ue_isolation env) of
          Some reason \<Rightarrow> Inl (UrIsolation reason)
        | None \<Rightarrow>
      if ua_status args = TCancelled then Inl UrDirectCancel
      else (case intentChecks args current (ue_now env) of Inl r \<Rightarrow> Inl r | Inr reclass \<Rightarrow>
        (case maybeClearBlockedDelegationRecovery current (ua_error_recovery args) (ue_now env) of
           Inl issues \<Rightarrow> Inl (UrRecoveryInvalid issues)
         | Inr cleared \<Rightarrow>
        (case evidenceRepair args (gatesGet st c) current of Inl r \<Rightarrow> Inl r | Inr repair \<Rightarrow>
          if ua_status args = TDone \<and> \<not> (ua_contract_refs args \<noteq> None \<and> map_option (\<lambda>(t, _). tk_status t) shown = Some TDone)
          then Inl UrDoneNeedsCheckpoint
          else Inr (updateEdit args cleared repair reclass (ue_fresh env) (ue_now env),
                    updateEdit args cleared repair reclass (ue_again env) (ue_now env)))))))"

definition updateEvidence :: "update_args \<Rightarrow> string" where
  "updateEvidence args = orText (ua_notes args) (orText (ua_implementation_summary args) (statusName (ua_status args)))"

definition taskUpdateTool :: "update_args \<Rightarrow> update_env \<Rightarrow> change_store \<Rightarrow> update_response \<times> change_store" where
  "taskUpdateTool args env st =
     (case resolveChangeId st (ua_taskId args) of
        None \<Rightarrow> (UrNotFound, st)
      | Some c \<Rightarrow>
          (case updateChecks args env st c of
             Inl r \<Rightarrow> (r, st)
           | Inr (edit, again) \<Rightarrow>
               (case mutateTaskProjection c (ua_taskId args) edit again ''task_mutation'' (updateEvidence args) (ue_commit env) st of
                  (Inl e, st') \<Rightarrow> (UrThrown e, st')
                | (Inr _, st') \<Rightarrow>
                    (case loadChange (fileAt st' c) of
                       Inl (k, e) \<Rightarrow> (UrLoadFailed e, st')
                     | Inr d \<Rightarrow> (UrUpdated (Option.bind d (\<lambda>d. findTask d (ua_taskId args))), st')))))"

end
