(* ===== verification/Task_Add.thy ===== *)
theory Task_Add
  imports Task_Tool
begin

text \<open>
  Adding, cancelling and reclassifying tasks (\<^verbatim>\<open>plugin/src/tools/task.ts\<close>).
\<close>

subsection \<open>Adding a task\<close>

record add_args =
  aa_changeId :: string
  aa_content :: string
  aa_type :: "task_type option"
  aa_evidence_policy :: "evidence_policy option"
  aa_evidence_rationale :: "string option"
  aa_metadata :: "(string \<times> string) list option"
  aa_contract_refs :: "contract_refs option"
  aa_blockedBy :: "string list option"
  aa_section :: "string option"

record add_env =
  ad_got :: get_result
  ad_isolation :: "string option"
  ad_fresh :: string
  ad_now :: string
  ad_commit :: mutation_env

datatype add_response =
    AddUnknownRefs "string list"
  | AddIsolation string
  | AddAfterPlanning
  | AddLoadFailed string
  | AddUnknownBlockers "string list" "string list"
  | AddInvalidPlan "string list"
  | AddThrown string
  | Added task

definition nextPriority :: "task list \<Rightarrow> int" where
  "nextPriority ts = (if ts = [] then 0 else foldl max (tk_priority (hd ts)) (map tk_priority (tl ts)) + 1)"

fun defaultIntentFor :: "task_type \<Rightarrow> tdd_intent" where
  "defaultIntentFor TyCode = Inline"
| "defaultIntentFor TyVerification = SeparateVerification"
| "defaultIntentFor TyDocs = NotApplicable"
| "defaultIntentFor TyResearch = NotApplicable"
| "defaultIntentFor TyApproval = NotApplicable"
| "defaultIntentFor TyOps = NotApplicable"

definition mergedMetadata :: "(string \<times> string) list option \<Rightarrow> task_type \<Rightarrow> (string \<times> string) list" where
  "mergedMetadata meta ty =
     (let m = orEmpty meta
      in if truthy (map_get m ''tdd_intent'') then m else map_set ''tdd_intent'' (tddIntentName (defaultIntentFor ty)) m)"

definition titleOf :: "string \<Rightarrow> string" where
  "titleOf content = (let first = hd (splitOn (CHR 0x0A) content) in if first \<noteq> [] then first else content)"

definition blockedByDep :: "string \<Rightarrow> dependency" where
  "blockedByDep i = \<lparr>dp_type = BlockedBy, dp_target = i\<rparr>"

definition draftTask :: "add_args \<Rightarrow> add_env \<Rightarrow> task list \<Rightarrow> task" where
  "draftTask args env ts =
     (let ty = (case aa_type args of Some ty \<Rightarrow> ty | None \<Rightarrow> TyCode)
      in (newTask (ad_fresh env) (titleOf (aa_content args)))\<lparr>tk_type := Some ty, tk_section := aa_section args,
        tk_priority := nextPriority ts, tk_created_at := ad_now env,
        tk_deps := map_option (map blockedByDep) (aa_blockedBy args),
        tk_metadata := Some (mergedMetadata (aa_metadata args) ty),
        tk_contract_refs := aa_contract_refs args,
        tk_evidence_policy := map_option policyName (aa_evidence_policy args)\<rparr>)"

definition plannedTask :: "add_args \<Rightarrow> add_env \<Rightarrow> task list \<Rightarrow> task" where
  "plannedTask args env ts =
     (let t = draftTask args env ts; r = resolveTaskEvidence t
      in t\<lparr>tk_evidence_plan := Some \<lparr>pl_policy = Some (policyName (es_policy r)), pl_proof_target = Some (es_proof_target r),
        pl_rationale = nonEmpty (aa_evidence_rationale args), pl_review_conclusion = None, pl_review_evidence_ref = None,
        pl_provenance = Some CNew, pl_stage = Some StageV2\<rparr>\<rparr>)"

definition loadedTasks :: "change_store \<Rightarrow> string \<Rightarrow> string + task list" where
  "loadedTasks st c = (case loadChange (fileAt st c) of
      Inl (k, e) \<Rightarrow> Inl e | Inr None \<Rightarrow> Inr [] | Inr (Some d) \<Rightarrow> Inr (docTasks d))"

definition addChecks :: "add_args \<Rightarrow> add_env \<Rightarrow> change_store \<Rightarrow> add_response + task" where
  "addChecks args env st =
     (let change = guardChange (ad_got env); blockers = orEmpty (aa_blockedBy args) in
      if unknownContractRefs change (aa_contract_refs args) \<noteq> []
      then Inl (AddUnknownRefs (unknownContractRefs change (aa_contract_refs args)))
      else (case ad_isolation env of
          Some reason \<Rightarrow> Inl (AddIsolation reason)
        | None \<Rightarrow>
      if (case gatesGet st (aa_changeId args) of Some gs \<Rightarrow> gt_status (gs Planning) = GDone | None \<Rightarrow> False)
      then Inl AddAfterPlanning
      else (case loadedTasks st (aa_changeId args) of
          Inl e \<Rightarrow> Inl (AddLoadFailed e)
        | Inr ts \<Rightarrow>
            (let unknown = filter (\<lambda>i. i \<notin> tk_id ` set ts) blockers
             in if unknown \<noteq> [] then Inl (AddUnknownBlockers unknown (mk_set (map tk_id ts)))
                else (let t = plannedTask args env ts; errors = validateTaskEvidenceForStage t Prep []
                      in if errors \<noteq> [] then Inl (AddInvalidPlan errors) else Inr t)))))"

definition taskAddTool :: "add_args \<Rightarrow> add_env \<Rightarrow> change_store \<Rightarrow> add_response \<times> change_store" where
  "taskAddTool args env st =
     (case addChecks args env st of
        Inl r \<Rightarrow> (r, st)
      | Inr t \<Rightarrow>
          (case addTaskToProjection (aa_changeId args) t (ad_commit env) st of
             (Inl e, st') \<Rightarrow> (AddThrown e, st')
           | (Inr _, st') \<Rightarrow> (Added t, st')))"

subsection \<open>Cancelling tasks\<close>

record cancel_args =
  ka_taskIds :: "string list"
  ka_reasons :: "(string \<times> string) list"
  ka_approvedByUser :: bool
  ka_approvalEvidence :: string
  ka_dryRun :: bool

datatype cancel_response =
    CancelMissingReasons "string list"
  | CancelNotApproved
  | CancelNoEvidence
  | CancelUnknown "string list"
  | CancelPreview "string list"
  | CancelDone "(string \<times> string option) list"

definition cancelEdit :: "string \<Rightarrow> string \<Rightarrow> task \<Rightarrow> task" where
  "cancelEdit reason now t = t\<lparr>tk_status := TCancelled, tk_completed_at := Some now, tk_completedAt := Some now,
     tk_notes := Some reason\<rparr>"

definition cancelOne ::
  "cancel_args \<Rightarrow> string \<Rightarrow> string \<Rightarrow> mutation_env \<Rightarrow> change_store \<Rightarrow> (string \<times> string option) \<times> change_store" where
  "cancelOne args now i env st =
     (case resolveChangeId st i of
        None \<Rightarrow> ((i, Some (''Task not found: '' @ i)), st)
      | Some c \<Rightarrow>
          (let edit = cancelEdit (orText (map_get (ka_reasons args) i) []) now;
               (out, st') = mutateTaskProjection c i edit edit ''task_cancelled'' (ka_approvalEvidence args) env st
           in (case out of Inl e \<Rightarrow> ((i, Some e), st') | Inr v \<Rightarrow> ((i, None), st'))))"

text \<open>One environment per commit.\<close>

fun cancelAll ::
  "cancel_args \<Rightarrow> string \<Rightarrow> string list \<Rightarrow> (nat \<Rightarrow> mutation_env) \<Rightarrow> change_store
    \<Rightarrow> (string \<times> string option) list \<times> change_store" where
  "cancelAll args now [] envs st = ([], st)"
| "cancelAll args now (i # is) envs st =
     (case cancelOne args now i (envs 0) st of
        (r, st1) \<Rightarrow> (case cancelAll args now is (\<lambda>n. envs (Suc n)) st1 of (rs, st2) \<Rightarrow> (r # rs, st2)))"

definition taskCancelTool ::
  "cancel_args \<Rightarrow> string \<Rightarrow> (nat \<Rightarrow> mutation_env) \<Rightarrow> change_store \<Rightarrow> cancel_response \<times> change_store" where
  "taskCancelTool args now envs st =
     (let missing = filter (\<lambda>i. \<not> truthy (map_get (ka_reasons args) i)) (ka_taskIds args);
          unknown = filter (\<lambda>i. tasksShow st i = None) (ka_taskIds args) in
      if missing \<noteq> [] then (CancelMissingReasons missing, st)
      else if \<not> ka_approvedByUser args then (CancelNotApproved, st)
      else if trim (ka_approvalEvidence args) = [] then (CancelNoEvidence, st)
      else if unknown \<noteq> [] then (CancelUnknown unknown, st)
      else if ka_dryRun args then (CancelPreview (ka_taskIds args), st)
      else (case cancelAll args now (ka_taskIds args) envs st of (rs, st') \<Rightarrow> (CancelDone rs, st')))"

subsection \<open>Reclassifying the test intent\<close>

record reclassify_args =
  rc_taskId :: string
  rc_toIntent :: tdd_intent
  rc_reason :: string
  rc_approvedByUser :: bool
  rc_approvalEvidence :: string

datatype reclassify_response =
    ReNotApproved
  | ReNoEvidence
  | ReNotFound
  | ReCancelled
  | ReSame
  | ReInvalidPlan "string list"
  | ReThrown string
  | Reclassified tdd_reclassification evidence_plan

text \<open>The task with the new intent, and the plan recomputed for it.\<close>

definition reclassifiedTask :: "tdd_reclassification \<Rightarrow> task \<Rightarrow> task" where
  "reclassifiedTask r t = t\<lparr>tk_metadata := Some (map_set ''tdd_intent'' (tddIntentName (tr_to_intent r)) (orEmpty (tk_metadata t))),
     tk_tdd_reclassification := Some r\<rparr>"

definition reclassifiedPlan :: "evidence_resolution \<Rightarrow> evidence_plan" where
  "reclassifiedPlan e = \<lparr>pl_policy = Some (policyName (es_policy e)), pl_proof_target = Some (es_proof_target e),
     pl_rationale = es_rationale e, pl_review_conclusion = es_review_conclusion e, pl_review_evidence_ref = None,
     pl_provenance = Some CReclassified, pl_stage = None\<rparr>"

definition taskReclassifyTool ::
  "reclassify_args \<Rightarrow> string \<Rightarrow> mutation_env \<Rightarrow> change_store \<Rightarrow> reclassify_response \<times> change_store" where
  "taskReclassifyTool args now env st =
     (if \<not> rc_approvedByUser args then (ReNotApproved, st)
      else if trim (rc_approvalEvidence args) = [] then (ReNoEvidence, st)
      else (case tasksShow st (rc_taskId args) of
          None \<Rightarrow> (ReNotFound, st)
        | Some (t, c) \<Rightarrow>
            (if tk_status t = TCancelled then (ReCancelled, st)
             else if metadataGet t ''tdd_intent'' = Some (tddIntentName (rc_toIntent args)) then (ReSame, st)
             else
               (let r = reclassification (orText (metadataGet t ''tdd_intent'') ''none'') (rc_toIntent args)
                      (rc_reason args) (rc_approvalEvidence args) now;
                    u = reclassifiedTask r t; e = resolveTaskEvidence u
                in if \<not> es_valid e then (ReInvalidPlan (es_errors e), st)
                   else
                     (let edit = (\<lambda>x. x\<lparr>tk_metadata := tk_metadata u, tk_tdd_reclassification := Some r,
                            tk_evidence_plan := Some (reclassifiedPlan e)\<rparr>);
                          (out, st') = mutateTaskProjection c (rc_taskId args) edit edit ''task_tdd_reclassified''
                            (rc_approvalEvidence args) env st
                      in (case out of Inl err \<Rightarrow> (ReThrown err, st') | Inr v \<Rightarrow> (Reclassified r (reclassifiedPlan e), st')))))))"

end
