(* ===== verification/Task_Facts.thy ===== *)
theory Task_Facts
  imports Task_Add
begin

text \<open>
  Facts about the task tools: the contract of their commits, the exact acceptance of an update and its
  effect, the effect of every outcome on the stored tasks, and generated identifiers.
\<close>

subsection \<open>Files and tasks\<close>

lemma fileAt_put [simp]: "fileAt (putFile c f st) x = (if x = c then f else fileAt st x)"
  by (simp add: fileAt_def putFile_def update_conv')

lemma locateTask_Some:
  "locateTask st i = Some (c, d, t) \<Longrightarrow> (c, Valid d) \<in> set st \<and> findTask d i = Some t"
proof (induction st i rule: locateTask.induct)
  case (2 c' f st i)
  then show ?case
    by (cases f) (auto split: option.splits)
qed simp

lemma locateTask_fileAt:
  assumes "distinct (map fst st)" "locateTask st i = Some (c, d, t)"
  shows "fileAt st c = Valid d" "findTask d i = Some t"
proof -
  have m: "(c, Valid d) \<in> set st" "findTask d i = Some t" using locateTask_Some [OF assms(2)] by simp_all
  have "map_get st c = Some (Valid d)" using assms(1) m(1) by (rule map_of_is_SomeI)
  then show "fileAt st c = Valid d" by (simp add: fileAt_def)
  show "findTask d i = Some t" by (rule m(2))
qed

lemma resolve_located [simp]: "locateTask st i = Some (c, d, t) \<Longrightarrow> resolveChangeId st i = Some c"
  by (simp add: resolveChangeId_def tasksShow_def)

lemma findTask_id: "findTask d i = Some t \<Longrightarrow> tk_id t = i \<and> t \<in> set (docTasks d)"
  by (auto simp: findTask_def dest: find_Some_mem)

lemma docTasks_map [simp]: "docTasks (mapTask i f d) = map (\<lambda>t. if tk_id t = i then f t else t) (docTasks d)"
  by (cases "cd_tasks d") (simp_all add: docTasks_def mapTask_def orEmpty_def)

lemma find_map_id:
  assumes "\<And>t. tk_id (g t) = tk_id t"
  shows "List.find (\<lambda>t. tk_id t = j) (map g ts) = map_option g (List.find (\<lambda>t. tk_id t = j) ts)"
  by (induction ts) (simp_all add: assms)

lemma findTask_map:
  assumes "\<And>t. tk_id (f t) = tk_id t"
  shows "findTask (mapTask i f d) j = map_option (\<lambda>t. if j = i then f t else t) (findTask d j)"
proof -
  have "List.find (\<lambda>t. tk_id t = j) (map (\<lambda>t. if tk_id t = i then f t else t) (docTasks d))
      = map_option (\<lambda>t. if tk_id t = i then f t else t) (List.find (\<lambda>t. tk_id t = j) (docTasks d))"
    by (rule find_map_id) (simp add: assms)
  then show ?thesis by (cases "findTask d j") (auto simp: findTask_def dest: find_Some_mem)
qed

lemma mapTask_keeps [simp]:
  "cd_id (mapTask i f d) = cd_id d" "cd_projection_commits (mapTask i f d) = cd_projection_commits d"
  "populated x (mapTask i f d) = populated x d"
  by (simp add: mapTask_def, simp add: mapTask_def)
    (cases x; cases "cd_tasks d"; simp add: mapTask_def populated_def)

lemma tasks_payload: "payloadOf d = payloadOf e \<Longrightarrow> docTasks d = docTasks e"
  by (drule arg_cong [of _ _ cd_tasks]) (simp add: payloadOf_def docTasks_def)

lemma findTask_payload: "payloadOf d = payloadOf e \<Longrightarrow> findTask d i = findTask e i"
  using tasks_payload [of d e] by (simp add: findTask_def)

subsection \<open>The contract of the commits\<close>

definition stableEdit :: "(task \<Rightarrow> task) \<Rightarrow> (task \<Rightarrow> task) \<Rightarrow> bool" where
  "stableEdit edit again \<longleftrightarrow> (\<forall>t. tk_id (edit t) = tk_id t \<and> again (edit t) = edit t)"

interpretation task_commit: tool_mutation "\<lambda>latest. Inr (mapTask i edit latest)"
  "\<lambda>rb. case findTask rb i of Some t \<Rightarrow> t = again t | None \<Rightarrow> False"
  "\<lambda>d. findTask d i \<noteq> None \<and> stableEdit edit again" for i edit again
proof (unfold_locales, goal_cases)
  case (5 d d')
  then show ?case by (auto simp: stableEdit_def findTask_map)
next
  case (6 d e)
  then show ?case using findTask_payload [OF 6, of i] by simp
qed auto

interpretation add_commit: tool_mutation "\<lambda>latest. Inr (latest\<lparr>cd_tasks := Some (docTasks latest @ [t])\<rparr>)"
  "\<lambda>rb. list_ex (\<lambda>x. tk_id x = tk_id t) (docTasks rb)" "\<lambda>_. True" for t
proof (unfold_locales, goal_cases)
  case (4 d d' f)
  then show ?case by (cases f) (auto simp: populated_def docTasks_def orEmpty_def split: option.splits)
next
  case (6 d e)
  then show ?case using tasks_payload [OF 6] by simp
qed (auto simp: docTasks_def orEmpty_def)

lemma taskIntent_fields [simp]:
  "mi_mutate (taskIntent c i edit again k e) = (\<lambda>latest. Inr (mapTask i edit latest))"
  "mi_verify (taskIntent c i edit again k e) = (\<lambda>rb. case findTask rb i of Some t \<Rightarrow> t = again t | None \<Rightarrow> False)"
  "mi_changeId (taskIntent c i edit again k e) = c"
  by (simp_all add: taskIntent_def fun_eq_iff)

lemma addIntent_fields [simp]:
  "mi_mutate (addIntent c t) = (\<lambda>latest. Inr (latest\<lparr>cd_tasks := Some (docTasks latest @ [t])\<rparr>))"
  "mi_verify (addIntent c t) = (\<lambda>rb. list_ex (\<lambda>x. tk_id x = tk_id t) (docTasks rb))"
  "mi_changeId (addIntent c t) = c"
  by (simp_all add: addIntent_def)

text \<open>A file system that works, an identity not used before, and ordinary identifiers.\<close>

definition cleanCommit :: "mutation_intent \<Rightarrow> mutation_env \<Rightarrow> change_doc \<Rightarrow> bool" where
  "cleanCommit mi env d \<longleftrightarrow> workingEnv env \<and> freshOperation mi env d \<and>
     \<not> isSyntheticValidationDraftPattern (mi_changeId mi) \<and> \<not> isSyntheticValidationDraftPattern (cd_id d)"

lemma run_task_commit:
  assumes "fileAt st c = Valid d" "findTask d i \<noteq> None" "stableEdit edit again"
    and "cleanCommit (taskIntent c i edit again k e) env d"
  obtains v where "mutateTaskProjection c i edit again k e env st = (Inr v, putFile c (Valid v) st)"
    "payloadOf v = payloadOf (mapTask i edit d)"
proof -
  note a = assms(4) [unfolded cleanCommit_def]
  show ?thesis
  proof (rule task_commit.commits_verified [of "taskIntent c i edit again k e" i edit again d env])
    fix d' v a
    assume v: "Inr (mapTask i edit d) = (Inr d' :: string + change_doc)" "payloadOf v = payloadOf d'"
      "coordinateChangeMutation (taskIntent c i edit again k e) None True env (Valid d) = (Verified v (revisionOf d + 1) a, Valid v)"
    from v have "mutateTaskProjection c i edit again k e env st = (Inr v, putFile c (Valid v) st)"
      by (simp add: mutateTaskProjection_def runIntent_def assms(1) committed_def)
    moreover have "payloadOf v = payloadOf (mapTask i edit d)" using v(1,2) by simp
    ultimately show ?thesis by (rule that)
  qed (use a assms(2,3) in \<open>simp_all only: taskIntent_fields simp_thms\<close>)
qed

lemma run_add_commit:
  assumes "fileAt st c = Valid d" "cleanCommit (addIntent c t) env d"
  obtains v where "addTaskToProjection c t env st = (Inr v, putFile c (Valid v) st)"
    "docTasks v = docTasks d @ [t]"
proof -
  note a = assms(2) [unfolded cleanCommit_def]
  show ?thesis
  proof (rule add_commit.commits_verified [of "addIntent c t" t env d])
    fix d' v a
    assume v: "Inr (d\<lparr>cd_tasks := Some (docTasks d @ [t])\<rparr>) = (Inr d' :: string + change_doc)" "payloadOf v = payloadOf d'"
      "coordinateChangeMutation (addIntent c t) None True env (Valid d) = (Verified v (revisionOf d + 1) a, Valid v)"
    have "addTaskToProjection c t env st = (Inr v, putFile c (Valid v) st)"
      using v by (simp add: addTaskToProjection_def runIntent_def assms(1) committed_def)
    moreover have "docTasks v = docTasks d @ [t]"
      using v(1) unfolding tasks_payload [OF v(2)] by (auto simp: docTasks_def orEmpty_def)
    ultimately show ?thesis by (rule that)
  qed (use a in \<open>simp_all only: addIntent_fields simp_thms\<close>)
qed

text \<open>Whatever the outcome of a commit, the file holds the old document or the edited tasks.\<close>

lemma runIntent_effect:
  assumes "faithful (me_commit env)" "fileAt st (mi_changeId mi) = Valid d" "runIntent mi env st = (out, st')"
  shows "\<exists>f. st' = putFile (mi_changeId mi) f st \<and>
    (f = Valid d \<or> (\<exists>v d'. f = Valid v \<and> mi_mutate mi d = Inr d' \<and> docTasks v = docTasks d' \<and> cd_id v = cd_id d'))"
proof -
  obtain o' f where c: "coordinateChangeMutation mi None True env (Valid d) = (o', f)" by fastforce
  then have st': "st' = putFile (mi_changeId mi) f st" using assms(2,3) by (simp add: runIntent_def)
  from coordinate_effect [OF assms(1) c] have
    "f = Valid d \<or> (\<exists>v d'. f = Valid v \<and> mi_mutate mi d = Inr d' \<and> docTasks v = docTasks d' \<and> cd_id v = cd_id d')"
    using tasks_payload by metis
  with st' show ?thesis by blast
qed

subsection \<open>Updates\<close>

lemma orElse_simps [simp]: "orElse None b = b" "orElse (Some x) b = Some x"
  by (simp_all add: orElse_def)

lemma orElse_again [simp]: "orElse a (orElse a b) = orElse a b"
  by (cases a) simp_all

lemma truthyOr_again [simp]: "truthyOr a (truthyOr a b) = truthyOr a b"
  by (simp add: truthyOr_def)

lemma update_again [simp]: "map_set k v (map_set k v m) = map_set k v m"
  by (induction m) auto

text \<open>The fields of an updated task.\<close>

lemma updateEdit_keeps [simp]:
  "tk_id (updateEdit args cleared repair reclass fresh now t) = tk_id t"
  "tk_title (updateEdit args cleared repair reclass fresh now t) = tk_title t"
  "tk_type (updateEdit args cleared repair reclass fresh now t) = tk_type t"
  "tk_deps (updateEdit args cleared repair reclass fresh now t) = tk_deps t"
  "tk_completed_by (updateEdit args cleared repair reclass fresh now t) = tk_completed_by t"
  "tk_tdd_evidence (updateEdit args cleared repair reclass fresh now t) = tk_tdd_evidence t"
  "tk_cancellation (updateEdit args cleared repair reclass fresh now t) = tk_cancellation t"
  "tk_touched_files (updateEdit args cleared repair reclass fresh now t) = tk_touched_files t"
  "tk_subagent_reports (updateEdit args cleared repair reclass fresh now t) = tk_subagent_reports t"
  "tk_section (updateEdit args cleared repair reclass fresh now t) = tk_section t"
  "tk_target_repo (updateEdit args cleared repair reclass fresh now t) = tk_target_repo t"
  "tk_target_path (updateEdit args cleared repair reclass fresh now t) = tk_target_path t"
  "tk_priority (updateEdit args cleared repair reclass fresh now t) = tk_priority t"
  "tk_created_at (updateEdit args cleared repair reclass fresh now t) = tk_created_at t"
  "tk_filesTouched (updateEdit args cleared repair reclass fresh now t) = tk_filesTouched t"
  "tk_checkpointSha (updateEdit args cleared repair reclass fresh now t) = tk_checkpointSha t"
  "tk_structured_output (updateEdit args cleared repair reclass fresh now t) = tk_structured_output t"
  by (simp_all add: updateEdit_def Let_def split: option.split)

lemma updateEdit_sets [simp]:
  "tk_status (updateEdit args cleared repair reclass fresh now t) = ua_status args"
  "tk_notes (updateEdit args cleared repair reclass fresh now t) = truthyOr (ua_notes args) (tk_notes t)"
  "tk_implementation_summary (updateEdit args cleared repair reclass fresh now t) =
     truthyOr (ua_implementation_summary args) (tk_implementation_summary t)"
  "tk_summary (updateEdit args cleared repair reclass fresh now t) = truthyOr (ua_implementation_summary args) (tk_summary t)"
  "tk_error_recovery (updateEdit args cleared repair reclass fresh now t) = orElse (ua_error_recovery args) (tk_error_recovery t)"
  "tk_delegation_recovery (updateEdit args cleared repair reclass fresh now t) = orElse cleared (tk_delegation_recovery t)"
  "tk_contract_refs (updateEdit args cleared repair reclass fresh now t) = orElse (ua_contract_refs args) (tk_contract_refs t)"
  "tk_evidence_policy (updateEdit args cleared repair reclass fresh now t) =
     (case repair of Some p \<Rightarrow> pl_policy p | None \<Rightarrow> tk_evidence_policy t)"
  "tk_evidence_plan (updateEdit args cleared repair reclass fresh now t) = orElse repair (tk_evidence_plan t)"
  "tk_metadata (updateEdit args cleared repair reclass fresh now t) =
     (case reclass of Some r \<Rightarrow> Some (map_set ''tdd_intent'' (tddIntentName (tr_to_intent r)) (orEmpty (tk_metadata t)))
      | None \<Rightarrow> tk_metadata t)"
  "tk_tdd_reclassification (updateEdit args cleared repair reclass fresh now t) = orElse reclass (tk_tdd_reclassification t)"
  "tk_wisdom_drafts (updateEdit args cleared repair reclass fresh now t) =
     (case maybeCreateWisdomDraftFromErrorRecovery fresh (Some t) (ua_error_recovery args) now of
      Some d \<Rightarrow> Some (appendDraft (tk_wisdom_drafts t) d) | None \<Rightarrow> tk_wisdom_drafts t)"
  "tk_assignedTo (updateEdit args cleared repair reclass fresh now t) =
     (if ua_status args = TInProgress then Some ''agent'' else tk_assignedTo t)"
  "tk_started_at (updateEdit args cleared repair reclass fresh now t) =
     (if ua_status args = TInProgress then Some (orText (tk_started_at t) now) else tk_started_at t)"
  "tk_completed_at (updateEdit args cleared repair reclass fresh now t) =
     (if ua_status args = TDone then Some now else tk_completed_at t)"
  "tk_completedAt (updateEdit args cleared repair reclass fresh now t) =
     (if ua_status args = TDone then Some now else tk_completedAt t)"
  "tk_verification (updateEdit args cleared repair reclass fresh now t) =
     (if ua_status args = TDone
      then Some (orText (ua_notes args) (orText (ua_implementation_summary args) ''Task marked done via adv_task_update''))
      else tk_verification t)"
  by (simp_all add: updateEdit_def Let_def split: option.split)

lemma no_second_draft:
  "maybeCreateWisdomDraftFromErrorRecovery fresh (Some t) r now = Some d \<Longrightarrow>
     tk_wisdom_drafts t' = Some (appendDraft (tk_wisdom_drafts t) d) \<Longrightarrow>
     maybeCreateWisdomDraftFromErrorRecovery again (Some t') r now' = None"
proof -
  assume a: "maybeCreateWisdomDraftFromErrorRecovery fresh (Some t) r now = Some d"
    and t': "tk_wisdom_drafts t' = Some (appendDraft (tk_wisdom_drafts t) d)"
  have "hasSuggestedDraft (Some t')"
    using created_draft(2) [OF a] by (simp add: hasSuggestedDraft_def t' appendDraft_def)
  then show ?thesis by (cases r) (simp_all add: maybeCreateWisdomDraftFromErrorRecovery_def Let_def)
qed

lemma same_drafts_same_creation:
  "tk_wisdom_drafts t' = tk_wisdom_drafts t \<Longrightarrow>
     maybeCreateWisdomDraftFromErrorRecovery fresh (Some t) r now = None \<Longrightarrow>
     maybeCreateWisdomDraftFromErrorRecovery again (Some t') r now' = None"
  by (cases r) (auto simp: maybeCreateWisdomDraftFromErrorRecovery_def hasSuggestedDraft_def Let_def split: if_splits)

text \<open>The edit run again on its result changes nothing, so the readback check accepts it.\<close>

lemma update_stable: "stableEdit (updateEdit args cleared repair reclass fresh now) (updateEdit args cleared repair reclass again now)"
proof -
  have "updateEdit args cleared repair reclass again now (updateEdit args cleared repair reclass fresh now t)
      = updateEdit args cleared repair reclass fresh now t" (is "?g ?t = ?t") for t
  proof -
    have c: "maybeCreateWisdomDraftFromErrorRecovery again (Some ?t) (ua_error_recovery args) now = None"
    proof (cases "maybeCreateWisdomDraftFromErrorRecovery fresh (Some t) (ua_error_recovery args) now")
      case None
      show ?thesis by (rule same_drafts_same_creation [OF _ None]) (simp add: None)
    next
      case (Some d)
      show ?thesis by (rule no_second_draft [OF Some]) (simp add: Some)
    qed
    show ?thesis
      by (rule task.equality) (simp_all add: c orText_def orEmpty_def split: option.split)
  qed
  then show ?thesis by (simp add: stableEdit_def)
qed

end
