(* ===== verification/Task_Flow.thy ===== *)
theory Task_Flow
  imports Task_Facts
begin

text \<open>
  What the task tools guarantee: the exact acceptance and effect of an update, what no update can do,
  and the invariant of the tasks of a change over every run of the tools, from which readiness follows.
\<close>

subsection \<open>Evidence-plan repair\<close>

lemma declared_plan:
  assumes "tk_evidence_plan u = Some (repairPlan args t (policyName pol) target)"
  shows "effectivePolicy u = (pol, [])"
proof -
  have "policyName pol \<noteq> []" by (cases pol) simp_all
  then show ?thesis using assms by (simp add: effectivePolicy_def declaredPolicy_def repairPlan_def orElse_def)
qed

lemma repaired_errors:
  assumes "tk_evidence_plan u = Some (repairPlan args t (policyName pol) target)"
  shows "es_errors (resolveTaskEvidence u) = [] \<longleftrightarrow>
    \<not> (isBehaviorCritical (effectiveType u) \<and> pol = PNotApplicable) \<and>
    (\<not> isBehaviorCritical (effectiveType u) \<or> pol = PTest \<or>
      truthy (map_option trim (ua_evidence_rationale args)) \<and>
      countNonWhitespace (the (map_option trim (ua_evidence_rationale args))) \<le> 500)"
proof -
  have "resolveCompatibility u = CNew" by (simp add: resolveCompatibility_def assms repairPlan_def)
  then show ?thesis
    unfolding resolved_errors_Nil by (simp add: declared_plan [OF assms]) (simp add: assms repairPlan_def)
qed

definition repairPolicy :: "update_args \<Rightarrow> task \<Rightarrow> evidence_policy" where
  "repairPolicy args t = (case ua_evidence_policy args of Some p \<Rightarrow> p | None \<Rightarrow> es_policy (resolveTaskEvidence t))"

lemma candidate_plan:
  "\<exists>target. tk_evidence_plan (repairCandidate args t) = Some (repairPlan args t (policyName (repairPolicy args t)) target)"
  "effectiveType (repairCandidate args t) = effectiveType t"
  by (auto simp: repairCandidate_def repairPolicy_def effectiveType_def Let_def split: option.split)

lemma prep_errors [simp]: "validateTaskEvidenceForStage t Prep rs = es_errors (resolveTaskEvidence t)"
  by (simp add: validateTaskEvidenceForStage_def Let_def)

subsection \<open>Acceptance of an update\<close>

definition repairRequested :: "update_args \<Rightarrow> bool" where
  "repairRequested args \<longleftrightarrow> ua_evidence_policy args \<noteq> None \<or> ua_evidence_rationale args \<noteq> None \<or> ua_proof_target args \<noteq> None"

definition planningDone :: "gates option \<Rightarrow> bool" where
  "planningDone gs \<longleftrightarrow> (case gs of Some gs \<Rightarrow> gt_status (gs Planning) = GDone | None \<Rightarrow> False)"

text \<open>The route the repaired plan takes is allowed for the task.\<close>

definition repairAllowed :: "update_args \<Rightarrow> task \<Rightarrow> bool" where
  "repairAllowed args t \<longleftrightarrow> \<not> isBehaviorCritical (effectiveType t) \<or> repairPolicy args t = PTest \<or>
     repairPolicy args t \<noteq> PNotApplicable \<and> truthy (map_option trim (ua_evidence_rationale args)) \<and>
     countNonWhitespace (the (map_option trim (ua_evidence_rationale args))) \<le> 500"

definition intentAllowed :: "update_args \<Rightarrow> task \<Rightarrow> bool" where
  "intentAllowed args t \<longleftrightarrow> (\<forall>i. ua_tdd_intent args = Some i \<longrightarrow>
     ua_approvedByUser args \<and> truthy (map_option trim (ua_tdd_reason args)) \<and>
     truthy (map_option trim (ua_approvalEvidence args)) \<and> metadataGet t ''tdd_intent'' \<noteq> Some (tddIntentName i))"

definition updateAllowed :: "update_args \<Rightarrow> update_env \<Rightarrow> gates option \<Rightarrow> task \<Rightarrow> bool" where
  "updateAllowed args env gs t \<longleftrightarrow>
     unknownContractRefs (guardChange (ue_got env)) (ua_contract_refs args) = [] \<and>
     (ua_status args \<in> {TPending, TBlocked} \<or> ue_isolation env = None) \<and>
     (ua_status args \<in> {TPending, TBlocked, TInProgress} \<or>
        ua_status args = TDone \<and> tk_status t = TDone \<and> ua_contract_refs args \<noteq> None) \<and>
     intentAllowed args t \<and>
     (repairRequested args \<longrightarrow> ua_status args = TPending \<and> \<not> planningDone gs \<and> repairAllowed args t)"

definition validDelegation :: "task \<Rightarrow> bool" where
  "validDelegation t \<longleftrightarrow> (case tk_delegation_recovery t of Some d \<Rightarrow> delegationIssues d = [] | None \<Rightarrow> True)"

lemma clear_succeeds:
  assumes "validDelegation t"
  shows "\<exists>x. maybeClearBlockedDelegationRecovery (Some t) r now = Inr x"
proof (cases "tk_delegation_recovery t")
  case (Some d)
  with assms have "delegationIssues d = []" by (simp add: validDelegation_def)
  then have "delegationIssues (d\<lparr>dg_inline_diagnosis_evidence := True, dg_last_updated_at := now\<rparr>) = []"
    by (simp add: delegationIssues_def)
  with Some show ?thesis by (auto simp: maybeClearBlockedDelegationRecovery_def Let_def)
qed (simp add: maybeClearBlockedDelegationRecovery_def)

lemma intentChecks_iff: "(\<exists>x. intentChecks args (Some t) now = Inr x) \<longleftrightarrow> intentAllowed args t"
  by (cases "ua_tdd_intent args") (auto simp: intentChecks_def intentAllowed_def)

lemma evidenceRepair_iff:
  "(\<exists>x. evidenceRepair args gs (Some t) = Inr x) \<longleftrightarrow>
     (repairRequested args \<longrightarrow> ua_status args = TPending \<and> \<not> planningDone gs \<and> repairAllowed args t)"
proof -
  obtain target where "tk_evidence_plan (repairCandidate args t) = Some (repairPlan args t (policyName (repairPolicy args t)) target)"
    using candidate_plan(1) by blast
  from repaired_errors [OF this] candidate_plan(2) [of args t] have
    "es_errors (resolveTaskEvidence (repairCandidate args t)) = [] \<longleftrightarrow> repairAllowed args t"
    by (auto simp: repairAllowed_def)
  then show ?thesis
    by (auto simp: evidenceRepair_def repairRequested_def planningDone_def Let_def)
qed

lemma evidenceRepair_plan:
  assumes "evidenceRepair args gs (Some t) = Inr (Some p)"
  shows "\<exists>target. p = repairPlan args t (policyName (repairPolicy args t)) target" "repairAllowed args t"
proof -
  obtain target where c: "tk_evidence_plan (repairCandidate args t) = Some (repairPlan args t (policyName (repairPolicy args t)) target)"
    using candidate_plan(1) by blast
  have "es_policy (resolveTaskEvidence (repairCandidate args t)) = repairPolicy args t"
    by (simp add: declared_plan [OF c])
  with assms show "\<exists>target. p = repairPlan args t (policyName (repairPolicy args t)) target"
    by (auto simp: evidenceRepair_def Let_def split: if_splits)
  have "repairRequested args" using assms by (auto simp: evidenceRepair_def repairRequested_def split: if_splits)
  then show "repairAllowed args t" using evidenceRepair_iff [of args gs t] assms by blast
qed

text \<open>A chain of checks ends in a value when every check passes.\<close>

lemma chain_Inr:
  "(\<exists>x. (case s of Inl r \<Rightarrow> Inl (g r) | Inr y \<Rightarrow> f y) = Inr x) \<longleftrightarrow> (\<exists>y. s = Inr y \<and> (\<exists>x. f y = Inr x))"
  "(\<exists>x. (if b then Inl r else e) = Inr x) \<longleftrightarrow> \<not> b \<and> (\<exists>x. e = Inr x)"
  "(\<exists>x. (case z of Some q \<Rightarrow> Inl (h q) | None \<Rightarrow> e) = Inr x) \<longleftrightarrow> z = None \<and> (\<exists>x. e = Inr x)"
  by (simp_all split: sum.split option.split)

lemma updateChecks_iff:
  assumes "locateTask st (ua_taskId args) = Some (c, d, t)" "validDelegation t"
  shows "(\<exists>x. updateChecks args env st c = Inr x) \<longleftrightarrow> updateAllowed args env (gatesGet st c) t"
proof -
  have s: "tasksShow st (ua_taskId args) = Some (t, c)" using assms(1) by (simp add: tasksShow_def)
  have "(\<exists>x. updateChecks args env st c = Inr x) \<longleftrightarrow>
      unknownContractRefs (guardChange (ue_got env)) (ua_contract_refs args) = [] \<and>
      evaluateTaskUpdateWorktreeIsolation (ua_status args) (ue_isolation env) = None \<and> ua_status args \<noteq> TCancelled \<and>
      (\<exists>x. intentChecks args (Some t) (ue_now env) = Inr x) \<and>
      (\<exists>x. evidenceRepair args (gatesGet st c) (Some t) = Inr x) \<and>
      (ua_status args = TDone \<longrightarrow> ua_contract_refs args \<noteq> None \<and> tk_status t = TDone)"
    unfolding updateChecks_def Let_def s chain_Inr
    using clear_succeeds [OF assms(2), of "ua_error_recovery args" "ue_now env"] by auto
  then show ?thesis
    unfolding intentChecks_iff evidenceRepair_iff updateAllowed_def
    by (cases "ua_status args")
      (auto simp: evaluateTaskUpdateWorktreeIsolation_def worktreeGuardedTaskUpdateStatuses_def)
qed

lemma updateChecks_edit:
  assumes "updateChecks args env st c = Inr (edit, again)"
  shows "\<exists>cleared repair reclass.
    edit = updateEdit args cleared repair reclass (ue_fresh env) (ue_now env) \<and>
    again = updateEdit args cleared repair reclass (ue_again env) (ue_now env) \<and>
    evidenceRepair args (gatesGet st c) (orElse (map_option fst (tasksShow st (ua_taskId args)))
      (Option.bind (guardChange (ue_got env)) (\<lambda>d. findTask d (ua_taskId args)))) = Inr repair \<and>
    ua_status args \<noteq> TCancelled \<and>
    (ua_status args = TDone \<longrightarrow> map_option (\<lambda>(t, _). tk_status t) (tasksShow st (ua_taskId args)) = Some TDone)"
  using assms unfolding updateChecks_def Let_def
  by (auto split: if_splits option.splits sum.splits)

lemma cleanCommit_edit:
  "cleanCommit (taskIntent c i edit again k e) env d = cleanCommit (taskIntent c i edit' again' k e') env d"
  by (simp add: cleanCommit_def freshOperation_def operationIdOf_def taskIntent_def)

text \<open>What a run of the update tool needs from its surroundings.\<close>

definition updatable :: "update_args \<Rightarrow> update_env \<Rightarrow> change_store \<Rightarrow> string \<Rightarrow> change_doc \<Rightarrow> task \<Rightarrow> bool" where
  "updatable args env st c d t \<longleftrightarrow> distinct (map fst st) \<and> locateTask st (ua_taskId args) = Some (c, d, t) \<and>
     validDelegation t \<and> cleanCommit (taskIntent c (ua_taskId args) id id ''task_mutation'' []) (ue_commit env) d"


subsection \<open>What no update can do\<close>

lemma map_keeps_ids:
  assumes "\<And>t. tk_id (f t) = tk_id t"
  shows "map tk_id (map (\<lambda>t. if tk_id t = i then f t else t) ts) = map tk_id ts"
  by (induction ts) (simp_all add: assms)

lemma task_commit_effect:
  assumes "faithful (me_commit env)" "fileAt st c = Valid d" "mutateTaskProjection c i edit again k e env st = (out, st')"
  shows "\<exists>d'. fileAt st' c = Valid d' \<and> (\<forall>x. x \<noteq> c \<longrightarrow> fileAt st' x = fileAt st x) \<and> cd_id d' = cd_id d \<and>
    (docTasks d' = docTasks d \<or> docTasks d' = map (\<lambda>t. if tk_id t = i then edit t else t) (docTasks d))"
  using runIntent_effect [of env st "taskIntent c i edit again k e" d out st'] assms
  by (auto simp: mutateTaskProjection_def)

text \<open>
  Claim C23. Completing and cancelling are out of reach of the update tool: whatever its arguments, its
  surroundings and the outcome of its commit, an update leaves the identifiers of a change's tasks as
  they are, and a task whose status it changes is the one it names and is open afterwards.
\<close>

theorem update_never_settles:
  assumes "faithful (me_commit (ue_commit env))" "distinct (map fst st)" "fileAt st c = Valid d"
    "taskUpdateTool args env st = (r, st')"
  shows "\<exists>d'. fileAt st' c = Valid d' \<and> map tk_id (docTasks d') = map tk_id (docTasks d) \<and>
    (\<forall>j x y. findTask d j = Some x \<and> findTask d' j = Some y \<and> tk_status y \<noteq> tk_status x
       \<longrightarrow> j = ua_taskId args \<and> \<not> isSettled y)"
proof (cases "\<exists>c0 edit again. resolveChangeId st (ua_taskId args) = Some c0 \<and> updateChecks args env st c0 = Inr (edit, again)")
  case False
  then have "st' = st"
    using assms(4) by (auto simp: taskUpdateTool_def split: option.splits sum.splits)
  then show ?thesis using assms(3) by auto
next
  case True
  then obtain c0 edit again where ok: "resolveChangeId st (ua_taskId args) = Some c0" "updateChecks args env st c0 = Inr (edit, again)"
    by blast
  obtain out st1 where m: "mutateTaskProjection c0 (ua_taskId args) edit again ''task_mutation'' (updateEvidence args)
      (ue_commit env) st = (out, st1)" by fastforce
  have st': "st' = st1" using assms(4) ok m by (auto simp: taskUpdateTool_def split: sum.splits)
  from updateChecks_edit [OF ok(2)] obtain cleared repair reclass where
    e: "edit = updateEdit args cleared repair reclass (ue_fresh env) (ue_now env)" and notCancelled: "ua_status args \<noteq> TCancelled"
    and fin: "ua_status args = TDone \<longrightarrow> map_option (\<lambda>(t, _). tk_status t) (tasksShow st (ua_taskId args)) = Some TDone" by blast
  have keep: "tk_id (edit t) = tk_id t" "tk_status (edit t) = ua_status args" for t by (simp_all add: e)
  show ?thesis
  proof (cases "c0 = c")
    case other: False
    then have "fileAt st' c = fileAt st c"
      using m by (auto simp: st' mutateTaskProjection_def runIntent_def taskIntent_def split: prod.splits)
    then show ?thesis using assms(3) by auto
  next
    case same: True
    from task_commit_effect [OF assms(1,3) m [unfolded same]] obtain d' where d': "fileAt st' c = Valid d'"
      "docTasks d' = docTasks d \<or> docTasks d' = map (\<lambda>t. if tk_id t = ua_taskId args then edit t else t) (docTasks d)"
      by (auto simp: st')
    have "y = (if j = ua_taskId args then edit x else x) \<or> y = x" if "findTask d j = Some x" "findTask d' j = Some y" for j x y
      using d'(2) that find_map_id [of "\<lambda>t. if tk_id t = ua_taskId args then edit t else t" j "docTasks d"] keep(1)
      by (auto simp: findTask_def dest: find_Some_mem split: if_splits)
    moreover have "\<not> isSettled (edit x)" if x: "findTask d (ua_taskId args) = Some x" "tk_status (edit x) \<noteq> tk_status x" for x
    proof -
      have "ua_status args \<noteq> TDone"
      proof
        assume "ua_status args = TDone"
        with fin obtain t0 c1 where t0: "tasksShow st (ua_taskId args) = Some (t0, c1)" "tk_status t0 = TDone" by auto
        then obtain d1 where l: "locateTask st (ua_taskId args) = Some (c1, d1, t0)" by (auto simp: tasksShow_def)
        with ok(1) same have "c1 = c" by simp
        with locateTask_fileAt [OF assms(2) l] assms(3) have "findTask d (ua_taskId args) = Some t0" by simp
        with x t0(2) \<open>ua_status args = TDone\<close> show False by (simp add: keep)
      qed
      with notCancelled show ?thesis by (simp add: isSettled_def keep)
    qed
    ultimately have changed: "j = ua_taskId args \<and> \<not> isSettled y"
      if "findTask d j = Some x" "findTask d' j = Some y" "tk_status y \<noteq> tk_status x" for j x y
      using that by (metis (full_types))
    have "map tk_id (docTasks d') = map tk_id (docTasks d)"
      using d'(2) by (elim disjE) (simp_all only: map_keeps_ids [OF keep(1)])
    with d'(1) changed show ?thesis by blast
  qed
qed

end
