(* ===== verification/Checkpoint.thy ===== *)
theory Checkpoint
  imports Task_Tool
begin

text \<open>
  The checkpoint tool (\<^verbatim>\<open>plugin/src/tools/checkpoint.ts\<close>): the guards, the git commands it runs in order,
  and the completion it records.  The git binary is a parameter, a function of the arguments, the
  directory and its own state; the reports the store holds for the change and the extraction of a
  structured output from the verification text are inputs.
\<close>

subsection \<open>Git\<close>

record git_error =
  ge_message :: string
  ge_stderr :: string
  ge_exitCode :: int

record 'g git_world =
  gw_run :: "string list \<Rightarrow> string \<Rightarrow> 'g \<Rightarrow> (git_error + string) \<times> 'g"
  gw_exists :: "string \<Rightarrow> string \<Rightarrow> 'g \<Rightarrow> bool"

definition succeeds :: "'a + 'b \<Rightarrow> bool" where
  "succeeds r = (case r of Inl e \<Rightarrow> False | Inr x \<Rightarrow> True)"

definition gitPathExists :: "'g git_world \<Rightarrow> string \<Rightarrow> string \<Rightarrow> 'g \<Rightarrow> bool \<times> 'g" where
  "gitPathExists w cwd name g =
     (case gw_run w [''rev-parse'', ''--git-path'', name] cwd g of
        (Inl e, g') \<Rightarrow> (False, g')
      | (Inr out, g') \<Rightarrow> (trim out \<noteq> [] \<and> gw_exists w cwd (trim out) g', g'))"

datatype repo_state = RsOk | RsDetached | RsMerging | RsRebasing | RsCherryPicking | RsReverting | RsNotGit

definition detectRepoState :: "'g git_world \<Rightarrow> string \<Rightarrow> 'g \<Rightarrow> repo_state \<times> 'g" where
  "detectRepoState w cwd g =
     (let (r, g) = gw_run w [''rev-parse'', ''--git-dir''] cwd g in
      if \<not> succeeds r then (RsNotGit, g) else
      let (r, g) = gw_run w [''rev-parse'', ''--verify'', ''MERGE_HEAD''] cwd g in
      if succeeds r then (RsMerging, g) else
      let (r, g) = gw_run w [''rev-parse'', ''--verify'', ''REBASE_HEAD''] cwd g in
      if succeeds r then (RsRebasing, g) else
      let (b, g) = gitPathExists w cwd ''rebase-merge'' g in
      if b then (RsRebasing, g) else
      let (b, g) = gitPathExists w cwd ''rebase-apply'' g in
      if b then (RsRebasing, g) else
      let (r, g) = gw_run w [''rev-parse'', ''--verify'', ''CHERRY_PICK_HEAD''] cwd g in
      if succeeds r then (RsCherryPicking, g) else
      let (r, g) = gw_run w [''rev-parse'', ''--verify'', ''REVERT_HEAD''] cwd g in
      if succeeds r then (RsReverting, g) else
      let (r, g) = gw_run w [''symbolic-ref'', ''-q'', ''HEAD''] cwd g in
      if \<not> succeeds r then (RsDetached, g) else (RsOk, g))"

definition classifyGitError :: "git_error \<Rightarrow> error_class" where
  "classifyGitError e =
     (let msg = lowerStr (ge_message e); err = lowerStr (ge_stderr e) in
      if includesStr msg ''index.lock'' \<or> includesStr err ''index.lock''
         \<or> includesStr msg ''unable to create'' \<and> includesStr msg ''.lock'' then Transient
      else if ge_exitCode e = 1 \<and> (includesStr msg ''hook'' \<or> includesStr err ''hook'' \<or> includesStr msg ''merge''
         \<or> includesStr err ''conflict'') then Semantic
      else if 0 < ge_exitCode e then Semantic
      else Environmental)"

subsection \<open>The commit message\<close>

datatype checkpoint_mode = Complete | CancelMode

definition isAlphaNum :: "char \<Rightarrow> bool" where
  "isAlphaNum c \<longleftrightarrow> isWordChar c \<and> c \<noteq> CHR ''_''"

definition checkpointTaskId :: "string \<Rightarrow> bool" where
  "checkpointTaskId i \<longleftrightarrow> startsWith i ''tk-'' \<and> drop 3 i \<noteq> [] \<and> list_all isAlphaNum (drop 3 i)"

definition subjectMaxLen :: nat where
  "subjectMaxLen = 72"

fun modeName :: "checkpoint_mode \<Rightarrow> string" where
  "modeName Complete = ''complete''"
| "modeName CancelMode = ''cancel''"

definition checkpointSubject :: "checkpoint_mode \<Rightarrow> string \<Rightarrow> string" where
  "checkpointSubject mode i = (if mode = CancelMode then ''chore(adv): cancel checkpoint '' @ i else ''chore(adv): checkpoint '' @ i)"

definition trailer :: "string \<Rightarrow> string option \<Rightarrow> string list" where
  "trailer name v = (if truthy v then [name @ '': '' @ the v] else [])"

definition buildCommitMessage ::
  "string \<Rightarrow> checkpoint_mode \<Rightarrow> string option \<Rightarrow> string option \<Rightarrow> string option \<Rightarrow> string + string \<times> string" where
  "buildCommitMessage i mode reason changeId verification =
     (if \<not> checkpointTaskId i then Inl (''Invalid checkpoint task ID '' @ i)
      else if subjectMaxLen < length (checkpointSubject mode i)
      then Inl (''Checkpoint commit subject exceeds 72 characters for task '' @ i)
      else Inr (checkpointSubject mode i,
        joinWith [CHR 0x0A] (trailer ''Change'' changeId @ [''Task: '' @ i, ''Mode: '' @ modeName mode]
          @ (if mode = CancelMode then trailer ''Reason'' reason else []) @ trailer ''Verification'' verification)))"

subsection \<open>Recording the completion\<close>

record checkpoint_env =
  ke_reports :: "subagent_report list"
  ke_structured :: "string \<Rightarrow> json option"
  ke_completedAt :: string
  ke_dismissedAt :: string
  ke_bridgedAt :: string
  ke_complete :: mutation_env
  ke_dismiss :: mutation_env
  ke_publish :: "change_doc \<Rightarrow> string option"

text \<open>The class goes to the task's error recovery; a failure to store it is swallowed.\<close>

definition bridgedRecovery :: "error_recovery option \<Rightarrow> error_class \<Rightarrow> string \<Rightarrow> error_recovery" where
  "bridgedRecovery existing cls message =
     \<lparr>er_last_error = take 200 message,
      er_retry_count = (case existing of Some r \<Rightarrow> er_retry_count r | None \<Rightarrow> 0),
      er_max_retries = (case existing of Some r \<Rightarrow> er_max_retries r | None \<Rightarrow> 3),
      er_error_class = cls, er_next_strategy = nonEmpty (Option.bind existing er_next_strategy),
      er_attempts = Option.bind existing er_attempts, er_total_attempts = None, er_budget_warning = None,
      er_failure_attribution = None\<rparr>"

definition bridgeErrorClass :: "checkpoint_env \<Rightarrow> string \<Rightarrow> error_class \<Rightarrow> string \<Rightarrow> change_store \<Rightarrow> change_store" where
  "bridgeErrorClass env i cls message st =
     (case tasksGet st i of
        None \<Rightarrow> st
      | Some t \<Rightarrow> snd (tasksUpdate (ke_publish env) i
          \<lparr>ui_status = tk_status t, ui_now = ke_bridgedAt env, ui_notes = None, ui_summary = None,
           ui_errorRecovery = Some (bridgedRecovery (tk_error_recovery t) cls message), ui_touchedFiles = None\<rparr> st))"

record recording =
  rg_recorded :: bool
  rg_error :: "string option"
  rg_pendingReview :: "nat option"
  rg_autoDismissed :: "nat option"

definition notRecorded :: "string \<Rightarrow> recording" where
  "notRecorded e = \<lparr>rg_recorded = False, rg_error = Some e, rg_pendingReview = None, rg_autoDismissed = None\<rparr>"

definition taskHasPersistedSubagentReports :: "checkpoint_env \<Rightarrow> task \<Rightarrow> bool" where
  "taskHasPersistedSubagentReports env t \<longleftrightarrow>
     orEmpty (tk_subagent_reports t) \<noteq> [] \<or> list_ex (reportOwnedBy t) (ke_reports env)"

definition completionEdit :: "string \<Rightarrow> string \<Rightarrow> string \<Rightarrow> string list \<Rightarrow> json option \<Rightarrow> task \<Rightarrow> task" where
  "completionEdit now sha verification files structured t =
     t\<lparr>tk_status := TDone, tk_verification := Some verification, tk_summary := Some verification,
       tk_completed_at := Some now, tk_completedAt := Some now, tk_checkpointSha := Some sha,
       tk_filesTouched := Some files, tk_structured_output := orElse structured (tk_structured_output t)\<rparr>"

definition completionIntent ::
  "string \<Rightarrow> string \<Rightarrow> string \<Rightarrow> string \<Rightarrow> string \<Rightarrow> string list \<Rightarrow> json option \<Rightarrow> mutation_intent" where
  "completionIntent c i now sha verification files structured =
     \<lparr>mi_changeId = c, mi_mutationKind = ''task_checkpoint_completed'',
      mi_mutate = (\<lambda>latest. Inr (mapTask i (completionEdit now sha verification files structured) latest)),
      mi_verify = (\<lambda>rb. case findTask rb i of
          Some t \<Rightarrow> tk_status t = TDone \<and> tk_verification t = Some verification \<and> tk_checkpointSha t = Some sha \<and>
            orEmpty (tk_filesTouched t) = files
        | None \<Rightarrow> False),
      mi_normalize = None, mi_reason = ''record task checkpoint completion'', mi_evidence = sha @ '':'' @ verification,
      mi_authority_kind = AkMutation\<rparr>"

definition dismissalIntent :: "string \<Rightarrow> string \<Rightarrow> wisdom_draft list \<Rightarrow> mutation_intent" where
  "dismissalIntent c i drafts =
     \<lparr>mi_changeId = c, mi_mutationKind = ''checkpoint_draft_dismissal'',
      mi_mutate = (\<lambda>latest. Inr (mapTask i (\<lambda>t. t\<lparr>tk_wisdom_drafts := Some drafts\<rparr>) latest)),
      mi_verify = (\<lambda>rb. draftsOf (Option.bind (findTask rb i) tk_wisdom_drafts) = drafts),
      mi_normalize = None, mi_reason = ''dismiss checkpoint-reviewed wisdom drafts'', mi_evidence = i,
      mi_authority_kind = AkMutation\<rparr>"

definition dismissDrafts :: "checkpoint_env \<Rightarrow> string \<Rightarrow> task \<Rightarrow> change_store \<Rightarrow> (nat \<times> nat) \<times> change_store" where
  "dismissDrafts env c t st =
     (let r = dismissAllSuggestedDrafts (tk_wisdom_drafts t) AutoCheckpoint (ke_dismissedAt env)
      in if da_dismissedCount r = 0 then ((da_pendingReviewCount r, 0), st)
         else (case runIntent (dismissalIntent c (tk_id t) (da_drafts r)) (ke_dismiss env) st of
             (Inr v, st') \<Rightarrow> ((da_pendingReviewCount r, da_dismissedCount r), st')
           | (Inl e, st') \<Rightarrow> ((da_pendingReviewCount r, 0), st')))"

text \<open>The checks of the task read back, in order; the first two report no draft counts.\<close>

definition recordedChecks :: "task \<Rightarrow> string \<Rightarrow> string \<Rightarrow> string list \<Rightarrow> nat \<times> nat \<Rightarrow> recording" where
  "recordedChecks t sha verification files counts =
     (let drafts = \<lparr>rg_recorded = False, rg_error = None, rg_pendingReview = Some (fst counts), rg_autoDismissed = Some (snd counts)\<rparr>;
          recorded = orEmpty (tk_filesTouched t)
      in if tk_status t \<noteq> TDone then notRecorded (''Task '' @ tk_id t @ '' status is '' @ statusName (tk_status t) @ '' after checkpoint completion'')
         else if tk_verification t \<noteq> Some verification
         then notRecorded (''Task '' @ tk_id t @ '' verification did not match checkpoint verification'')
         else if tk_checkpointSha t \<noteq> Some sha
         then drafts\<lparr>rg_error := Some (''Task '' @ tk_id t @ '' checkpointSha did not match '' @ sha)\<rparr>
         else if length recorded \<noteq> length files \<or> \<not> set recorded \<subseteq> set files
         then drafts\<lparr>rg_error := Some (''Task '' @ tk_id t @ '' filesTouched did not match checkpoint files'')\<rparr>
         else drafts\<lparr>rg_recorded := True\<rparr>)"

definition fireTaskCompletedFromCheckpoint ::
  "checkpoint_env \<Rightarrow> string \<Rightarrow> string \<Rightarrow> string \<Rightarrow> string list \<Rightarrow> change_store \<Rightarrow> recording \<times> change_store" where
  "fireTaskCompletedFromCheckpoint env i sha verification files st =
     (case tasksShow st i of
        None \<Rightarrow> (notRecorded (''Task not found: '' @ i), st)
      | Some (shown, c) \<Rightarrow>
          (let structured = (if taskHasPersistedSubagentReports env shown then None else ke_structured env verification)
           in (case runIntent (completionIntent c i (ke_completedAt env) sha verification files structured) (ke_complete env) st of
                 (Inl e, st1) \<Rightarrow> (notRecorded e, st1)
               | (Inr v, st1) \<Rightarrow>
                   (case loadChange (fileAt st1 c) of
                      Inl (k, e) \<Rightarrow> (notRecorded e, st1)
                    | Inr d \<Rightarrow>
                        (case Option.bind d (\<lambda>d. findTask d i) of
                           None \<Rightarrow> (notRecorded (''Task '' @ i @ '' was not readable after checkpoint completion''), st1)
                         | Some t \<Rightarrow>
                             (case dismissDrafts env c t st1 of
                                (counts, st2) \<Rightarrow> (recordedChecks t sha verification files counts, st2)))))))"

subsection \<open>The tool\<close>

record checkpoint_args =
  ck_taskId :: string
  ck_workdir :: "string option"
  ck_mode :: "checkpoint_mode option"
  ck_reason :: "string option"
  ck_changeId :: "string option"
  ck_expectedBranch :: "string option"
  ck_expectedHeadSha :: "string option"
  ck_verification :: "string option"
  ck_targeted :: bool

datatype checkpoint_response =
    CkBlankWorkdir
  | CkForeignWorkdir
  | CkReasonMissing
  | CkRefusedState repo_state
  | CkChangeMismatch string string
  | CkBranchMismatch string string
  | CkHeadMismatch string string
  | CkGitFailed error_class
  | CkVerificationMissing
  | CkBadMessage string
  | CkClean string string recording
  | CkCommitted string string recording "string list"

definition touchedFiles :: "'g git_world \<Rightarrow> string \<Rightarrow> 'g \<Rightarrow> string list \<times> 'g" where
  "touchedFiles w cwd g =
     (case gw_run w [''diff'', ''--name-only'', ''HEAD~1''] cwd g of
        (Inl e, g') \<Rightarrow> ([], g')
      | (Inr out, g') \<Rightarrow> (filter (\<lambda>f. f \<noteq> []) (map trim (splitOn (CHR 0x0A) out)), g'))"

definition sameRepository :: "'g git_world \<Rightarrow> string \<Rightarrow> string \<Rightarrow> 'g \<Rightarrow> bool \<times> 'g" where
  "sameRepository w root cwd g =
     (case gw_run w [''rev-parse'', ''--path-format=absolute'', ''--git-common-dir''] root g of
        (Inl e, g1) \<Rightarrow> (False, g1)
      | (Inr a, g1) \<Rightarrow>
          (case gw_run w [''rev-parse'', ''--path-format=absolute'', ''--git-common-dir''] cwd g1 of
             (Inl e, g2) \<Rightarrow> (False, g2)
           | (Inr b, g2) \<Rightarrow> (trim a \<noteq> [] \<and> trim b \<noteq> [] \<and> trim a = trim b, g2)))"

definition guardMode :: "checkpoint_args \<Rightarrow> bool" where
  "guardMode args \<longleftrightarrow> truthy (ck_changeId args) \<or> truthy (ck_expectedBranch args) \<or> truthy (ck_expectedHeadSha args)
     \<or> truthy (ck_verification args)"

definition expectedBranch :: "checkpoint_args \<Rightarrow> string option \<Rightarrow> string option" where
  "expectedBranch args changeId =
     (if truthy (ck_expectedBranch args) then ck_expectedBranch args
      else if guardMode args \<and> truthy changeId then Some (''change/'' @ the changeId) else None)"

definition modeOf :: "checkpoint_args \<Rightarrow> checkpoint_mode" where
  "modeOf args = (case ck_mode args of Some m \<Rightarrow> m | None \<Rightarrow> Complete)"

definition record_if :: "checkpoint_env \<Rightarrow> checkpoint_args \<Rightarrow> string \<Rightarrow> string \<Rightarrow> string list \<Rightarrow> change_store \<Rightarrow> recording \<times> change_store" where
  "record_if env args sha fallback files st =
     (if modeOf args = Complete
      then fireTaskCompletedFromCheckpoint env (ck_taskId args) sha (orText (ck_verification args) fallback) files st
      else (\<lparr>rg_recorded = True, rg_error = None, rg_pendingReview = None, rg_autoDismissed = None\<rparr>, st))"

text \<open>The commit is tried again once when the index is locked.\<close>

fun commitRetry :: "'g git_world \<Rightarrow> string \<Rightarrow> string \<Rightarrow> string \<Rightarrow> nat \<Rightarrow> 'g \<Rightarrow> git_error option \<times> 'g" where
  "commitRetry w cwd subject body n g =
     (case gw_run w [''commit'', ''-m'', subject, ''-m'', body] cwd g of
        (Inr out, g') \<Rightarrow> (None, g')
      | (Inl e, g') \<Rightarrow>
          (case n of
             0 \<Rightarrow> (Some e, g')
           | Suc k \<Rightarrow> if classifyGitError e = Transient then commitRetry w cwd subject body k g' else (Some e, g')))"

definition failedWith :: "checkpoint_env \<Rightarrow> string \<Rightarrow> error_class \<Rightarrow> string \<Rightarrow> change_store \<Rightarrow> 'g
    \<Rightarrow> checkpoint_response \<times> change_store \<times> 'g" where
  "failedWith env i cls message st g = (CkGitFailed cls, bridgeErrorClass env i cls message st, g)"

text \<open>Staging, the commit, and what follows it.\<close>

definition commitCheckpoint ::
  "'g git_world \<Rightarrow> checkpoint_env \<Rightarrow> checkpoint_args \<Rightarrow> string \<Rightarrow> string \<Rightarrow> string \<Rightarrow> string \<Rightarrow> change_store \<Rightarrow> 'g
    \<Rightarrow> checkpoint_response \<times> change_store \<times> 'g" where
  "commitCheckpoint w env args cwd branch subject body st g =
     (case gw_run w [''add'', ''-A''] cwd g of
        (Inl e, g) \<Rightarrow> failedWith env (ck_taskId args) (classifyGitError e) (ge_message e) st g
      | (Inr out, g) \<Rightarrow>
          (case commitRetry w cwd subject body 1 g of
             (Some e, g) \<Rightarrow> failedWith env (ck_taskId args)
               (if classifyGitError e = Transient then Semantic else classifyGitError e) (ge_stderr e) st g
           | (None, g) \<Rightarrow>
               (case gw_run w [''rev-parse'', ''HEAD''] cwd g of
                  (Inl e, g) \<Rightarrow> failedWith env (ck_taskId args) (classifyGitError e) (ge_message e) st g
                | (Inr sha, g) \<Rightarrow>
                    (case touchedFiles w cwd g of (files, g) \<Rightarrow>
                      (case record_if env args (trim sha) ''Checkpoint committed'' files st of
                         (rec, st') \<Rightarrow> (CkCommitted (trim sha) branch rec files, st', g))))))"

definition afterContext ::
  "'g git_world \<Rightarrow> checkpoint_env \<Rightarrow> checkpoint_args \<Rightarrow> string \<Rightarrow> string option \<Rightarrow> string \<Rightarrow> string \<Rightarrow> change_store \<Rightarrow> 'g
    \<Rightarrow> checkpoint_response \<times> change_store \<times> 'g" where
  "afterContext w env args cwd changeId branch head st g =
     (let expected = expectedBranch args changeId in
      if truthy expected \<and> branch \<noteq> the expected then (CkBranchMismatch (the expected) branch, st, g)
      else if truthy (ck_expectedHeadSha args) \<and> head \<noteq> the (ck_expectedHeadSha args)
      then (CkHeadMismatch (the (ck_expectedHeadSha args)) head, st, g)
      else (case gw_run w [''status'', ''--porcelain''] cwd g of
          (Inl e, g) \<Rightarrow> (CkGitFailed (classifyGitError e), st, g)
        | (Inr out, g) \<Rightarrow>
            (if trim out = []
             then (case touchedFiles w cwd g of (files, g) \<Rightarrow>
                 (case record_if env args head ''Clean tree checkpoint'' files st of
                    (rec, st') \<Rightarrow> (CkClean head branch rec, st', g)))
             else if modeOf args = Complete \<and> \<not> truthy (ck_verification args) then (CkVerificationMissing, st, g)
             else (case buildCommitMessage (ck_taskId args) (modeOf args) (ck_reason args) changeId (ck_verification args) of
                 Inl e \<Rightarrow> (CkBadMessage e, st, g)
               | Inr (subject, body) \<Rightarrow> commitCheckpoint w env args cwd branch subject body st g))))"

text \<open>The branch, the head and the root are read one after the other; the first failure ends it.\<close>

definition gitContext :: "'g git_world \<Rightarrow> string \<Rightarrow> 'g \<Rightarrow> (git_error + string \<times> string) \<times> 'g" where
  "gitContext w cwd g =
     (case gw_run w [''rev-parse'', ''--abbrev-ref'', ''HEAD''] cwd g of
        (Inl e, g) \<Rightarrow> (Inl e, g)
      | (Inr branch, g) \<Rightarrow>
          (case gw_run w [''rev-parse'', ''HEAD''] cwd g of
             (Inl e, g) \<Rightarrow> (Inl e, g)
           | (Inr head, g) \<Rightarrow>
               (case gw_run w [''rev-parse'', ''--show-toplevel''] cwd g of
                  (Inl e, g) \<Rightarrow> (Inl e, g)
                | (Inr root, g) \<Rightarrow> (Inr (trim branch, trim head), g))))"

definition afterState ::
  "'g git_world \<Rightarrow> checkpoint_env \<Rightarrow> checkpoint_args \<Rightarrow> string \<Rightarrow> change_store \<Rightarrow> 'g
    \<Rightarrow> checkpoint_response \<times> change_store \<times> 'g" where
  "afterState w env args cwd st g =
     (case detectRepoState w cwd g of (rs, g) \<Rightarrow>
        (if rs \<in> {RsNotGit, RsDetached, RsMerging} then (CkRefusedState rs, st, g)
         else
           (let derived = map_option snd (tasksShow st (ck_taskId args)) in
            if truthy (ck_changeId args) \<and> truthy derived \<and> ck_changeId args \<noteq> derived
            then (CkChangeMismatch (the (ck_changeId args)) (the derived), st, g)
            else (case gitContext w cwd g of
                (Inl e, g) \<Rightarrow> (CkGitFailed (classifyGitError e), st, g)
              | (Inr (branch, head), g) \<Rightarrow>
                  afterContext w env args cwd (truthyOr (ck_changeId args) derived) branch head st g))))"

definition checkpointTool ::
  "'g git_world \<Rightarrow> checkpoint_env \<Rightarrow> checkpoint_args \<Rightarrow> string \<Rightarrow> change_store \<Rightarrow> 'g
    \<Rightarrow> checkpoint_response \<times> change_store \<times> 'g" where
  "checkpointTool w env args defaultWorkdir st g =
     (let cwd = orText (ck_workdir args) defaultWorkdir in
      if (case ck_workdir args of Some d \<Rightarrow> trim d = [] | None \<Rightarrow> False) then (CkBlankWorkdir, st, g)
      else (case (if ck_targeted args \<and> ck_workdir args \<noteq> None then sameRepository w defaultWorkdir cwd g else (True, g)) of
          (same, g) \<Rightarrow>
            (if \<not> same then (CkForeignWorkdir, st, g)
             else if modeOf args = CancelMode \<and> \<not> truthy (ck_reason args) then (CkReasonMissing, st, g)
             else afterState w env args cwd st g)))"

end
