(* ===== verification/Task_Runs.thy ===== *)
theory Task_Runs
  imports Task_Flow Checkpoint
begin

text \<open>
  Runs of the task tools over the directories of changes, whatever the outcomes of their commits: the
  order of the tasks of every change, the freeze of its task list by planning, and readiness.
\<close>

subsection \<open>Tasks in order\<close>

text \<open>Every task waits only for tasks before it, the identifiers are distinct, and priorities rise.\<close>

fun depsBack :: "string list \<Rightarrow> task list \<Rightarrow> bool" where
  "depsBack seen [] = True"
| "depsBack seen (t # ts) = (set (blockedByTargets t) \<subseteq> set seen \<and> depsBack (tk_id t # seen) ts)"

definition tasksOrdered :: "task list \<Rightarrow> bool" where
  "tasksOrdered ts \<longleftrightarrow> depsBack [] ts \<and> distinct (map tk_id ts) \<and> sorted_wrt (<) (map tk_priority ts)"

lemma depsBack_append:
  "depsBack seen (xs @ ys) \<longleftrightarrow> depsBack seen xs \<and> depsBack (rev (map tk_id xs) @ seen) ys"
  by (induction xs arbitrary: seen) simp_all

lemma depsBack_split:
  "depsBack seen (xs @ t # ys) \<Longrightarrow> set (blockedByTargets t) \<subseteq> tk_id ` set xs \<union> set seen"
  by (auto simp: depsBack_append)

lemma nextPriority_above: "t \<in> set ts \<Longrightarrow> tk_priority t < nextPriority ts"
proof -
  have "foldl max m (map tk_priority xs) \<ge> m \<and> (\<forall>x \<in> set xs. tk_priority x \<le> foldl max m (map tk_priority xs))" for m xs
  proof (induction xs arbitrary: m)
    case (Cons x xs)
    from Cons [of "max m (tk_priority x)"] show ?case by auto
  qed simp
  from this [of "tk_priority (hd ts)" "tl ts"] show "t \<in> set ts \<Longrightarrow> tk_priority t < nextPriority ts"
    by (cases ts) (auto simp: nextPriority_def)
qed

lemma planned_fields [simp]:
  "tk_id (plannedTask args env ts) = ad_fresh env"
  "tk_priority (plannedTask args env ts) = nextPriority ts"
  "blockedByTargets (plannedTask args env ts) = orEmpty (aa_blockedBy args)"
  by (simp_all add: plannedTask_def draftTask_def Let_def newTask_def blockedByTargets_def blockedByDep_def orEmpty_def
      o_def split: option.split)

lemma ordered_add:
  assumes "tasksOrdered ts" "ad_fresh env \<notin> tk_id ` set ts" "set (orEmpty (aa_blockedBy args)) \<subseteq> tk_id ` set ts"
  shows "tasksOrdered (ts @ [plannedTask args env ts])"
  using assms nextPriority_above [of _ ts] by (auto simp: tasksOrdered_def depsBack_append sorted_wrt_append)

lemma ordered_map:
  assumes "\<And>t. tk_id (f t) = tk_id t" "\<And>t. tk_deps (f t) = tk_deps t" "\<And>t. tk_priority (f t) = tk_priority t"
  shows "tasksOrdered (map f ts) = tasksOrdered ts"
proof -
  have "blockedByTargets (f t) = blockedByTargets t" for t by (simp add: blockedByTargets_def assms)
  then have "depsBack seen (map f ts) = depsBack seen ts" for seen
    by (induction ts arbitrary: seen) (simp_all add: assms)
  then show ?thesis by (simp add: tasksOrdered_def o_def assms)
qed

subsection \<open>Runs\<close>

inductive task_run :: "change_store \<Rightarrow> change_store \<Rightarrow> bool" for st0 where
  tr_start: "task_run st0 st0"
| tr_update: "task_run st0 st \<Longrightarrow> faithful (me_commit (ue_commit env)) \<Longrightarrow> taskUpdateTool args env st = (r, st') \<Longrightarrow>
    task_run st0 st'"
| tr_add: "task_run st0 st \<Longrightarrow> faithful (me_commit (ad_commit env)) \<Longrightarrow>
    (\<And>d. fileAt st (aa_changeId aargs) = Valid d \<Longrightarrow> findTask d (ad_fresh env) = None) \<Longrightarrow>
    taskAddTool aargs env st = (ar, st') \<Longrightarrow> task_run st0 st'"
| tr_cancel: "task_run st0 st \<Longrightarrow> (\<And>n. faithful (me_commit (envs n))) \<Longrightarrow> taskCancelTool kargs now envs st = (kr, st') \<Longrightarrow>
    task_run st0 st'"
| tr_reclassify: "task_run st0 st \<Longrightarrow> faithful (me_commit menv) \<Longrightarrow> taskReclassifyTool rargs now menv st = (rr, st') \<Longrightarrow>
    task_run st0 st'"
| tr_complete: "task_run st0 st \<Longrightarrow> faithful (me_commit (ke_complete cenv)) \<Longrightarrow> faithful (me_commit (ke_dismiss cenv)) \<Longrightarrow>
    fireTaskCompletedFromCheckpoint cenv i sha ver files st = (rec, st') \<Longrightarrow> task_run st0 st'"

text \<open>What a step may do to the document of a directory.\<close>

definition shapesOf :: "change_doc \<Rightarrow> (string \<times> dependency list option \<times> int) list" where
  "shapesOf d = map (\<lambda>t. (tk_id t, tk_deps t, tk_priority t)) (docTasks d)"

definition sameShape :: "projection_file \<Rightarrow> projection_file \<Rightarrow> bool" where
  "sameShape f g \<longleftrightarrow> f = g \<or> (\<exists>d e. f = Valid d \<and> g = Valid e \<and> shapesOf e = shapesOf d \<and> cd_gates e = cd_gates d)"

definition keepsShape :: "(task \<Rightarrow> task) \<Rightarrow> bool" where
  "keepsShape f \<longleftrightarrow> (\<forall>t. tk_id (f t) = tk_id t \<and> tk_deps (f t) = tk_deps t \<and> tk_priority (f t) = tk_priority t)"

lemma sameShape_trans: "sameShape f g \<Longrightarrow> sameShape g h \<Longrightarrow> sameShape f h"
  by (auto simp: sameShape_def)

lemma sameShape_refl [simp]: "sameShape f f"
  by (simp add: sameShape_def)

lemma sameShape_Valid:
  "sameShape (Valid d0) g \<Longrightarrow> \<exists>d. g = Valid d \<and> shapesOf d = shapesOf d0 \<and> cd_gates d = cd_gates d0"
  by (auto simp: sameShape_def)

lemma depsBack_shape:
  "map (\<lambda>t. (tk_id t, tk_deps t, tk_priority t)) xs = map (\<lambda>t. (tk_id t, tk_deps t, tk_priority t)) ys \<Longrightarrow>
     depsBack seen xs = depsBack seen ys"
proof (induction xs arbitrary: ys seen)
  case (Cons x xs)
  then obtain y zs where ys: "ys = y # zs" by (cases ys) auto
  with Cons.prems have "tk_id x = tk_id y" "blockedByTargets x = blockedByTargets y" by (simp_all add: blockedByTargets_def)
  with Cons.IH [of zs] Cons.prems ys show ?case by simp
qed simp

lemma shapes_ids:
  "shapesOf e = shapesOf d \<Longrightarrow> map tk_id (docTasks e) = map tk_id (docTasks d)"
  "shapesOf e = shapesOf d \<Longrightarrow> map tk_priority (docTasks e) = map tk_priority (docTasks d)"
proof -
  have "map tk_id (docTasks x) = map fst (shapesOf x)" "map tk_priority (docTasks x) = map (snd \<circ> snd) (shapesOf x)" for x
    by (simp_all add: shapesOf_def o_def)
  then show "shapesOf e = shapesOf d \<Longrightarrow> map tk_id (docTasks e) = map tk_id (docTasks d)"
    "shapesOf e = shapesOf d \<Longrightarrow> map tk_priority (docTasks e) = map tk_priority (docTasks d)" by simp_all
qed

lemma shapes_ordered: "shapesOf e = shapesOf d \<Longrightarrow> tasksOrdered (docTasks e) = tasksOrdered (docTasks d)"
  using shapes_ids [of e d] depsBack_shape [of "docTasks e" "docTasks d" "[]"] by (simp add: tasksOrdered_def shapesOf_def)

subsection \<open>What a commit does to the directories\<close>

lemma intent_step:
  assumes "faithful (me_commit env)" "mi_normalize mi = None" "mi_mutate mi = (\<lambda>d. Inr (g d))" "runIntent mi env st = (out, st')"
  shows "\<exists>f. st' = putFile (mi_changeId mi) f st \<and> (f = fileAt st (mi_changeId mi) \<or>
    (\<exists>d v. fileAt st (mi_changeId mi) = Valid d \<and> f = Valid v \<and> payloadOf v = payloadOf (g d)))"
proof -
  let ?c = "mi_changeId mi" and ?o = "summaryOptions mi None env"
  obtain o' f where r: "coordinateChangeMutation mi None True env (fileAt st ?c) = (o', f)" by fastforce
  then have st': "st' = putFile ?c f st" using assms(4) by (simp add: runIntent_def)
  have f: "f = snd (commitChangeProjection ?o (me_commit env) (fileAt st ?c))"
    using r by (auto simp: coordinate_eq Let_def split: prod.splits)
  show ?thesis
  proof (cases "writtenValue (fst (commitChangeProjection ?o (me_commit env) (fileAt st ?c)))")
    case None
    then show ?thesis using f st' commit_file [OF assms(1), of ?o "fileAt st ?c"] by auto
  next
    case (Some v)
    then obtain latest where l: "readLatest ?o (fileAt st ?c) = Inr latest"
      "prepareCommit ?o (ce_now (me_commit env)) latest = Inr v"
      using commit_written_iff [OF assms(1)] by blast
    have "fileAt st ?c = Valid latest"
      using l(1) assms(2) by (cases "fileAt st ?c") (auto simp: readLatest_def summaryOptions_def mutationOptions_def)
    moreover have "payloadOf v = payloadOf (g latest)"
      using l(2) assms(3) by (auto simp: prepareCommit_Inr summaryOptions_def)
    ultimately show ?thesis using f st' Some commit_file [OF assms(1), of ?o "fileAt st ?c"] by auto
  qed
qed

lemma gates_of_payload: "payloadOf d = payloadOf e \<Longrightarrow> cd_gates d = cd_gates e"
  by (drule arg_cong [of _ _ cd_gates]) (simp add: payloadOf_def)

lemma mapTask_shape:
  assumes "keepsShape f" "payloadOf v = payloadOf (mapTask i f d)"
  shows "shapesOf v = shapesOf d" "cd_gates v = cd_gates d"
proof -
  show "cd_gates v = cd_gates d" using gates_of_payload [OF assms(2)] by (simp add: mapTask_def)
  show "shapesOf v = shapesOf d"
    using assms(1) unfolding shapesOf_def tasks_payload [OF assms(2)] by (auto simp: keepsShape_def)
qed

text \<open>The files of two stores have the same shapes, and the directory names stay distinct.\<close>

definition sameShapes :: "change_store \<Rightarrow> change_store \<Rightarrow> bool" where
  "sameShapes st st' \<longleftrightarrow> (\<forall>c. sameShape (fileAt st c) (fileAt st' c)) \<and> (distinct (map fst st) \<longrightarrow> distinct (map fst st'))"

lemma put_distinct: "distinct (map fst st) \<Longrightarrow> distinct (map fst (putFile c f st))"
  by (simp add: putFile_def distinct_update)

lemma intent_shapes:
  assumes "faithful (me_commit env)" "keepsShape edit" "mi_normalize mi = None" "mi_mutate mi = (\<lambda>d. Inr (mapTask i edit d))"
    and "runIntent mi env st = (out, st')"
  shows "sameShapes st st'"
proof -
  let ?c = "mi_changeId mi"
  from intent_step [OF assms(1,3,4,5)] obtain f where f: "st' = putFile ?c f st"
    "f = fileAt st ?c \<or> (\<exists>d v. fileAt st ?c = Valid d \<and> f = Valid v \<and> payloadOf v = payloadOf (mapTask i edit d))" by blast
  then have "sameShape (fileAt st ?c) f" using mapTask_shape [OF assms(2)] by (auto simp: sameShape_def)
  with f(1) show ?thesis by (simp add: sameShapes_def put_distinct)
qed

lemma mutate_shapes:
  assumes "faithful (me_commit env)" "keepsShape edit" "mutateTaskProjection c i edit again k e env st = (out, st')"
  shows "sameShapes st st'"
proof (rule intent_shapes [OF assms(1,2)])
  show "runIntent (taskIntent c i edit again k e) env st = (out, st')" using assms(3) by (simp add: mutateTaskProjection_def)
qed (simp_all add: taskIntent_def)

lemma sameShapes_refl [simp]: "sameShapes st st"
  by (simp add: sameShapes_def)

lemma sameShapes_trans: "sameShapes a b \<Longrightarrow> sameShapes b c \<Longrightarrow> sameShapes a c"
  by (auto simp: sameShapes_def intro: sameShape_trans)

lemma update_shapes:
  assumes "faithful (me_commit (ue_commit env))" "taskUpdateTool args env st = (r, st')"
  shows "sameShapes st st'"
proof (cases "\<exists>c edit again. resolveChangeId st (ua_taskId args) = Some c \<and> updateChecks args env st c = Inr (edit, again)")
  case False
  then have "st' = st" using assms(2) by (auto simp: taskUpdateTool_def split: option.splits sum.splits)
  then show ?thesis by simp
next
  case True
  then obtain c edit again where ok: "resolveChangeId st (ua_taskId args) = Some c" "updateChecks args env st c = Inr (edit, again)"
    by blast
  obtain out st1 where m: "mutateTaskProjection c (ua_taskId args) edit again ''task_mutation'' (updateEvidence args)
      (ue_commit env) st = (out, st1)" by fastforce
  have "keepsShape edit" using updateChecks_edit [OF ok(2)] by (auto simp: keepsShape_def)
  from mutate_shapes [OF assms(1) this m] show ?thesis
    using assms(2) ok m by (auto simp: taskUpdateTool_def split: sum.splits)
qed

lemma cancel_shapes:
  assumes "\<And>n. faithful (me_commit (envs n))" "cancelAll args now is envs st = (rs, st')"
  shows "sameShapes st st'"
  using assms
proof (induction "is" arbitrary: envs st rs)
  case (Cons i "is")
  obtain r st1 rs1 where s: "cancelOne args now i (envs 0) st = (r, st1)"
    "cancelAll args now is (\<lambda>n. envs (Suc n)) st1 = (rs1, st')"
    using Cons.prems(2) by (auto split: prod.splits)
  have "sameShapes st st1"
  proof (cases "resolveChangeId st i")
    case None
    with s(1) show ?thesis by (simp add: cancelOne_def)
  next
    case (Some c)
    have k: "keepsShape (cancelEdit x now)" for x by (simp add: keepsShape_def cancelEdit_def)
    from s(1) Some show ?thesis
      using mutate_shapes [OF Cons.prems(1) [of 0] k] by (auto simp: cancelOne_def Let_def split: prod.splits sum.splits)
  qed
  moreover have "sameShapes st1 st'" using Cons.IH [OF Cons.prems(1) s(2)] .
  ultimately show ?case by (rule sameShapes_trans)
qed simp

lemma cancelTool_shapes:
  assumes "\<And>n. faithful (me_commit (envs n))" "taskCancelTool args now envs st = (r, st')"
  shows "sameShapes st st'"
  using assms(2) cancel_shapes [of envs args now "ka_taskIds args" st, OF assms(1)]
  by (auto simp: taskCancelTool_def Let_def split: if_splits prod.splits)

lemma reclassify_shapes:
  assumes "faithful (me_commit env)" "taskReclassifyTool args now env st = (r, st')"
  shows "sameShapes st st'"
proof -
  have k: "keepsShape (\<lambda>x. x\<lparr>tk_metadata := m, tk_tdd_reclassification := q, tk_evidence_plan := p\<rparr>)" for m q p
    by (simp add: keepsShape_def)
  from assms(2) show ?thesis
    using mutate_shapes [OF assms(1) k]
    by (auto simp: taskReclassifyTool_def Let_def split: if_splits option.splits prod.splits sum.splits)
qed

lemma dismiss_shapes:
  assumes "faithful (me_commit (ke_dismiss env))" "dismissDrafts env c t st = (counts, st')"
  shows "sameShapes st st'"
proof -
  have k: "keepsShape (\<lambda>t. t\<lparr>tk_wisdom_drafts := Some ds\<rparr>)" for ds by (simp add: keepsShape_def)
  have "sameShapes st st1" if "runIntent (dismissalIntent c i ds) (ke_dismiss env) st = (out, st1)" for i ds out st1
    by (rule intent_shapes [OF assms(1) k _ _ that]) (simp_all add: dismissalIntent_def)
  then show ?thesis using assms(2) by (auto simp: dismissDrafts_def Let_def split: if_splits prod.splits sum.splits)
qed

lemma complete_shapes:
  assumes "faithful (me_commit (ke_complete env))" "faithful (me_commit (ke_dismiss env))"
    and "fireTaskCompletedFromCheckpoint env i sha v files st = (r, st')"
  shows "sameShapes st st'"
proof -
  have k: "keepsShape (completionEdit now sha v files x)" for now x by (simp add: keepsShape_def completionEdit_def)
  have c: "sameShapes st st1" if "runIntent (completionIntent c i now sha v files x) (ke_complete env) st = (out, st1)" for c now x out st1
    by (rule intent_shapes [OF assms(1) k _ _ that]) (simp_all add: completionIntent_def)
  have d: "sameShapes st st2" if "runIntent (completionIntent c i now sha v files x) (ke_complete env) st = (out, st1)"
      "dismissDrafts env c t st1 = (counts, st2)" for c now x out st1 t counts st2
    by (rule sameShapes_trans [OF c [OF that(1)] dismiss_shapes [OF assms(2) that(2)]])
  show ?thesis
    using assms(3)
    by (auto simp: fireTaskCompletedFromCheckpoint_def Let_def split: option.splits prod.splits sum.splits intro: c d)
qed

lemma addChecks_Inr:
  assumes "addChecks args env st = Inr t" "fileAt st (aa_changeId args) = Valid d"
  shows "t = plannedTask args env (docTasks d)" "set (orEmpty (aa_blockedBy args)) \<subseteq> tk_id ` set (docTasks d)"
    "\<not> planningDone (cd_gates d)"
  using assms
  by (auto simp: addChecks_def Let_def loadedTasks_def gatesGet_def planningDone_def filter_empty_conv
      split: if_splits option.splits)

lemma add_step:
  assumes "faithful (me_commit (ad_commit env))" "taskAddTool args env st = (r, st')"
  shows "sameShapes st st' \<or> (\<exists>d v. fileAt st (aa_changeId args) = Valid d \<and> st' = putFile (aa_changeId args) (Valid v) st \<and>
    docTasks v = docTasks d @ [plannedTask args env (docTasks d)] \<and> cd_gates v = cd_gates d \<and>
    set (orEmpty (aa_blockedBy args)) \<subseteq> tk_id ` set (docTasks d) \<and> \<not> planningDone (cd_gates d))"
proof (cases "addChecks args env st")
  case (Inl x)
  with assms(2) show ?thesis by (simp add: taskAddTool_def)
next
  case (Inr t)
  let ?c = "aa_changeId args"
  obtain out st1 where a: "addTaskToProjection ?c t (ad_commit env) st = (out, st1)" by fastforce
  have st': "st' = st1" using assms(2) Inr a by (auto simp: taskAddTool_def split: sum.splits)
  from a have "runIntent (addIntent ?c t) (ad_commit env) st = (out, st1)" by (simp add: addTaskToProjection_def)
  from intent_step [OF assms(1) _ _ this, of "\<lambda>d. d\<lparr>cd_tasks := Some (docTasks d @ [t])\<rparr>"]
  obtain f where f: "st1 = putFile ?c f st" "f = fileAt st ?c \<or> (\<exists>d v. fileAt st ?c = Valid d \<and> f = Valid v \<and>
      payloadOf v = payloadOf (d\<lparr>cd_tasks := Some (docTasks d @ [t])\<rparr>))" by (auto simp: addIntent_def)
  show ?thesis
  proof (cases "f = fileAt st ?c")
    case True
    then have "sameShapes st st'" using f(1) by (simp add: sameShapes_def st' put_distinct)
    then show ?thesis by blast
  next
    case False
    then obtain d v where d: "fileAt st ?c = Valid d" "f = Valid v"
      "payloadOf v = payloadOf (d\<lparr>cd_tasks := Some (docTasks d @ [t])\<rparr>)" using f(2) by blast
    have "docTasks v = docTasks d @ [t]" using tasks_payload [OF d(3)] by (simp add: docTasks_def orEmpty_def)
    moreover have "cd_gates v = cd_gates d" using gates_of_payload [OF d(3)] by simp
    ultimately show ?thesis using d f(1) st' addChecks_Inr [OF Inr d(1)] by blast
  qed
qed

subsection \<open>The invariant of the task lists\<close>

definition storeOk :: "change_store \<Rightarrow> bool" where
  "storeOk st \<longleftrightarrow> distinct (map fst st) \<and> (\<forall>c d. fileAt st c = Valid d \<longrightarrow> tasksOrdered (docTasks d))"

lemma sameShapes_ok:
  assumes "storeOk st" "sameShapes st st'"
  shows "storeOk st'"
proof -
  have "tasksOrdered (docTasks e)" if e: "fileAt st' c = Valid e" for c e
  proof -
    have "sameShape (fileAt st c) (fileAt st' c)" using assms(2) by (simp add: sameShapes_def)
    then consider "fileAt st c = Valid e" | d where "fileAt st c = Valid d" "shapesOf e = shapesOf d"
      using e by (auto simp: sameShape_def)
    then show ?thesis
    proof cases
      case 1
      then show ?thesis using assms(1) by (simp add: storeOk_def)
    next
      case (2 d)
      then show ?thesis using assms(1) shapes_ordered [OF 2(2)] by (auto simp: storeOk_def)
    qed
  qed
  then show ?thesis using assms by (auto simp: storeOk_def sameShapes_def)
qed

lemma task_run_ok: "task_run st0 st \<Longrightarrow> storeOk st0 \<Longrightarrow> storeOk st"
proof (induction rule: task_run.induct)
  case (tr_update st env args r st')
  then show ?case using sameShapes_ok [OF _ update_shapes] by blast
next
  case (tr_add st env aargs ar st')
  show ?case
  proof (cases "sameShapes st st'")
    case True
    then show ?thesis using tr_add sameShapes_ok by blast
  next
    case False
    then obtain d v where d: "fileAt st (aa_changeId aargs) = Valid d" "st' = putFile (aa_changeId aargs) (Valid v) st"
      "docTasks v = docTasks d @ [plannedTask aargs env (docTasks d)]"
      "set (orEmpty (aa_blockedBy aargs)) \<subseteq> tk_id ` set (docTasks d)"
      using add_step [OF tr_add.hyps(2,4)] by blast
    have "ad_fresh env \<notin> tk_id ` set (docTasks d)"
      using tr_add.hyps(3) [OF d(1)] by (auto simp: findTask_def find_None_iff)
    moreover have ok: "storeOk st" using tr_add by blast
    ultimately have "tasksOrdered (docTasks v)" using d ordered_add by (auto simp: storeOk_def)
    with ok d(2) show ?thesis by (auto simp: storeOk_def put_distinct)
  qed
next
  case (tr_cancel st envs kargs now kr st')
  then show ?case using sameShapes_ok [OF _ cancelTool_shapes] by blast
next
  case (tr_reclassify st menv rargs now rr st')
  then show ?case using sameShapes_ok [OF _ reclassify_shapes] by blast
next
  case (tr_complete st cenv i sha ver files rec st')
  then show ?case using sameShapes_ok [OF _ complete_shapes] by blast
qed

text \<open>
  Claim C24. The tasks of a change stay in order over every run of the task tools, whatever commits fail
  on the way: each waits only for tasks added before it, so every dependency has a task and there is no
  cycle, identifiers are distinct, and each task has a greater priority number than all before it.
\<close>

theorem tasks_stay_ordered:
  assumes "storeOk st0" "task_run st0 st" "fileAt st c = Valid d"
  shows "tasksOrdered (docTasks d)"
  using task_run_ok [OF assms(2,1)] assms(3) by (simp add: storeOk_def)

text \<open>
  Claim C25. Planning freezes the task list: once the planning gate of a change is done, no run of the
  task tools adds a task to it, removes one or changes what its tasks wait for, and the gate stays done.
\<close>

theorem planning_freezes_tasks:
  assumes "task_run st0 st" "fileAt st0 c = Valid d0" "planningDone (cd_gates d0)"
  shows "\<exists>d. fileAt st c = Valid d \<and> map (\<lambda>t. (tk_id t, tk_deps t)) (docTasks d) = map (\<lambda>t. (tk_id t, tk_deps t)) (docTasks d0) \<and>
    planningDone (cd_gates d)"
proof -
  have "sameShape (fileAt st0 c) (fileAt st c)"
    using assms(1)
  proof (induction rule: task_run.induct)
    case (tr_update st env args r st')
    then show ?case using update_shapes [of env args st r st'] by (auto simp: sameShapes_def intro: sameShape_trans)
  next
    case (tr_add st env aargs ar st')
    from add_step [OF tr_add.hyps(2,4)] show ?case
    proof
      assume "sameShapes st st'"
      then show ?thesis using tr_add by (auto simp: sameShapes_def intro: sameShape_trans)
    next
      assume "\<exists>d v. fileAt st (aa_changeId aargs) = Valid d \<and> st' = putFile (aa_changeId aargs) (Valid v) st \<and>
        docTasks v = docTasks d @ [plannedTask aargs env (docTasks d)] \<and> cd_gates v = cd_gates d \<and>
        set (orEmpty (aa_blockedBy aargs)) \<subseteq> tk_id ` set (docTasks d) \<and> \<not> planningDone (cd_gates d)"
      then obtain d v where d: "fileAt st (aa_changeId aargs) = Valid d" "st' = putFile (aa_changeId aargs) (Valid v) st"
        "\<not> planningDone (cd_gates d)" by blast
      have "aa_changeId aargs \<noteq> c"
        using tr_add.IH d(1,3) assms(2,3) by (auto simp: sameShape_def)
      then show ?thesis using tr_add.IH d(2) by simp
    qed
  next
    case (tr_cancel st envs kargs now kr st')
    then show ?case using cancelTool_shapes [of envs kargs now st kr st'] by (auto simp: sameShapes_def intro: sameShape_trans)
  next
    case (tr_reclassify st menv rargs now rr st')
    then show ?case using reclassify_shapes [of menv rargs now st rr st'] by (auto simp: sameShapes_def intro: sameShape_trans)
  next
    case (tr_complete st cenv i sha ver files rec st')
    then show ?case using complete_shapes [of cenv i sha ver files st rec st'] by (auto simp: sameShapes_def intro: sameShape_trans)
  qed simp
  then obtain d where d: "fileAt st c = Valid d" "shapesOf d = shapesOf d0" "cd_gates d = cd_gates d0"
    using assms(2) sameShape_Valid by metis
  have "map (\<lambda>t. (tk_id t, tk_deps t)) (docTasks x) = map (\<lambda>(i, ds, p). (i, ds)) (shapesOf x)" for x
    by (simp add: shapesOf_def o_def)
  with d assms(3) show ?thesis by simp
qed

subsection \<open>Readiness\<close>

lemma last_is_find:
  assumes "distinct (map tk_id ts)"
  shows "lastTask ts i = List.find (\<lambda>t. tk_id t = i) ts"
proof (cases "\<exists>x \<in> set ts. tk_id x = i")
  case True
  then obtain x where x: "x \<in> set ts" "tk_id x = i" by blast
  have "distinct (map tk_id (rev ts))" using assms by (simp flip: rev_map)
  then show ?thesis using find_key [of tk_id ts x] find_key [of tk_id "rev ts" x] x assms by (simp add: lastTask_def)
next
  case False
  then have "List.find (\<lambda>t. tk_id t = i) (rev ts) = None" "List.find (\<lambda>t. tk_id t = i) ts = None"
    by (auto simp: find_None_iff)
  then show ?thesis by (simp add: lastTask_def)
qed

lemma unmet_vs_blockers:
  assumes "distinct (map tk_id (docTasks d))"
  shows "unmetDeps (docTasks d) t = filter (\<lambda>i. case findTask d i of None \<Rightarrow> True | Some b \<Rightarrow> \<not> isSettled b) (blockedByTargets t)"
  by (simp add: unmetDeps_def last_is_find [OF assms] findTask_def)

text \<open>
  Claim C26. The two lists of ready tasks, the store's and the tool's, agree exactly when every task a
  pending task waits for exists: the store holds a task whose blocker is missing, the tool calls it ready.
\<close>

theorem ready_lists_agree_iff:
  assumes "distinct (map tk_id (docTasks d))"
  shows "getReadyTasksFromProjection d = (rd_ready (readyOf (docTasks d)), rd_blocked (readyOf (docTasks d))) \<longleftrightarrow>
    {i. \<exists>t \<in> set (docTasks d). tk_status t = TPending \<and> i \<in> set (blockedByTargets t) \<and> findTask d i = None} = {}"
proof
  assume none: "{i. \<exists>t \<in> set (docTasks d). tk_status t = TPending \<and> i \<in> set (blockedByTargets t) \<and> findTask d i = None} = {}"
  have same: "unmetDeps (docTasks d) t = projectionBlockers d t" if "t \<in> set (docTasks d)" "tk_status t = TPending" for t
    unfolding unmet_vs_blockers [OF assms] projectionBlockers_def
    using none that by (intro filter_cong) (auto split: option.splits)
  show "getReadyTasksFromProjection d = (rd_ready (readyOf (docTasks d)), rd_blocked (readyOf (docTasks d)))"
    by (auto simp: getReadyTasksFromProjection_def readyOf_def Let_def same intro!: filter_cong map_cong)
next
  assume eq: "getReadyTasksFromProjection d = (rd_ready (readyOf (docTasks d)), rd_blocked (readyOf (docTasks d)))"
  show "{i. \<exists>t \<in> set (docTasks d). tk_status t = TPending \<and> i \<in> set (blockedByTargets t) \<and> findTask d i = None} = {}"
  proof (rule ccontr)
    assume "\<not> ?thesis"
    then obtain i t where t: "t \<in> set (docTasks d)" "tk_status t = TPending" "i \<in> set (blockedByTargets t)" "findTask d i = None" by blast
    then have i: "i \<in> set (unmetDeps (docTasks d) t)" by (simp add: unmet_vs_blockers [OF assms])
    then have "(t, unmetDeps (docTasks d) t) \<in> set (rd_blocked (readyOf (docTasks d)))"
      using t by (force simp: readyOf_def Let_def)
    then have "(t, unmetDeps (docTasks d) t) \<in> set (snd (getReadyTasksFromProjection d))" using eq by simp
    then have "unmetDeps (docTasks d) t = projectionBlockers d t" by (auto simp: getReadyTasksFromProjection_def Let_def)
    with i t(4) show False by (simp add: projectionBlockers_def)
  qed
qed

lemma ordered_target:
  assumes "tasksOrdered (docTasks d)" "docTasks d = xs @ t # ys" "i \<in> set (blockedByTargets t)"
  shows "\<exists>b \<in> set xs. findTask d i = Some b"
proof -
  from depsBack_split [of "[]" xs t ys] assms obtain b where b: "b \<in> set xs" "tk_id b = i" by (auto simp: tasksOrdered_def)
  have "List.find (\<lambda>x. tk_id x = tk_id b) (docTasks d) = Some b"
    using assms b by (intro find_key) (auto simp: tasksOrdered_def)
  with b show ?thesis by (auto simp: findTask_def)
qed

text \<open>
  Claim C13. Work on the tasks never gets stuck: in every store a run of the task tools reaches, a change
  with an unfinished task has a task in progress or blocked, or a pending task that both ready lists,
  which then agree, report as ready; the first unfinished task is such a one.
\<close>

theorem tasks_never_stuck:
  assumes "storeOk st0" "task_run st0 st" "fileAt st c = Valid d"
    "List.find (\<lambda>t. \<not> isSettled t) (docTasks d) = Some t"
  shows "(tk_status t \<in> {TInProgress, TBlocked} \<or> t \<in> set (fst (taskReadyTool st c))) \<and>
    taskReadyTool st c = (rd_ready (tasksReady st c), rd_blocked (tasksReady st c))"
proof -
  have o: "tasksOrdered (docTasks d)" using tasks_stay_ordered [OF assms(1-3)] .
  have targets: "findTask d i \<noteq> None" if "u \<in> set (docTasks d)" "i \<in> set (blockedByTargets u)" for u i
    using ordered_target [OF o] that by (metis option.distinct(1) split_list)
  have agree: "getReadyTasksFromProjection d = (rd_ready (readyOf (docTasks d)), rd_blocked (readyOf (docTasks d)))"
    using o targets ready_lists_agree_iff [of d] by (auto simp: tasksOrdered_def)
  obtain n where n: "n < length (docTasks d)" "t = docTasks d ! n" "\<not> isSettled t" "\<forall>m < n. isSettled (docTasks d ! m)"
    using assms(4) by (auto simp: find_Some_iff)
  have split: "docTasks d = take n (docTasks d) @ t # drop (Suc n) (docTasks d)" using n by (simp add: id_take_nth_drop)
  have "projectionBlockers d t = []"
  proof -
    have "\<exists>b. findTask d i = Some b \<and> isSettled b" if "i \<in> set (blockedByTargets t)" for i
      using ordered_target [OF o split that] n(1,4) by (auto simp: in_set_conv_nth)
    then show ?thesis by (force simp: projectionBlockers_def filter_empty_conv split: option.splits)
  qed
  moreover have "t \<in> set (docTasks d)" using n by simp
  moreover have "tk_status t = TPending \<or> tk_status t \<in> {TInProgress, TBlocked}"
    using n(3) by (cases "tk_status t") (simp_all add: isSettled_def)
  ultimately have "tk_status t \<in> {TInProgress, TBlocked} \<or> t \<in> set (fst (getReadyTasksFromProjection d))"
    by (auto simp: getReadyTasksFromProjection_def Let_def)
  then show ?thesis using agree assms(3) by (simp add: taskReadyTool_def tasksReady_def)
qed

end
