(* ===== verification/Checkpoint_Facts.thy ===== *)
theory Checkpoint_Facts
  imports Task_Runs
begin

text \<open>
  What the checkpoint tool guarantees: nothing is staged or committed unless every guard holds, a recorded
  completion is in the file, and what the bridge to the error recovery does to the attempt count.
\<close>

subsection \<open>Guards\<close>

text \<open>Only staging and committing change the repository.\<close>

definition readOnly :: "'g git_world \<Rightarrow> bool" where
  "readOnly w \<longleftrightarrow> (\<forall>args cwd g. args = [] \<or> hd args \<notin> {''add'', ''commit''} \<longrightarrow> snd (gw_run w args cwd g) = g)"

lemma read_keeps:
  assumes "readOnly w" "gw_run w (a # args) cwd g = (r, g')" "a \<noteq> ''add''" "a \<noteq> ''commit''"
  shows "g' = g"
  using assms unfolding readOnly_def by (metis insert_iff list.sel(1) singletonD snd_conv)

lemma read_snd: "readOnly w \<Longrightarrow> a \<noteq> ''add'' \<Longrightarrow> a \<noteq> ''commit'' \<Longrightarrow> snd (gw_run w (a # args) cwd g) = g"
  by (simp add: readOnly_def)

lemma path_keeps: "readOnly w \<Longrightarrow> snd (gitPathExists w cwd name g) = g"
  using read_snd [of w "''rev-parse''" "[''--git-path'', name]" cwd g]
  by (auto simp: gitPathExists_def split: prod.splits sum.splits)

lemma detect_keeps:
  assumes "readOnly w"
  shows "snd (detectRepoState w cwd g) = g"
proof -
  have "snd (gw_run w (''rev-parse'' # args) cwd g) = g" "snd (gw_run w (''symbolic-ref'' # args) cwd g) = g"
    "snd (gitPathExists w cwd name g) = g" for args name g
    using assms by (simp_all add: read_snd path_keeps)
  then show ?thesis by (simp add: detectRepoState_def case_prod_unfold Let_def)
qed

lemma touched_keeps: "readOnly w \<Longrightarrow> snd (touchedFiles w cwd g) = g"
  using read_snd [of w "''diff''" "[''--name-only'', ''HEAD~1'']" cwd g]
  by (auto simp: touchedFiles_def split: prod.splits sum.splits)

lemma same_keeps: "readOnly w \<Longrightarrow> snd (sameRepository w root cwd g) = g"
  using read_snd [of w "''rev-parse''" "[''--path-format=absolute'', ''--git-common-dir'']"]
  by (force simp: sameRepository_def split: prod.splits sum.splits dest: arg_cong [of _ _ snd])

definition outputOf :: "'g git_world \<Rightarrow> string list \<Rightarrow> string \<Rightarrow> 'g \<Rightarrow> string option" where
  "outputOf w args cwd g = (case fst (gw_run w args cwd g) of Inl e \<Rightarrow> None | Inr out \<Rightarrow> Some (trim out))"

lemma context_outputs:
  assumes "readOnly w" "gitContext w cwd g = (r, g')"
  shows "g' = g" "r = Inr (b, h) \<Longrightarrow> outputOf w [''rev-parse'', ''--abbrev-ref'', ''HEAD''] cwd g = Some b \<and>
    outputOf w [''rev-parse'', ''HEAD''] cwd g = Some h"
proof -
  have run: "gw_run w (''rev-parse'' # a) cwd g = (fst (gw_run w (''rev-parse'' # a) cwd g), g)" for a
    using read_snd [OF assms(1), of "''rev-parse''" a cwd g] by (simp add: prod_eq_iff)
  show "g' = g" "r = Inr (b, h) \<Longrightarrow> outputOf w [''rev-parse'', ''--abbrev-ref'', ''HEAD''] cwd g = Some b \<and>
    outputOf w [''rev-parse'', ''HEAD''] cwd g = Some h"
    using assms(2) run [of "[''--abbrev-ref'', ''HEAD'']"] run [of "[''HEAD'']"] run [of "[''--show-toplevel'']"]
    by (auto simp: gitContext_def outputOf_def split: prod.splits sum.splits)
qed

definition guardsHold :: "'g git_world \<Rightarrow> checkpoint_args \<Rightarrow> string \<Rightarrow> string option \<Rightarrow> 'g \<Rightarrow> bool" where
  "guardsHold w args cwd derived g \<longleftrightarrow>
     fst (detectRepoState w cwd g) \<notin> {RsNotGit, RsDetached, RsMerging} \<and>
     (truthy (ck_changeId args) \<and> truthy derived \<longrightarrow> ck_changeId args = derived) \<and>
     (\<exists>branch head. outputOf w [''rev-parse'', ''--abbrev-ref'', ''HEAD''] cwd g = Some branch \<and>
        outputOf w [''rev-parse'', ''HEAD''] cwd g = Some head \<and>
        (truthy (expectedBranch args (truthyOr (ck_changeId args) derived)) \<longrightarrow>
           expectedBranch args (truthyOr (ck_changeId args) derived) = Some branch) \<and>
        (truthy (ck_expectedHeadSha args) \<longrightarrow> ck_expectedHeadSha args = Some head)) \<and>
     (modeOf args = Complete \<longrightarrow> truthy (ck_verification args)) \<and>
     (modeOf args = CancelMode \<longrightarrow> truthy (ck_reason args)) \<and>
     checkpointTaskId (ck_taskId args)"

lemma truthy_the: "truthy x \<Longrightarrow> \<not> (truthy x \<and> b \<noteq> the x) \<longleftrightarrow> x = Some b"
  by (cases x) auto

lemma context_guards:
  assumes "readOnly w" "afterContext w env args cwd changeId branch head st g = (resp, st', g')" "g' \<noteq> g"
  shows "(truthy (expectedBranch args changeId) \<longrightarrow> expectedBranch args changeId = Some branch) \<and>
    (truthy (ck_expectedHeadSha args) \<longrightarrow> ck_expectedHeadSha args = Some head) \<and>
    (modeOf args = Complete \<longrightarrow> truthy (ck_verification args)) \<and> checkpointTaskId (ck_taskId args) \<and>
    (\<exists>sha rec files c. resp = CkCommitted sha branch rec files \<or> resp = CkGitFailed c)"
proof -
  have t: "g2 = g1" if "touchedFiles w cwd g1 = (x, g2)" for g1 x g2
    using touched_keeps [OF assms(1), of cwd g1] that by simp
  have s: "g2 = g1" if "gw_run w [''status'', ''--porcelain''] cwd g1 = (x, g2)" for g1 x g2
    using read_keeps [OF assms(1) that] by simp
  obtain r g1 where r: "gw_run w [''status'', ''--porcelain''] cwd g = (r, g1)" by fastforce
  have g1: "g1 = g" using s [OF r] .
  have b: "\<not> (truthy (expectedBranch args changeId) \<and> branch \<noteq> the (expectedBranch args changeId))"
    and h: "\<not> (truthy (ck_expectedHeadSha args) \<and> head \<noteq> the (ck_expectedHeadSha args))"
    using assms(2,3) by (auto simp: afterContext_def Let_def split: if_splits)
  obtain out where out: "r = Inr out" using assms(2,3) b h r g1 by (cases r) (auto simp: afterContext_def)
  have dirty: "trim out \<noteq> []"
  proof
    assume "trim out = []"
    then have "g' = g" using assms(2) b h r g1 out by (auto simp: afterContext_def Let_def split: prod.splits if_splits dest!: t)
    with assms(3) show False ..
  qed
  have v: "\<not> (modeOf args = Complete \<and> \<not> truthy (ck_verification args))"
    using assms(2,3) b h r g1 out dirty by (auto simp: afterContext_def Let_def split: if_splits)
  obtain subject body where m: "buildCommitMessage (ck_taskId args) (modeOf args) (ck_reason args) changeId (ck_verification args) = Inr (subject, body)"
    using assms(2,3) b h r g1 out dirty v
    by (cases "buildCommitMessage (ck_taskId args) (modeOf args) (ck_reason args) changeId (ck_verification args)")
      (auto simp: afterContext_def Let_def split: if_splits)
  then have i: "checkpointTaskId (ck_taskId args)" by (simp add: buildCommitMessage_def split: if_splits)
  have "commitCheckpoint w env args cwd branch subject body st g = (resp, st', g')"
    using assms(2) b h r g1 out dirty v m by (auto simp: afterContext_def Let_def split: if_splits)
  then have "\<exists>sha rec files c. resp = CkCommitted sha branch rec files \<or> resp = CkGitFailed c"
    by (auto simp: commitCheckpoint_def failedWith_def split: prod.splits sum.splits option.splits)
  with b h v i truthy_the show ?thesis by blast
qed

text \<open>
  Claim C12. The checkpoint tool touches the repository only under its guards: when a run changes the state
  of git, the directory was a repository not detached and not merging, the change asserted is the task's,
  branch and head are the expected ones, completion came with a verification and cancellation with a
  reason, the identifier is well formed, and the answer is a commit on that branch or a git failure.
\<close>

theorem checkpoint_commits_under_guards:
  assumes "readOnly w" "checkpointTool w env args root st g = (resp, st', g')" "g' \<noteq> g"
  shows "guardsHold w args (orText (ck_workdir args) root) (map_option snd (tasksShow st (ck_taskId args))) g \<and>
    (\<exists>sha branch rec files c. resp = CkCommitted sha branch rec files \<or> resp = CkGitFailed c)"
proof -
  let ?cwd = "orText (ck_workdir args) root" and ?derived = "map_option snd (tasksShow st (ck_taskId args))"
  let ?blank = "case ck_workdir args of Some d \<Rightarrow> trim d = [] | None \<Rightarrow> False"
  obtain same g0 where 0: "(if ck_targeted args \<and> ck_workdir args \<noteq> None then sameRepository w root ?cwd g else (True, g)) = (same, g0)"
    by fastforce
  have g0: "g0 = g" using 0 same_keeps [OF assms(1), of root ?cwd g] by (auto split: if_splits)
  have t: "checkpointTool w env args root st g = (if ?blank then (CkBlankWorkdir, st, g)
      else if \<not> same then (CkForeignWorkdir, st, g)
      else if modeOf args = CancelMode \<and> \<not> truthy (ck_reason args) then (CkReasonMissing, st, g)
      else afterState w env args ?cwd st g)"
    unfolding checkpointTool_def Let_def 0 [unfolded g0] prod.case ..
  have reason: "\<not> (modeOf args = CancelMode \<and> \<not> truthy (ck_reason args))"
    and s: "afterState w env args ?cwd st g = (resp, st', g')"
    using assms(2,3) unfolding t by (simp_all split: if_splits)
  obtain rs where d: "detectRepoState w ?cwd g = (rs, g)"
    using detect_keeps [OF assms(1), of ?cwd g] by (metis prod.collapse)
  have rs: "rs \<notin> {RsNotGit, RsDetached, RsMerging}"
    and a: "\<not> (truthy (ck_changeId args) \<and> truthy ?derived \<and> ck_changeId args \<noteq> ?derived)"
    using s assms(3) d by (auto simp: afterState_def Let_def split: if_splits)
  obtain q g1 where c: "gitContext w ?cwd g = (q, g1)" by fastforce
  have g1: "g1 = g" using context_outputs(1) [OF assms(1) c] .
  obtain branch head where q: "q = Inr (branch, head)"
    using s d rs a c g1 assms(3) by (cases q) (auto simp: afterState_def Let_def)
  have "afterContext w env args ?cwd (truthyOr (ck_changeId args) ?derived) branch head st g = (resp, st', g')"
    using s d rs a c g1 q by (auto simp: afterState_def Let_def split: if_splits)
  from context_guards [OF assms(1) this assms(3)] context_outputs(2) [OF assms(1) c q] rs a reason d show ?thesis
    unfolding guardsHold_def by auto
qed

subsection \<open>Recorded completions\<close>

lemma dismiss_keeps_task:
  assumes "faithful (me_commit (ke_dismiss env))" "dismissDrafts env c t st = (counts, st')"
    "fileAt st c = Valid d" "findTask d i = Some u"
  shows "\<exists>d' ds. fileAt st' c = Valid d' \<and> (findTask d' i = Some u \<or> findTask d' i = Some (u\<lparr>tk_wisdom_drafts := ds\<rparr>))"
proof -
  have "\<exists>d' ds. fileAt st1 c = Valid d' \<and> (findTask d' i = Some u \<or> findTask d' i = Some (u\<lparr>tk_wisdom_drafts := ds\<rparr>))"
    if run: "runIntent (dismissalIntent c j ds) (ke_dismiss env) st = (out, st1)" for j ds out st1
  proof -
    let ?f = "\<lambda>t. t\<lparr>tk_wisdom_drafts := Some ds\<rparr>"
    from intent_step [OF assms(1) _ _ run, of "mapTask j ?f"]
    obtain f where f: "st1 = putFile c f st" "f = fileAt st c \<or> (\<exists>d v. fileAt st c = Valid d \<and> f = Valid v \<and>
        payloadOf v = payloadOf (mapTask j ?f d))" by (auto simp: dismissalIntent_def)
    from f(2) show ?thesis
    proof
      assume "f = fileAt st c"
      then show ?thesis using f(1) assms(3,4) by simp
    next
      assume "\<exists>d v. fileAt st c = Valid d \<and> f = Valid v \<and> payloadOf v = payloadOf (mapTask j ?f d)"
      then obtain v where v: "f = Valid v" "payloadOf v = payloadOf (mapTask j ?f d)" using assms(3) by auto
      have "findTask v i = map_option (\<lambda>t. if i = j then ?f t else t) (findTask d i)"
        unfolding findTask_payload [OF v(2)] by (rule findTask_map) simp
      then show ?thesis using f(1) v(1) assms(4) by (cases "i = j") auto
    qed
  qed
  then show ?thesis
    using assms(2-4) by (auto simp: dismissDrafts_def Let_def split: if_splits prod.splits sum.splits)
qed

lemma completionEdit_id [simp]: "tk_id (completionEdit now sha ver files x t) = tk_id t"
  by (simp add: completionEdit_def)

interpretation complete_commit: tool_mutation "\<lambda>latest. Inr (mapTask i (completionEdit now sha ver files x) latest)"
  "\<lambda>rb. case findTask rb i of
      Some t \<Rightarrow> tk_status t = TDone \<and> tk_verification t = Some ver \<and> tk_checkpointSha t = Some sha \<and> orEmpty (tk_filesTouched t) = files
    | None \<Rightarrow> False" "\<lambda>d. findTask d i \<noteq> None" for i now sha ver files x
proof (unfold_locales, goal_cases)
  case (3 d d')
  then show ?case by (auto simp: findTask_map) (simp_all add: completionEdit_def orEmpty_def)
next
  case (4 d e)
  then show ?case using findTask_payload [OF 4, of i] by simp
qed auto

interpretation dismiss_commit: tool_mutation "\<lambda>latest. Inr (mapTask i (\<lambda>t. t\<lparr>tk_wisdom_drafts := Some ds\<rparr>) latest)"
  "\<lambda>rb. draftsOf (Option.bind (findTask rb i) tk_wisdom_drafts) = ds" "\<lambda>d. findTask d i \<noteq> None" for i ds
proof (unfold_locales, goal_cases)
  case (3 d d')
  then show ?case by (auto simp: findTask_map)
next
  case (4 d e)
  then show ?case using findTask_payload [OF 4, of i] by simp
qed auto

text \<open>On a working store the completion of an existing task is recorded.\<close>

lemma completion_recorded:
  assumes "distinct (map fst st)" "locateTask st i = Some (c, d, t)"
    "\<And>files x. cleanCommit (completionIntent c i (ke_completedAt env) sha ver files x) (ke_complete env) d"
  shows "rg_recorded (fst (fireTaskCompletedFromCheckpoint env i sha ver files st))"
proof -
  have f: "fileAt st c = Valid d" "findTask d i = Some t" using locateTask_fileAt [OF assms(1,2)] by simp_all
  let ?x = "if taskHasPersistedSubagentReports env t then None else ke_structured env ver"
  let ?mi = "completionIntent c i (ke_completedAt env) sha ver files ?x"
  let ?e = "completionEdit (ke_completedAt env) sha ver files ?x"
  have mi: "mi_mutate ?mi = (\<lambda>latest. Inr (mapTask i ?e latest))" "mi_changeId ?mi = c"
    "mi_verify ?mi = (\<lambda>rb. case findTask rb i of
      Some t \<Rightarrow> tk_status t = TDone \<and> tk_verification t = Some ver \<and> tk_checkpointSha t = Some sha \<and> orEmpty (tk_filesTouched t) = files
    | None \<Rightarrow> False)" by (simp_all add: completionIntent_def fun_eq_iff)
  note a = assms(3) [of files ?x, unfolded cleanCommit_def]
  show ?thesis
  proof (rule complete_commit.commits_verified [of ?mi i "ke_completedAt env" sha ver files ?x d "ke_complete env"])
    fix d' v a
    assume v: "Inr (mapTask i ?e d) = (Inr d' :: string + change_doc)" "payloadOf v = payloadOf d'"
      "coordinateChangeMutation ?mi None True (ke_complete env) (Valid d) = (Verified v (revisionOf d + 1) a, Valid v)"
    have run: "runIntent ?mi (ke_complete env) st = (Inr v, putFile c (Valid v) st)"
      using v(3) by (simp add: runIntent_def mi f(1) committed_def)
    have "payloadOf v = payloadOf (mapTask i ?e d)" using v(1,2) by simp
    from findTask_payload [OF this] have "findTask v i = Some (?e t)" by (simp add: findTask_map f(2))
    then have "\<exists>counts. fst (fireTaskCompletedFromCheckpoint env i sha ver files st) = recordedChecks (?e t) sha ver files counts"
      using run assms(2) by (auto simp: fireTaskCompletedFromCheckpoint_def tasksShow_def Let_def split: prod.splits)
    moreover have "rg_recorded (recordedChecks (?e t) sha ver files counts)" for counts
      by (simp add: recordedChecks_def completionEdit_def Let_def orEmpty_def)
    ultimately show ?thesis by metis
  qed (use a f(2) mi in simp_all)
qed

text \<open>
  Claim C27. A checkpoint that reports its completion recorded has it in the change's file at the end of the
  run: the task is done, with the verification, the commit and the files of the checkpoint, whatever
  became of the dismissal of its drafts.
\<close>

theorem recorded_completion_is_stored:
  assumes "faithful (me_commit (ke_dismiss env))" "fireTaskCompletedFromCheckpoint env i sha ver files st = (r, st')" "rg_recorded r"
  shows "\<exists>c d t. map_option snd (tasksShow st i) = Some c \<and> fileAt st' c = Valid d \<and> findTask d i = Some t \<and>
    tk_status t = TDone \<and> tk_verification t = Some ver \<and> tk_checkpointSha t = Some sha \<and>
    length (orEmpty (tk_filesTouched t)) = length files \<and> set (orEmpty (tk_filesTouched t)) \<subseteq> set files"
proof -
  obtain shown c where c: "tasksShow st i = Some (shown, c)"
    using assms(2,3) by (cases "tasksShow st i") (auto simp: fireTaskCompletedFromCheckpoint_def notRecorded_def)
  obtain st1 d t counts where st1: "fileAt st1 c = Valid d" "findTask d i = Some t" "dismissDrafts env c t st1 = (counts, st')"
    "r = recordedChecks t sha ver files counts"
  proof -
    obtain out st1 where run: "runIntent (completionIntent c i (ke_completedAt env) sha ver files
        (if taskHasPersistedSubagentReports env shown then None else ke_structured env ver)) (ke_complete env) st = (out, st1)"
      by fastforce
    note f = assms(2) [unfolded fireTaskCompletedFromCheckpoint_def c option.case prod.case Let_def run]
    show thesis
      using f assms(3) that
      by (cases "fileAt st1 c") (auto simp: notRecorded_def split: sum.splits option.splits prod.splits)
  qed
  have t: "tk_status t = TDone" "tk_verification t = Some ver" "tk_checkpointSha t = Some sha"
    "length (orEmpty (tk_filesTouched t)) = length files" "set (orEmpty (tk_filesTouched t)) \<subseteq> set files"
    using assms(3) unfolding st1(4) recordedChecks_def Let_def notRecorded_def by (auto split: if_splits)
  from dismiss_keeps_task [OF assms(1) st1(3,1,2)] obtain d' ds where d': "fileAt st' c = Valid d'"
    "findTask d' i = Some t \<or> findTask d' i = Some (t\<lparr>tk_wisdom_drafts := ds\<rparr>)" by blast
  from d'(2) show ?thesis
  proof
    assume "findTask d' i = Some t"
    with c d'(1) t show ?thesis by (intro exI [of _ c] exI [of _ d'] exI [of _ t]) simp
  next
    assume "findTask d' i = Some (t\<lparr>tk_wisdom_drafts := ds\<rparr>)"
    with c d'(1) t show ?thesis by (intro exI [of _ c] exI [of _ d'] exI [of _ "t\<lparr>tk_wisdom_drafts := ds\<rparr>"]) simp
  qed
qed

subsection \<open>The bridge to the error recovery\<close>

text \<open>
  The bridge drops the recorded total: the observed attempt count after it is the one before it only as far as
  the retained attempts and the counter carry it.
\<close>

lemma bridging_loses_total:
  "observedAttemptCount (Some (recoveryCounts r)) =
     max (observedAttemptCount (Some (recoveryCounts (bridgedRecovery (Some r) cls message))))
       (case er_total_attempts r of Some n \<Rightarrow> n | None \<Rightarrow> 0)"
  by (cases "er_attempts r"; cases "er_total_attempts r")
    (simp_all add: recoveryCounts_def bridgedRecovery_def Let_def max.assoc max.commute max.left_commute)

text \<open>A recovery the schema accepts can be bridged into one it refuses: two attempts of one strategy.\<close>

definition repeatedStrategy :: error_recovery where
  "repeatedStrategy = ex_recovery\<lparr>er_error_class := Environmental,
     er_attempts := Some [\<lparr>at_number = 1, at_error = ''e'', at_diagnosis = ''d'', at_fix_tried = ''f'',
       at_strategy_label = Some ''x'', at_outcome = AttFailed, at_attempted_at = ''t''\<rparr>,
       \<lparr>at_number = 2, at_error = ''e'', at_diagnosis = ''d'', at_fix_tried = ''f'',
       at_strategy_label = Some ''x'', at_outcome = AttFailed, at_attempted_at = ''t''\<rparr>]\<rparr>"

lemma bridging_breaks_the_schema:
  "errorRecoveryIssues repeatedStrategy = [] \<and> errorRecoveryIssues (bridgedRecovery (Some repeatedStrategy) Semantic ''hook'') \<noteq> []"
  by (simp add: repeatedStrategy_def ex_recovery_def bridgedRecovery_def errorRecoveryIssues_def effectiveRetryCount_def
      strategyLabels_def List.map_filter_simps nonEmpty_def)

subsection \<open>A repository in the middle of a rebase\<close>

definition gitRefused :: git_error where
  "gitRefused = \<lparr>ge_message = ''fatal'', ge_stderr = ''fatal'', ge_exitCode = 128\<rparr>"

text \<open>Its head is detached; the state counts what has been staged and committed.\<close>

definition rebasingGit :: "nat git_world" where
  "rebasingGit = \<lparr>gw_run = (\<lambda>args cwd g.
       if args = [''add'', ''-A''] \<or> (args \<noteq> [] \<and> hd args = ''commit'') then (Inr [], g + 1)
       else if args = [''rev-parse'', ''--verify'', ''MERGE_HEAD''] \<or> args = [''symbolic-ref'', ''-q'', ''HEAD''] then (Inl gitRefused, g)
       else if args = [''rev-parse'', ''--abbrev-ref'', ''HEAD''] then (Inr ''HEAD'', g)
       else if args = [''status'', ''--porcelain''] then (Inr ''UU f'', g)
       else if args = [''diff'', ''--name-only'', ''HEAD~1''] then (Inr ''f'', g)
       else (Inr ''sha'', g)), gw_exists = (\<lambda>cwd p g. True)\<rparr>"

definition rebaseArgs :: checkpoint_args where
  "rebaseArgs = \<lparr>ck_taskId = ''tk-a'', ck_workdir = None, ck_mode = Some CancelMode, ck_reason = Some ''r'', ck_changeId = None,
     ck_expectedBranch = None, ck_expectedHeadSha = None, ck_verification = None, ck_targeted = False\<rparr>"

lemma rebasing_readOnly: "readOnly rebasingGit"
  by (auto simp: readOnly_def rebasingGit_def)

lemma rebasing_state: "detectRepoState rebasingGit cwd g = (RsRebasing, g)"
  by (simp add: detectRepoState_def rebasingGit_def succeeds_def)

lemma rebasing_commit:
  "checkpointTool rebasingGit env rebaseArgs ''/r'' [] 0 =
     (CkCommitted ''sha'' ''HEAD'' \<lparr>rg_recorded = True, rg_error = None, rg_pendingReview = None, rg_autoDismissed = None\<rparr> [''f''], [], 2)"
proof -
  have m: "buildCommitMessage ''tk-a'' CancelMode (Some ''r'') None None
      = Inr (''chore(adv): cancel checkpoint tk-a'', ''Task: tk-a'' @ [CHR 0x0A] @ ''Mode: cancel'' @ [CHR 0x0A] @ ''Reason: r'')"
    by code_simp
  have t: "trim ''sha'' = ''sha''" "trim ''HEAD'' = ''HEAD''" "trim ''f'' = ''f''" "trim ''UU f'' \<noteq> []" by code_simp+
  have c: "gitContext rebasingGit ''/r'' 0 = (Inr (''HEAD'', ''sha''), 0)"
    by (simp add: gitContext_def rebasingGit_def t)
  have f: "touchedFiles rebasingGit ''/r'' g = ([''f''], g)" for g by (simp add: touchedFiles_def rebasingGit_def t)
  show ?thesis
    unfolding checkpointTool_def afterState_def rebasing_state Let_def
    by (simp add: rebaseArgs_def c orText_def modeOf_def tasksShow_def afterContext_def expectedBranch_def guardMode_def truthyOr_def)
      (simp add: rebasingGit_def [THEN arg_cong, of gw_run] t m commitCheckpoint_def f record_if_def modeOf_def)
qed


definition ex_checkpoint_env :: checkpoint_env where
  "ex_checkpoint_env = \<lparr>ke_reports = [], ke_structured = (\<lambda>_. None), ke_completedAt = ''t'', ke_dismissedAt = ''t'',
     ke_bridgedAt = ''t'', ke_complete = ex_menv, ke_dismiss = ex_menv, ke_publish = (\<lambda>_. None)\<rparr>"

theorem checkpoint_commits_under_guards_witness:
  "guardsHold rebasingGit rebaseArgs ''/r'' None 0"
  using checkpoint_commits_under_guards [OF rebasing_readOnly rebasing_commit [of ex_checkpoint_env]]
  by (simp add: tasksShow_def rebaseArgs_def orText_def)

end
