(* ===== verification/Task_Examples.thy ===== *)
theory Task_Examples
  imports Checkpoint_Facts
begin

text \<open>
  A change with two tasks, an update and a completion of them: the properties of the task tools at
  concrete inputs.
\<close>

definition ex_ta :: task where
  "ex_ta = (newTask ''ta'' ''A'')\<lparr>tk_type := Some TyCode\<rparr>"

definition ex_tb :: task where
  "ex_tb = (newTask ''tb'' ''B'')\<lparr>tk_type := Some TyCode, tk_priority := 1, tk_deps := Some [blockedByDep ''ta'']\<rparr>"

definition ex_tdoc :: change_doc where
  "ex_tdoc = ex_doc\<lparr>cd_tasks := Some [ex_ta, ex_tb]\<rparr>"

definition ex_store0 :: change_store where
  "ex_store0 = [(''demo'', Valid ex_tdoc)]"

lemma ex_tasks: "docTasks ex_tdoc = [ex_ta, ex_tb]" "tk_id ex_ta = ''ta''" "tk_id ex_tb = ''tb''"
  "tk_status ex_ta = TPending" "tk_status ex_tb = TPending" "blockedByTargets ex_ta = []" "blockedByTargets ex_tb = [''ta'']"
  "tk_priority ex_ta = 0" "tk_priority ex_tb = 1"
  by (simp_all add: docTasks_def ex_tdoc_def orEmpty_def ex_ta_def ex_tb_def newTask_def blockedByTargets_def blockedByDep_def)

lemma ex_located: "locateTask ex_store0 ''ta'' = Some (''demo'', ex_tdoc, ex_ta)" "fileAt ex_store0 ''demo'' = Valid ex_tdoc"
  "distinct (map fst ex_store0)"
  by (simp_all add: ex_store0_def findTask_def ex_tasks fileAt_def)

lemma ex_storeOk: "storeOk ex_store0"
proof -
  have "tasksOrdered [ex_ta, ex_tb]" by (simp add: tasksOrdered_def ex_tasks)
  then show ?thesis by (auto simp: storeOk_def ex_store0_def fileAt_def ex_tasks split: if_splits)
qed

definition ex_update :: "task_status \<Rightarrow> update_args" where
  "ex_update s = \<lparr>ua_taskId = ''ta'', ua_status = s, ua_notes = None, ua_implementation_summary = None, ua_error_recovery = None,
     ua_tdd_intent = None, ua_tdd_reason = None, ua_approvedByUser = False, ua_approvalEvidence = None, ua_contract_refs = None,
     ua_evidence_policy = None, ua_proof_target = None, ua_evidence_rationale = None\<rparr>"

definition ex_update_env :: update_env where
  "ex_update_env = \<lparr>ue_got = GetOk ex_tdoc, ue_isolation = None, ue_fresh = ''d1'', ue_again = ''d2'', ue_now = ''t'', ue_commit = ex_menv\<rparr>"

lemma ex_clean: "cd_id d = ''demo'' \<Longrightarrow> commitsOf d = [] \<Longrightarrow> mi_changeId mi = ''demo'' \<Longrightarrow> cleanCommit mi ex_menv d"
  using ex_working ex_not_synthetic by (simp add: cleanCommit_def freshOperation_def)

lemma ex_tdoc_facts: "cd_id ex_tdoc = ''demo''" "commitsOf ex_tdoc = []" "gatesGet ex_store0 ''demo'' = Some createDefaultGates"
  by (simp_all add: ex_tdoc_def ex_doc_def commitsOf_def gatesGet_def ex_store0_def fileAt_def)

lemma ex_updatable: "updatable (ex_update s) ex_update_env ex_store0 ''demo'' ex_tdoc ex_ta"
proof -
  have "ua_taskId (ex_update s) = ''ta''" "ue_commit ex_update_env = ex_menv" by (simp_all add: ex_update_def ex_update_env_def)
  then show ?thesis
    using ex_clean ex_tdoc_facts by (simp add: updatable_def ex_located validDelegation_def ex_ta_def newTask_def)
qed

lemma ex_task_allowed:
  "updateAllowed (ex_update TInProgress) ex_update_env (Some createDefaultGates) ex_ta"
  "\<not> updateAllowed (ex_update TDone) ex_update_env (Some createDefaultGates) ex_ta"
  by (simp_all add: updateAllowed_def ex_update_def ex_update_env_def unknownContractRefs_def guardChange_def intentAllowed_def
      repairRequested_def split: option.split)

lemma ex_started:
  obtains e v where "taskUpdateTool (ex_update TInProgress) ex_update_env ex_store0 = (UrUpdated (Some (e ex_ta)), putFile ''demo'' (Valid v) ex_store0)"
    "docTasks v = [e ex_ta, ex_tb]" "tk_status (e ex_ta) = TInProgress" "tk_id (e ex_ta) = ''ta''"
proof -
  let ?e = "updateEdit (ex_update TInProgress) None None None ''d1'' ''t''"
  have c: "updateChecks (ex_update TInProgress) ex_update_env ex_store0 ''demo'' = Inr (?e, updateEdit (ex_update TInProgress) None None None ''d2'' ''t'')"
    by (simp add: updateChecks_def ex_update_def ex_update_env_def unknownContractRefs_def guardChange_def Let_def tasksShow_def ex_located
        intentChecks_def maybeClearBlockedDelegationRecovery_def ex_ta_def newTask_def evidenceRepair_def
        evaluateTaskUpdateWorktreeIsolation_def worktreeGuardedTaskUpdateStatuses_def split: option.split)
  have m: "cleanCommit (taskIntent ''demo'' ''ta'' ?e (updateEdit (ex_update TInProgress) None None None ''d2'' ''t'') ''task_mutation'' (updateEvidence (ex_update TInProgress))) ex_menv ex_tdoc"
    using ex_clean ex_tdoc_facts by simp
  show thesis
  proof (rule run_task_commit [OF ex_located(2) _ update_stable m])
    show "findTask ex_tdoc ''ta'' \<noteq> None" by (simp add: findTask_def ex_tasks)
    fix v assume v: "mutateTaskProjection ''demo'' ''ta'' ?e (updateEdit (ex_update TInProgress) None None None ''d2'' ''t'') ''task_mutation''
        (updateEvidence (ex_update TInProgress)) ex_menv ex_store0 = (Inr v, putFile ''demo'' (Valid v) ex_store0)"
      "payloadOf v = payloadOf (mapTask ''ta'' ?e ex_tdoc)"
    have d: "docTasks v = [?e ex_ta, ex_tb]" unfolding tasks_payload [OF v(2)] by (simp add: ex_tasks)
    have i: "ua_taskId (ex_update TInProgress) = ''ta''" "ue_commit ex_update_env = ex_menv" "ua_status (ex_update TInProgress) = TInProgress"
      by (simp_all add: ex_update_def ex_update_env_def)
    have "findTask v ''ta'' = Some (?e ex_ta)" by (simp add: findTask_def d ex_tasks)
    then have "taskUpdateTool (ex_update TInProgress) ex_update_env ex_store0 = (UrUpdated (Some (?e ex_ta)), putFile ''demo'' (Valid v) ex_store0)"
      using c v(1) by (simp add: taskUpdateTool_def i ex_located)
    then show thesis by (rule that [of ?e v]) (simp_all add: i ex_tasks d)
  qed
qed

lemma ex_menv_works: "faithful (me_commit ex_menv)" "faithful (me_commit (ue_commit ex_update_env))"
  using ex_working by (simp_all add: workingEnv_def ex_update_env_def)


theorem update_never_settles_witness:
  "\<exists>r st' d'. taskUpdateTool (ex_update TInProgress) ex_update_env ex_store0 = (r, st') \<and> fileAt st' ''demo'' = Valid d' \<and>
     map tk_id (docTasks d') = [''ta'', ''tb''] \<and>
     (\<forall>j x y. findTask ex_tdoc j = Some x \<and> findTask d' j = Some y \<and> tk_status y \<noteq> tk_status x \<longrightarrow> j = ''ta'' \<and> \<not> isSettled y)"
proof -
  obtain r st' where r: "taskUpdateTool (ex_update TInProgress) ex_update_env ex_store0 = (r, st')" by fastforce
  have i: "ua_taskId (ex_update TInProgress) = ''ta''" by (simp add: ex_update_def)
  from update_never_settles [OF ex_menv_works(2) ex_located(3,2) r] r show ?thesis by (simp add: ex_tasks i)
qed

lemma ex_run_started:
  obtains v a where "task_run ex_store0 (putFile ''demo'' (Valid v) ex_store0)" "docTasks v = [a, ex_tb]" "tk_status a = TInProgress"
proof (rule ex_started)
  fix e v
  assume a: "taskUpdateTool (ex_update TInProgress) ex_update_env ex_store0 = (UrUpdated (Some (e ex_ta)), putFile ''demo'' (Valid v) ex_store0)"
    "docTasks v = [e ex_ta, ex_tb]" "tk_status (e ex_ta) = TInProgress"
  from tr_update [OF tr_start ex_menv_works(2) a(1)] a(2,3) show thesis by (rule that)
qed

theorem tasks_stay_ordered_witness:
  "\<exists>v. task_run ex_store0 (putFile ''demo'' (Valid v) ex_store0) \<and> length (docTasks v) = 2 \<and> tasksOrdered (docTasks v)"
proof (rule ex_run_started)
  fix v a
  assume v: "task_run ex_store0 (putFile ''demo'' (Valid v) ex_store0)" "docTasks v = [a, ex_tb]"
  have "tasksOrdered (docTasks v)" by (rule tasks_stay_ordered [OF ex_storeOk v(1), of "''demo''"]) simp
  with v show ?thesis by (intro exI [of _ v]) simp
qed

theorem tasks_never_stuck_witness:
  "map tk_id (fst (taskReadyTool ex_store0 ''demo'')) = [''ta''] \<and>
   taskReadyTool ex_store0 ''demo'' = (rd_ready (tasksReady ex_store0 ''demo''), rd_blocked (tasksReady ex_store0 ''demo''))"
proof -
  have f: "List.find (\<lambda>t. \<not> isSettled t) (docTasks ex_tdoc) = Some ex_ta" by (simp add: ex_tasks isSettled_def)
  have "map tk_id (fst (taskReadyTool ex_store0 ''demo'')) = [''ta'']"
    by (simp add: taskReadyTool_def ex_located getReadyTasksFromProjection_def Let_def ex_tasks projectionBlockers_def findTask_def isSettled_def)
  with tasks_never_stuck [OF ex_storeOk tr_start ex_located(2) f] show ?thesis by blast
qed

definition ex_planned :: change_store where
  "ex_planned = [(''demo'', Valid (ex_tdoc\<lparr>cd_gates := Some (createDefaultGates(Planning := pendingGate\<lparr>gt_status := GDone\<rparr>))\<rparr>))]"

definition ex_add :: add_args where
  "ex_add = \<lparr>aa_changeId = ''demo'', aa_content = ''C'', aa_type = None, aa_evidence_policy = None, aa_evidence_rationale = None,
     aa_metadata = None, aa_contract_refs = None, aa_blockedBy = None, aa_section = None\<rparr>"

definition ex_add_env :: add_env where
  "ex_add_env = \<lparr>ad_got = GetMissing, ad_isolation = None, ad_fresh = ''tc'', ad_now = ''t'', ad_commit = ex_menv\<rparr>"

theorem planning_freezes_tasks_witness:
  "\<exists>st d. snd (taskAddTool ex_add ex_add_env ex_planned) = st \<and> fileAt st ''demo'' = Valid d \<and>
     map (\<lambda>t. (tk_id t, tk_deps t)) (docTasks d) = [(''ta'', None), (''tb'', Some [blockedByDep ''ta''])] \<and>
     planningDone (cd_gates d)"
proof -
  let ?d = "ex_tdoc\<lparr>cd_gates := Some (createDefaultGates(Planning := pendingGate\<lparr>gt_status := GDone\<rparr>))\<rparr>"
  have f: "fileAt ex_planned ''demo'' = Valid ?d" by (simp add: ex_planned_def fileAt_def)
  have p: "planningDone (cd_gates ?d)" by (simp add: planningDone_def)
  have t: "docTasks ?d = [ex_ta, ex_tb]" using ex_tasks(1) by (simp add: docTasks_def)
  obtain r st where r: "taskAddTool ex_add ex_add_env ex_planned = (r, st)" by fastforce
  have e: "faithful (me_commit (ad_commit ex_add_env))" "ad_fresh ex_add_env = ''tc''" "aa_changeId ex_add = ''demo''"
    using ex_menv_works by (simp_all add: ex_add_env_def ex_add_def)
  have "findTask d (ad_fresh ex_add_env) = None" if "fileAt ex_planned (aa_changeId ex_add) = Valid d" for d
  proof -
    have "d = ?d" using that by (simp add: e f)
    then show ?thesis by (simp add: findTask_def t ex_tasks(2,3) e)
  qed
  from planning_freezes_tasks [OF tr_add [OF tr_start e(1) this r] f p] r show ?thesis
    by (simp add: t ex_tasks(2,3)) (simp add: ex_ta_def ex_tb_def newTask_def)
qed

theorem ready_lists_agree_iff_witness:
  "getReadyTasksFromProjection (ex_tdoc\<lparr>cd_tasks := Some [ex_tb]\<rparr>)
     \<noteq> (rd_ready (readyOf [ex_tb]), rd_blocked (readyOf [ex_tb])) \<and>
   fst (getReadyTasksFromProjection (ex_tdoc\<lparr>cd_tasks := Some [ex_tb]\<rparr>)) = [ex_tb] \<and> rd_ready (readyOf [ex_tb]) = []"
proof -
  let ?d = "ex_tdoc\<lparr>cd_tasks := Some [ex_tb]\<rparr>"
  have t: "docTasks ?d = [ex_tb]" by (simp add: docTasks_def orEmpty_def)
  have "{i. \<exists>t \<in> set (docTasks ?d). tk_status t = TPending \<and> i \<in> set (blockedByTargets t) \<and> findTask ?d i = None} \<noteq> {}"
    by (simp add: t ex_tasks findTask_def)
  then have "getReadyTasksFromProjection ?d \<noteq> (rd_ready (readyOf [ex_tb]), rd_blocked (readyOf [ex_tb]))"
    using ready_lists_agree_iff [of ?d] unfolding t by simp
  moreover have "fst (getReadyTasksFromProjection ?d) = [ex_tb]"
    by (simp add: getReadyTasksFromProjection_def Let_def t ex_tasks projectionBlockers_def findTask_def)
  moreover have "rd_ready (readyOf [ex_tb]) = []"
    by (simp add: readyOf_def Let_def unmetDeps_def lastTask_def ex_tasks)
  ultimately show ?thesis by blast
qed

theorem recorded_completion_is_stored_witness:
  "\<exists>d t. fileAt (snd (fireTaskCompletedFromCheckpoint ex_checkpoint_env ''ta'' ''sha'' ''tests pass'' [''f''] ex_store0)) ''demo'' = Valid d \<and>
     findTask d ''ta'' = Some t \<and> tk_status t = TDone \<and> tk_checkpointSha t = Some ''sha''"
proof -
  let ?run = "fireTaskCompletedFromCheckpoint ex_checkpoint_env ''ta'' ''sha'' ''tests pass'' [''f''] ex_store0"
  have e: "ke_complete ex_checkpoint_env = ex_menv" "faithful (me_commit (ke_dismiss ex_checkpoint_env))"
    using ex_menv_works by (simp_all add: ex_checkpoint_env_def)
  have r: "?run = (fst ?run, snd ?run)" "rg_recorded (fst ?run)"
    by (simp, rule completion_recorded [OF ex_located(3,1)])
      (simp add: e ex_clean ex_tdoc_facts completionIntent_def)
  have "tasksShow ex_store0 ''ta'' = Some (ex_ta, ''demo'')" by (simp add: tasksShow_def ex_located)
  with recorded_completion_is_stored [OF e(2) r] show ?thesis by auto
qed

end
