(* ===== verification/Spec2Isabelle.thy ===== *)
theory Spec2Isabelle
  imports Cycle_Search Work_Graph D3_Enforcement Merge_Order Resume_Projection Spec_Delta
    Gate_Decisions Gate_Examples Change_Validation Worktree_Lease Mutex Porcelain Change_Id
    Epic_Links File_Lock Task_Examples
begin

text \<open>
  Verification library of Advance, a plugin that drives a change to a code base through seven
  quality gates (proposal, discovery, design, planning, execution, acceptance, release).  The
  sources are the TypeScript files under \<^verbatim>\<open>plugin/src/\<close>.

  \<^bold>\<open>The program.\<close>  A change carries tasks with dependencies, a contract with a review matrix, reports
  of sub-agents, deltas to specifications and the status of its gates.  Changes are ordered inside
  Epics, and shells and changes form a work graph of prerequisites.  The store keeps these records
  as JSON files; a tool loads a record, runs validators on it, and commits an edit of it under a lock
  with a revision and an audit entry.  Work happens in git worktrees, which leases keep apart.

  \<^bold>\<open>Theories: library.\<close>
  \<^item> \<open>Prelude\<close>: the pieces of the JavaScript library the code uses, as HOL functions: stable sort
    and comparators (locale \<open>comparator\<close>, interpreted for numbers, keys and code-unit strings),
    insertion-ordered maps and sets as association and distinct lists, \<^verbatim>\<open>join\<close>, \<^verbatim>\<open>trim\<close>, number
    printing and parsing, optional strings and truthiness.
  \<^item> \<open>Regex\<close>: a backtracking matcher for the regular expressions of the validators, and the relation
    it decides.

  \<^bold>\<open>Theories: work graph and order.\<close>
  \<^item> \<open>Dep_Graph\<close>, \<open>Cycle_Detect\<close>, \<open>Cycle_Correct\<close>, \<open>Cycle_Search\<close>: the abstract dependency relation;
    the cycle detector (\<^verbatim>\<open>validator/cycle-detect.ts\<close>), Kahn's algorithm followed by a depth-first
    search that reports closed paths; no path is reported exactly when the relation is acyclic.
  \<^item> \<open>Work_Graph\<close> (\<^verbatim>\<open>types/work-graph.ts\<close>, \<^verbatim>\<open>validator/work-graph-validation.ts\<close>): node references,
    the check of a new edge over the reachable part of the graph, and the graphs grown from empty
    by accepted edges (inductive \<open>grown_graph\<close>).
  \<^item> \<open>D3_Enforcement\<close> (\<^verbatim>\<open>validator/work-graph-enforcement.ts\<close>): the checks run when a change is
    created, a shell added or promoted, over a store snapshot (locale \<open>d3_context_ok\<close>).
  \<^item> \<open>Merge_Order\<close> (\<^verbatim>\<open>validator/merge-order.ts\<close>, \<^verbatim>\<open>validator/file-overlap.ts\<close>): the advisory merge order
    of archived changes and the file-overlap scan.
  \<^item> \<open>Resume_Projection\<close> (\<^verbatim>\<open>projection/resume-projection.ts\<close>): which work is actionable, blocked or
    active, in which order, with redirects and diagnostics.

  \<^bold>\<open>Theories: changes and their validation.\<close>
  \<^item> \<open>Spec_Delta\<close> (\<^verbatim>\<open>types/specs.ts\<close>, \<^verbatim>\<open>archive/delta.ts\<close>): specifications, the four deltas, their
    canonical order, batch application and version bumps, refined to operations on a map from
    requirement identifiers.
  \<^item> \<open>Spec_Conflicts\<close>, \<open>Conflict_Facts\<close>, \<open>Change_Validation\<close> (\<^verbatim>\<open>validator/conflicts.ts\<close>,
    \<^verbatim>\<open>validator/validator.ts\<close>, \<^verbatim>\<open>completeness.ts\<close>, \<^verbatim>\<open>contract.ts\<close>): the validation of a change, and which
    accepted batches the application of \<open>Spec_Delta\<close> refuses.
  \<^item> \<open>Gates\<close>, \<open>Task_Model\<close>, \<open>Evidence_Plan\<close>, \<open>Change_Types\<close>, \<open>Change_Model\<close> (\<^verbatim>\<open>types/gates.ts\<close>, \<^verbatim>\<open>types/tasks.ts\<close>,
    \<^verbatim>\<open>validator/task-classifier.ts\<close>, \<^verbatim>\<open>types/change-state-helpers.ts\<close> and the types they use): the data
    of a change, the recovery schemas, the evidence resolver and the task and gate operations (locale
    \<open>task_edit\<close>, interpreted by the three task mutations).
  \<^item> \<open>Change_Id\<close> (\<^verbatim>\<open>utils/change-id.ts\<close>): the identifier of a new change.

  \<^bold>\<open>Theories: gates.\<close>
  \<^item> \<open>Gate_Readiness\<close>, \<open>Gate_Decisions\<close> (\<^verbatim>\<open>gates/gate-readiness.ts\<close>,
    \<^verbatim>\<open>utils/typed-verification-evidence.ts\<close>): every check of the readiness evaluator, and the exact
    conditions under which a gate has no blocker.
  \<^item> \<open>Clarify_Readiness\<close>, \<open>Prep_Readiness\<close> (\<^verbatim>\<open>validator/clarify-readiness.ts\<close>, \<^verbatim>\<open>prep-readiness.ts\<close>): the
    checks of the planning gate.
  \<^item> \<open>Command_Manifest\<close> (\<^verbatim>\<open>manifest.ts\<close>): the commands and the boundary check of the gate tool.
  \<^item> \<open>Gate_Tool\<close>, \<open>Gate_Flow\<close>, \<open>Gate_Examples\<close> (\<^verbatim>\<open>tools/gate.ts\<close>, \<^verbatim>\<open>tools/change/handlers-misc.ts\<close>):
    completion of a gate and re-entry, when a completion is accepted, what it writes, and which runs
    keep the gates in order.
  \<^item> \<open>Dispositions\<close> (\<^verbatim>\<open>tools/disposition-tool-factory.ts\<close>, \<^verbatim>\<open>tools/acceptance-reconciliation.ts\<close>).

  \<^bold>\<open>Theories: storage.\<close>
  \<^item> \<open>Projection_Commit\<close>, \<open>Projection_Facts\<close> (\<^verbatim>\<open>storage/change-projection-transaction.ts\<close>): the
    transaction that loads, edits, checks and writes the file of a change; all-or-nothing effect,
    audit trail, optimistic concurrency and replay (locale \<open>field_local_mutation\<close>).
  \<^item> \<open>Mutation_Coordinator\<close> (\<^verbatim>\<open>tools/change-mutation-coordinator.ts\<close>): the outcome a tool sees (locale
    \<open>tool_mutation\<close>, interpreted for every edit of the gate, disposition, task and checkpoint tools).
  \<^item> \<open>Epic_Model\<close>, \<open>Epic_Store\<close>, \<open>Epic_Facts\<close>, \<open>Epic_Runs\<close>, \<open>Epic_Links\<close> (\<^verbatim>\<open>storage/epics-disk.ts\<close>): the
    transitions of Epics, the locked mutation around them (locales \<open>epic_transition\<close> and
    \<open>link_keeping\<close>, interpreted for every transition that keeps the law), and the abstract transition
    system that every operation implements.
  \<^item> \<open>File_Lock\<close> (\<^verbatim>\<open>utils/fs.ts\<close>), \<open>Mutex\<close> (\<^verbatim>\<open>utils/mutex.ts\<close>), \<open>Worktree_Lease\<close>
    (\<^verbatim>\<open>utils/worktree-lease.ts\<close>): mutual exclusion across processes, inside one, and between sessions, as
    step relations with their invariants and the interleavings that break them.

  \<^bold>\<open>Theories: tasks.\<close>
  \<^item> \<open>Wisdom_Draft\<close> (\<^verbatim>\<open>utils/wisdom-draft.ts\<close>): the life of a draft.
  \<^item> \<open>Task_Store\<close> (\<^verbatim>\<open>storage/store-disk.ts\<close>), \<open>Task_Tool\<close>, \<open>Task_Add\<close> (\<^verbatim>\<open>tools/task.ts\<close>), \<open>Checkpoint\<close>
    (\<^verbatim>\<open>tools/checkpoint.ts\<close>): the operations of the store and the tools over it; the checkpoint runs over
    a git that is a parameter.
  \<^item> \<open>Task_Facts\<close>, \<open>Task_Flow\<close>, \<open>Task_Runs\<close>, \<open>Checkpoint_Facts\<close>, \<open>Task_Examples\<close>: the effect of an accepted
    call, what no call can do, the invariant of every run of the tools (inductive \<open>task_run\<close>: ordered
    blockers, so that an unsettled change has workable tasks), the guards of a commit, and witnesses.

  \<^bold>\<open>Theories: git listings.\<close>  \<open>Porcelain\<close> (\<^verbatim>\<open>tools/worktree/porcelain-parser.ts\<close>): the parsers, which read
  back what is printed.

  \<^bold>\<open>Conventions.\<close>  Strings are lists of 8-bit characters; case folding and word boundaries are those of
  ASCII.  \<^verbatim>\<open>localeCompare\<close>, whose order depends on the host, is a parameter where a result depends on
  it.  Absent object fields are options, a \<^verbatim>\<open>Map\<close> an association list in insertion order.  The
  current time, generated identifiers, the answers of git and of the file system are arguments.
  Errors that the code throws or returns are values of an option or a sum; message texts are kept
  only where the code reads them.  An edit that the code runs twice, on the stored document and on the
  one read back, is two functions where it draws a new identifier each time.

  \<^bold>\<open>Termination.\<close>  No fuel is used.  The loops of the cycle detector are functions with a termination
  proof: Kahn's loop by the queue and the number of positive degrees, the depth-first search by the
  unvisited keys and the size of its stack.  Three loops may run for ever and are partial functions
  whose result is an option: the exploration of the edge check, whose properties state that it returns
  whenever finitely many keys have dependencies; the search for a free change identifier, which returns
  when finitely many are taken; and the retry loop of the file lock, which returns within its
  budget's number of attempts.

  \<^bold>\<open>Not modelled.\<close>  The wisdom, agenda and change tools, archive finalization, status reports, the
  projections that copy fields, migration, prompts, the plugin host, the MCP server and the
  command-line entry points; the routing of a call to another project's store and the text of the
  tools' answers.  The manifest of the development lists these parts with the reasons.
\<close>

end
